(* ===== verification/SN_Prelude.thy ===== *)
theory SN_Prelude
  imports Main "HOL-Library.Word" "HOL-Library.AList" "HOL-Library.Sublist"
    "HOL-Library.Code_Target_Nat"
begin

text \<open>
  What every component of the development shares: results that may raise, Python's string
  operations on ASCII text, insertion-ordered dictionaries, and the generic lemmas on lists
  that the component proofs use.

  Text is a list of characters. The configuration text and the identifiers the code reads
  are taken to be ASCII; on ASCII characters the definitions below are Python's
  \<open>str\<close> methods, case by case. A character above 127 is neither a space, a digit nor a
  letter with another case here.
\<close>

unbundle bit_operations_syntax

type_synonym u32 = "32 word"

text \<open>The exceptions that the modelled code raises or lets through.\<close>

datatype py_exc = ValueError string | IndexError | AttributeError | TypeError | KeyError string
  | HTTPException int string

type_synonym 'a result = "py_exc + 'a"

definition bind_r :: "'a result \<Rightarrow> ('a \<Rightarrow> 'b result) \<Rightarrow> 'b result" where
  "bind_r r f = (case r of Inl e \<Rightarrow> Inl e | Inr a \<Rightarrow> f a)"

lemma bind_r_simps [simp]:
  "bind_r (Inl e) f = Inl e"
  "bind_r (Inr a) f = f a"
  by (simp_all add: bind_r_def)

lemma bind_r_eq_Inr: "bind_r r f = Inr b \<longleftrightarrow> (\<exists>a. r = Inr a \<and> f a = Inr b)"
  by (cases r) auto

text \<open>A loop whose body may raise: the first exception ends it.\<close>

fun fold_r :: "('a \<Rightarrow> 's \<Rightarrow> 's result) \<Rightarrow> 'a list \<Rightarrow> 's \<Rightarrow> 's result" where
  "fold_r f [] s = Inr s"
| "fold_r f (x # xs) s = bind_r (f x s) (fold_r f xs)"

lemma fold_r_invariant:
  assumes "fold_r f xs s = Inr t" and "P s"
    and "\<And>x s t. x \<in> set xs \<Longrightarrow> P s \<Longrightarrow> f x s = Inr t \<Longrightarrow> P t"
  shows "P t"
  using assms
proof (induction xs arbitrary: s)
  case (Cons x xs)
  from Cons.prems(1) obtain u where "f x s = Inr u" "fold_r f xs u = Inr t"
    by (auto simp: bind_r_eq_Inr)
  with Cons.prems Cons.IH [of u] show ?case by auto
qed simp

section \<open>Dictionaries\<close>

text \<open>
  A Python \<open>dict\<close> keeps insertion order: an assignment to a present key changes the
  value in place, to a new key appends. \<open>AList.update\<close> does exactly that.
\<close>

type_synonym 'v dict = "(string \<times> 'v) list"

abbreviation dict_get :: "'v dict \<Rightarrow> string \<Rightarrow> 'v option" where
  "dict_get d k \<equiv> map_of d k"

abbreviation dict_set :: "string \<Rightarrow> 'v \<Rightarrow> 'v dict \<Rightarrow> 'v dict" where
  "dict_set k v d \<equiv> AList.update k v d"

definition dict_has :: "'v dict \<Rightarrow> string \<Rightarrow> bool" where
  "dict_has d k \<longleftrightarrow> map_of d k \<noteq> None"

lemma dict_get_set [simp]: "dict_get (dict_set k v d) k' = (if k' = k then Some v else dict_get d k')"
  by (simp add: update_conv')

lemma dict_has_set [simp]: "dict_has (dict_set k v d) k' \<longleftrightarrow> k' = k \<or> dict_has d k'"
  by (auto simp: dict_has_def)

section \<open>Characters and strings\<close>

definition code :: "char \<Rightarrow> nat" where "code c = of_char c"

definition py_isspace :: "char \<Rightarrow> bool" where
  "py_isspace c \<longleftrightarrow> (let n = code c in 9 \<le> n \<and> n \<le> 13 \<or> 28 \<le> n \<and> n \<le> 32)"

definition is_digit :: "char \<Rightarrow> bool" where
  "is_digit c \<longleftrightarrow> 48 \<le> code c \<and> code c \<le> 57"

definition lower_char :: "char \<Rightarrow> char" where
  "lower_char c = (let n = code c in if 65 \<le> n \<and> n \<le> 90 then char_of (n + 32) else c)"

definition upper_char :: "char \<Rightarrow> char" where
  "upper_char c = (let n = code c in if 97 \<le> n \<and> n \<le> 122 then char_of (n - 32) else c)"

definition py_lower :: "string \<Rightarrow> string" where "py_lower s = map lower_char s"
definition py_upper :: "string \<Rightarrow> string" where "py_upper s = map upper_char s"

lemma code_char_of [simp]: "code (char_of n) = n mod 256"
  by (simp add: code_def)

lemma lower_char_idem [simp]: "lower_char (lower_char c) = lower_char c"
  by (simp add: lower_char_def Let_def)

lemma py_lower_idem [simp]: "py_lower (py_lower s) = py_lower s"
  by (simp add: py_lower_def)

definition py_lstrip :: "string \<Rightarrow> string" where "py_lstrip s = dropWhile py_isspace s"
definition py_rstrip :: "string \<Rightarrow> string" where "py_rstrip s = rev (dropWhile py_isspace (rev s))"
definition py_strip :: "string \<Rightarrow> string" where "py_strip s = py_rstrip (py_lstrip s)"

definition strip_char :: "char \<Rightarrow> string \<Rightarrow> string" where
  "strip_char d s = rev (dropWhile ((=) d) (rev (dropWhile ((=) d) s)))"

lemma dropWhile_none: "(\<forall>c \<in> set s. \<not> P c) \<Longrightarrow> dropWhile P s = s"
  by (cases s) auto

lemma py_strip_no_space [simp]: "(\<forall>c \<in> set s. \<not> py_isspace c) \<Longrightarrow> py_strip s = s"
  by (simp add: py_strip_def py_lstrip_def py_rstrip_def dropWhile_none)

text \<open>\<open>str.isdigit\<close>: at least one character, all of them digits.\<close>

definition py_isdigit :: "string \<Rightarrow> bool" where
  "py_isdigit s \<longleftrightarrow> s \<noteq> [] \<and> list_all is_digit s"

definition digit_val :: "char \<Rightarrow> nat" where "digit_val c = code c - 48"

definition digits_val :: "string \<Rightarrow> nat" where
  "digits_val s = foldl (\<lambda>a c. 10 * a + digit_val c) 0 s"

text \<open>
  \<open>int(s)\<close>: surrounding spaces, an optional sign, digits with single underscores
  between digits; \<open>None\<close> stands for the \<open>ValueError\<close>.
\<close>

fun int_body :: "bool \<Rightarrow> nat \<Rightarrow> string \<Rightarrow> nat option" where
  "int_body after_digit acc [] = (if after_digit then Some acc else None)"
| "int_body after_digit acc (c # cs) =
     (if is_digit c then int_body True (10 * acc + digit_val c) cs
      else if c = CHR ''_'' \<and> after_digit \<and> cs \<noteq> [] then int_body False acc cs
      else None)"

definition py_int :: "string \<Rightarrow> int option" where
  "py_int s = (case py_strip s of
      [] \<Rightarrow> None
    | c # cs \<Rightarrow> if c = CHR ''-'' then map_option (\<lambda>n. - int n) (int_body False 0 cs)
               else if c = CHR ''+'' then map_option int (int_body False 0 cs)
               else map_option int (int_body False 0 (c # cs)))"

text \<open>\<open>str(n)\<close> for a non-negative integer.\<close>

fun str_nat :: "nat \<Rightarrow> string" where
  "str_nat n = (if n < 10 then [char_of (48 + n)] else str_nat (n div 10) @ [char_of (48 + n mod 10)])"

declare str_nat.simps [simp del]

definition str_int :: "int \<Rightarrow> string" where
  "str_int i = (if i < 0 then ''-'' @ str_nat (nat (- i)) else str_nat (nat i))"

definition starts_with :: "string \<Rightarrow> string \<Rightarrow> bool" where
  "starts_with p s \<longleftrightarrow> take (length p) s = p"

definition str_contains :: "string \<Rightarrow> string \<Rightarrow> bool" where
  "str_contains p s \<longleftrightarrow> list_ex (starts_with p) (suffixes s)"

text \<open>\<open>s.split()\<close>: maximal runs of non-space characters.\<close>

fun split_ws :: "string \<Rightarrow> string \<Rightarrow> string list" where
  "split_ws w [] = (if w = [] then [] else [w])"
| "split_ws w (c # cs) =
     (if py_isspace c then (if w = [] then split_ws [] cs else w # split_ws [] cs)
      else split_ws (w @ [c]) cs)"

definition py_split :: "string \<Rightarrow> string list" where "py_split s = split_ws [] s"

text \<open>\<open>s.split(d)\<close> and \<open>s.split(d, 1)\<close> for a one-character separator.\<close>

fun split_on :: "char \<Rightarrow> string \<Rightarrow> string list" where
  "split_on d [] = [[]]"
| "split_on d (c # cs) =
     (if c = d then [] # split_on d cs
      else case split_on d cs of [] \<Rightarrow> [[c]] | w # ws \<Rightarrow> (c # w) # ws)"

definition split_once :: "char \<Rightarrow> string \<Rightarrow> string \<times> string option" where
  "split_once d s = (takeWhile ((\<noteq>) d) s,
     case dropWhile ((\<noteq>) d) s of [] \<Rightarrow> None | _ # r \<Rightarrow> Some r)"

text \<open>\<open>d.join(ws)\<close>.\<close>

fun str_join :: "string \<Rightarrow> string list \<Rightarrow> string" where
  "str_join d [] = []"
| "str_join d [w] = w"
| "str_join d (w # ws) = w @ d @ str_join d ws"

text \<open>\<open>s.splitlines()\<close>: the ASCII line boundaries, with CR LF as one.\<close>

definition is_eol :: "char \<Rightarrow> bool" where
  "is_eol c \<longleftrightarrow> (let n = code c in 10 \<le> n \<and> n \<le> 13 \<or> 28 \<le> n \<and> n \<le> 30)"

fun lines_from :: "string \<Rightarrow> string \<Rightarrow> string list" where
  "lines_from w [] = (if w = [] then [] else [w])"
| "lines_from w [c] = (if is_eol c then [w] else [w @ [c]])"
| "lines_from w (c # d # cs) =
     (if code c = 13 \<and> code d = 10 then w # lines_from [] cs
      else if is_eol c then w # lines_from [] (d # cs)
      else lines_from (w @ [c]) (d # cs))"

definition splitlines :: "string \<Rightarrow> string list" where "splitlines s = lines_from [] s"

section \<open>Lemmas on strings\<close>

named_theorems str_simps \<open>facts that evaluate string operations\<close>

lemma starts_with_append [simp]: "starts_with p (p @ s)"
  by (simp add: starts_with_def)

lemma is_digit_not_space: "is_digit c \<Longrightarrow> \<not> py_isspace c"
  by (auto simp: is_digit_def py_isspace_def Let_def)

lemma is_digit_char_of [simp]: "n < 10 \<Longrightarrow> is_digit (char_of (48 + (n :: nat)))"
  by (simp add: is_digit_def)

lemma digit_val_char_of [simp]: "n < 10 \<Longrightarrow> digit_val (char_of (48 + (n :: nat))) = n"
  by (simp add: digit_val_def)

lemma digits_val_snoc [simp]: "digits_val (s @ [c]) = 10 * digits_val s + digit_val c"
  by (simp add: digits_val_def)

lemma digits_val_Nil [simp]: "digits_val [] = 0"
  by (simp add: digits_val_def)

lemma str_nat_digits: "py_isdigit (str_nat n)"
proof (induction n rule: str_nat.induct)
  case (1 n)
  show ?case
    by (cases "n < 10"; subst str_nat.simps) (use 1 in \<open>auto simp: py_isdigit_def\<close>)
qed

lemma digits_val_single [simp]: "digits_val [c] = digit_val c"
  by (simp add: digits_val_def)

lemma digits_val_str_nat [simp]: "digits_val (str_nat n) = n"
proof (induction n rule: str_nat.induct)
  case (1 n)
  show ?case
    by (cases "n < 10"; subst str_nat.simps) (use 1 in auto)
qed

lemma str_nat_head_zero: "hd (str_nat n) = CHR ''0'' \<longleftrightarrow> n = 0"
proof (induction n rule: str_nat.induct)
  case (1 n)
  show ?case
  proof (cases "n < 10")
    case True
    have "CHR ''0'' = (char_of (48 :: nat) :: char)" by code_simp
    moreover from True have "(char_of (48 + n) :: char) = char_of (48 :: nat) \<longleftrightarrow> n = 0"
      by (metis add.right_neutral digit_val_char_of zero_less_numeral)
    ultimately show ?thesis using True by (subst str_nat.simps) simp
  next
    case False
    moreover have "str_nat (n div 10) \<noteq> []"
      using str_nat_digits [of "n div 10"] by (simp add: py_isdigit_def)
    ultimately show ?thesis using 1 by (subst str_nat.simps) simp
  qed
qed

lemma str_nat_nonempty [simp]: "str_nat n \<noteq> []"
  using str_nat_digits [of n] by (simp add: py_isdigit_def)

lemma length_str_nat_byte: "n < 256 \<Longrightarrow> length (str_nat n) \<le> 3"
  by (simp add: str_nat.simps [of n] str_nat.simps [of "n div 10"]
      str_nat.simps [of "n div 10 div 10"])

lemma str_nat_chars: "c \<in> set (str_nat n) \<Longrightarrow> is_digit c"
  using str_nat_digits [of n] by (auto simp: py_isdigit_def list_all_iff)

lemma lower_digit: "is_digit c \<Longrightarrow> lower_char c = c"
  by (auto simp: is_digit_def lower_char_def Let_def)

lemma py_lower_str_nat [simp]: "py_lower (str_nat n) = str_nat n"
  unfolding py_lower_def by (rule map_idI) (auto dest: str_nat_chars intro: lower_digit)

lemma find_append: "find P (xs @ ys) = (case find P xs of None \<Rightarrow> find P ys | Some x \<Rightarrow> Some x)"
  by (induction xs) auto

lemma find_SomeD: "find P xs = Some x \<Longrightarrow> x \<in> set xs \<and> P x"
  by (auto simp: find_Some_iff)

lemma split_on_no_sep: "d \<notin> set s \<Longrightarrow> split_on d s = [s]"
  by (induction s) auto

lemma split_on_nonempty [simp]: "split_on d s \<noteq> []"
  by (induction s) (auto split: list.splits)

lemma split_on_sep: "d \<notin> set w \<Longrightarrow> split_on d (w @ d # s) = w # split_on d s"
  by (induction w) auto

section \<open>Splitting what was joined\<close>

definition word_token :: "string \<Rightarrow> bool" where
  "word_token w \<longleftrightarrow> w \<noteq> [] \<and> (\<forall>c \<in> set w. \<not> py_isspace c)"

lemma split_ws_run: "(\<forall>c \<in> set w. \<not> py_isspace c) \<Longrightarrow> split_ws v (w @ s) = split_ws (v @ w) s"
  by (induction w arbitrary: v) auto

lemma str_join_Cons: "str_join d (w # ws) = w @ (if ws = [] then [] else d @ str_join d ws)"
  by (cases ws) auto

lemma py_split_join: "(\<forall>w \<in> set ws. word_token w) \<Longrightarrow> py_split (str_join '' '' ws) = ws"
proof (induction ws)
  case (Cons w ws)
  have sp: "py_isspace (CHR '' '')" by (simp add: py_isspace_def code_def Let_def)
  from Cons.prems have w: "w \<noteq> []" "\<forall>c \<in> set w. \<not> py_isspace c" by (auto simp: word_token_def)
  with Cons sp split_ws_run [OF w(2), of "[]"] split_ws_run [OF w(2), of "[]" "[]"] show ?case
    by (cases "ws = []") (auto simp: str_join_Cons py_split_def)
qed (simp add: py_split_def)

lemma py_strip_ends:
  assumes "s \<noteq> []" "\<not> py_isspace (hd s)" "\<not> py_isspace (last s)"
  shows "py_strip s = s"
proof -
  have "py_lstrip s = s" using assms by (cases s) (auto simp: py_lstrip_def)
  moreover have "dropWhile py_isspace (rev s) = rev s"
    using assms by (metis dropWhile.simps(2) hd_rev list.exhaust_sel rev_is_Nil_conv)
  ultimately show ?thesis by (simp add: py_strip_def py_rstrip_def)
qed

lemma str_join_last: "ws \<noteq> [] \<Longrightarrow> last ws \<noteq> [] \<Longrightarrow> last (str_join d ws) = last (last ws) \<and> str_join d ws \<noteq> []"
  by (induction ws) (auto simp: str_join_Cons last_append)

lemma str_nat_token: "word_token (str_nat n)"
  by (auto simp: word_token_def dest: str_nat_chars is_digit_not_space)

end
