(* ===== verification/Ip_Cubes.thy ===== *)
theory Ip_Cubes
  imports SN_Prelude
begin

text \<open>
  \<open>services/policy_test/model.py\<close>, first part: IPv4 addresses as 32-bit integers and
  ternary cubes (\<open>Cube\<close>): a value and a mask, where a clear mask bit is a don't-care
  bit. Shown here: parsing and printing of addresses are inverse, the prefix length of a mask
  is characterised, and the three cube tests decide membership, inclusion and overlap of the
  address sets the cubes stand for.
\<close>

section \<open>Addresses\<close>

text \<open>
  \<open>ipaddress.IPv4Address\<close>, from Python's standard library: four decimal octets, at most
  three digits each, no leading zero, at most 255.
\<close>

definition ipv4_octet :: "string \<Rightarrow> nat option" where
  "ipv4_octet s =
     (if \<not> py_isdigit s then None
      else if length s > 3 then None
      else if s \<noteq> ''0'' \<and> hd s = CHR ''0'' then None
      else if digits_val s > 255 then None
      else Some (digits_val s))"

definition ipv4_address :: "string \<Rightarrow> u32 option" where
  "ipv4_address s =
     (case map ipv4_octet (split_on (CHR ''.'') s) of
        [Some a, Some b, Some c, Some d] \<Rightarrow>
          Some (word_of_nat (((a * 256 + b) * 256 + c) * 256 + d))
      | _ \<Rightarrow> None)"

definition ip_to_int :: "string \<Rightarrow> u32 result" where
  "ip_to_int ip =
     (case ipv4_address (py_strip ip) of
        None \<Rightarrow> Inl (ValueError (''Invalid IPv4 address: '' @ ip))
      | Some w \<Rightarrow> Inr w)"

definition int_to_ip :: "u32 \<Rightarrow> string" where
  "int_to_ip w =
     (let n = unat w in
      str_join ''.'' (map str_nat
        [n div 16777216, n div 65536 mod 256, n div 256 mod 256, n mod 256]))"

lemma ipv4_octet_str_nat [simp]: "n < 256 \<Longrightarrow> ipv4_octet (str_nat n) = Some n"
proof -
  assume n: "n < 256"
  have "str_nat n = ''0''" if "hd (str_nat n) = CHR ''0''"
    using that by (simp add: str_nat_head_zero) code_simp
  with n show ?thesis
    using length_str_nat_byte [OF n] by (auto simp: ipv4_octet_def str_nat_digits)
qed

lemma dot_not_in_str_nat [simp]: "CHR ''.'' \<notin> set (str_nat n)"
proof
  assume "CHR ''.'' \<in> set (str_nat n)"
  then have "is_digit (CHR ''.'')" by (rule str_nat_chars)
  then show False by (simp add: is_digit_def code_def)
qed

lemma split_on_dotted [simp]:
  "split_on (CHR ''.'') (str_join ''.'' [str_nat a, str_nat b, str_nat c, str_nat d])
     = [str_nat a, str_nat b, str_nat c, str_nat d]"
  by (simp add: split_on_sep split_on_no_sep)

lemma dotted_no_space:
  "c \<in> set (str_join ''.'' [str_nat p, str_nat q, str_nat r, str_nat s]) \<Longrightarrow> \<not> py_isspace c"
proof -
  assume "c \<in> set (str_join ''.'' [str_nat p, str_nat q, str_nat r, str_nat s])"
  then have "c = CHR ''.'' \<or> is_digit c" by (auto dest: str_nat_chars)
  then show ?thesis
    by (auto dest: is_digit_not_space) (simp add: py_isspace_def code_def Let_def)
qed

lemma byte_decomposition:
  fixes n :: nat
  shows "((n div 16777216 * 256 + n div 65536 mod 256) * 256 + n div 256 mod 256) * 256 + n mod 256 = n"
proof -
  have "n div 16777216 = n div 65536 div 256" "n div 65536 = n div 256 div 256"
    by (simp_all add: div_mult2_eq [symmetric])
  then show ?thesis by (simp only: div_mult_mod_eq)
qed

lemma strip_dotted:
  "py_strip (str_join ''.'' [str_nat a, str_nat b, str_nat c, str_nat d])
     = str_join ''.'' [str_nat a, str_nat b, str_nat c, str_nat d]"
  by (rule py_strip_no_space, rule ballI, rule dotted_no_space)

lemma ip_to_int_int_to_ip [simp]: "ip_to_int (int_to_ip w) = Inr w"
proof -
  let ?n = "unat w"
  have "?n < 4294967296" using unsigned_less [of w] by simp
  then have "?n div 16777216 < 256" by simp
  then have "ipv4_address (str_join ''.'' [str_nat (?n div 16777216), str_nat (?n div 65536 mod 256),
      str_nat (?n div 256 mod 256), str_nat (?n mod 256)]) = Some w"
    by (simp only: ipv4_address_def split_on_dotted list.map ipv4_octet_str_nat
        mod_less_divisor zero_less_numeral list.case option.case byte_decomposition) simp
  then show ?thesis
    by (simp only: ip_to_int_def int_to_ip_def Let_def list.map strip_dotted option.case)
qed


text \<open>An address that parses prints back as its stripped text: there is one spelling per address.\<close>

lemma str_nat_digits_val:
  assumes "py_isdigit s" and "s = ''0'' \<or> hd s \<noteq> CHR ''0''"
  shows "str_nat (digits_val s) = s"
  using assms
proof (induction s rule: rev_induct)
  case (snoc c s)
  have d: "digit_val c < 10" "char_of (48 + digit_val c) = c"
    using snoc.prems(1) by (auto simp: py_isdigit_def is_digit_def digit_val_def code_def)
  show ?case
  proof (cases "s = []")
    case True
    with d show ?thesis by (subst str_nat.simps) simp
  next
    case False
    with snoc.prems have "py_isdigit s" "hd s \<noteq> CHR ''0''"
      by (auto simp: py_isdigit_def)
    with snoc.IH have IH: "str_nat (digits_val s) = s" by simp
    have "digits_val s \<noteq> 0"
    proof
      assume "digits_val s = 0"
      with IH have "s = str_nat 0" by simp
      with str_nat_head_zero [of 0] \<open>hd s \<noteq> CHR ''0''\<close> show False by simp
    qed
    with d IH show ?thesis by (subst str_nat.simps) simp
  qed
qed (simp add: py_isdigit_def)

lemma ipv4_octet_canonical:
  assumes "ipv4_octet s = Some n"
  shows "str_nat n = s \<and> n < 256"
proof -
  from assms have "py_isdigit s" "s = ''0'' \<or> hd s \<noteq> CHR ''0''" "n = digits_val s" "n < 256"
    unfolding ipv4_octet_def by (auto split: if_splits simp del: digits_val_single)
  with str_nat_digits_val [of s] show ?thesis by simp
qed

lemma str_join_split_on: "str_join [d] (split_on d s) = s"
proof (induction s)
  case (Cons c cs)
  then show ?case
    by (cases "split_on d cs"; cases "tl (split_on d cs)") auto
qed simp

lemma word_of_bytes:
  assumes "a < 256" "b < 256" "c < 256" "d < 256"
    and n: "n = ((a * 256 + b) * 256 + c) * 256 + d"
  shows "unat (word_of_nat n :: u32) = n" "n div 16777216 = a" "n div 65536 mod 256 = b"
    "n div 256 mod 256 = c" "n mod 256 = d"
proof -
  have *: "n div 256 = (a * 256 + b) * 256 + c" "n div 65536 = a * 256 + b" "n div 16777216 = a"
    using assms by simp_all
  have "n < 4294967296" using assms by simp
  then show "unat (word_of_nat n :: u32) = n" by (simp add: unat_of_nat take_bit_nat_eq_self_iff)
  show "n div 16777216 = a" "n div 65536 mod 256 = b" "n div 256 mod 256 = c"
    using assms(1-4) by (simp_all only: * mod_mult_self3 mod_less)
  show "n mod 256 = d" using assms(4) by (simp only: n mod_mult_self3 mod_less)
qed

lemma int_to_ip_bytes:
  assumes "a < 256" "b < 256" "c < 256" "d < 256"
  shows "int_to_ip (word_of_nat (((a * 256 + b) * 256 + c) * 256 + d))
    = str_join ''.'' [str_nat a, str_nat b, str_nat c, str_nat d]"
  unfolding int_to_ip_def Let_def by (simp only: word_of_bytes [OF assms refl] list.map)

lemma ip_to_int_canonical:
  assumes "ip_to_int s = Inr v" shows "int_to_ip v = py_strip s"
proof -
  from assms have a: "ipv4_address (py_strip s) = Some v"
    by (auto simp: ip_to_int_def split: option.splits)
  then obtain a b c d where
    m: "map ipv4_octet (split_on (CHR ''.'') (py_strip s)) = [Some a, Some b, Some c, Some d]"
    and v: "v = word_of_nat (((a * 256 + b) * 256 + c) * 256 + d)"
    by (auto simp: ipv4_address_def split: list.splits option.splits)
  from m obtain p q r t where
    p: "split_on (CHR ''.'') (py_strip s) = [p, q, r, t]" and
    o: "ipv4_octet p = Some a" "ipv4_octet q = Some b" "ipv4_octet r = Some c" "ipv4_octet t = Some d"
    by auto
  note canon = o [THEN ipv4_octet_canonical]
  have "int_to_ip v = str_join ''.'' [str_nat a, str_nat b, str_nat c, str_nat d]"
    unfolding v by (rule int_to_ip_bytes) (use canon in auto)
  also have "\<dots> = str_join ''.'' (split_on (CHR ''.'') (py_strip s))"
    using canon p by simp
  finally show ?thesis by (simp only: str_join_split_on)
qed

section \<open>Masks\<close>

definition popcount :: "u32 \<Rightarrow> nat" where
  "popcount m = length (filter (bit m) [0..<32])"

definition mask_to_prefix_len :: "u32 \<Rightarrow> nat option" where
  "mask_to_prefix_len msk =
     (if msk = 0 then Some 0
      else let inv = NOT msk in
        if (inv + 1) AND inv = 0 then
          let bits = popcount msk in
            if msk = push_bit (32 - bits) 0xFFFFFFFF then Some bits else None
        else None)"

text \<open>The mask of a prefix length, as \<open>Cube.from_cidr\<close> computes it.\<close>

definition prefix_mask :: "nat \<Rightarrow> u32" where
  "prefix_mask n = (if n > 0 then push_bit (32 - n) 0xFFFFFFFF else 0)"

lemma all_ones: "(0xFFFFFFFF :: u32) = -1"
  by simp

lemma prefix_mask_bits:
  assumes "n \<le> 32"
  shows "m = prefix_mask n \<longleftrightarrow> (\<forall>i < 32. bit m i \<longleftrightarrow> 32 - n \<le> i)"
proof -
  have "bit (prefix_mask n) i \<longleftrightarrow> 32 - n \<le> i" if "i < 32" for i
    using assms that by (auto simp: prefix_mask_def all_ones bit_simps)
  then show ?thesis by (auto simp: bit_word_eqI bit_eq_iff)
qed

lemma popcount_high: "popcount (push_bit k (-1)) = 32 - k"
proof -
  have "popcount (push_bit k (-1)) = card (set (filter (bit (push_bit k (-1) :: u32)) [0..<32]))"
    unfolding popcount_def by (rule distinct_card [symmetric]) simp
  also have "set (filter (bit (push_bit k (-1) :: u32)) [0..<32]) = {k..<32}"
    by (auto simp: bit_simps)
  finally show ?thesis by simp
qed

lemma mask_to_prefix_len_prefix_mask: "n \<le> 32 \<Longrightarrow> mask_to_prefix_len (prefix_mask n) = Some n"
proof (cases "n = 0")
  case False
  assume n: "n \<le> 32"
  let ?m = "push_bit (32 - n) (-1) :: u32"
  have inv: "NOT ?m = Bit_Operations.mask (32 - n)"
    by (simp add: push_bit_minus_one_eq_not_mask)
  have "(NOT ?m + 1) AND NOT ?m = 0"
    unfolding inv inc_mask_eq_exp by (rule bit_word_eqI) (simp add: bit_simps)
  moreover have "bit ?m 31" using n False by (simp add: bit_simps)
  then have "?m \<noteq> 0" by auto
  ultimately show ?thesis using n False popcount_high [of "32 - n"]
    by (simp add: mask_to_prefix_len_def prefix_mask_def Let_def all_ones)
qed (simp add: mask_to_prefix_len_def prefix_mask_def)

lemma popcount_le: "popcount m \<le> 32"
  unfolding popcount_def by (rule order_trans [OF length_filter_le]) simp

lemma mask_to_prefix_len_iff:
  "mask_to_prefix_len m = Some n \<longleftrightarrow> n \<le> 32 \<and> m = prefix_mask n"
proof
  assume *: "mask_to_prefix_len m = Some n"
  show "n \<le> 32 \<and> m = prefix_mask n"
  proof (cases "m = 0")
    case True
    with * show ?thesis by (simp add: mask_to_prefix_len_def prefix_mask_def)
  next
    case False
    with * have n: "n = popcount m" "m = push_bit (32 - n) 0xFFFFFFFF"
      by (auto simp: mask_to_prefix_len_def Let_def split: if_splits)
    have "n \<noteq> 0"
    proof
      assume "n = 0"
      with n(2) have "m = push_bit 32 0xFFFFFFFF" by simp
      also have "\<dots> = 0" by code_simp
      finally show False using False by simp
    qed
    with n popcount_le [of m] show ?thesis by (simp add: prefix_mask_def)
  qed
qed (auto simp: mask_to_prefix_len_prefix_mask)

section \<open>Cubes\<close>

record cube =
  cube_value :: u32
  cube_mask :: u32

text \<open>The constructor masks the value (\<open>__post_init__\<close>).\<close>

definition mk_cube :: "u32 \<Rightarrow> u32 \<Rightarrow> cube" where
  "mk_cube v m = \<lparr>cube_value = v AND m, cube_mask = m\<rparr>"

definition cube_wf :: "cube \<Rightarrow> bool" where
  "cube_wf c \<longleftrightarrow> cube_value c AND cube_mask c = cube_value c"

definition contains_ip :: "cube \<Rightarrow> u32 \<Rightarrow> bool" where
  "contains_ip c ip \<longleftrightarrow> (ip AND cube_mask c) XOR cube_value c = 0"

definition contains_cube :: "cube \<Rightarrow> cube \<Rightarrow> bool" where
  "contains_cube self other \<longleftrightarrow>
     (if cube_mask self AND cube_mask other \<noteq> cube_mask self then False
      else (cube_value self XOR cube_value other) AND cube_mask self = 0)"

definition cube_intersects :: "cube \<Rightarrow> cube \<Rightarrow> bool" where
  "cube_intersects self other \<longleftrightarrow>
     (let common_mask = cube_mask self AND cube_mask other in
      (cube_value self XOR cube_value other) AND common_mask = 0)"

definition cube_is_any :: "cube \<Rightarrow> bool" where "cube_is_any c \<longleftrightarrow> cube_mask c = 0"
definition cube_is_exact :: "cube \<Rightarrow> bool" where "cube_is_exact c \<longleftrightarrow> cube_mask c = 0xFFFFFFFF"

definition cube_any :: cube where "cube_any = mk_cube 0 0"

definition cube_from_ip :: "string \<Rightarrow> cube result" where
  "cube_from_ip ip = bind_r (ip_to_int ip) (\<lambda>v. Inr (mk_cube v 0xFFFFFFFF))"

definition cube_from_cidr :: "string \<Rightarrow> int \<Rightarrow> cube result" where
  "cube_from_cidr ip pfx =
     (if pfx < 0 \<or> pfx > 32 then Inl (ValueError (''Invalid prefix length: '' @ str_int pfx))
      else let msk = prefix_mask (nat pfx) in
        bind_r (ip_to_int ip) (\<lambda>v. Inr (mk_cube (v AND msk) msk)))"

definition cube_from_netmask :: "string \<Rightarrow> string \<Rightarrow> cube result" where
  "cube_from_netmask ip netmask =
     bind_r (ip_to_int netmask) (\<lambda>msk. bind_r (ip_to_int ip) (\<lambda>v. Inr (mk_cube (v AND msk) msk)))"

definition cube_from_wildcard :: "string \<Rightarrow> string \<Rightarrow> cube result" where
  "cube_from_wildcard ip wildcard =
     bind_r (ip_to_int wildcard) (\<lambda>wi. let msk = NOT wi in
       bind_r (ip_to_int ip) (\<lambda>v. Inr (mk_cube (v AND msk) msk)))"


text \<open>The address set of a cube, and the tests against it.\<close>

lemma xor_eq_0_iff: "(a :: u32) XOR b = 0 \<longleftrightarrow> a = b"
  by (auto simp: bit_eq_iff bit_simps)

lemma contains_ip_iff: "contains_ip c ip \<longleftrightarrow> ip AND cube_mask c = cube_value c"
  by (simp add: contains_ip_def xor_eq_0_iff)

lemma mk_cube_wf [simp]: "cube_wf (mk_cube v m)"
  by (simp add: cube_wf_def mk_cube_def and.assoc)

lemma contains_ip_mk_cube [simp]: "contains_ip (mk_cube v m) ip \<longleftrightarrow> ip AND m = v AND m"
  by (simp add: contains_ip_iff mk_cube_def)

lemma cube_any_wf [simp]: "cube_wf cube_any"
  by (simp add: cube_any_def)

lemma cube_any_contains [simp]: "contains_ip cube_any ip"
  by (simp add: cube_any_def)

lemma cube_is_any_contains: "cube_wf c \<Longrightarrow> cube_is_any c \<Longrightarrow> contains_ip c ip"
  by (simp add: cube_wf_def cube_is_any_def contains_ip_iff)

lemma xor_and_eq_0_iff: "((a :: u32) XOR b) AND m = 0 \<longleftrightarrow> a AND m = b AND m"
  by (auto simp: bit_eq_iff bit_simps)

lemma cube_value_contained: "cube_wf c \<Longrightarrow> contains_ip c (cube_value c)"
  by (simp add: cube_wf_def contains_ip_iff)

lemma contains_cube_sound:
  assumes "contains_cube a b" and "contains_ip b ip"
    and "cube_wf a"
  shows "contains_ip a ip"
proof -
  from assms have "cube_mask a AND cube_mask b = cube_mask a"
    "cube_value a AND cube_mask a = cube_value b AND cube_mask a"
    by (auto simp: contains_cube_def xor_and_eq_0_iff split: if_splits)
  with assms(2,3) show ?thesis
    unfolding contains_ip_iff cube_wf_def by (metis and.assoc and.commute)
qed

lemma contains_cube_complete:
  assumes "\<And>ip. contains_ip b ip \<Longrightarrow> contains_ip a ip" and "cube_wf b"
  shows "contains_cube a b"
proof -
  let ?va = "cube_value a" and ?ma = "cube_mask a" and ?vb = "cube_value b" and ?mb = "cube_mask b"
  have v: "?vb AND ?ma = ?va"
    using assms(1) [OF cube_value_contained [OF assms(2)]] by (simp add: contains_ip_iff)
  have "(?vb OR NOT ?mb) AND ?mb = ?vb"
    using assms(2) by (simp add: cube_wf_def bit.conj_disj_distrib2)
  then have w: "(?vb OR NOT ?mb) AND ?ma = ?va"
    using assms(1) by (simp add: contains_ip_iff)
  have "?ma AND ?mb = ?ma"
  proof (rule bit_word_eqI)
    fix n assume n: "n < LENGTH(32)"
    from v w have "bit (?vb AND ?ma) n = bit ((?vb OR NOT ?mb) AND ?ma) n" by simp
    moreover from assms(2) have "bit (?vb AND ?mb) n = bit ?vb n" by (simp add: cube_wf_def)
    ultimately show "bit (?ma AND ?mb) n = bit ?ma n" using n by (auto simp: bit_simps)
  qed
  moreover have "?va AND ?ma = ?vb AND ?ma" using v by (metis and.assoc and.idem)
  ultimately show ?thesis by (simp add: contains_cube_def xor_and_eq_0_iff)
qed

lemma merge_values_masked:
  fixes va vb ma mb :: u32
  assumes "va AND (ma AND mb) = vb AND (ma AND mb)" and "va AND ma = va" and "vb AND mb = vb"
  shows "(va OR vb) AND ma = va"
proof (rule bit_word_eqI)
  fix n assume "n < LENGTH(32)"
  from assms have "bit (va AND (ma AND mb)) n = bit (vb AND (ma AND mb)) n"
    "bit (va AND ma) n = bit va n" "bit (vb AND mb) n = bit vb n" by simp_all
  then show "bit ((va OR vb) AND ma) n = bit va n" by (auto simp: bit_simps)
qed

lemma cube_intersects_iff:
  assumes "cube_wf a" and "cube_wf b"
  shows "cube_intersects a b \<longleftrightarrow> (\<exists>ip. contains_ip a ip \<and> contains_ip b ip)"
proof
  assume "cube_intersects a b"
  then have eq: "cube_value a AND (cube_mask a AND cube_mask b) = cube_value b AND (cube_mask a AND cube_mask b)"
    by (simp add: cube_intersects_def Let_def xor_and_eq_0_iff)
  have "(cube_value a OR cube_value b) AND cube_mask a = cube_value a"
    using merge_values_masked [OF eq] assms by (simp add: cube_wf_def)
  moreover have "(cube_value b OR cube_value a) AND cube_mask b = cube_value b"
    using merge_values_masked [of "cube_value b" "cube_mask b" "cube_mask a" "cube_value a"] eq assms
    by (simp add: cube_wf_def and.commute [of "cube_mask b"])
  ultimately show "\<exists>ip. contains_ip a ip \<and> contains_ip b ip"
    by (auto simp: contains_ip_iff or.commute)
next
  assume "\<exists>ip. contains_ip a ip \<and> contains_ip b ip"
  then obtain ip where ip: "cube_value a = ip AND cube_mask a" "cube_value b = ip AND cube_mask b"
    unfolding contains_ip_iff by metis
  show "cube_intersects a b"
    unfolding cube_intersects_def Let_def xor_and_eq_0_iff ip
    by (rule bit_word_eqI) (auto simp: bit_simps)
qed

text \<open>Every constructor of the class yields a well-formed cube.\<close>

lemma cube_constructors_wf:
  "cube_from_ip ip = Inr c \<Longrightarrow> cube_wf c"
  "cube_from_cidr ip n = Inr c \<Longrightarrow> cube_wf c"
  "cube_from_netmask ip nm = Inr c \<Longrightarrow> cube_wf c"
  "cube_from_wildcard ip w = Inr c \<Longrightarrow> cube_wf c"
  "cube_wf cube_any"
  by (auto simp: cube_from_ip_def cube_from_cidr_def cube_from_netmask_def cube_from_wildcard_def
      cube_any_def bind_r_eq_Inr Let_def split: if_splits)

text \<open>For evaluation in the kernel, the contiguous masks are tabulated.\<close>

definition mask_table :: "(u32 \<times> nat) list" where
  "mask_table =
    [(0x0, 0), (0x80000000, 1), (0xC0000000, 2), (0xE0000000, 3), (0xF0000000, 4), (0xF8000000, 5),
     (0xFC000000, 6), (0xFE000000, 7), (0xFF000000, 8), (0xFF800000, 9), (0xFFC00000, 10),
     (0xFFE00000, 11), (0xFFF00000, 12), (0xFFF80000, 13), (0xFFFC0000, 14), (0xFFFE0000, 15),
     (0xFFFF0000, 16), (0xFFFF8000, 17), (0xFFFFC000, 18), (0xFFFFE000, 19), (0xFFFFF000, 20),
     (0xFFFFF800, 21), (0xFFFFFC00, 22), (0xFFFFFE00, 23), (0xFFFFFF00, 24), (0xFFFFFF80, 25),
     (0xFFFFFFC0, 26), (0xFFFFFFE0, 27), (0xFFFFFFF0, 28), (0xFFFFFFF8, 29), (0xFFFFFFFC, 30),
     (0xFFFFFFFE, 31), (0xFFFFFFFF, 32)]"

lemma mask_table_map: "mask_table = map (\<lambda>n. (prefix_mask n, n)) [0..<33]"
  by (simp add: mask_table_def prefix_mask_def upt_rec)

lemma mask_to_prefix_len_code [code]: "mask_to_prefix_len m = map_of mask_table m"
proof (cases "mask_to_prefix_len m")
  case None
  then have "m \<noteq> prefix_mask n" if "n < 33" for n
    using that mask_to_prefix_len_iff [of m n] by auto
  then have "m \<notin> fst ` set mask_table" unfolding mask_table_map by force
  then have "map_of mask_table m = None" by (simp only: map_of_eq_None_iff not_False_eq_True)
  with None show ?thesis by simp
next
  case (Some n)
  then have n: "n \<le> 32" "m = prefix_mask n" by (simp_all add: mask_to_prefix_len_iff)
  have "inj_on prefix_mask {..32}"
    by (rule inj_onI) (metis atMost_iff mask_to_prefix_len_prefix_mask option.inject)
  then have "distinct (map fst mask_table)"
    by (auto simp: mask_table_map comp_def distinct_map intro: inj_on_subset)
  moreover have "(m, n) \<in> set mask_table" using n by (auto simp: mask_table_map)
  ultimately show ?thesis using Some by simp
qed

section \<open>Properties of addresses, masks and cubes\<close>

text \<open>
  Every 32-bit address printed by \<open>int_to_ip\<close> parses back to itself, and a text that
  \<open>ip_to_int\<close> accepts is, without the spaces around it, the one spelling \<open>int_to_ip\<close> prints.
\<close>

theorem address_roundtrip:
  "ip_to_int (int_to_ip w) = Inr w \<and> (ip_to_int s = Inr v \<longrightarrow> int_to_ip v = py_strip s)"
  using ip_to_int_canonical by simp

theorem address_roundtrip_witness:
  "ip_to_int (int_to_ip 0xC0000232) = Inr 0xC0000232
     \<and> int_to_ip 0x0A000001 = py_strip '' 10.0.0.1 ''"
proof -
  have "ip_to_int '' 10.0.0.1 '' = Inr 0x0A000001" by code_simp
  with address_roundtrip [where w = "0xC0000232" and s = "'' 10.0.0.1 ''" and v = "0x0A000001"] show ?thesis by simp
qed

text \<open>
  \<open>mask_to_prefix_len\<close> recognises exactly the contiguous masks: it returns \<open>n\<close> if and only
  if \<open>n\<close> is at most 32 and the mask has its upper \<open>n\<close> bits set and no other.
\<close>

theorem mask_prefix_exact:
  "mask_to_prefix_len m = Some n \<longleftrightarrow> n \<le> 32 \<and> (\<forall>i < 32. bit m i \<longleftrightarrow> 32 - n \<le> i)"
  by (cases "n \<le> 32") (simp_all add: mask_to_prefix_len_iff prefix_mask_bits)

theorem mask_prefix_exact_witness:
  "mask_to_prefix_len 0xFFFF0000 = Some 16 \<and> mask_to_prefix_len 0xFFFF00FF \<noteq> Some 24"
proof -
  have "bit (0xFFFF00FF :: u32) 0" by simp
  then have "mask_to_prefix_len 0xFFFF00FF \<noteq> Some 24"
    by (subst mask_prefix_exact) (auto intro!: exI [of _ 0])
  moreover have "mask_to_prefix_len 0xFFFF0000 = Some 16" by code_simp
  ultimately show ?thesis by blast
qed

text \<open>
  On the cubes the constructors build, \<open>contains_cube\<close> is inclusion of the address sets and
  \<open>intersects\<close> is a common address, for every mask, contiguous or not.
\<close>

theorem cube_tests_exact:
  assumes "cube_wf a" and "cube_wf b"
  shows "(contains_cube a b \<longleftrightarrow> (\<forall>ip. contains_ip b ip \<longrightarrow> contains_ip a ip))
    \<and> (cube_intersects a b \<longleftrightarrow> (\<exists>ip. contains_ip a ip \<and> contains_ip b ip))"
  using assms contains_cube_sound contains_cube_complete cube_intersects_iff by blast

theorem cube_tests_exact_witness:
  "contains_cube (mk_cube 0x0A000000 0xFF0000FF) (mk_cube 0x0A010000 0xFFFF00FF)
     \<and> (\<exists>ip. contains_ip (mk_cube 0x0A000000 0xFF0000FF) ip \<and> contains_ip (mk_cube 0x0A010000 0xFFFF00FF) ip)"
proof -
  have "contains_cube (mk_cube 0x0A000000 0xFF0000FF) (mk_cube 0x0A010000 0xFFFF00FF)"
    "cube_intersects (mk_cube 0x0A000000 0xFF0000FF) (mk_cube 0x0A010000 0xFFFF00FF)"
    by code_simp+
  with cube_tests_exact [OF mk_cube_wf mk_cube_wf] show ?thesis by blast
qed

end
