(* ===== verification/Port_Sets.thy ===== *)
theory Port_Sets
  imports SN_Prelude "HOL-Library.Product_Lexorder"
begin

text \<open>
  \<open>PortSet\<close> of \<open>services/policy_test/model.py\<close>: a collection of closed port
  intervals. \<open>from_list\<close> clamps, sorts and merges; the membership, inclusion and overlap
  tests run over the intervals. Shown here: the normal form \<open>from_list\<close> establishes, that
  it keeps the denoted set of ports, and that on normal forms the single-interval cover test is
  exactly set inclusion.
\<close>

type_synonym portset = "(int \<times> int) list"

definition clamp_port :: "int \<Rightarrow> int" where "clamp_port x = max 0 (min 65535 x)"

fun clean_interval :: "int \<times> int \<Rightarrow> int \<times> int" where
  "clean_interval (lo, hi) =
     (let lo' = clamp_port lo; hi' = clamp_port hi in
      if lo' > hi' then (hi', lo') else (lo', hi'))"

text \<open>The merging loop: the last merged interval is the one that still grows.\<close>

fun merge_intervals :: "int \<times> int \<Rightarrow> (int \<times> int) list \<Rightarrow> (int \<times> int) list" where
  "merge_intervals prev [] = [prev]"
| "merge_intervals (prev_lo, prev_hi) ((cur_lo, cur_hi) # rest) =
     (if cur_lo \<le> prev_hi + 1 then merge_intervals (prev_lo, max prev_hi cur_hi) rest
      else (prev_lo, prev_hi) # merge_intervals (cur_lo, cur_hi) rest)"

definition ports_normalize :: "(int \<times> int) list \<Rightarrow> portset" where
  "ports_normalize intervals =
     (case sort (map clean_interval intervals) of
        [] \<Rightarrow> []
      | first # rest \<Rightarrow> merge_intervals first rest)"

definition contains_port :: "portset \<Rightarrow> int \<Rightarrow> bool" where
  "contains_port ps port \<longleftrightarrow> list_ex (\<lambda>(lo, hi). lo \<le> port \<and> port \<le> hi) ps"

definition contains_portset :: "portset \<Rightarrow> portset \<Rightarrow> bool" where
  "contains_portset self other \<longleftrightarrow>
     list_all (\<lambda>(o_lo, o_hi). list_ex (\<lambda>(s_lo, s_hi). s_lo \<le> o_lo \<and> o_hi \<le> s_hi) self) other"

definition ports_intersect :: "portset \<Rightarrow> portset \<Rightarrow> bool" where
  "ports_intersect self other \<longleftrightarrow>
     list_ex (\<lambda>(s_lo, s_hi). list_ex (\<lambda>(o_lo, o_hi). max s_lo o_lo \<le> min s_hi o_hi) other) self"

definition ports_is_any :: "portset \<Rightarrow> bool" where
  "ports_is_any ps \<longleftrightarrow> length ps = 1 \<and> fst (hd ps) \<le> 1 \<and> snd (hd ps) = 65535"

definition ports_any :: portset where "ports_any = [(0, 65535)]"

definition ports_from_list :: "(int \<times> int) list \<Rightarrow> portset" where
  "ports_from_list intervals = ports_normalize intervals"

definition ports_from_op :: "string \<Rightarrow> int \<Rightarrow> int option \<Rightarrow> portset" where
  "ports_from_op op val1 val2 =
     (let opl = py_lower op in
      if opl = ''eq'' then ports_from_list [(val1, val1)]
      else if opl = ''gt'' then ports_from_list [(val1 + 1, 65535)]
      else if opl = ''lt'' then ports_from_list [(1, max 1 (val1 - 1))]
      else if opl = ''range'' then
        (let v2 = (case val2 of Some v \<Rightarrow> v | None \<Rightarrow> val1) in
         ports_from_list [(min val1 v2, max val1 v2)])
      else if opl = ''neq'' then
        ports_from_list ((if val1 > 1 then [(1, val1 - 1)] else [])
          @ (if val1 < 65535 then [(val1 + 1, 65535)] else []))
      else ports_any)"

section \<open>The normal form\<close>

text \<open>Intervals in range, in increasing order, with a gap of at least one port between two.\<close>

fun ports_nf :: "portset \<Rightarrow> bool" where
  "ports_nf [] = True"
| "ports_nf [(lo, hi)] = (0 \<le> lo \<and> lo \<le> hi \<and> hi \<le> 65535)"
| "ports_nf ((lo, hi) # (lo', hi') # ps) =
     (0 \<le> lo \<and> lo \<le> hi \<and> hi + 1 < lo' \<and> ports_nf ((lo', hi') # ps))"

lemma contains_port_simps [simp]:
  "\<not> contains_port [] p"
  "contains_port ((lo, hi) # ps) p \<longleftrightarrow> lo \<le> p \<and> p \<le> hi \<or> contains_port ps p"
  by (simp_all add: contains_port_def)

lemma contains_port_iff: "contains_port ps p \<longleftrightarrow> (\<exists>(lo, hi) \<in> set ps. lo \<le> p \<and> p \<le> hi)"
  by (auto simp: contains_port_def list_ex_iff)

lemma clean_interval_bounds:
  "clean_interval i = (lo, hi) \<Longrightarrow> 0 \<le> lo \<and> lo \<le> hi \<and> hi \<le> 65535"
  by (cases i) (auto simp: Let_def clamp_port_def split: if_splits)

lemma sorted_merge_step:
  fixes lo hi l h :: int
  assumes "sorted ((lo, hi) # (l, h) # ps)"
  shows "sorted ((lo, max hi h) # ps)"
proof -
  from assms have le: "lo \<le> l" by auto
  have "(lo, max hi h) \<le> q" if "q \<in> set ps" for q
  proof -
    from assms that have "(lo, hi) \<le> q" "(l, h) \<le> q" by auto
    with le show ?thesis by (cases q) auto
  qed
  with assms show ?thesis by auto
qed

lemma merge_intervals_nf:
  assumes "sorted ((lo, hi) # ps)" "0 \<le> lo" "lo \<le> hi" "hi \<le> 65535"
    and "\<forall>(l, h) \<in> set ps. 0 \<le> l \<and> l \<le> h \<and> h \<le> 65535"
  shows "ports_nf (merge_intervals (lo, hi) ps) \<and> fst (hd (merge_intervals (lo, hi) ps)) = lo"
  using assms
proof (induction ps arbitrary: lo hi)
  case (Cons p ps)
  obtain l h where p [simp]: "p = (l, h)" by (cases p)
  from Cons.prems have le: "lo \<le> l" by auto
  show ?case
  proof (cases "l \<le> hi + 1")
    case True
    have "sorted ((lo, max hi h) # ps)"
      using Cons.prems(1) sorted_merge_step [of lo hi l h ps] by simp
    with Cons.IH [of lo "max hi h"] Cons.prems True show ?thesis by auto
  next
    case False
    with Cons.IH [of l h] Cons.prems
    have "ports_nf (merge_intervals (l, h) ps)" "fst (hd (merge_intervals (l, h) ps)) = l"
      by auto
    with False Cons.prems show ?thesis
      by (cases "merge_intervals (l, h) ps") auto
  qed
qed simp

lemma merge_intervals_contains:
  assumes "sorted ((lo, hi) # ps)" and "lo \<le> hi" and "\<forall>(l, h) \<in> set ps. l \<le> h"
  shows "contains_port (merge_intervals (lo, hi) ps) p \<longleftrightarrow> contains_port ((lo, hi) # ps) p"
  using assms
proof (induction ps arbitrary: lo hi)
  case (Cons q ps)
  obtain l h where q [simp]: "q = (l, h)" by (cases q)
  from Cons.prems have le: "lo \<le> l" "l \<le> h" by auto
  show ?case
  proof (cases "l \<le> hi + 1")
    case True
    have "sorted ((lo, max hi h) # ps)"
      using Cons.prems(1) sorted_merge_step [of lo hi l h ps] by simp
    with Cons.IH [of lo "max hi h"] Cons.prems True le show ?thesis by auto
  next
    case False
    with Cons.IH [of l h] Cons.prems show ?thesis by auto
  qed
qed simp


lemma normalize_cases:
  "ports_normalize is = (case sort (map clean_interval is) of [] \<Rightarrow> [] | p # ps \<Rightarrow> merge_intervals p ps)"
  by (simp add: ports_normalize_def split: list.splits)

lemma cleaned_bounds:
  assumes "sort (map clean_interval is) = p # ps" and "(l, h) \<in> set (p # ps)"
  shows "0 \<le> l \<and> l \<le> h \<and> h \<le> 65535"
proof -
  from assms have "(l, h) \<in> set (map clean_interval is)" by (metis set_sort)
  then obtain i where "clean_interval i = (l, h)" by auto
  then show ?thesis by (rule clean_interval_bounds)
qed

lemma ports_normalize_nf: "ports_nf (ports_normalize is)"
proof (cases "sort (map clean_interval is)")
  case (Cons p ps)
  obtain lo hi where p: "p = (lo, hi)" by (cases p)
  have "sorted ((lo, hi) # ps)" using Cons p by (metis sorted_sort)
  moreover have "0 \<le> lo \<and> lo \<le> hi \<and> hi \<le> 65535"
    using cleaned_bounds [OF Cons, of lo hi] p by simp
  moreover have "\<forall>(l, h) \<in> set ps. 0 \<le> l \<and> l \<le> h \<and> h \<le> 65535"
    using cleaned_bounds [OF Cons] by auto
  ultimately show ?thesis
    using merge_intervals_nf [of lo hi ps] Cons p by (simp add: normalize_cases)
qed (simp add: normalize_cases)

lemma contains_normalize:
  "contains_port (ports_normalize is) p \<longleftrightarrow> contains_port (map clean_interval is) p"
proof (cases "sort (map clean_interval is)")
  case Nil
  then have "map clean_interval is = []" by (metis length_0_conv length_sort)
  with Nil show ?thesis by (simp add: normalize_cases)
next
  case (Cons q ps)
  obtain lo hi where q: "q = (lo, hi)" by (cases q)
  have "sorted ((lo, hi) # ps)" using Cons q by (metis sorted_sort)
  moreover have "lo \<le> hi" using cleaned_bounds [OF Cons, of lo hi] q by simp
  moreover have "\<forall>(l, h) \<in> set ps. l \<le> h" using cleaned_bounds [OF Cons] by fastforce
  ultimately have "contains_port (ports_normalize is) p \<longleftrightarrow> contains_port ((lo, hi) # ps) p"
    using merge_intervals_contains [of lo hi ps p] Cons q by (simp add: normalize_cases)
  also have "\<dots> \<longleftrightarrow> contains_port (map clean_interval is) p"
    unfolding contains_port_iff using Cons q by (metis set_sort)
  finally show ?thesis .
qed

lemma ports_nf_tl: "ports_nf (p # ps) \<Longrightarrow> ports_nf ps"
  by (cases p; cases ps) auto

lemma ports_nf_head: "ports_nf ((lo, hi) # ps) \<Longrightarrow> 0 \<le> lo \<and> lo \<le> hi \<and> hi \<le> 65535"
proof (induction ps arbitrary: lo hi)
  case (Cons p ps)
  then show ?case by (cases p) fastforce
qed simp

lemma ports_nf_bounds: "ports_nf ps \<Longrightarrow> (lo, hi) \<in> set ps \<Longrightarrow> 0 \<le> lo \<and> lo \<le> hi \<and> hi \<le> 65535"
proof (induction ps)
  case (Cons p ps)
  with ports_nf_head [of "fst p" "snd p" ps] ports_nf_tl [of p ps] show ?case by auto
qed simp

lemma ports_nf_later: "ports_nf ((lo, hi) # ps) \<Longrightarrow> (l, h) \<in> set ps \<Longrightarrow> hi + 1 < l"
proof (induction ps arbitrary: lo hi)
  case (Cons p ps)
  obtain a b where p: "p = (a, b)" by (cases p)
  from Cons.prems p have "hi + 1 < a" "a \<le> b" "ports_nf ((a, b) # ps)"
    using ports_nf_bounds [of "(a, b) # ps" a b] by auto
  with Cons p show ?case by fastforce
qed simp

lemma ports_nf_separated:
  assumes "ports_nf ps" and "(a, b) \<in> set ps" and "(c, d) \<in> set ps"
  shows "(a, b) = (c, d) \<or> b + 1 < c \<or> d + 1 < a"
  using assms
proof (induction ps)
  case (Cons p ps)
  obtain lo hi where p: "p = (lo, hi)" by (cases p)
  from Cons.prems p ports_nf_later [of lo hi ps] ports_nf_tl [of p ps] Cons.IH
  show ?case by fastforce
qed simp

text \<open>On a normal form one interval covers whatever is covered at all.\<close>

lemma nf_interval_covered:
  assumes nf: "ports_nf a" and le: "l \<le> h" and cov: "\<forall>p. l \<le> p \<and> p \<le> h \<longrightarrow> contains_port a p"
  shows "\<exists>(s, e) \<in> set a. s \<le> l \<and> h \<le> e"
proof -
  from le cov have "contains_port a l" by simp
  then obtain s e where se: "(s, e) \<in> set a" "s \<le> l" "l \<le> e" by (auto simp: contains_port_iff)
  show ?thesis
  proof (cases "h \<le> e")
    case False
    with se cov have "contains_port a (e + 1)" by simp
    then obtain s' e' where "(s', e') \<in> set a" "s' \<le> e + 1" "e + 1 \<le> e'"
      by (auto simp: contains_port_iff)
    with ports_nf_separated [OF nf se(1), of s' e'] se show ?thesis by auto
  qed (use se in auto)
qed

lemma contains_portset_sound:
  "contains_portset a b \<Longrightarrow> contains_port b p \<Longrightarrow> contains_port a p"
proof -
  assume cov: "contains_portset a b" and "contains_port b p"
  then obtain l h where lh: "(l, h) \<in> set b" "l \<le> p" "p \<le> h" by (auto simp: contains_port_iff)
  with cov obtain s e where "(s, e) \<in> set a" "s \<le> l" "h \<le> e"
    by (auto simp: contains_portset_def list_all_iff list_ex_iff)
  with lh show ?thesis unfolding contains_port_iff by (intro bexI [of _ "(s, e)"]) auto
qed

lemma contains_portset_complete:
  assumes "ports_nf a" and "ports_nf b" and "\<And>p. contains_port b p \<Longrightarrow> contains_port a p"
  shows "contains_portset a b"
proof -
  have "\<exists>(s, e) \<in> set a. s \<le> l \<and> h \<le> e" if lh: "(l, h) \<in> set b" for l h
  proof (rule nf_interval_covered [OF assms(1)])
    show "l \<le> h" using ports_nf_bounds [OF assms(2) lh] by simp
    show "\<forall>p. l \<le> p \<and> p \<le> h \<longrightarrow> contains_port a p"
      using lh assms(3) by (auto simp: contains_port_iff)
  qed
  then show ?thesis by (auto simp: contains_portset_def list_all_iff list_ex_iff)
qed

lemma ports_intersect_iff: "ports_intersect a b \<longleftrightarrow> (\<exists>p. contains_port a p \<and> contains_port b p)"
proof
  assume "ports_intersect a b"
  then obtain s e l h where i: "(s, e) \<in> set a" "(l, h) \<in> set b" "max s l \<le> min e h"
    by (auto simp: ports_intersect_def list_ex_iff)
  have "contains_port a (max s l)"
    unfolding contains_port_iff using i by (intro bexI [of _ "(s, e)"]) auto
  moreover have "contains_port b (max s l)"
    unfolding contains_port_iff using i by (intro bexI [of _ "(l, h)"]) auto
  ultimately show "\<exists>p. contains_port a p \<and> contains_port b p" by blast
next
  assume "\<exists>p. contains_port a p \<and> contains_port b p"
  then obtain p s e l h where "(s, e) \<in> set a" "s \<le> p" "p \<le> e" "(l, h) \<in> set b" "l \<le> p" "p \<le> h"
    by (auto simp: contains_port_iff)
  then show "ports_intersect a b"
    unfolding ports_intersect_def list_ex_iff
    by (intro bexI [of _ "(s, e)"]) (auto intro!: bexI [of _ "(l, h)"])
qed

lemma ports_is_any_contains: "ports_is_any ps \<Longrightarrow> 1 \<le> p \<Longrightarrow> p \<le> 65535 \<Longrightarrow> contains_port ps p"
  by (cases ps) (auto simp: ports_is_any_def)

lemma clamp_port_id [simp]: "0 \<le> x \<Longrightarrow> x \<le> 65535 \<Longrightarrow> clamp_port x = x"
  by (simp add: clamp_port_def)

lemma clean_interval_min_max:
  "clean_interval (a, b) = (min (clamp_port a) (clamp_port b), max (clamp_port a) (clamp_port b))"
  by (simp add: Let_def min_def max_def)

lemma contains_from_list:
  "contains_port (ports_from_list is) p \<longleftrightarrow> contains_port (map clean_interval is) p"
  by (simp add: ports_from_list_def contains_normalize)

lemma ports_from_list_nf [simp]: "ports_nf (ports_from_list is)"
  by (simp add: ports_from_list_def ports_normalize_nf)

lemma ports_from_op_nf [simp]: "ports_nf (ports_from_op op a b)"
  by (simp add: ports_from_op_def Let_def ports_any_def split: option.split)

text \<open>What the operators denote, on ports a packet can carry.\<close>

lemma ports_from_op_denotes:
  assumes v: "0 \<le> v" "v \<le> 65535" and p: "1 \<le> p" "p \<le> 65535"
  shows "contains_port (ports_from_op ''eq'' v w) p \<longleftrightarrow> p = v"
    and "v < 65535 \<Longrightarrow> contains_port (ports_from_op ''gt'' v w) p \<longleftrightarrow> v < p"
    and "1 < v \<Longrightarrow> contains_port (ports_from_op ''lt'' v w) p \<longleftrightarrow> p < v"
    and "contains_port (ports_from_op ''neq'' v w) p \<longleftrightarrow> p \<noteq> v"
    and "0 \<le> u \<Longrightarrow> u \<le> 65535 \<Longrightarrow>
      contains_port (ports_from_op ''range'' v (Some u)) p \<longleftrightarrow> min v u \<le> p \<and> p \<le> max v u"
proof -
  have ops: "py_lower ''eq'' = ''eq''" "py_lower ''gt'' = ''gt''" "py_lower ''lt'' = ''lt''"
    "py_lower ''neq'' = ''neq''" "py_lower ''range'' = ''range''" by code_simp+
  show "contains_port (ports_from_op ''eq'' v w) p \<longleftrightarrow> p = v"
    using v by (auto simp: ports_from_op_def ops contains_from_list)
  show "v < 65535 \<Longrightarrow> contains_port (ports_from_op ''gt'' v w) p \<longleftrightarrow> v < p"
    using v p by (auto simp: ports_from_op_def ops contains_from_list)
  show "1 < v \<Longrightarrow> contains_port (ports_from_op ''lt'' v w) p \<longleftrightarrow> p < v"
    using v p by (auto simp: ports_from_op_def ops contains_from_list)
  show "contains_port (ports_from_op ''neq'' v w) p \<longleftrightarrow> p \<noteq> v"
    using v p by (auto simp: ports_from_op_def ops contains_from_list)
  show "0 \<le> u \<Longrightarrow> u \<le> 65535 \<Longrightarrow>
      contains_port (ports_from_op ''range'' v (Some u)) p \<longleftrightarrow> min v u \<le> p \<and> p \<le> max v u"
    using v p by (auto simp: ports_from_op_def ops contains_from_list min_def max_def)
qed

section \<open>Properties of port sets\<close>

text \<open>
  Whatever intervals a port set is built from, it stores them in range, ordered and with a
  gap of at least one port between two, and it contains a port if and only if one of the given
  intervals, with its ends clamped to 0..65535 and put in order, contains it.
\<close>

theorem port_set_normal_form:
  "ports_nf (ports_from_list ivs) \<and>
   (contains_port (ports_from_list ivs) p \<longleftrightarrow>
     (\<exists>(a, b) \<in> set ivs. min (clamp_port a) (clamp_port b) \<le> p \<and> p \<le> max (clamp_port a) (clamp_port b)))"
proof -
  have "contains_port (map clean_interval ivs) p \<longleftrightarrow> (\<exists>(a, b) \<in> set ivs.
      min (clamp_port a) (clamp_port b) \<le> p \<and> p \<le> max (clamp_port a) (clamp_port b))"
    unfolding contains_port_iff by (force simp: clean_interval_min_max simp del: clean_interval.simps)
  then show ?thesis by (simp add: contains_from_list)
qed

theorem port_set_normal_form_witness:
  "contains_port (ports_from_list [(90, 80), (81, 70000), (5, 5)]) 65535"
  unfolding port_set_normal_form [THEN conjunct2] by (simp add: clamp_port_def)

text \<open>
  On normal forms \<open>contains_portset\<close> is inclusion and \<open>intersects\<close> is a common port, so a
  union of intervals that together cover a range is recognised as covering it.
\<close>

theorem port_tests_exact:
  assumes "ports_nf a" and "ports_nf b"
  shows "(contains_portset a b \<longleftrightarrow> (\<forall>p. contains_port b p \<longrightarrow> contains_port a p))
    \<and> (ports_intersect a b \<longleftrightarrow> (\<exists>p. contains_port a p \<and> contains_port b p))"
  using assms contains_portset_sound contains_portset_complete ports_intersect_iff by blast

theorem port_tests_exact_witness:
  "contains_port (ports_from_list [(1, 20), (21, 40)]) 25"
proof -
  have "contains_portset (ports_from_list [(1, 20), (21, 40)]) (ports_from_list [(10, 30)])"
    "contains_port (ports_from_list [(10, 30)]) 25"
    by code_simp+
  with port_tests_exact [of "ports_from_list [(1, 20), (21, 40)]" "ports_from_list [(10, 30)]"]
  show ?thesis by simp
qed

text \<open>
  On the ports a packet can carry, the operators \<open>eq\<close>, \<open>gt\<close>, \<open>lt\<close>, \<open>neq\<close> and \<open>range\<close> denote
  what their names say; \<open>gt 65535\<close> and \<open>lt 1\<close>, which the code clamps into the range, are excluded.
\<close>

theorem port_operators_denote:
  assumes "0 \<le> v" "v \<le> 65535" "0 \<le> u" "u \<le> 65535" "1 \<le> p" "p \<le> 65535"
  shows "(contains_port (ports_from_op ''eq'' v w) p \<longleftrightarrow> p = v)
    \<and> (v < 65535 \<longrightarrow> (contains_port (ports_from_op ''gt'' v w) p \<longleftrightarrow> v < p))
    \<and> (1 < v \<longrightarrow> (contains_port (ports_from_op ''lt'' v w) p \<longleftrightarrow> p < v))
    \<and> (contains_port (ports_from_op ''neq'' v w) p \<longleftrightarrow> p \<noteq> v)
    \<and> (contains_port (ports_from_op ''range'' v (Some u)) p \<longleftrightarrow> min v u \<le> p \<and> p \<le> max v u)"
  using ports_from_op_denotes [OF assms(1,2,5,6)] assms(3,4) by blast

theorem port_operators_denote_witness:
  "contains_port (ports_from_op ''range'' 90 (Some 80)) 85 \<and> \<not> contains_port (ports_from_op ''lt'' 80 None) 80"
  using port_operators_denote [of 90 80 85 None] port_operators_denote [of 80 80 80 None] by simp

end
