(* ===== verification/Domains.thy ===== *)
theory Domains
  imports Ip_Cubes Port_Sets
begin

text \<open>
  The contract that the matching primitives of \<open>model.py\<close> share. A dimension value (a cube,
  a port set, a set of numbers, a set of interface names) has members; the code tests one value
  for covering another and two values for a common member. A rule needs two laws only: covering
  implies inclusion, and a common member is noticed. Where the tests are exact, both
  implications are equivalences. The laws are stated once, the client lemmas (lists of values,
  optional values where \<open>None\<close> is ANY) are proved once, and each primitive of the code is an
  interpretation.
\<close>

text \<open>A rule dimension that is \<open>None\<close> is ANY; a packet dimension that is \<open>None\<close> was not given.\<close>

definition opt_mem :: "('d \<Rightarrow> 'p \<Rightarrow> bool) \<Rightarrow> 'd option \<Rightarrow> 'p option \<Rightarrow> bool" where
  "opt_mem mem d x = (case d of None \<Rightarrow> True | Some d' \<Rightarrow> (case x of None \<Rightarrow> True | Some p \<Rightarrow> mem d' p))"

definition opt_covers :: "('d \<Rightarrow> 'd \<Rightarrow> bool) \<Rightarrow> 'd option \<Rightarrow> 'd option \<Rightarrow> bool" where
  "opt_covers cov self other =
     (case self of None \<Rightarrow> True
      | Some s \<Rightarrow> (case other of None \<Rightarrow> False | Some d \<Rightarrow> cov s d))"

definition opt_meets :: "('d \<Rightarrow> 'd \<Rightarrow> bool) \<Rightarrow> 'd option \<Rightarrow> 'd option \<Rightarrow> bool" where
  "opt_meets meets self other =
     (case self of None \<Rightarrow> True
      | Some s \<Rightarrow> (case other of None \<Rightarrow> True | Some d \<Rightarrow> meets s d))"

lemma opt_mem_simps [simp]:
  "opt_mem mem None x" "opt_mem mem d None" "opt_mem mem (Some s) (Some p) = mem s p"
  by (simp_all add: opt_mem_def split: option.split)

lemma opt_covers_simps [simp]:
  "opt_covers cov None other" "\<not> opt_covers cov (Some s) None"
  "opt_covers cov (Some s) (Some d) = cov s d"
  by (simp_all add: opt_covers_def)

lemma opt_meets_simps [simp]:
  "opt_meets m None other" "opt_meets m self None" "opt_meets m (Some s) (Some d) = m s d"
  by (simp_all add: opt_meets_def split: option.split)

locale matching_domain =
  fixes mem :: "'d \<Rightarrow> 'p \<Rightarrow> bool"
    and covers :: "'d \<Rightarrow> 'd \<Rightarrow> bool"
    and meets :: "'d \<Rightarrow> 'd \<Rightarrow> bool"
    and ok :: "'d \<Rightarrow> bool"
  assumes covers_sound: "ok a \<Longrightarrow> covers a b \<Longrightarrow> mem b p \<Longrightarrow> mem a p"
    and meets_complete: "ok a \<Longrightarrow> ok b \<Longrightarrow> mem a p \<Longrightarrow> mem b p \<Longrightarrow> meets a b"
begin

lemma list_covers_sound:
  assumes "list_all ok as" and "list_all (\<lambda>b. list_ex (\<lambda>a. covers a b) as) bs"
    and "list_ex (\<lambda>b. mem b p) bs"
  shows "list_ex (\<lambda>a. mem a p) as"
  using assms unfolding list_all_iff list_ex_iff by (metis covers_sound)

lemma list_meets_complete:
  assumes "list_all ok as" "list_all ok bs"
    and "list_ex (\<lambda>a. mem a p) as" "list_ex (\<lambda>b. mem b p) bs"
  shows "list_ex (\<lambda>a. list_ex (meets a) bs) as"
  using assms unfolding list_all_iff list_ex_iff by (metis meets_complete)

lemma opt_covers_sound:
  assumes "pred_option ok a" and "opt_covers covers a b" and "opt_mem mem b x"
  shows "opt_mem mem a x"
  using assms by (cases a; cases b; cases x) (auto intro: covers_sound)

lemma opt_meets_complete:
  assumes "pred_option ok a" "pred_option ok b" and "opt_mem mem a (Some p)" "opt_mem mem b (Some p)"
  shows "opt_meets meets a b"
  using assms by (cases a; cases b) (auto intro: meets_complete)

end

locale exact_domain = matching_domain +
  assumes covers_complete: "ok a \<Longrightarrow> ok b \<Longrightarrow> (\<And>p. mem b p \<Longrightarrow> mem a p) \<Longrightarrow> covers a b"
    and meets_sound: "ok a \<Longrightarrow> ok b \<Longrightarrow> meets a b \<Longrightarrow> \<exists>p. mem a p \<and> mem b p"
begin

lemma covers_iff: "ok a \<Longrightarrow> ok b \<Longrightarrow> covers a b \<longleftrightarrow> (\<forall>p. mem b p \<longrightarrow> mem a p)"
  using covers_sound covers_complete by blast

lemma meets_iff: "ok a \<Longrightarrow> ok b \<Longrightarrow> meets a b \<longleftrightarrow> (\<exists>p. mem a p \<and> mem b p)"
  using meets_sound meets_complete by blast

lemma covers_refl: "ok a \<Longrightarrow> covers a a"
  by (simp add: covers_iff)

lemma covers_trans: "ok a \<Longrightarrow> ok b \<Longrightarrow> ok c \<Longrightarrow> covers a b \<Longrightarrow> covers b c \<Longrightarrow> covers a c"
  by (simp add: covers_iff)

lemma covers_meets: "ok a \<Longrightarrow> ok b \<Longrightarrow> covers a b \<Longrightarrow> mem b p \<Longrightarrow> meets a b"
  using covers_sound meets_complete by blast

end

interpretation cube_dom: exact_domain contains_ip contains_cube cube_intersects cube_wf
  by unfold_locales
    (auto intro: contains_cube_sound contains_cube_complete simp: cube_intersects_iff)

interpretation port_dom: exact_domain contains_port contains_portset ports_intersect ports_nf
  by unfold_locales
    (auto intro: contains_portset_sound contains_portset_complete simp: ports_intersect_iff)

text \<open>Sets of numbers, as the protocol and ICMP type dimensions hold them.\<close>

definition num_mem :: "int set \<Rightarrow> int \<Rightarrow> bool" where "num_mem S x \<longleftrightarrow> x \<in> S"
definition num_covers :: "int set \<Rightarrow> int set \<Rightarrow> bool" where "num_covers s o' \<longleftrightarrow> o' \<subseteq> s"
definition num_meets :: "int set \<Rightarrow> int set \<Rightarrow> bool" where "num_meets s o' \<longleftrightarrow> s \<inter> o' \<noteq> {}"

interpretation num_dom: exact_domain num_mem num_covers num_meets "\<lambda>_. True"
  by unfold_locales (auto simp: num_mem_def num_covers_def num_meets_def)

text \<open>Sets of interface names, compared in lower case.\<close>

definition names_lower :: "string set \<Rightarrow> string set" where "names_lower S = py_lower ` S"

definition name_mem :: "string set \<Rightarrow> string \<Rightarrow> bool" where
  "name_mem S x \<longleftrightarrow> py_lower x \<in> names_lower S"
definition name_covers :: "string set \<Rightarrow> string set \<Rightarrow> bool" where
  "name_covers s o' \<longleftrightarrow> names_lower o' \<subseteq> names_lower s"
definition name_meets :: "string set \<Rightarrow> string set \<Rightarrow> bool" where
  "name_meets s o' \<longleftrightarrow> names_lower s \<inter> names_lower o' \<noteq> {}"

interpretation name_dom: exact_domain name_mem name_covers name_meets "\<lambda>_. True"
proof
  fix a b :: "string set"
  show "name_covers a b" if "\<And>p. name_mem b p \<Longrightarrow> name_mem a p"
    using that by (auto simp: name_mem_def name_covers_def names_lower_def)
  show "\<exists>p. name_mem a p \<and> name_mem b p" if "name_meets a b"
  proof -
    from that obtain x where "x \<in> names_lower a" "x \<in> names_lower b"
      by (auto simp: name_meets_def)
    moreover from this(1) have "py_lower x = x" by (auto simp: names_lower_def)
    ultimately show ?thesis by (metis name_mem_def)
  qed
qed (auto simp: name_mem_def name_covers_def name_meets_def)

end
