(* ===== verification/Match_Model.thy ===== *)
theory Match_Model
  imports Domains
begin

text \<open>
  \<open>Flow\<close> and \<open>FieldSet\<close> of \<open>services/policy_test/model.py\<close>: the packet that is traced and
  the packet domain of one ACE or firewall policy, with the tests \<open>is_any_any\<close>, \<open>contains\<close>,
  \<open>intersects\<close>, \<open>matches\<close> and \<open>may_match\<close>. Shown here: \<open>contains\<close> is sound for \<open>matches\<close>,
  \<open>intersects\<close> is complete on fully given packets, and an any-any rule matches every packet.
\<close>

section \<open>Protocols\<close>

definition proto_map :: "int option dict" where
  "proto_map = [(''ip'', None), (''ipv4'', None), (''ip4'', None), (''any'', None), (''all'', None),
     (''icmp'', Some 1), (''igmp'', Some 2), (''tcp'', Some 6), (''udp'', Some 17),
     (''gre'', Some 47), (''esp'', Some 50), (''ah'', Some 51), (''eigrp'', Some 88),
     (''ospf'', Some 89), (''pim'', Some 103), (''sctp'', Some 132)]"

text \<open>The name or number is text at every call of the modelled code.\<close>

definition proto_from_name :: "string \<Rightarrow> int option" where
  "proto_from_name name =
     (let s = py_lower (py_strip name) in
      case dict_get proto_map s of
        Some v \<Rightarrow> v
      | None \<Rightarrow> if py_isdigit s then Some (int (digits_val s)) else None)"

lemma proto_from_name_names:
  "proto_from_name ''icmp'' = Some 1" "proto_from_name ''igmp'' = Some 2" "proto_from_name ''tcp'' = Some 6"
  "proto_from_name ''udp'' = Some 17" "proto_from_name ''gre'' = Some 47" "proto_from_name ''esp'' = Some 50"
  "proto_from_name ''ah'' = Some 51" "proto_from_name ''eigrp'' = Some 88" "proto_from_name ''ospf'' = Some 89"
  "proto_from_name ''pim'' = Some 103" "proto_from_name ''sctp'' = Some 132"
  by code_simp+

section \<open>Packets\<close>

record flow =
  fl_src_ip :: string
  fl_dst_ip :: string
  fl_proto :: string
  fl_sport :: "int option"
  fl_dport :: "int option"
  fl_ingress :: "string option"
  fl_egress :: "string option"
  fl_tcp_flags :: "string option"
  fl_established :: bool
  fl_icmp_type :: "int option"

section \<open>Packet domains\<close>

record fieldset =
  fs_src_ips :: "cube list"
  fs_dst_ips :: "cube list"
  fs_src_ports :: "portset option"
  fs_dst_ports :: "portset option"
  fs_protos :: "int set option"
  fs_ingress :: "string set option"
  fs_egress :: "string set option"
  fs_established :: bool
  fs_opaque :: bool
  fs_icmp_types :: "int set option"
  fs_narrowing :: "string list"

definition fieldset_default :: fieldset where
  "fieldset_default = \<lparr>fs_src_ips = [cube_any], fs_dst_ips = [cube_any], fs_src_ports = None,
     fs_dst_ports = None, fs_protos = None, fs_ingress = None, fs_egress = None,
     fs_established = False, fs_opaque = False, fs_icmp_types = None, fs_narrowing = []\<rparr>"

definition is_any_any :: "fieldset \<Rightarrow> bool" where
  "is_any_any fs \<longleftrightarrow>
     (if fs_opaque fs then False
      else
        let src_any = list_all cube_is_any (fs_src_ips fs);
            dst_any = list_all cube_is_any (fs_dst_ips fs);
            sport_any = (case fs_src_ports fs of None \<Rightarrow> True | Some ps \<Rightarrow> ports_is_any ps);
            dport_any = (case fs_dst_ports fs of None \<Rightarrow> True | Some ps \<Rightarrow> ports_is_any ps);
            proto_any = (fs_protos fs = None \<and> fs_icmp_types fs = None);
            intf_any = (fs_ingress fs = None \<and> fs_egress fs = None)
        in src_any \<and> dst_any \<and> sport_any \<and> dport_any \<and> proto_any \<and> intf_any
           \<and> \<not> fs_established fs \<and> fs_narrowing fs = [])"

definition fs_contains :: "fieldset \<Rightarrow> fieldset \<Rightarrow> bool" where
  "fs_contains self other \<longleftrightarrow>
     (if fs_opaque self \<or> fs_opaque other then False
      else if fs_narrowing self \<noteq> [] then False
      else if fs_established self \<and> \<not> fs_established other then False
      else if \<not> opt_covers num_covers (fs_protos self) (fs_protos other) then False
      else if \<not> opt_covers num_covers (fs_icmp_types self) (fs_icmp_types other) then False
      else if \<not> list_all (\<lambda>o_cube. list_ex (\<lambda>s_cube. contains_cube s_cube o_cube) (fs_src_ips self))
                  (fs_src_ips other) then False
      else if \<not> list_all (\<lambda>o_cube. list_ex (\<lambda>s_cube. contains_cube s_cube o_cube) (fs_dst_ips self))
                  (fs_dst_ips other) then False
      else if \<not> opt_covers contains_portset (fs_src_ports self) (fs_src_ports other) then False
      else if \<not> opt_covers contains_portset (fs_dst_ports self) (fs_dst_ports other) then False
      else if \<not> opt_covers name_covers (fs_ingress self) (fs_ingress other) then False
      else if \<not> opt_covers name_covers (fs_egress self) (fs_egress other) then False
      else True)"

definition fs_intersects :: "fieldset \<Rightarrow> fieldset \<Rightarrow> bool" where
  "fs_intersects self other \<longleftrightarrow>
     (if fs_opaque self \<or> fs_opaque other then False
      else if \<not> opt_meets num_meets (fs_protos self) (fs_protos other) then False
      else if \<not> opt_meets num_meets (fs_icmp_types self) (fs_icmp_types other) then False
      else if \<not> list_ex (\<lambda>s. list_ex (cube_intersects s) (fs_src_ips other)) (fs_src_ips self) then False
      else if \<not> list_ex (\<lambda>s. list_ex (cube_intersects s) (fs_dst_ips other)) (fs_dst_ips self) then False
      else if \<not> opt_meets ports_intersect (fs_src_ports self) (fs_src_ports other) then False
      else if \<not> opt_meets ports_intersect (fs_dst_ports self) (fs_dst_ports other) then False
      else if \<not> opt_meets name_meets (fs_ingress self) (fs_ingress other) then False
      else if \<not> opt_meets name_meets (fs_egress self) (fs_egress other) then False
      else True)"

text \<open>The packet says it belongs to an established connection.\<close>

definition flow_established :: "flow \<Rightarrow> bool" where
  "flow_established f \<longleftrightarrow> fl_established f \<or>
     (case fl_tcp_flags f of
        None \<Rightarrow> False
      | Some flags \<Rightarrow> flags \<noteq> [] \<and> str_contains ''established'' (py_lower flags))"

definition match_known_dimensions :: "fieldset \<Rightarrow> flow \<Rightarrow> bool" where
  "match_known_dimensions fs f \<longleftrightarrow>
     (if fs_established fs \<and> \<not> flow_established f then False
      else if \<not> opt_mem num_mem (fs_protos fs) (proto_from_name (fl_proto f)) then False
      else if \<not> opt_mem num_mem (fs_icmp_types fs) (fl_icmp_type f) then False
      else case ip_to_int (fl_src_ip f) of
        Inl _ \<Rightarrow> False
      | Inr s_ip \<Rightarrow>
          if \<not> list_ex (\<lambda>c. contains_ip c s_ip) (fs_src_ips fs) then False
          else case ip_to_int (fl_dst_ip f) of
            Inl _ \<Rightarrow> False
          | Inr d_ip \<Rightarrow>
              if \<not> list_ex (\<lambda>c. contains_ip c d_ip) (fs_dst_ips fs) then False
              else if \<not> opt_mem contains_port (fs_src_ports fs) (fl_sport f) then False
              else if \<not> opt_mem contains_port (fs_dst_ports fs) (fl_dport f) then False
              else if \<not> opt_mem name_mem (fs_ingress fs) (fl_ingress f) then False
              else if \<not> opt_mem name_mem (fs_egress fs) (fl_egress f) then False
              else True)"

definition fs_matches :: "fieldset \<Rightarrow> flow \<Rightarrow> bool" where
  "fs_matches fs f \<longleftrightarrow> (if fs_opaque fs then False else match_known_dimensions fs f)"

definition fs_may_match :: "fieldset \<Rightarrow> flow \<Rightarrow> bool" where
  "fs_may_match fs f \<longleftrightarrow> match_known_dimensions fs f"

section \<open>Well-formed domains\<close>

text \<open>What every constructor call of the front ends establishes.\<close>

definition fs_wf :: "fieldset \<Rightarrow> bool" where
  "fs_wf fs \<longleftrightarrow> list_all cube_wf (fs_src_ips fs) \<and> list_all cube_wf (fs_dst_ips fs)
     \<and> pred_option ports_nf (fs_src_ports fs) \<and> pred_option ports_nf (fs_dst_ports fs)"

text \<open>A packet whose two addresses parse.\<close>

definition flow_addressed :: "flow \<Rightarrow> bool" where
  "flow_addressed f \<longleftrightarrow> (\<exists>s d. ip_to_int (fl_src_ip f) = Inr s \<and> ip_to_int (fl_dst_ip f) = Inr d)"

text \<open>A packet for the witnesses below and in the components that build on this one.\<close>

definition sample_flow :: flow where
  "sample_flow = \<lparr>fl_src_ip = ''10.0.0.1'', fl_dst_ip = ''192.0.2.7'', fl_proto = ''tcp'', fl_sport = Some 1024,
     fl_dport = Some 443, fl_ingress = None, fl_egress = None, fl_tcp_flags = None,
     fl_established = False, fl_icmp_type = None\<rparr>"

text \<open>A packet with every dimension given, and ports that a packet can carry.\<close>

definition flow_concrete :: "flow \<Rightarrow> bool" where
  "flow_concrete f \<longleftrightarrow> proto_from_name (fl_proto f) \<noteq> None \<and> fl_icmp_type f \<noteq> None
     \<and> fl_sport f \<noteq> None \<and> fl_dport f \<noteq> None \<and> fl_ingress f \<noteq> None \<and> fl_egress f \<noteq> None"

lemma match_known_dimensions_iff:
  "match_known_dimensions fs f \<longleftrightarrow>
     (fs_established fs \<longrightarrow> flow_established f)
     \<and> opt_mem num_mem (fs_protos fs) (proto_from_name (fl_proto f))
     \<and> opt_mem num_mem (fs_icmp_types fs) (fl_icmp_type f)
     \<and> (\<exists>s d. ip_to_int (fl_src_ip f) = Inr s \<and> ip_to_int (fl_dst_ip f) = Inr d
          \<and> list_ex (\<lambda>c. contains_ip c s) (fs_src_ips fs)
          \<and> list_ex (\<lambda>c. contains_ip c d) (fs_dst_ips fs))
     \<and> opt_mem contains_port (fs_src_ports fs) (fl_sport f)
     \<and> opt_mem contains_port (fs_dst_ports fs) (fl_dport f)
     \<and> opt_mem name_mem (fs_ingress fs) (fl_ingress f)
     \<and> opt_mem name_mem (fs_egress fs) (fl_egress f)"
  by (cases "ip_to_int (fl_src_ip f)"; cases "ip_to_int (fl_dst_ip f)")
    (simp_all add: match_known_dimensions_def)

lemma fs_matches_iff: "fs_matches fs f \<longleftrightarrow> \<not> fs_opaque fs \<and> match_known_dimensions fs f"
  by (simp add: fs_matches_def)

lemma fs_may_match_eq_matches: "\<not> fs_opaque fs \<Longrightarrow> fs_may_match fs f = fs_matches fs f"
  by (simp add: fs_matches_def fs_may_match_def)

lemma fs_contains_match_known:
  assumes wf: "fs_wf a" and cov: "fs_contains a b" and m: "match_known_dimensions b f"
  shows "match_known_dimensions a f"
proof -
  have c: "\<not> fs_opaque a" "fs_established a \<Longrightarrow> fs_established b"
    "opt_covers num_covers (fs_protos a) (fs_protos b)"
    "opt_covers num_covers (fs_icmp_types a) (fs_icmp_types b)"
    "list_all (\<lambda>oc. list_ex (\<lambda>sc. contains_cube sc oc) (fs_src_ips a)) (fs_src_ips b)"
    "list_all (\<lambda>oc. list_ex (\<lambda>sc. contains_cube sc oc) (fs_dst_ips a)) (fs_dst_ips b)"
    "opt_covers contains_portset (fs_src_ports a) (fs_src_ports b)"
    "opt_covers contains_portset (fs_dst_ports a) (fs_dst_ports b)"
    "opt_covers name_covers (fs_ingress a) (fs_ingress b)"
    "opt_covers name_covers (fs_egress a) (fs_egress b)"
    using cov by (auto simp: fs_contains_def split: if_splits)
  from m obtain s d where ips: "ip_to_int (fl_src_ip f) = Inr s" "ip_to_int (fl_dst_ip f) = Inr d"
    "list_ex (\<lambda>c. contains_ip c s) (fs_src_ips b)" "list_ex (\<lambda>c. contains_ip c d) (fs_dst_ips b)"
    unfolding match_known_dimensions_iff by blast
  have "list_ex (\<lambda>c. contains_ip c s) (fs_src_ips a)" "list_ex (\<lambda>c. contains_ip c d) (fs_dst_ips a)"
    using wf c(5,6) ips(3,4) by (auto simp: fs_wf_def intro: cube_dom.list_covers_sound)
  moreover have "opt_mem num_mem (fs_protos a) (proto_from_name (fl_proto f))"
    "opt_mem num_mem (fs_icmp_types a) (fl_icmp_type f)"
    using m num_dom.opt_covers_sound [OF _ c(3)] num_dom.opt_covers_sound [OF _ c(4)]
    unfolding match_known_dimensions_iff by (simp_all add: option.pred_True)
  moreover have "opt_mem contains_port (fs_src_ports a) (fl_sport f)"
    "opt_mem contains_port (fs_dst_ports a) (fl_dport f)"
    using m wf port_dom.opt_covers_sound [OF _ c(7)] port_dom.opt_covers_sound [OF _ c(8)]
    unfolding match_known_dimensions_iff fs_wf_def by simp_all
  moreover have "opt_mem name_mem (fs_ingress a) (fl_ingress f)" "opt_mem name_mem (fs_egress a) (fl_egress f)"
    using m name_dom.opt_covers_sound [OF _ c(9)] name_dom.opt_covers_sound [OF _ c(10)]
    unfolding match_known_dimensions_iff by (simp_all add: option.pred_True)
  ultimately show ?thesis
    using m c(2) ips(1,2) unfolding match_known_dimensions_iff by blast
qed


lemma fs_contains_not_opaque: "fs_contains a b \<Longrightarrow> \<not> fs_opaque a \<and> \<not> fs_opaque b"
  by (simp add: fs_contains_def split: if_splits)

lemma fs_contains_matches:
  "fs_wf a \<Longrightarrow> fs_contains a b \<Longrightarrow> fs_matches b f \<Longrightarrow> fs_matches a f"
  using fs_contains_match_known [of a b f] fs_contains_not_opaque [of a b]
  by (simp add: fs_matches_iff)

lemma fs_intersects_complete:
  assumes wf: "fs_wf a" "fs_wf b" and conc: "flow_concrete f"
    and m: "fs_matches a f" "fs_matches b f"
  shows "fs_intersects a b"
proof -
  from conc obtain p i sp dp ig eg where f:
    "proto_from_name (fl_proto f) = Some p" "fl_icmp_type f = Some i" "fl_sport f = Some sp"
    "fl_dport f = Some dp" "fl_ingress f = Some ig" "fl_egress f = Some eg"
    by (auto simp: flow_concrete_def)
  from m obtain s d where ips: "ip_to_int (fl_src_ip f) = Inr s" "ip_to_int (fl_dst_ip f) = Inr d"
    "list_ex (\<lambda>c. contains_ip c s) (fs_src_ips a)" "list_ex (\<lambda>c. contains_ip c s) (fs_src_ips b)"
    "list_ex (\<lambda>c. contains_ip c d) (fs_dst_ips a)" "list_ex (\<lambda>c. contains_ip c d) (fs_dst_ips b)"
    by (auto simp: fs_matches_iff match_known_dimensions_iff)
  have k: "match_known_dimensions a f" "match_known_dimensions b f" "\<not> fs_opaque a" "\<not> fs_opaque b"
    using m by (simp_all add: fs_matches_iff)
  note km = k(1,2) [unfolded match_known_dimensions_iff f]
  have "opt_meets num_meets (fs_protos a) (fs_protos b)"
    "opt_meets num_meets (fs_icmp_types a) (fs_icmp_types b)"
    by (rule num_dom.opt_meets_complete [where p = p] num_dom.opt_meets_complete [where p = i];
        use km in \<open>simp add: option.pred_True\<close>)+
  moreover have "opt_meets ports_intersect (fs_src_ports a) (fs_src_ports b)"
    by (rule port_dom.opt_meets_complete [where p = sp]) (use km wf in \<open>simp_all add: fs_wf_def\<close>)
  moreover have "opt_meets ports_intersect (fs_dst_ports a) (fs_dst_ports b)"
    by (rule port_dom.opt_meets_complete [where p = dp]) (use km wf in \<open>simp_all add: fs_wf_def\<close>)
  moreover have "opt_meets name_meets (fs_ingress a) (fs_ingress b)"
    by (rule name_dom.opt_meets_complete [where p = ig]) (use km in \<open>simp_all add: option.pred_True\<close>)
  moreover have "opt_meets name_meets (fs_egress a) (fs_egress b)"
    by (rule name_dom.opt_meets_complete [where p = eg]) (use km in \<open>simp_all add: option.pred_True\<close>)
  moreover have "list_ex (\<lambda>s. list_ex (cube_intersects s) (fs_src_ips b)) (fs_src_ips a)"
    "list_ex (\<lambda>s. list_ex (cube_intersects s) (fs_dst_ips b)) (fs_dst_ips a)"
    using wf ips by (auto simp: fs_wf_def intro: cube_dom.list_meets_complete)
  ultimately show ?thesis using k(3,4) by (simp add: fs_intersects_def)
qed

lemma list_all_any_contains:
  "list_all cube_wf cs \<Longrightarrow> list_all cube_is_any cs \<Longrightarrow> cs \<noteq> [] \<Longrightarrow> list_ex (\<lambda>c. contains_ip c ip) cs"
  by (cases cs) (auto intro: cube_is_any_contains)

lemma is_any_any_matches:
  assumes "fs_wf fs" and "is_any_any fs" and "fs_src_ips fs \<noteq> []" "fs_dst_ips fs \<noteq> []"
    and "flow_addressed f"
    and "pred_option (\<lambda>p. 1 \<le> p \<and> p \<le> 65535) (fl_sport f)" "pred_option (\<lambda>p. 1 \<le> p \<and> p \<le> 65535) (fl_dport f)"
  shows "fs_matches fs f"
proof -
  have ports: "opt_mem contains_port ps x"
    if "case ps of None \<Rightarrow> True | Some q \<Rightarrow> ports_is_any q" "pred_option (\<lambda>p. 1 \<le> p \<and> p \<le> 65535) x"
    for ps x
    using that by (cases ps; cases x) (auto intro: ports_is_any_contains)
  from assms(5) obtain s d where "ip_to_int (fl_src_ip f) = Inr s" "ip_to_int (fl_dst_ip f) = Inr d"
    by (auto simp: flow_addressed_def)
  with assms show ?thesis
    by (auto simp: fs_matches_iff match_known_dimensions_iff is_any_any_def Let_def fs_wf_def
        intro!: list_all_any_contains ports split: if_splits)
qed

text \<open>A domain that no earlier rule overlaps cannot be caught by that rule.\<close>

lemma fs_disjoint_not_both:
  "fs_wf a \<Longrightarrow> fs_wf b \<Longrightarrow> flow_concrete f \<Longrightarrow> \<not> fs_intersects a b \<Longrightarrow> \<not> (fs_matches a f \<and> fs_matches b f)"
  using fs_intersects_complete by blast

section \<open>Properties of packet domains\<close>

text \<open>
  \<open>FieldSet.contains\<close> is sound: where one well-formed domain contains another, every packet
  that matches the contained one matches the containing one, on every dimension and for packets
  with dimensions left open.
\<close>

theorem contains_implies_matches:
  assumes "fs_wf a" and "fs_contains a b" and "fs_matches b f"
  shows "fs_matches a f"
  using assms by (rule fs_contains_matches)

theorem contains_implies_matches_witness:
  "\<exists>a b f. fs_matches b f \<and> fs_matches a f \<and> a \<noteq> b"
proof -
  let ?a = "fieldset_default\<lparr>fs_protos := Some {6, 17}\<rparr>"
  let ?b = "fieldset_default\<lparr>fs_protos := Some {6}, fs_dst_ports := Some [(80, 80)]\<rparr>"
  let ?f = "\<lparr>fl_src_ip = ''10.0.0.1'', fl_dst_ip = ''192.0.2.7'', fl_proto = ''tcp'', fl_sport = None,
    fl_dport = Some 80, fl_ingress = None, fl_egress = None, fl_tcp_flags = None,
    fl_established = False, fl_icmp_type = None\<rparr>"
  have "fs_wf ?a" by (simp add: fs_wf_def fieldset_default_def)
  moreover have "fs_contains ?a ?b" "fs_matches ?b ?f" by code_simp+
  moreover from calculation have "fs_matches ?a ?f" by (rule contains_implies_matches)
  moreover have "?a \<noteq> ?b" by (simp add: fieldset_default_def)
  ultimately show ?thesis by blast
qed

text \<open>
  \<open>FieldSet.intersects\<close> misses no overlap: two well-formed domains that match one packet
  with every dimension given intersect. (The converse fails: the qualifier \<open>established\<close> is not
  looked at.)
\<close>

theorem common_packet_intersects:
  assumes "fs_wf a" "fs_wf b" and "flow_concrete f" and "fs_matches a f" "fs_matches b f"
  shows "fs_intersects a b \<and> fs_intersects b a"
  using assms fs_intersects_complete by blast

theorem common_packet_intersects_witness:
  "fs_intersects (fieldset_default\<lparr>fs_dst_ports := Some [(80, 443)]\<rparr>)
     (fieldset_default\<lparr>fs_protos := Some {6}, fs_dst_ports := Some [(100, 200)]\<rparr>)"
proof -
  let ?a = "fieldset_default\<lparr>fs_dst_ports := Some [(80, 443)]\<rparr>"
  let ?b = "fieldset_default\<lparr>fs_protos := Some {6}, fs_dst_ports := Some [(100, 200)]\<rparr>"
  let ?f = "\<lparr>fl_src_ip = ''10.0.0.1'', fl_dst_ip = ''192.0.2.7'', fl_proto = ''tcp'', fl_sport = Some 1024,
    fl_dport = Some 150, fl_ingress = Some ''a'', fl_egress = Some ''b'', fl_tcp_flags = None,
    fl_established = False, fl_icmp_type = Some 0\<rparr>"
  have wf: "fs_wf ?a" "fs_wf ?b" by (simp_all add: fs_wf_def fieldset_default_def)
  have "flow_concrete ?f" "fs_matches ?a ?f" "fs_matches ?b ?f" by code_simp+
  from common_packet_intersects [OF wf this] show ?thesis by blast
qed

text \<open>
  A domain that \<open>is_any_any\<close> accepts matches every packet whose addresses parse and whose
  ports, where given, are in 1..65535.
\<close>

theorem any_any_matches_all:
  assumes "fs_wf fs" and "is_any_any fs" and "fs_src_ips fs \<noteq> []" "fs_dst_ips fs \<noteq> []"
    and "flow_addressed f"
    and "pred_option (\<lambda>p. 1 \<le> p \<and> p \<le> 65535) (fl_sport f)" "pred_option (\<lambda>p. 1 \<le> p \<and> p \<le> 65535) (fl_dport f)"
  shows "fs_matches fs f"
  using assms by (rule is_any_any_matches)

theorem any_any_matches_all_witness:
  "fs_matches (fieldset_default\<lparr>fs_dst_ports := Some [(1, 65535)]\<rparr>)
     \<lparr>fl_src_ip = ''10.0.0.1'', fl_dst_ip = ''192.0.2.7'', fl_proto = ''gre'', fl_sport = None,
      fl_dport = Some 1, fl_ingress = None, fl_egress = None, fl_tcp_flags = None,
      fl_established = False, fl_icmp_type = None\<rparr>"
proof (rule any_any_matches_all)
  show "flow_addressed \<lparr>fl_src_ip = ''10.0.0.1'', fl_dst_ip = ''192.0.2.7'', fl_proto = ''gre'',
      fl_sport = None, fl_dport = Some 1, fl_ingress = None, fl_egress = None, fl_tcp_flags = None,
      fl_established = False, fl_icmp_type = None\<rparr>"
    unfolding flow_addressed_def flow.simps
    by (intro exI [of _ "0x0A000001"] exI [of _ "0xC0000207"]) code_simp
  show "fs_wf (fieldset_default\<lparr>fs_dst_ports := Some [(1, 65535)]\<rparr>)"
    by (simp add: fs_wf_def fieldset_default_def)
  show "is_any_any (fieldset_default\<lparr>fs_dst_ports := Some [(1, 65535)]\<rparr>)" by code_simp
qed (simp_all add: fieldset_default_def)

end
