(* ===== verification/Rules_Routes.thy ===== *)
theory Rules_Routes
  imports Match_Model
begin

text \<open>
  \<open>Rule\<close>, \<open>RuleSet\<close>, \<open>Route\<close>, \<open>RouteTable\<close>, \<open>Step\<close> and \<open>Trace\<close> of
  \<open>services/policy_test/model.py\<close>. Shown here: the route lookup is a longest-prefix match with
  the documented tie-break, and a trace lists every unresolved reason once.
\<close>

section \<open>Rules\<close>

record rule =
  r_id :: string
  r_name :: string
  r_action :: string
  r_fields :: fieldset
  r_disabled :: bool
  r_raw :: string
  r_line_no :: "int option"
  r_nat :: bool
  r_unresolved :: "string list"

definition rule_default :: "string \<Rightarrow> rule" where
  "rule_default i = \<lparr>r_id = i, r_name = [], r_action = ''permit'', r_fields = fieldset_default,
     r_disabled = False, r_raw = [], r_line_no = None, r_nat = False, r_unresolved = []\<rparr>"

record ruleset =
  rs_name :: string
  rs_kind :: string
  rs_rules :: "rule list"
  rs_default_action :: string
  rs_unresolved :: "string list"

definition ruleset_new :: "string \<Rightarrow> string \<Rightarrow> ruleset" where
  "ruleset_new nm kind = \<lparr>rs_name = nm, rs_kind = kind, rs_rules = [], rs_default_action = ''deny'',
     rs_unresolved = []\<rparr>"

section \<open>Routes\<close>

record route =
  rt_prefix :: string
  rt_cube :: cube
  rt_next_hop :: "string option"
  rt_interface :: string
  rt_source :: string
  rt_distance :: int
  rt_metric :: int

record route_table =
  tb_routes :: "route list"
  tb_dynamic :: bool
  tb_protocols :: "string list"

definition route_table_empty :: route_table where
  "route_table_empty = \<lparr>tb_routes = [], tb_dynamic = False, tb_protocols = []\<rparr>"

text \<open>\<open>mask_to_prefix_len(mask) or 0\<close>.\<close>

definition route_plen :: "route \<Rightarrow> int" where
  "route_plen r = (case mask_to_prefix_len (cube_mask (rt_cube r)) of None \<Rightarrow> 0 | Some n \<Rightarrow> int n)"

text \<open>The loop body: the state is \<open>(best_match, best_prefix_len)\<close>.\<close>

fun lookup_step :: "u32 \<Rightarrow> route \<Rightarrow> route option \<times> int \<Rightarrow> route option \<times> int" where
  "lookup_step ip r (best, best_len) =
     (if contains_ip (rt_cube r) ip then
        let p_len = route_plen r in
        if p_len > best_len then (Some r, p_len)
        else if p_len = best_len then
          (case best of
             None \<Rightarrow> (best, best_len)
           | Some b \<Rightarrow>
               if rt_source r = ''connected'' \<and> rt_source b \<noteq> ''connected'' then (Some r, best_len)
               else if rt_distance r < rt_distance b then (Some r, best_len)
               else (best, best_len))
        else (best, best_len)
      else (best, best_len))"

definition route_lookup :: "route_table \<Rightarrow> string \<Rightarrow> route option" where
  "route_lookup tb dst =
     (case ip_to_int dst of
        Inl _ \<Rightarrow> None
      | Inr ip \<Rightarrow> fst (fold (lookup_step ip) (tb_routes tb) (None, -1)))"

definition connected_subnets :: "route_table \<Rightarrow> route list" where
  "connected_subnets tb = filter (\<lambda>r. rt_source r = ''connected'') (tb_routes tb)"

text \<open>\<open>mask_to_prefix_len(mask) or d\<close>, as text after the network.\<close>

definition prefix_text :: "nat \<Rightarrow> cube \<Rightarrow> string" where
  "prefix_text d c = int_to_ip (cube_value c) @ ''/'' @
     str_nat (case mask_to_prefix_len (cube_mask c) of None \<Rightarrow> d | Some n \<Rightarrow> if n = 0 then d else n)"

section \<open>Steps and traces\<close>

datatype step_kind = K_acl_in | K_route | K_acl_out | K_policy | K_skipped_policy | K_note
datatype step_action = A_permit | A_deny | A_unknown | A_skip
datatype verdict = PERMIT | DENY | UNKNOWN

record step =
  st_kind :: step_kind
  st_acl :: "string option"
  st_matched :: "string option"
  st_action :: step_action
  st_rule_id :: "string option"
  st_raw :: "string option"
  st_prefix :: "string option"
  st_next_hop :: "string option"
  st_egress :: "string option"
  st_source :: "string option"
  st_note :: "string option"

definition new_step :: "step_kind \<Rightarrow> step_action \<Rightarrow> step" where
  "new_step k a = \<lparr>st_kind = k, st_acl = None, st_matched = None, st_action = a, st_rule_id = None,
     st_raw = None, st_prefix = None, st_next_hop = None, st_egress = None, st_source = None,
     st_note = None\<rparr>"

record trace =
  tr_verdict :: verdict
  tr_steps :: "step list"
  tr_implicit_deny :: bool
  tr_dynamic :: bool
  tr_unresolved :: "string list"
  tr_nat :: bool
  tr_flow :: flow

text \<open>The loop of \<open>__post_init__\<close>: the first occurrence of every reason, in order.\<close>

fun dedup :: "string set \<Rightarrow> string list \<Rightarrow> string list" where
  "dedup seen [] = []"
| "dedup seen (x # xs) = (if x \<notin> seen then x # dedup (insert x seen) xs else dedup seen xs)"

definition mk_trace :: "verdict \<Rightarrow> step list \<Rightarrow> bool \<Rightarrow> bool \<Rightarrow> string list \<Rightarrow> bool \<Rightarrow> flow \<Rightarrow> trace" where
  "mk_trace v steps implicit dyn unres nat_applied f =
     \<lparr>tr_verdict = v, tr_steps = steps, tr_implicit_deny = implicit, tr_dynamic = dyn,
      tr_unresolved = dedup {} unres, tr_nat = nat_applied, tr_flow = f\<rparr>"

lemma mk_trace_simps [simp]:
  "tr_verdict (mk_trace v st i d u n f) = v"
  "tr_steps (mk_trace v st i d u n f) = st"
  "tr_implicit_deny (mk_trace v st i d u n f) = i"
  "tr_dynamic (mk_trace v st i d u n f) = d"
  "tr_unresolved (mk_trace v st i d u n f) = dedup {} u"
  "tr_nat (mk_trace v st i d u n f) = n"
  "tr_flow (mk_trace v st i d u n f) = f"
  by (simp_all add: mk_trace_def)

lemma set_dedup: "set (dedup seen xs) = set xs - seen"
  by (induction xs arbitrary: seen) auto

lemma distinct_dedup: "distinct (dedup seen xs)"
  by (induction xs arbitrary: seen) (auto simp: set_dedup)

lemma dedup_distinct_id: "distinct xs \<Longrightarrow> set xs \<inter> seen = {} \<Longrightarrow> dedup seen xs = xs"
  by (induction xs arbitrary: seen) auto

section \<open>The lookup\<close>

text \<open>
  What the fold maintains: the best route so far is one of the routes seen that match, has the
  longest prefix among them, and, where every connected route has distance 0 and no distance is
  negative (as the front ends build them), is first in the tie-break among the longest ones.
\<close>

definition better_or_eq :: "route \<Rightarrow> route \<Rightarrow> bool" where
  "better_or_eq r r' \<longleftrightarrow>
     route_plen r' < route_plen r \<or>
     route_plen r' = route_plen r \<and> rt_distance r \<le> rt_distance r'
       \<and> (rt_source r' = ''connected'' \<longrightarrow> rt_source r = ''connected'')"

definition distances_ok :: "route list \<Rightarrow> bool" where
  "distances_ok rs \<longleftrightarrow>
     list_all (\<lambda>r. 0 \<le> rt_distance r \<and> (rt_source r = ''connected'' \<longrightarrow> rt_distance r = 0)) rs"

definition best_inv :: "u32 \<Rightarrow> route list \<Rightarrow> route option \<times> int \<Rightarrow> bool" where
  "best_inv ip seen s \<longleftrightarrow>
     (case fst s of
        None \<Rightarrow> snd s = -1 \<and> (\<forall>r \<in> set seen. \<not> contains_ip (rt_cube r) ip)
      | Some b \<Rightarrow> b \<in> set seen \<and> contains_ip (rt_cube b) ip \<and> snd s = route_plen b
          \<and> (\<forall>r \<in> set seen. contains_ip (rt_cube r) ip \<longrightarrow> route_plen r \<le> route_plen b))"

definition tie_inv :: "u32 \<Rightarrow> route list \<Rightarrow> route option \<times> int \<Rightarrow> bool" where
  "tie_inv ip seen s \<longleftrightarrow>
     (\<forall>b. fst s = Some b \<longrightarrow> (\<forall>r \<in> set seen. contains_ip (rt_cube r) ip \<longrightarrow> better_or_eq b r))"

lemma route_plen_nonneg: "0 \<le> route_plen r"
  by (simp add: route_plen_def split: option.split)

lemma lookup_step_best_inv:
  assumes "best_inv ip seen s" shows "best_inv ip (seen @ [r]) (lookup_step ip r s)"
  using assms route_plen_nonneg [of r]
  by (cases s) (auto simp: best_inv_def Let_def split: option.splits)

lemma lookup_step_tie_inv:
  assumes inv: "best_inv ip seen s" "tie_inv ip seen s" and ok: "distances_ok (seen @ [r])"
  shows "tie_inv ip (seen @ [r]) (lookup_step ip r s)"
proof -
  obtain best len where s: "s = (best, len)" by (cases s)
  show ?thesis
  proof (cases best)
    case None
    with inv(1) s show ?thesis
      by (auto simp: best_inv_def tie_inv_def better_or_eq_def Let_def)
  next
    case (Some b)
    with inv s have b: "b \<in> set seen" "len = route_plen b"
      "\<forall>r \<in> set seen. contains_ip (rt_cube r) ip \<longrightarrow> better_or_eq b r"
      by (auto simp: best_inv_def tie_inv_def)
    from ok b(1) have d: "0 \<le> rt_distance r" "0 \<le> rt_distance b"
      "rt_source r = ''connected'' \<longrightarrow> rt_distance r = 0" "rt_source b = ''connected'' \<longrightarrow> rt_distance b = 0"
      by (auto simp: distances_ok_def list_all_iff)
    have trans: "better_or_eq r b \<Longrightarrow> \<forall>q \<in> set seen. contains_ip (rt_cube q) ip \<longrightarrow> better_or_eq r q"
      using b(3) by (fastforce simp: better_or_eq_def)
    show ?thesis
      using s Some b d trans by (auto simp: tie_inv_def better_or_eq_def Let_def)
  qed
qed

lemma lookup_fold_inv:
  "best_inv ip seen s \<Longrightarrow> best_inv ip (seen @ rs) (fold (lookup_step ip) rs s)"
proof (induction rs arbitrary: seen s)
  case (Cons r rs)
  then show ?case using Cons.IH [OF lookup_step_best_inv] by simp
qed simp

lemma lookup_fold_tie:
  "best_inv ip seen s \<Longrightarrow> tie_inv ip seen s \<Longrightarrow> distances_ok (seen @ rs)
     \<Longrightarrow> tie_inv ip (seen @ rs) (fold (lookup_step ip) rs s)"
proof (induction rs arbitrary: seen s)
  case (Cons r rs)
  from Cons.prems(3) have ok: "distances_ok (seen @ [r])" "distances_ok ((seen @ [r]) @ rs)"
    by (simp_all add: distances_ok_def)
  show ?case
    using Cons.IH [OF lookup_step_best_inv [OF Cons.prems(1)]
        lookup_step_tie_inv [OF Cons.prems(1,2) ok(1)] ok(2)] by simp
qed simp

lemma best_inv_init: "best_inv ip [] (None, -1)" "tie_inv ip [] (None, -1)"
  by (simp_all add: best_inv_def tie_inv_def)

lemma route_lookup_best:
  assumes ip: "ip_to_int dst = Inr ip"
  shows "case route_lookup tb dst of
      None \<Rightarrow> \<forall>r \<in> set (tb_routes tb). \<not> contains_ip (rt_cube r) ip
    | Some b \<Rightarrow> b \<in> set (tb_routes tb) \<and> contains_ip (rt_cube b) ip
        \<and> (\<forall>r \<in> set (tb_routes tb). contains_ip (rt_cube r) ip \<longrightarrow> route_plen r \<le> route_plen b)"
  using lookup_fold_inv [OF best_inv_init(1), of ip "tb_routes tb"] ip
  by (auto simp: route_lookup_def best_inv_def split: option.splits)

lemma route_lookup_tie:
  assumes "ip_to_int dst = Inr ip" "distances_ok (tb_routes tb)" "route_lookup tb dst = Some b"
    "r \<in> set (tb_routes tb)" "contains_ip (rt_cube r) ip"
  shows "better_or_eq b r"
  using lookup_fold_tie [OF best_inv_init, of "tb_routes tb" ip] assms
  by (auto simp: route_lookup_def tie_inv_def)

section \<open>Properties of the lookup and of traces\<close>

text \<open>
  \<open>RouteTable.lookup\<close> is a longest-prefix match: a parsable destination gets no route only
  when no prefix contains it, and otherwise a route of the table that contains it and that no
  other containing route beats, first on prefix length, then on a connected source and a lower
  administrative distance.
\<close>

theorem lookup_longest_prefix:
  assumes "ip_to_int dst = Inr ip" and "distances_ok (tb_routes tb)"
  shows "case route_lookup tb dst of
      None \<Rightarrow> \<forall>r \<in> set (tb_routes tb). \<not> contains_ip (rt_cube r) ip
    | Some b \<Rightarrow> b \<in> set (tb_routes tb) \<and> contains_ip (rt_cube b) ip
        \<and> (\<forall>r \<in> set (tb_routes tb). contains_ip (rt_cube r) ip \<longrightarrow> better_or_eq b r)"
  using route_lookup_best [OF assms(1), of tb] route_lookup_tie [OF assms]
  by (auto split: option.splits)

theorem lookup_longest_prefix_witness:
  "\<exists>b. route_lookup
      \<lparr>tb_routes =
         [\<lparr>rt_prefix = ''0.0.0.0/0'', rt_cube = cube_any, rt_next_hop = Some ''192.0.2.1'', rt_interface = ''wan'',
           rt_source = ''static'', rt_distance = 1, rt_metric = 0\<rparr>,
          \<lparr>rt_prefix = ''10.0.0.0/8'', rt_cube = mk_cube 0x0A000000 0xFF000000, rt_next_hop = None, rt_interface = ''lan'',
           rt_source = ''static'', rt_distance = 10, rt_metric = 0\<rparr>],
       tb_dynamic = False, tb_protocols = []\<rparr> ''10.1.1.1'' = Some b \<and> rt_interface b = ''lan''"
proof -
  let ?d = "\<lparr>rt_prefix = ''0.0.0.0/0'', rt_cube = cube_any, rt_next_hop = Some ''192.0.2.1'', rt_interface = ''wan'',
    rt_source = ''static'', rt_distance = 1, rt_metric = 0\<rparr>"
  let ?l = "\<lparr>rt_prefix = ''10.0.0.0/8'', rt_cube = mk_cube 0x0A000000 0xFF000000, rt_next_hop = None,
    rt_interface = ''lan'', rt_source = ''static'', rt_distance = 10, rt_metric = 0\<rparr>"
  let ?tb = "\<lparr>tb_routes = [?d, ?l], tb_dynamic = False, tb_protocols = []\<rparr>"
  have "ip_to_int ''10.1.1.1'' = Inr 0x0A010101" by code_simp
  moreover have "distances_ok (tb_routes ?tb)" by code_simp
  ultimately have l: "case route_lookup ?tb ''10.1.1.1'' of
      None \<Rightarrow> \<forall>r \<in> set (tb_routes ?tb). \<not> contains_ip (rt_cube r) 0x0A010101
    | Some b \<Rightarrow> b \<in> set (tb_routes ?tb) \<and> contains_ip (rt_cube b) 0x0A010101
        \<and> (\<forall>r \<in> set (tb_routes ?tb). contains_ip (rt_cube r) 0x0A010101 \<longrightarrow> better_or_eq b r)"
    by (rule lookup_longest_prefix)
  have c: "contains_ip (mk_cube 0x0A000000 0xFF000000) 0x0A010101" and n: "\<not> better_or_eq ?d ?l" by code_simp+
  show ?thesis
    using l c n by (cases "route_lookup ?tb ''10.1.1.1''") auto
qed

text \<open>
  A trace lists every reason for uncertainty exactly once, in the order of the first
  mention, whatever list it was built from.
\<close>

theorem trace_reasons_once:
  "distinct (tr_unresolved (mk_trace v steps i d reasons n f))
   \<and> set (tr_unresolved (mk_trace v steps i d reasons n f)) = set reasons"
  by (simp add: distinct_dedup set_dedup)

end
