(* ===== verification/Environments.thy ===== *)
theory Environments
  imports Rules_Routes
begin

text \<open>
  The environments the two vendor front ends build and the engine reads:
  \<open>IOSPolicyEnvironment\<close> with its interfaces and object groups (\<open>ios.py\<close>), and
  \<open>FortiOSPolicyEnvironment\<close> with its interfaces, addresses and services (\<open>fortios.py\<close>).
\<close>

record iface =
  if_name :: string
  if_ip :: string
  if_mask :: string
  if_prefix :: string
  if_secondary :: "(string \<times> string \<times> string) list"
  if_acl_in :: "string option"
  if_acl_out :: "string option"
  if_shutdown :: bool

record object_group =
  og_name :: string
  og_kind :: string
  og_cubes :: "cube list"
  og_ports :: "(int \<times> int) list"
  og_refs :: "string list"

record ios_env =
  ie_acls :: "ruleset dict"
  ie_interfaces :: "iface dict"
  ie_routes :: route_table
  ie_groups :: "object_group dict"
  ie_unresolved :: "string list"

definition ios_env_empty :: ios_env where
  "ios_env_empty = \<lparr>ie_acls = [], ie_interfaces = [], ie_routes = route_table_empty,
     ie_groups = [], ie_unresolved = []\<rparr>"

record service =
  sv_protos :: "int set option"
  sv_ports :: "(int \<times> int) list option"
  sv_icmp :: "int set option"

record forti_iface =
  fi_name :: string
  fi_ip :: string
  fi_mask :: string
  fi_status :: string

record forti_env =
  fe_policies :: "rule list"
  fe_routes :: route_table
  fe_interfaces :: "forti_iface dict"
  fe_addresses :: "cube list dict"
  fe_services :: "service dict"
  fe_unresolved :: "string list"

definition forti_env_empty :: forti_env where
  "forti_env_empty = \<lparr>fe_policies = [], fe_routes = route_table_empty, fe_interfaces = [],
     fe_addresses = [], fe_services = [], fe_unresolved = []\<rparr>"

datatype environment = Ios ios_env | Forti forti_env

text \<open>\<open>_is_ip\<close>: the dotted-quad test of both front ends; unlike \<open>ip_to_int\<close> it lets leading zeros pass.\<close>

definition is_ip :: "string \<Rightarrow> bool" where
  "is_ip tok \<longleftrightarrow>
     (let parts = split_on (CHR ''.'') tok in
      if length parts \<noteq> 4 then False
      else list_all (\<lambda>p. py_isdigit p \<and> digits_val p \<le> 255) parts)"

end
