(* ===== verification/Engine.thy ===== *)
theory Engine
  imports Environments
begin

text \<open>
  \<open>services/policy_test/engine.py\<close>: the on-device packet path. A Cisco IOS device runs
  the inbound ACL of the ingress interface, the route lookup and the outbound ACL of the egress
  interface; a FortiOS device runs the route lookup and the ordered policy list. Each early
  return of the code is an \<open>Inl\<close> of a stage here, so the stages compose the way the
  function body does.
\<close>

section \<open>Walking a rule list\<close>

definition rule_stops_walk :: "rule \<Rightarrow> flow \<Rightarrow> bool" where
  "rule_stops_walk r f \<longleftrightarrow>
     (if fs_opaque (r_fields r) \<or> r_unresolved r \<noteq> [] then fs_may_match (r_fields r) f
      else fs_matches (r_fields r) f)"

fun first_match :: "rule list \<Rightarrow> flow \<Rightarrow> rule option" where
  "first_match [] f = None"
| "first_match (r # rs) f = (if rule_stops_walk r f then Some r else first_match rs f)"

definition find_interface :: "iface dict \<Rightarrow> string option \<Rightarrow> iface option" where
  "find_interface interfaces nm =
     (case nm of
        None \<Rightarrow> None
      | Some n \<Rightarrow>
          if n = [] then None
          else case dict_get interfaces n of
            Some entry \<Rightarrow> Some entry
          | None \<Rightarrow> map_option snd
              (find (\<lambda>(iface_name, info). py_lower iface_name = py_lower n) interfaces))"

definition derive_ingress_intf :: "string \<Rightarrow> route_table \<Rightarrow> string option" where
  "derive_ingress_intf src_ip tb =
     (case ip_to_int src_ip of
        Inl _ \<Rightarrow> None
      | Inr ip \<Rightarrow> map_option rt_interface
          (find (\<lambda>r. contains_ip (rt_cube r) ip) (connected_subnets tb)))"

text \<open>\<open>not x\<close> for an optional name: absent or empty.\<close>

definition no_name :: "string option \<Rightarrow> bool" where
  "no_name x \<longleftrightarrow> (case x of None \<Rightarrow> True | Some n \<Rightarrow> n = [])"

definition name_text :: "string option \<Rightarrow> string" where
  "name_text x = (case x of None \<Rightarrow> ''None'' | Some n \<Rightarrow> n)"

section \<open>Cisco IOS\<close>

text \<open>The step that a matched ACE leaves, for either direction.\<close>

definition ace_step :: "step_kind \<Rightarrow> string \<Rightarrow> rule \<Rightarrow> step_action \<Rightarrow> step" where
  "ace_step k acl_name r a = (new_step k a)\<lparr>
     st_acl := Some acl_name,
     st_matched := Some (if r_id r \<noteq> [] then ''seq '' @ r_id r else ''rule''),
     st_rule_id := Some (r_id r),
     st_raw := Some (r_raw r)\<rparr>"

definition implicit_deny_step :: "step_kind \<Rightarrow> string \<Rightarrow> step" where
  "implicit_deny_step k acl_name = (new_step k A_deny)\<lparr>
     st_acl := Some acl_name,
     st_matched := Some ''implicit deny'',
     st_note := Some ''implicit deny at end of ACL''\<rparr>"

text \<open>
  The evaluation of one bound ACL: a final trace, or the permit step with which the walk goes on.
\<close>

definition ios_ingress_acl :: "ios_env \<Rightarrow> string \<Rightarrow> ruleset \<Rightarrow> flow \<Rightarrow> step list \<Rightarrow> trace + step list" where
  "ios_ingress_acl env acl_name acl ef steps =
     (let unresolved = ie_unresolved env; dyn = tb_dynamic (ie_routes env) in
      case first_match (rs_rules acl) ef of
        Some r \<Rightarrow>
          if r_unresolved r \<noteq> [] \<or> fs_opaque (r_fields r) then
            Inl (mk_trace UNKNOWN
              (steps @ [(ace_step K_acl_in acl_name r A_unknown)
                 \<lparr>st_note := Some ''unresolved or opaque ACE''\<rparr>])
              False dyn (unresolved @ r_unresolved r) False ef)
          else if r_action r = ''deny'' then
            Inl (mk_trace DENY (steps @ [ace_step K_acl_in acl_name r A_deny]) False dyn unresolved False ef)
          else Inr (steps @ [ace_step K_acl_in acl_name r A_permit])
      | None \<Rightarrow>
          Inl (mk_trace DENY (steps @ [implicit_deny_step K_acl_in acl_name]) True dyn unresolved False ef))"

definition ios_ingress_stage :: "ios_env \<Rightarrow> string option \<Rightarrow> flow \<Rightarrow> trace + step list" where
  "ios_ingress_stage env ingress ef =
     (let unresolved = ie_unresolved env; dyn = tb_dynamic (ie_routes env) in
      case find_interface (ie_interfaces env) ingress of
        Some info \<Rightarrow>
          (case if_acl_in info of
             Some acl_name \<Rightarrow>
               (case (if acl_name \<noteq> [] then dict_get (ie_acls env) acl_name else None) of
                  Some acl \<Rightarrow> ios_ingress_acl env acl_name acl ef []
                | None \<Rightarrow> Inr [(new_step K_acl_in A_permit)
                    \<lparr>st_note := Some (''no inbound ACL bound on '' @ name_text ingress)\<rparr>])
           | None \<Rightarrow> Inr [(new_step K_acl_in A_permit)
                \<lparr>st_note := Some (''no inbound ACL bound on '' @ name_text ingress)\<rparr>])
      | None \<Rightarrow>
          if \<not> no_name ingress then
            Inl (mk_trace UNKNOWN
              [(new_step K_acl_in A_unknown)
                 \<lparr>st_note := Some (''interface '' @ name_text ingress @ '' does not exist on this device'')\<rparr>]
              False dyn
              (unresolved @ [''ingress interface '' @ [CHR 0x27] @ name_text ingress @ [CHR 0x27]
                 @ '' is not configured on this device'']) False ef)
          else
            Inr [(new_step K_acl_in A_permit)
              \<lparr>st_note := Some ''ingress interface unknown; inbound ACL skipped''\<rparr>])"

definition no_route_step :: step where
  "no_route_step = (new_step K_route A_unknown)\<lparr>
     st_matched := Some ''no_static_route'',
     st_note := Some ''no connected or static route found for destination''\<rparr>"

definition route_step :: "route \<Rightarrow> step" where
  "route_step r = (new_step K_route A_permit)\<lparr>
     st_prefix := Some (rt_prefix r), st_next_hop := rt_next_hop r,
     st_egress := Some (rt_interface r), st_source := Some (rt_source r)\<rparr>"

text \<open>The route lookup: the egress interface is written into the evaluated flow.\<close>

definition ios_route_stage :: "ios_env \<Rightarrow> flow \<Rightarrow> step list \<Rightarrow> trace + (flow \<times> step list)" where
  "ios_route_stage env ef steps =
     (case route_lookup (ie_routes env) (fl_dst_ip ef) of
        None \<Rightarrow> Inl (mk_trace UNKNOWN (steps @ [no_route_step]) False (tb_dynamic (ie_routes env))
                  (ie_unresolved env) False ef)
      | Some r \<Rightarrow> Inr (ef\<lparr>fl_egress := Some (rt_interface r)\<rparr>, steps @ [route_step r]))"

definition ios_egress_acl :: "ios_env \<Rightarrow> string \<Rightarrow> ruleset \<Rightarrow> flow \<Rightarrow> step list \<Rightarrow> trace + step list" where
  "ios_egress_acl env acl_name acl ef steps =
     (let unresolved = ie_unresolved env; dyn = tb_dynamic (ie_routes env) in
      case first_match (rs_rules acl) ef of
        Some r \<Rightarrow>
          if r_unresolved r \<noteq> [] \<or> fs_opaque (r_fields r) then
            Inl (mk_trace UNKNOWN
              (steps @ [(ace_step K_acl_out acl_name r A_unknown)
                 \<lparr>st_note := Some ''unresolved or opaque ACE''\<rparr>])
              False dyn (unresolved @ r_unresolved r) False ef)
          else if r_action r = ''deny'' then
            Inl (mk_trace DENY (steps @ [ace_step K_acl_out acl_name r A_deny]) False dyn unresolved False ef)
          else Inr (steps @ [ace_step K_acl_out acl_name r A_permit])
      | None \<Rightarrow>
          Inl (mk_trace DENY (steps @ [implicit_deny_step K_acl_out acl_name]) True dyn unresolved False ef))"

definition no_outbound_step :: step where
  "no_outbound_step = (new_step K_acl_out A_permit)\<lparr>st_note := Some ''no ACL bound outbound''\<rparr>"

definition ios_egress_stage :: "ios_env \<Rightarrow> flow \<Rightarrow> step list \<Rightarrow> trace + step list" where
  "ios_egress_stage env ef steps =
     (case find_interface (ie_interfaces env) (fl_egress ef) of
        Some info \<Rightarrow>
          (case if_acl_out info of
             Some acl_name \<Rightarrow>
               (case (if acl_name \<noteq> [] then dict_get (ie_acls env) acl_name else None) of
                  Some acl \<Rightarrow> ios_egress_acl env acl_name acl ef steps
                | None \<Rightarrow> Inr (steps @ [no_outbound_step]))
           | None \<Rightarrow> Inr (steps @ [no_outbound_step]))
      | None \<Rightarrow> Inr (steps @ [no_outbound_step]))"

definition ios_ingress_name :: "ios_env \<Rightarrow> flow \<Rightarrow> string option" where
  "ios_ingress_name env f =
     (if no_name (fl_ingress f) then derive_ingress_intf (fl_src_ip f) (ie_routes env)
      else fl_ingress f)"

definition evaluate_ios :: "ios_env \<Rightarrow> flow \<Rightarrow> trace" where
  "evaluate_ios env f =
     (let ingress = ios_ingress_name env f; ef = f\<lparr>fl_ingress := ingress\<rparr> in
      case ios_ingress_stage env ingress ef of
        Inl t \<Rightarrow> t
      | Inr steps \<Rightarrow>
          (case ios_route_stage env ef steps of
             Inl t \<Rightarrow> t
           | Inr (ef', steps') \<Rightarrow>
               (case ios_egress_stage env ef' steps' of
                  Inl t \<Rightarrow> t
                | Inr steps'' \<Rightarrow>
                    mk_trace PERMIT steps'' False (tb_dynamic (ie_routes env)) (ie_unresolved env) False ef')))"

section \<open>FortiOS\<close>

definition policy_label :: "rule \<Rightarrow> string" where "policy_label r = ''policy '' @ r_id r"

definition policy_step :: "rule \<Rightarrow> step_action \<Rightarrow> step" where
  "policy_step r a = (new_step K_policy a)\<lparr>
     st_acl := Some (if r_name r \<noteq> [] then r_name r else policy_label r),
     st_matched := Some (policy_label r),
     st_rule_id := Some (r_id r),
     st_raw := Some (r_raw r)\<rparr>"

definition skipped_step :: "rule \<Rightarrow> step" where
  "skipped_step r = (new_step K_skipped_policy A_skip)\<lparr>
     st_acl := Some (if r_name r \<noteq> [] then r_name r else policy_label r),
     st_matched := Some (policy_label r),
     st_rule_id := Some (r_id r),
     st_note := Some ''status disable''\<rparr>"

text \<open>The policy loop: disabled policies leave a step, the first one that stops the walk ends it.\<close>

fun walk_policies :: "rule list \<Rightarrow> flow \<Rightarrow> step list \<Rightarrow> rule option \<times> step list" where
  "walk_policies [] f steps = (None, steps)"
| "walk_policies (p # ps) f steps =
     (if r_disabled p then walk_policies ps f (steps @ [skipped_step p])
      else if rule_stops_walk p f then (Some p, steps)
      else walk_policies ps f steps)"

definition forti_verdict_stage ::
  "rule \<Rightarrow> string list \<Rightarrow> bool \<Rightarrow> flow \<Rightarrow> step list \<Rightarrow> trace" where
  "forti_verdict_stage p unresolved dyn ef steps =
     (if r_unresolved p \<noteq> [] \<or> fs_opaque (r_fields p) then
        mk_trace UNKNOWN
          (steps @ [(policy_step p A_unknown)\<lparr>st_note := Some
             (if r_unresolved p \<noteq> [] then str_join '', '' (r_unresolved p) else ''unresolved object'')\<rparr>])
          False dyn (unresolved @ r_unresolved p) (r_nat p) ef
      else if r_action p = ''deny'' \<or> r_action p = ''drop'' then
        mk_trace DENY (steps @ [policy_step p A_deny]) False dyn unresolved (r_nat p) ef
      else mk_trace PERMIT (steps @ [policy_step p A_permit]) False dyn unresolved (r_nat p) ef)"

definition evaluate_fortios_chain :: "rule list \<Rightarrow> route_table \<Rightarrow> flow \<Rightarrow> string list \<Rightarrow> trace" where
  "evaluate_fortios_chain policies tb f unresolved =
     (let dyn = tb_dynamic tb in
      case route_lookup tb (fl_dst_ip f) of
        None \<Rightarrow> mk_trace UNKNOWN [no_route_step] False dyn unresolved False f
      | Some r \<Rightarrow>
          let ingress = (if no_name (fl_ingress f) then derive_ingress_intf (fl_src_ip f) tb
                         else fl_ingress f);
              ef = f\<lparr>fl_ingress := ingress, fl_egress := Some (rt_interface r)\<rparr>;
              (matched, steps) = walk_policies policies ef [route_step r]
          in case matched of
               Some p \<Rightarrow> forti_verdict_stage p unresolved dyn ef steps
             | None \<Rightarrow>
                 mk_trace DENY
                   (steps @ [(new_step K_policy A_deny)\<lparr>st_acl := Some ''default'',
                      st_matched := Some ''implicit deny'',
                      st_note := Some ''implicit deny (policy 0)''\<rparr>])
                   True dyn unresolved False ef)"

definition evaluate :: "environment \<Rightarrow> flow \<Rightarrow> trace" where
  "evaluate env f =
     (case env of
        Forti e \<Rightarrow> evaluate_fortios_chain (fe_policies e) (fe_routes e) f (fe_unresolved e)
      | Ios e \<Rightarrow> evaluate_ios e f)"

end
