(* ===== verification/Engine_Sound.thy ===== *)
theory Engine_Sound
  imports Engine
begin

text \<open>
  What the engine promises. A rule whose objects could not be resolved is not a rule that
  matches nothing: its true coverage is some unknown part of what was parsed. A device that
  realises a parsed rule list agrees with every decidable rule and may do anything inside the
  widened coverage of an undecidable one. The answers of the engine are exactly the answers
  that hold for every such device: PERMIT and DENY are certain, UNKNOWN is returned only where
  two devices disagree.
\<close>

section \<open>First-match walks\<close>

locale rule_walk =
  fixes stops :: "'r \<Rightarrow> 'p \<Rightarrow> bool"
    and covers :: "'r \<Rightarrow> 'r \<Rightarrow> bool"
  assumes covers_stops: "covers a b \<Longrightarrow> stops b p \<Longrightarrow> stops a p"
begin

abbreviation walk :: "'r list \<Rightarrow> 'p \<Rightarrow> 'r option" where
  "walk rs p \<equiv> find (\<lambda>r. stops r p) rs"

lemma walk_append: "walk (xs @ ys) p = (case walk xs p of None \<Rightarrow> walk ys p | Some r \<Rightarrow> Some r)"
  by (rule find_append)

lemma walk_Some_stops: "walk rs p = Some r \<Longrightarrow> r \<in> set rs \<and> stops r p"
  by (rule find_SomeD)

text \<open>A covered rule can be removed without changing the outcome of any walk.\<close>

lemma covered_rule_is_dead:
  assumes "covers a b"
  shows "walk (xs @ a # ys @ b # zs) p = walk (xs @ a # ys @ zs) p"
proof (cases "stops b p")
  case True
  with assms have "stops a p" by (rule covers_stops)
  then show ?thesis by (simp add: walk_append split: option.split)
next
  case False
  then show ?thesis by (simp add: walk_append split: option.split)
qed

lemma covered_rule_never_chosen:
  assumes "covers a b" and "b \<notin> set (xs @ a # ys @ zs)"
  shows "walk (xs @ a # ys @ b # zs) p \<noteq> Some b"
proof
  assume "walk (xs @ a # ys @ b # zs) p = Some b"
  with covered_rule_is_dead [OF assms(1)] have "walk (xs @ a # ys @ zs) p = Some b" by simp
  then have "b \<in> set (xs @ a # ys @ zs)" using walk_Some_stops by blast
  with assms(2) show False by blast
qed

end

definition rule_covers :: "rule \<Rightarrow> rule \<Rightarrow> bool" where
  "rule_covers a b \<longleftrightarrow> fs_wf (r_fields a) \<and> fs_contains (r_fields a) (r_fields b)"

lemma rule_stops_walk_known: "rule_stops_walk r f \<Longrightarrow> match_known_dimensions (r_fields r) f"
  by (auto simp: rule_stops_walk_def fs_matches_def fs_may_match_def split: if_splits)

lemma rule_stops_walk_iff: "rule_stops_walk r f \<longleftrightarrow> match_known_dimensions (r_fields r) f"
  by (auto simp: rule_stops_walk_def fs_matches_def fs_may_match_def)

interpretation acl_walk: rule_walk rule_stops_walk rule_covers
  by unfold_locales
    (auto simp: rule_covers_def rule_stops_walk_iff intro: fs_contains_match_known)

lemma first_match_find: "first_match rs f = find (\<lambda>r. rule_stops_walk r f) rs"
  by (induction rs) auto

section \<open>Devices that realise a rule list\<close>

definition undecidable :: "rule \<Rightarrow> bool" where
  "undecidable r \<longleftrightarrow> r_unresolved r \<noteq> [] \<or> fs_opaque (r_fields r)"

record device_rule =
  dr_covers :: "flow \<Rightarrow> bool"
  dr_permits :: bool

definition device_permits :: "device_rule list \<Rightarrow> flow \<Rightarrow> bool" where
  "device_permits drs f = (case find (\<lambda>d. dr_covers d f) drs of None \<Rightarrow> False | Some d \<Rightarrow> dr_permits d)"

definition realises :: "(rule \<Rightarrow> bool) \<Rightarrow> flow \<Rightarrow> device_rule \<Rightarrow> rule \<Rightarrow> bool" where
  "realises denies f d r \<longleftrightarrow>
     (if undecidable r then dr_covers d f \<longrightarrow> fs_may_match (r_fields r) f
      else dr_covers d f = fs_matches (r_fields r) f \<and> dr_permits d = (\<not> denies r))"

datatype answer = Ans_permit | Ans_deny | Ans_unknown

definition acl_answer :: "(rule \<Rightarrow> bool) \<Rightarrow> rule list \<Rightarrow> flow \<Rightarrow> answer" where
  "acl_answer denies rules f =
     (case first_match rules f of
        None \<Rightarrow> Ans_deny
      | Some r \<Rightarrow> if undecidable r then Ans_unknown else if denies r then Ans_deny else Ans_permit)"

lemma acl_answer_Nil [simp]: "acl_answer denies [] f = Ans_deny"
  by (simp add: acl_answer_def)

lemma acl_answer_Cons [simp]:
  "acl_answer denies (r # rs) f =
     (if rule_stops_walk r f
      then if undecidable r then Ans_unknown else if denies r then Ans_deny else Ans_permit
      else acl_answer denies rs f)"
  by (simp add: acl_answer_def)

lemma device_permits_Cons [simp]:
  "device_permits (d # ds) f = (if dr_covers d f then dr_permits d else device_permits ds f)"
  by (simp add: device_permits_def)

lemma device_permits_Nil [simp]: "\<not> device_permits [] f"
  by (simp add: device_permits_def)

lemma stops_walk_decidable: "\<not> undecidable r \<Longrightarrow> rule_stops_walk r f = fs_matches (r_fields r) f"
  by (simp add: undecidable_def rule_stops_walk_def)

lemma stops_walk_undecidable: "undecidable r \<Longrightarrow> rule_stops_walk r f = fs_may_match (r_fields r) f"
  by (auto simp: undecidable_def rule_stops_walk_def)

lemma acl_answer_certain:
  assumes "list_all2 (realises denies f) drs rules" and "acl_answer denies rules f \<noteq> Ans_unknown"
  shows "device_permits drs f \<longleftrightarrow> acl_answer denies rules f = Ans_permit"
  using assms
proof (induction drs rules rule: list_all2_induct)
  case (Cons d ds r rs)
  then show ?case
    by (cases "undecidable r")
      (auto simp: realises_def stops_walk_decidable stops_walk_undecidable split: if_splits)
qed simp

text \<open>A device that behaves as parsed, with every undecidable rule covering and answering \<open>b\<close>.\<close>

definition realisation :: "(rule \<Rightarrow> bool) \<Rightarrow> bool \<Rightarrow> flow \<Rightarrow> rule \<Rightarrow> device_rule" where
  "realisation denies b f r = \<lparr>dr_covers = (\<lambda>_. rule_stops_walk r f),
     dr_permits = (if undecidable r then b else \<not> denies r)\<rparr>"

lemma realisation_realises: "list_all2 (realises denies f) (map (realisation denies b f) rules) rules"
  by (induction rules)
    (auto simp: realises_def realisation_def stops_walk_decidable stops_walk_undecidable)

lemma realisation_unknown:
  "acl_answer denies rules f = Ans_unknown \<Longrightarrow> device_permits (map (realisation denies b f) rules) f = b"
  by (induction rules) (auto simp: realisation_def split: if_splits)

lemma acl_answer_unknown_iff:
  "acl_answer denies rules f = Ans_unknown \<longleftrightarrow>
     (\<exists>ds es. list_all2 (realises denies f) ds rules \<and> list_all2 (realises denies f) es rules
        \<and> device_permits ds f \<noteq> device_permits es f)"
proof
  assume unk: "acl_answer denies rules f = Ans_unknown"
  show "\<exists>ds es. list_all2 (realises denies f) ds rules \<and> list_all2 (realises denies f) es rules
        \<and> device_permits ds f \<noteq> device_permits es f"
    by (intro exI [of _ "map (realisation denies True f) rules"] exI [of _ "map (realisation denies False f) rules"])
      (simp add: realisation_realises realisation_unknown [OF unk])
next
  assume "\<exists>ds es. list_all2 (realises denies f) ds rules \<and> list_all2 (realises denies f) es rules
        \<and> device_permits ds f \<noteq> device_permits es f"
  then show "acl_answer denies rules f = Ans_unknown" using acl_answer_certain by blast
qed

lemma acl_answer_permit_iff:
  "acl_answer denies rules f = Ans_permit \<longleftrightarrow>
     (\<forall>ds. list_all2 (realises denies f) ds rules \<longrightarrow> device_permits ds f)"
proof
  assume "acl_answer denies rules f = Ans_permit"
  then show "\<forall>ds. list_all2 (realises denies f) ds rules \<longrightarrow> device_permits ds f"
    using acl_answer_certain [of denies f _ rules] by simp
next
  assume all: "\<forall>ds. list_all2 (realises denies f) ds rules \<longrightarrow> device_permits ds f"
  then have "acl_answer denies rules f \<noteq> Ans_unknown"
    using realisation_unknown [of denies rules f False] realisation_realises by blast
  with all acl_answer_certain [OF realisation_realises] realisation_realises
  show "acl_answer denies rules f = Ans_permit" by blast
qed

lemma acl_answer_deny_iff:
  "acl_answer denies rules f = Ans_deny \<longleftrightarrow>
     (\<forall>ds. list_all2 (realises denies f) ds rules \<longrightarrow> \<not> device_permits ds f)"
proof
  assume "acl_answer denies rules f = Ans_deny"
  then show "\<forall>ds. list_all2 (realises denies f) ds rules \<longrightarrow> \<not> device_permits ds f"
    using acl_answer_certain [of denies f _ rules] by simp
next
  assume all: "\<forall>ds. list_all2 (realises denies f) ds rules \<longrightarrow> \<not> device_permits ds f"
  then have "acl_answer denies rules f \<noteq> Ans_unknown"
    using realisation_unknown [of denies rules f True] realisation_realises by blast
  with all acl_answer_certain [OF realisation_realises] realisation_realises
  show "acl_answer denies rules f = Ans_deny"
    by (cases "acl_answer denies rules f") blast+
qed


section \<open>The IOS chain\<close>

definition ios_denies :: "rule \<Rightarrow> bool" where "ios_denies r \<longleftrightarrow> r_action r = ''deny''"

definition forti_denies :: "rule \<Rightarrow> bool" where
  "forti_denies r \<longleftrightarrow> r_action r = ''deny'' \<or> r_action r = ''drop''"

definition bound_acl :: "(iface \<Rightarrow> string option) \<Rightarrow> ios_env \<Rightarrow> string option \<Rightarrow> ruleset option" where
  "bound_acl sel env nm =
     (case find_interface (ie_interfaces env) nm of
        None \<Rightarrow> None
      | Some info \<Rightarrow>
          (case sel info of None \<Rightarrow> None
           | Some acl \<Rightarrow> if acl \<noteq> [] then dict_get (ie_acls env) acl else None))"

fun answer_verdict :: "answer \<Rightarrow> verdict" where
  "answer_verdict Ans_permit = PERMIT"
| "answer_verdict Ans_deny = DENY"
| "answer_verdict Ans_unknown = UNKNOWN"

definition opt_answer :: "ruleset option \<Rightarrow> flow \<Rightarrow> answer" where
  "opt_answer acl f = (case acl of None \<Rightarrow> Ans_permit | Some rs \<Rightarrow> acl_answer ios_denies (rs_rules rs) f)"

text \<open>The two flows the chain evaluates: with the ingress, then also with the egress interface.\<close>

definition ingress_flow :: "ios_env \<Rightarrow> flow \<Rightarrow> flow" where
  "ingress_flow env f = f\<lparr>fl_ingress := ios_ingress_name env f\<rparr>"

definition egress_flow :: "ios_env \<Rightarrow> flow \<Rightarrow> route \<Rightarrow> flow" where
  "egress_flow env f r = (ingress_flow env f)\<lparr>fl_egress := Some (rt_interface r)\<rparr>"

text \<open>The abstract chain: what is decided, without the report.\<close>

definition ios_spec :: "ios_env \<Rightarrow> flow \<Rightarrow> verdict" where
  "ios_spec env f =
     (let ing = ios_ingress_name env f in
      if find_interface (ie_interfaces env) ing = None \<and> \<not> no_name ing then UNKNOWN
      else case opt_answer (bound_acl if_acl_in env ing) (ingress_flow env f) of
        Ans_permit \<Rightarrow>
          (case route_lookup (ie_routes env) (fl_dst_ip f) of
             None \<Rightarrow> UNKNOWN
           | Some r \<Rightarrow> answer_verdict
               (opt_answer (bound_acl if_acl_out env (Some (rt_interface r))) (egress_flow env f r)))
      | a \<Rightarrow> answer_verdict a)"

lemma ios_ingress_acl_outcome:
  "case ios_ingress_acl env nm acl ef steps of
     Inl t \<Rightarrow> acl_answer ios_denies (rs_rules acl) ef \<noteq> Ans_permit
       \<and> tr_verdict t = answer_verdict (acl_answer ios_denies (rs_rules acl) ef)
   | Inr _ \<Rightarrow> acl_answer ios_denies (rs_rules acl) ef = Ans_permit"
  by (auto simp: ios_ingress_acl_def acl_answer_def undecidable_def ios_denies_def Let_def
      split: option.splits sum.splits)

lemma ios_egress_acl_outcome:
  "case ios_egress_acl env nm acl ef steps of
     Inl t \<Rightarrow> acl_answer ios_denies (rs_rules acl) ef \<noteq> Ans_permit
       \<and> tr_verdict t = answer_verdict (acl_answer ios_denies (rs_rules acl) ef)
   | Inr _ \<Rightarrow> acl_answer ios_denies (rs_rules acl) ef = Ans_permit"
  by (auto simp: ios_egress_acl_def acl_answer_def undecidable_def ios_denies_def Let_def
      split: option.splits sum.splits)

lemma ios_ingress_stage_outcome:
  "case ios_ingress_stage env ing ef of
     Inl t \<Rightarrow> tr_verdict t =
        (if find_interface (ie_interfaces env) ing = None then UNKNOWN
         else answer_verdict (opt_answer (bound_acl if_acl_in env ing) ef))
       \<and> (find_interface (ie_interfaces env) ing = None \<and> \<not> no_name ing
          \<or> find_interface (ie_interfaces env) ing \<noteq> None
            \<and> opt_answer (bound_acl if_acl_in env ing) ef \<noteq> Ans_permit)
   | Inr _ \<Rightarrow> opt_answer (bound_acl if_acl_in env ing) ef = Ans_permit
       \<and> \<not> (find_interface (ie_interfaces env) ing = None \<and> \<not> no_name ing)"
  using ios_ingress_acl_outcome
  by (fastforce simp: ios_ingress_stage_def bound_acl_def opt_answer_def Let_def
      split: option.splits sum.splits if_splits)

lemma ios_egress_stage_outcome:
  "case ios_egress_stage env ef steps of
     Inl t \<Rightarrow> opt_answer (bound_acl if_acl_out env (fl_egress ef)) ef \<noteq> Ans_permit
       \<and> tr_verdict t = answer_verdict (opt_answer (bound_acl if_acl_out env (fl_egress ef)) ef)
   | Inr _ \<Rightarrow> opt_answer (bound_acl if_acl_out env (fl_egress ef)) ef = Ans_permit"
  using ios_egress_acl_outcome
  by (fastforce simp: ios_egress_stage_def bound_acl_def opt_answer_def
      split: option.splits sum.splits if_splits)

lemma evaluate_ios_spec: "tr_verdict (evaluate_ios env f) = ios_spec env f"
proof (cases "ios_ingress_stage env (ios_ingress_name env f) (ingress_flow env f)")
  case (Inl t)
  then show ?thesis
    using ios_ingress_stage_outcome [of env "ios_ingress_name env f" "ingress_flow env f"]
    by (auto simp: evaluate_ios_def ios_spec_def ingress_flow_def Let_def split: answer.splits)
next
  case (Inr steps)
  have ok: "opt_answer (bound_acl if_acl_in env (ios_ingress_name env f)) (ingress_flow env f) = Ans_permit"
    "\<not> (find_interface (ie_interfaces env) (ios_ingress_name env f) = None \<and> \<not> no_name (ios_ingress_name env f))"
    using ios_ingress_stage_outcome [of env "ios_ingress_name env f" "ingress_flow env f"] Inr by simp_all
  have dst: "fl_dst_ip (ingress_flow env f) = fl_dst_ip f" by (simp add: ingress_flow_def)
  show ?thesis
  proof (cases "route_lookup (ie_routes env) (fl_dst_ip f)")
    case None
    with Inr ok dst show ?thesis
      by (simp add: evaluate_ios_def ios_spec_def ingress_flow_def [symmetric] Let_def ios_route_stage_def)
  next
    case (Some r)
    have eg: "fl_egress (egress_flow env f r) = Some (rt_interface r)" by (simp add: egress_flow_def)
    show ?thesis
      using Inr Some ok dst ios_egress_stage_outcome [of env "egress_flow env f r" "steps @ [route_step r]"]
      by (cases "ios_egress_stage env (egress_flow env f r) (steps @ [route_step r])")
        (auto simp: evaluate_ios_def ios_spec_def ingress_flow_def [symmetric] egress_flow_def [symmetric]
          Let_def ios_route_stage_def eg)
  qed
qed

text \<open>A device for a bound ACL: none where no ACL is bound.\<close>

definition acl_realised :: "flow \<Rightarrow> device_rule list option \<Rightarrow> ruleset option \<Rightarrow> bool" where
  "acl_realised f ds acl \<longleftrightarrow>
     (case acl of
        None \<Rightarrow> ds = None
      | Some rs \<Rightarrow> (case ds of None \<Rightarrow> False | Some d \<Rightarrow> list_all2 (realises ios_denies f) d (rs_rules rs)))"

definition opt_device_permits :: "device_rule list option \<Rightarrow> flow \<Rightarrow> bool" where
  "opt_device_permits ds f = (case ds of None \<Rightarrow> True | Some d \<Rightarrow> device_permits d f)"

lemma opt_answer_certain:
  "acl_realised f ds acl \<Longrightarrow> opt_answer acl f \<noteq> Ans_unknown
     \<Longrightarrow> opt_device_permits ds f \<longleftrightarrow> opt_answer acl f = Ans_permit"
  by (auto simp: acl_realised_def opt_answer_def opt_device_permits_def
      dest: acl_answer_certain split: option.splits)

text \<open>The three answers, in terms of every device that realises the bound ACL.\<close>

lemma opt_answer_permit_iff:
  "opt_answer acl f = Ans_permit \<longleftrightarrow> (\<forall>ds. acl_realised f ds acl \<longrightarrow> opt_device_permits ds f)"
  by (cases acl) (auto simp: opt_answer_def acl_realised_def opt_device_permits_def acl_answer_permit_iff
      split: option.splits)

lemma opt_answer_deny_iff:
  "opt_answer acl f = Ans_deny \<longleftrightarrow> (\<forall>ds. acl_realised f ds acl \<longrightarrow> \<not> opt_device_permits ds f)"
  by (cases acl) (auto simp: opt_answer_def acl_realised_def opt_device_permits_def acl_answer_deny_iff
      split: option.splits)

lemma answer_verdict_simps [simp]:
  "answer_verdict a = PERMIT \<longleftrightarrow> a = Ans_permit"
  "answer_verdict a = DENY \<longleftrightarrow> a = Ans_deny"
  "answer_verdict a = UNKNOWN \<longleftrightarrow> a = Ans_unknown"
  by (cases a; simp)+

text \<open>The ingress name is one of the device's interfaces, or none was given or derived.\<close>

definition ingress_known :: "ios_env \<Rightarrow> flow \<Rightarrow> bool" where
  "ingress_known env f \<longleftrightarrow>
     find_interface (ie_interfaces env) (ios_ingress_name env f) \<noteq> None \<or> no_name (ios_ingress_name env f)"

definition ios_in_answer :: "ios_env \<Rightarrow> flow \<Rightarrow> answer" where
  "ios_in_answer env f = opt_answer (bound_acl if_acl_in env (ios_ingress_name env f)) (ingress_flow env f)"

definition ios_out_answer :: "ios_env \<Rightarrow> flow \<Rightarrow> route \<Rightarrow> answer" where
  "ios_out_answer env f r = opt_answer (bound_acl if_acl_out env (Some (rt_interface r))) (egress_flow env f r)"

lemma ios_spec_permit_iff:
  "ios_spec env f = PERMIT \<longleftrightarrow> ingress_known env f \<and> ios_in_answer env f = Ans_permit
     \<and> (\<exists>r. route_lookup (ie_routes env) (fl_dst_ip f) = Some r \<and> ios_out_answer env f r = Ans_permit)"
  by (auto simp: ios_spec_def ingress_known_def ios_in_answer_def ios_out_answer_def Let_def
      split: answer.splits option.splits)

lemma ios_spec_deny_iff:
  "ios_spec env f = DENY \<longleftrightarrow> ingress_known env f \<and> (ios_in_answer env f = Ans_deny
     \<or> ios_in_answer env f = Ans_permit
       \<and> (\<exists>r. route_lookup (ie_routes env) (fl_dst_ip f) = Some r \<and> ios_out_answer env f r = Ans_deny))"
  by (auto simp: ios_spec_def ingress_known_def ios_in_answer_def ios_out_answer_def Let_def
      split: answer.splits option.splits)

section \<open>The FortiOS chain\<close>

definition forti_flow :: "route_table \<Rightarrow> flow \<Rightarrow> route \<Rightarrow> flow" where
  "forti_flow tb f r = f\<lparr>fl_ingress :=
       (if no_name (fl_ingress f) then derive_ingress_intf (fl_src_ip f) tb else fl_ingress f),
     fl_egress := Some (rt_interface r)\<rparr>"

definition enabled_policies :: "rule list \<Rightarrow> rule list" where
  "enabled_policies ps = filter (\<lambda>p. \<not> r_disabled p) ps"

definition forti_spec :: "rule list \<Rightarrow> route_table \<Rightarrow> flow \<Rightarrow> verdict" where
  "forti_spec policies tb f =
     (case route_lookup tb (fl_dst_ip f) of
        None \<Rightarrow> UNKNOWN
      | Some r \<Rightarrow> answer_verdict (acl_answer forti_denies (enabled_policies policies) (forti_flow tb f r)))"

lemma walk_policies_first_match:
  "fst (walk_policies ps f steps) = first_match (enabled_policies ps) f"
  by (induction ps arbitrary: steps) (auto simp: enabled_policies_def)

lemma evaluate_fortios_chain_spec:
  "tr_verdict (evaluate_fortios_chain policies tb f unresolved) = forti_spec policies tb f"
proof (cases "route_lookup tb (fl_dst_ip f)")
  case None
  then show ?thesis by (simp add: evaluate_fortios_chain_def forti_spec_def Let_def)
next
  case (Some r)
  obtain m steps where w: "walk_policies policies (forti_flow tb f r) [route_step r] = (m, steps)"
    by (cases "walk_policies policies (forti_flow tb f r) [route_step r]")
  have "m = first_match (enabled_policies policies) (forti_flow tb f r)"
    using walk_policies_first_match [of policies "forti_flow tb f r" "[route_step r]"] w by simp
  then show ?thesis using Some w
    by (auto simp: evaluate_fortios_chain_def forti_spec_def forti_flow_def [symmetric] Let_def
        acl_answer_def forti_verdict_stage_def undecidable_def forti_denies_def split: option.split)
qed

section \<open>Properties of the evaluation\<close>

text \<open>
  C2: the walk of an access list answers with certainty exactly where every device that realises
  the parsed list agrees: the first matching rule is a decidable permit if and only if all such
  devices permit, there is no match or a decidable deny if and only if all of them deny, and an
  undecidable rule stops the walk if and only if two of them disagree.
\<close>

theorem first_match_exact:
  "((\<exists>r. first_match rules f = Some r \<and> \<not> undecidable r \<and> \<not> denies r)
      \<longleftrightarrow> (\<forall>ds. list_all2 (realises denies f) ds rules \<longrightarrow> device_permits ds f))
   \<and> ((\<forall>r. first_match rules f = Some r \<longrightarrow> \<not> undecidable r \<and> denies r)
      \<longleftrightarrow> (\<forall>ds. list_all2 (realises denies f) ds rules \<longrightarrow> \<not> device_permits ds f))
   \<and> ((\<exists>r. first_match rules f = Some r \<and> undecidable r)
      \<longleftrightarrow> (\<exists>ds es. list_all2 (realises denies f) ds rules \<and> list_all2 (realises denies f) es rules
            \<and> device_permits ds f \<noteq> device_permits es f))"
  unfolding acl_answer_permit_iff [symmetric] acl_answer_deny_iff [symmetric] acl_answer_unknown_iff [symmetric]
  by (auto simp: acl_answer_def split: option.splits)

theorem first_match_exact_witness:
  "\<not> (\<exists>ds. list_all2 (realises ios_denies sample_flow) ds [] \<and> device_permits ds sample_flow)"
  using first_match_exact [of "[]" sample_flow ios_denies] by simp


text \<open>
  C1: \<open>evaluate_ios\<close> answers PERMIT if and only if the ingress interface is known or absent,
  a route exists, and every device that realises the parsed ACLs permits the packet at both
  ends; it answers DENY if and only if every such device drops it at one of the two ACLs it
  reaches.
\<close>

theorem evaluate_ios_certain:
  "(tr_verdict (evaluate_ios env f) = PERMIT \<longleftrightarrow> ingress_known env f
      \<and> (\<forall>ds. acl_realised (ingress_flow env f) ds (bound_acl if_acl_in env (ios_ingress_name env f))
            \<longrightarrow> opt_device_permits ds (ingress_flow env f))
      \<and> (\<exists>r. route_lookup (ie_routes env) (fl_dst_ip f) = Some r
          \<and> (\<forall>ds. acl_realised (egress_flow env f r) ds (bound_acl if_acl_out env (Some (rt_interface r)))
                \<longrightarrow> opt_device_permits ds (egress_flow env f r))))
   \<and> (tr_verdict (evaluate_ios env f) = DENY \<longleftrightarrow> ingress_known env f
      \<and> ((\<forall>ds. acl_realised (ingress_flow env f) ds (bound_acl if_acl_in env (ios_ingress_name env f))
            \<longrightarrow> \<not> opt_device_permits ds (ingress_flow env f))
         \<or> (\<forall>ds. acl_realised (ingress_flow env f) ds (bound_acl if_acl_in env (ios_ingress_name env f))
              \<longrightarrow> opt_device_permits ds (ingress_flow env f))
           \<and> (\<exists>r. route_lookup (ie_routes env) (fl_dst_ip f) = Some r
              \<and> (\<forall>ds. acl_realised (egress_flow env f r) ds (bound_acl if_acl_out env (Some (rt_interface r)))
                    \<longrightarrow> \<not> opt_device_permits ds (egress_flow env f r)))))"
  unfolding evaluate_ios_spec ios_spec_permit_iff ios_spec_deny_iff ios_in_answer_def ios_out_answer_def
    opt_answer_permit_iff opt_answer_deny_iff by (rule conjI; rule refl)

theorem evaluate_ios_certain_witness:
  "tr_verdict (evaluate_ios ios_env_empty \<lparr>fl_src_ip = ''10.0.0.1'', fl_dst_ip = ''192.0.2.7'',
      fl_proto = ''tcp'', fl_sport = None, fl_dport = None, fl_ingress = None, fl_egress = None,
      fl_tcp_flags = None, fl_established = False, fl_icmp_type = None\<rparr>) \<noteq> PERMIT"
  unfolding evaluate_ios_certain [THEN conjunct1]
  by (simp add: ios_env_empty_def route_table_empty_def route_lookup_def split: sum.split)

text \<open>
  C4: \<open>evaluate_fortios_chain\<close> depends on the enabled policies only: it looks the route up
  first and then answers for the first enabled policy that stops the packet, PERMIT if and only
  if every device realising the enabled policies accepts, DENY if and only if all of them drop.
\<close>

theorem evaluate_fortios_certain:
  "(tr_verdict (evaluate_fortios_chain policies tb f reasons) = PERMIT \<longleftrightarrow>
      (\<exists>r. route_lookup tb (fl_dst_ip f) = Some r
        \<and> (\<forall>ds. list_all2 (realises forti_denies (forti_flow tb f r)) ds (enabled_policies policies)
             \<longrightarrow> device_permits ds (forti_flow tb f r))))
   \<and> (tr_verdict (evaluate_fortios_chain policies tb f reasons) = DENY \<longleftrightarrow>
      (\<exists>r. route_lookup tb (fl_dst_ip f) = Some r
        \<and> (\<forall>ds. list_all2 (realises forti_denies (forti_flow tb f r)) ds (enabled_policies policies)
             \<longrightarrow> \<not> device_permits ds (forti_flow tb f r))))"
  unfolding evaluate_fortios_chain_spec acl_answer_permit_iff [symmetric] acl_answer_deny_iff [symmetric]
  by (auto simp: forti_spec_def split: option.split)

theorem evaluate_fortios_certain_witness:
  "\<forall>f. tr_verdict (evaluate_fortios_chain [] route_table_empty f []) \<noteq> PERMIT"
  unfolding evaluate_fortios_certain [THEN conjunct1]
  by (simp add: route_table_empty_def route_lookup_def split: sum.split)

text \<open>
  Interface names are found without regard to case, as on the device: the lookup fails only
  when no interface has the name up to case, and an entry with exactly the given name wins.
\<close>

theorem find_interface_case:
  assumes "nm \<noteq> []"
  shows "case find_interface ifs (Some nm) of
      None \<Rightarrow> \<forall>(k, info) \<in> set ifs. py_lower k \<noteq> py_lower nm
    | Some info \<Rightarrow> (\<exists>k. (k, info) \<in> set ifs \<and> py_lower k = py_lower nm)
        \<and> (\<forall>e. dict_get ifs nm = Some e \<longrightarrow> info = e)"
  using assms
  by (fastforce simp: find_interface_def find_None_iff split: option.split
      dest: map_of_SomeD find_SomeD)

theorem find_interface_case_witness:
  "\<forall>info. find_interface [(''GigabitEthernet0/1'', info)] (Some ''gigabitethernet0/1'') \<noteq> None"
proof
  fix info
  have "py_lower ''GigabitEthernet0/1'' = py_lower ''gigabitethernet0/1''" by code_simp
  then show "find_interface [(''GigabitEthernet0/1'', info)] (Some ''gigabitethernet0/1'') \<noteq> None"
    using find_interface_case [of "''gigabitethernet0/1''" "[(''GigabitEthernet0/1'', info)]"]
    by (auto split: option.splits)
qed

end
