(* ===== verification/Examples.thy ===== *)
theory Examples
  imports Rules_Routes
begin

text \<open>
  \<open>services/policy_test/examples.py\<close>: the packet that illustrates a rule and the near miss that
  falls just outside it. \<open>next(iter(s))\<close> takes some element of a set, in the order of the
  interpreter's hash table; the two choices are the parameters \<open>pick\<close> and \<open>pick_name\<close>, of which
  the lemmas only assume that they return a member of the set they are given.
  Shown here: under the conditions the generator relies on, the illustration of a rule matches
  it and the near miss does not.
\<close>

section \<open>The generator\<close>

definition proto_name_rev :: "int \<Rightarrow> string option" where
  "proto_name_rev n = map_of [(1, ''icmp''), (2, ''igmp''), (6, ''tcp''), (17, ''udp''), (47, ''gre''),
     (50, ''esp''), (51, ''ah''), (88, ''eigrp''), (89, ''ospf''), (103, ''pim''), (132, ''sctp'')] n"

record rule_example =
  ex_rule_id :: string
  ex_rule_name :: string
  ex_action :: string
  ex_raw :: string
  ex_matching :: "flow option"
  ex_near_miss :: "flow option"
  ex_near_reason :: string
  ex_matches_all :: bool

text \<open>Address inside the cube, with the bits of \<open>n\<close> written across its don't-care bits.\<close>

function scatter :: "u32 \<Rightarrow> nat \<Rightarrow> nat \<Rightarrow> u32 \<Rightarrow> u32" where
  "scatter free bitno remaining out =
     (if bitno \<ge> 32 then out
      else if free AND push_bit bitno 1 = 0 then scatter free (bitno + 1) remaining out
      else
        let out' = (if remaining mod 2 = 1 then out OR push_bit bitno 1 else out);
            remaining' = remaining div 2
        in if remaining' = 0 then out' else scatter free (bitno + 1) remaining' out')"
  by pat_completeness auto
termination by (relation "measure (\<lambda>(free, bitno, remaining, out). 32 - bitno)") auto

declare scatter.simps [simp del]

definition scatter_into_free_bits :: "cube \<Rightarrow> nat \<Rightarrow> u32" where
  "scatter_into_free_bits c n = cube_value c OR scatter (NOT (cube_mask c)) 0 n 0"

definition hint_in_cubes :: "cube list \<Rightarrow> string \<Rightarrow> bool" where
  "hint_in_cubes cubes h =
     (case ip_to_int h of Inl _ \<Rightarrow> False | Inr w \<Rightarrow> list_ex (\<lambda>c. contains_ip c w) cubes)"

definition pick_ip_in_cubes :: "cube list \<Rightarrow> string list \<Rightarrow> string \<Rightarrow> string" where
  "pick_ip_in_cubes cubes hints fallback =
     (case find (hint_in_cubes cubes) hints of
        Some h \<Rightarrow> h
      | None \<Rightarrow>
          (case cubes of
             [] \<Rightarrow> fallback
           | first # _ \<Rightarrow>
               if cube_is_any first then fallback
               else if cube_is_exact first then int_to_ip (cube_value first)
               else
                 (case mask_to_prefix_len (cube_mask first) of
                    Some pfx \<Rightarrow>
                      if pfx \<ge> 31 then int_to_ip (cube_value first)
                      else int_to_ip (cube_value first + (if (2::nat) ^ (32 - pfx) > 15 then 10 else 1))
                  | None \<Rightarrow> int_to_ip (scatter_into_free_bits first 1))))"

definition pick_outside_ip :: "cube \<Rightarrow> string" where
  "pick_outside_ip c =
     (if cube_is_any c then ''192.0.2.1''
      else
        let lsb = (if cube_mask c \<noteq> 0 then cube_mask c AND (- cube_mask c) else 1)
        in int_to_ip (cube_value c XOR lsb))"

text \<open>The loop that looks for a port next to one of the intervals.\<close>

fun mutated_port :: "portset \<Rightarrow> portset \<Rightarrow> int option" where
  "mutated_port ps [] = None"
| "mutated_port ps ((lo, hi) # rest) =
     (if hi < 65535 \<and> \<not> contains_port ps (hi + 1) then Some (hi + 1)
      else if lo > 1 \<and> \<not> contains_port ps (lo - 1) then Some (lo - 1)
      else mutated_port ps rest)"

definition near_port :: "portset \<Rightarrow> int" where
  "near_port ps =
     (case mutated_port ps ps of
        Some p \<Rightarrow> p
      | None \<Rightarrow> if \<not> contains_port ps 65534 then 65534 else 1)"

definition example_proto :: "(int set \<Rightarrow> int) \<Rightarrow> fieldset \<Rightarrow> int \<times> string" where
  "example_proto pick fs =
     (case fs_protos fs of
        Some s \<Rightarrow>
          if s = {} then (6, ''tcp'')
          else (pick s, case proto_name_rev (pick s) of Some nm \<Rightarrow> nm | None \<Rightarrow> str_int (pick s))
      | None \<Rightarrow> (6, ''tcp''))"

definition example_dport :: "int \<Rightarrow> fieldset \<Rightarrow> int option" where
  "example_dport p fs =
     (if p = 6 \<or> p = 17 then
        (case fs_dst_ports fs of
           Some ((lo, hi) # _) \<Rightarrow> Some (if lo > 0 then lo else if p = 6 then 80 else 53)
         | _ \<Rightarrow> Some (if p = 6 then 443 else 53))
      else None)"

definition example_sport :: "int \<Rightarrow> fieldset \<Rightarrow> int option" where
  "example_sport p fs =
     (if p = 6 \<or> p = 17 then
        (case fs_src_ports fs of Some ((lo, hi) # _) \<Rightarrow> Some lo | _ \<Rightarrow> Some 52100)
      else None)"

definition pick_opt :: "('a set \<Rightarrow> 'a) \<Rightarrow> 'a set option \<Rightarrow> 'a option" where
  "pick_opt pick s = (case s of Some t \<Rightarrow> if t = {} then None else Some (pick t) | None \<Rightarrow> None)"

definition matching_example ::
  "(int set \<Rightarrow> int) \<Rightarrow> (string set \<Rightarrow> string) \<Rightarrow> fieldset \<Rightarrow> string list \<Rightarrow> flow" where
  "matching_example pick pick_name fs hints =
     (let (proto_num, proto_str) = example_proto pick fs in
      \<lparr>fl_src_ip = pick_ip_in_cubes (fs_src_ips fs) hints ''192.0.2.50'',
       fl_dst_ip = pick_ip_in_cubes (fs_dst_ips fs) hints ''198.51.100.20'',
       fl_proto = proto_str,
       fl_sport = example_sport proto_num fs,
       fl_dport = example_dport proto_num fs,
       fl_ingress = pick_opt pick_name (fs_ingress fs),
       fl_egress = pick_opt pick_name (fs_egress fs),
       fl_tcp_flags = None,
       fl_established = fs_established fs,
       fl_icmp_type = pick_opt pick (fs_icmp_types fs)\<rparr>)"

text \<open>The single most discriminating mutation of the illustration, with its reason.\<close>

definition near_miss_example ::
  "(int set \<Rightarrow> int) \<Rightarrow> fieldset \<Rightarrow> flow \<Rightarrow> flow option \<times> string" where
  "near_miss_example pick fs f =
     (let (proto_num, proto_str) = example_proto pick fs in
      case fl_icmp_type f of
        Some t \<Rightarrow>
          (let other = (if t = 8 then 0 else 8) in
           (Some (f\<lparr>fl_icmp_type := Some other\<rparr>),
            ''ICMP message type '' @ str_int other @ '' instead of '' @ str_int t))
      | None \<Rightarrow>
          (case (fs_dst_ports fs, fl_dport f) of
             (Some (i # ps), Some _) \<Rightarrow>
               (let q = near_port (i # ps) in
                if \<not> contains_port (i # ps) q then
                  (Some (f\<lparr>fl_dport := Some q\<rparr>),
                   ''Destination port '' @ str_int q @ '' outside allowed ports'')
                else (None, []))
           | _ \<Rightarrow>
             if \<not> list_all cube_is_any (fs_dst_ips fs) then
               (let a = pick_outside_ip (hd (fs_dst_ips fs)) in
                (Some (f\<lparr>fl_dst_ip := a\<rparr>), ''Destination IP '' @ a @ '' outside target network''))
             else if \<not> list_all cube_is_any (fs_src_ips fs) then
               (let a = pick_outside_ip (hd (fs_src_ips fs)) in
                (Some (f\<lparr>fl_src_ip := a\<rparr>), ''Source IP '' @ a @ '' outside allowed source network''))
             else if fs_protos fs \<noteq> None then
               (let m = (if proto_num = 6 then ''udp'' else ''tcp'') in
                (Some (f\<lparr>fl_proto := m\<rparr>),
                 ''Protocol '' @ m @ '' does not match allowed protocol ('' @ proto_str @ '')''))
             else if fs_established fs then
               (Some (f\<lparr>fl_established := False, fl_icmp_type := None\<rparr>),
                ''Connection is not established (SYN packet without ACK/RST)'')
             else (None, ''Rule matches all traffic (no near-miss)'')))"

definition generate_rule_example ::
  "(int set \<Rightarrow> int) \<Rightarrow> (string set \<Rightarrow> string) \<Rightarrow> rule \<Rightarrow> string list \<Rightarrow> rule_example" where
  "generate_rule_example pick pick_name r hints =
     (let fs = r_fields r in
      if fs_opaque fs then
        \<lparr>ex_rule_id = r_id r, ex_rule_name = r_name r, ex_action = r_action r, ex_raw = r_raw r,
         ex_matching = None, ex_near_miss = None,
         ex_near_reason =
           (let s = str_join ''; '' (r_unresolved r) in
            if s \<noteq> [] then s else ''rule could not be parsed: coverage unknown''),
         ex_matches_all = False\<rparr>
      else
        let f = matching_example pick pick_name fs hints;
            (near, reason) = near_miss_example pick fs f
        in \<lparr>ex_rule_id = r_id r, ex_rule_name = r_name r, ex_action = r_action r, ex_raw = r_raw r,
            ex_matching = Some f, ex_near_miss = near, ex_near_reason = reason,
            ex_matches_all = is_any_any fs\<rparr>)"

definition generate_ruleset_examples ::
  "(int set \<Rightarrow> int) \<Rightarrow> (string set \<Rightarrow> string) \<Rightarrow> rule list \<Rightarrow> string list \<Rightarrow> rule_example list" where
  "generate_ruleset_examples pick pick_name rules hints =
     map (\<lambda>r. generate_rule_example pick pick_name r hints) rules"


section \<open>Picking addresses\<close>

lemma bit_scatter: "bit (scatter free b n out) i \<Longrightarrow> bit out i \<or> bit free i"
proof (induction free b n out rule: scatter.induct)
  case (1 free b n out)
  have single: "bit free b" if "free AND push_bit b 1 \<noteq> 0"
  proof (rule ccontr)
    assume "\<not> bit free b"
    then have "free AND push_bit b 1 = 0" by (intro bit_eqI) (auto simp: bit_simps)
    with that show False by simp
  qed
  have bits: "bit (out OR push_bit b 1) i \<Longrightarrow> bit out i \<or> i = b"
    by (auto simp: bit_simps)
  from "1.prems" show ?case
    by (subst (asm) scatter.simps)
      (use "1.IH" single bits in \<open>auto simp: Let_def split: if_splits\<close>)
qed

lemma scatter_inside:
  assumes "cube_wf c" shows "contains_ip c (scatter_into_free_bits c n)"
proof -
  have "scatter (NOT (cube_mask c)) 0 n 0 AND cube_mask c = 0"
    using bit_scatter [of "NOT (cube_mask c)" 0 n 0] by (auto simp: bit_eq_iff bit_simps)
  with assms show ?thesis
    by (simp add: contains_ip_iff scatter_into_free_bits_def cube_wf_def and.commute bit.conj_disj_distrib)
qed

lemma prefix_offset_inside:
  assumes wf: "cube_wf c" and m: "cube_mask c = prefix_mask pfx" and pfx: "pfx < 31"
    and off: "off = (if (2::nat) ^ (32 - pfx) > 15 then 10 else 1)"
  shows "contains_ip c (cube_value c + off)"
proof -
  have bits: "bit off i \<Longrightarrow> i < 32 - pfx" for i
  proof (cases "pfx \<le> 28")
    case True
    then have "(2::nat) ^ 4 \<le> 2 ^ (32 - pfx)" by (intro power_increasing) auto
    with off have "off = 10" by simp
    moreover have "take_bit 4 (10 :: u32) = 10" by simp
    ultimately have "bit off i \<Longrightarrow> i < 4" by (metis bit_take_bit_iff)
    then show "bit off i \<Longrightarrow> i < 32 - pfx" using True by linarith
  next
    case False
    with pfx have "pfx = 29 \<or> pfx = 30" by auto
    with off have "off = 1" by auto
    with pfx show "bit off i \<Longrightarrow> i < 32 - pfx" by (simp add: bit_1_iff)
  qed
  have low: "off AND prefix_mask pfx = 0"
    by (rule bit_eqI) (use bits in \<open>force simp: prefix_mask_def bit_simps\<close>)
  have "cube_value c AND off = cube_value c AND cube_mask c AND off"
    using wf by (simp add: cube_wf_def and.assoc [symmetric])
  also have "\<dots> = 0" using low m by (simp add: and.assoc and.commute)
  finally have "cube_value c + off = cube_value c OR off"
    using word_plus_and_or [of "cube_value c" off] by simp
  with wf low m show ?thesis
    by (simp add: contains_ip_iff cube_wf_def and.commute bit.conj_disj_distrib)
qed

lemma lowest_bit_nonzero:
  assumes "(m :: u32) \<noteq> 0" shows "m AND (- m) \<noteq> 0"
proof
  assume "m AND (- m) = 0"
  then have "m OR (- m) = 0" using word_plus_and_or [of m "- m"] by simp
  moreover have "m = m AND (m OR (- m))" by (rule bit_eqI) (auto simp: bit_and_iff bit_or_iff)
  ultimately have "m = m AND 0" by (rule subst)
  with assms show False by simp
qed

lemma outside_ip_outside:
  assumes "cube_wf c" and "\<not> cube_is_any c" and "ip_to_int (pick_outside_ip c) = Inr w"
  shows "\<not> contains_ip c w"
proof -
  let ?b = "cube_mask c AND (- cube_mask c)"
  from assms(2) have m: "cube_mask c \<noteq> 0" by (simp add: cube_is_any_def)
  with assms have w: "w = cube_value c XOR ?b" by (simp add: pick_outside_ip_def Let_def)
  have "w AND cube_mask c = cube_value c XOR ?b"
    using assms(1) by (simp add: w cube_wf_def) (auto simp: bit_eq_iff bit_simps)
  moreover have "?b = 0" if "cube_value c XOR ?b = cube_value c"
  proof -
    have "?b = cube_value c XOR (cube_value c XOR ?b)" by (rule bit_eqI) (auto simp: bit_xor_iff)
    then show ?thesis by (simp only: that xor_self_eq)
  qed
  ultimately show ?thesis using lowest_bit_nonzero [OF m] by (auto simp: contains_ip_iff)
qed

lemma pick_ip_inside:
  assumes wf: "list_all cube_wf cubes" and ne: "cubes \<noteq> []" and fb: "ip_to_int fallback = Inr w0"
  shows "\<exists>w. ip_to_int (pick_ip_in_cubes cubes hints fallback) = Inr w
           \<and> list_ex (\<lambda>c. contains_ip c w) cubes"
proof (cases "find (hint_in_cubes cubes) hints")
  case (Some h)
  then have "hint_in_cubes cubes h" by (auto simp: find_Some_iff)
  with Some show ?thesis
    by (auto simp: pick_ip_in_cubes_def hint_in_cubes_def split: sum.splits)
next
  case None
  from ne obtain c cs where c: "cubes = c # cs" by (cases cubes) auto
  with wf have cwf: "cube_wf c" by simp
  then have val: "contains_ip c (cube_value c)" by (simp add: contains_ip_iff cube_wf_def)
  have any: "cube_is_any c \<Longrightarrow> contains_ip c w0" using cwf by (rule cube_is_any_contains)
  have pre: "mask_to_prefix_len (cube_mask c) = Some n \<Longrightarrow> n < 31
      \<Longrightarrow> contains_ip c (cube_value c + (if (2::nat) ^ (32 - n) > 15 then 10 else 1))" for n
    by (rule prefix_offset_inside [OF cwf _ _ refl]) (simp_all add: mask_to_prefix_len_iff)
  show ?thesis
    using None fb val any pre scatter_inside [OF cwf, of 1] c
    by (auto simp: pick_ip_in_cubes_def split: option.split)
qed

section \<open>The illustration matches its rule\<close>

lemma proto_map_no_digits:
  assumes "py_isdigit s" shows "dict_get proto_map s = None"
proof (rule ccontr)
  assume "dict_get proto_map s \<noteq> None"
  then obtain v where "(s, v) \<in> set proto_map" by (auto dest: map_of_SomeD)
  moreover have "list_all (\<lambda>(k, v). \<not> py_isdigit k) proto_map" by code_simp
  ultimately show False using assms by (auto simp: list_all_iff)
qed

lemma proto_from_name_str_int:
  assumes "0 \<le> p" shows "proto_from_name (str_int p) = Some p"
proof -
  obtain n where n: "p = int n" using assms nonneg_int_cases by blast
  have "py_strip (str_nat n) = str_nat n"
    by (rule py_strip_no_space) (auto dest: str_nat_chars is_digit_not_space)
  then show ?thesis
    by (simp add: n str_int_def proto_from_name_def Let_def proto_map_no_digits str_nat_digits)
qed

lemma proto_name_rev_ok: "proto_name_rev p = Some nm \<Longrightarrow> proto_from_name nm = Some p"
  by (auto simp: proto_name_rev_def proto_from_name_names split: if_splits)

text \<open>What the generator relies on: domains with members, and a first port it can name.\<close>

definition example_ready :: "fieldset \<Rightarrow> bool" where
  "example_ready fs \<longleftrightarrow> fs_wf fs \<and> \<not> fs_opaque fs \<and> fs_src_ips fs \<noteq> [] \<and> fs_dst_ips fs \<noteq> []
     \<and> pred_option (\<lambda>s. s \<noteq> {} \<and> (\<forall>p \<in> s. 0 \<le> p)) (fs_protos fs)
     \<and> pred_option (\<lambda>ps. ps \<noteq> []) (fs_src_ports fs)
     \<and> pred_option (\<lambda>ps. ps \<noteq> [] \<and> (fst (hd ps) = 0 \<longrightarrow> 80 \<le> snd (hd ps))) (fs_dst_ports fs)"

definition picks_ok :: "('a set \<Rightarrow> 'a) \<Rightarrow> 'a set option \<Rightarrow> bool" where
  "picks_ok pick s \<longleftrightarrow> pred_option (\<lambda>t. t \<noteq> {} \<longrightarrow> pick t \<in> t) s"

lemma example_proto_ok:
  assumes "example_ready fs" and "picks_ok pick (fs_protos fs)"
  shows "proto_from_name (snd (example_proto pick fs)) = Some (fst (example_proto pick fs))
     \<and> opt_mem num_mem (fs_protos fs) (Some (fst (example_proto pick fs)))"
  using assms
  by (auto simp: example_ready_def picks_ok_def example_proto_def num_mem_def proto_from_name_str_int
      proto_from_name_names proto_name_rev_ok split: option.splits)

lemma example_ports_ok:
  assumes "example_ready fs"
  shows "opt_mem contains_port (fs_src_ports fs) (example_sport p fs)"
    and "opt_mem contains_port (fs_dst_ports fs) (example_dport p fs)"
proof -
  have "0 \<le> lo \<and> lo \<le> hi" if "ports_nf ((lo, hi) # ps)" for lo hi ps
    using ports_nf_bounds [OF that, of lo hi] by simp
  with assms show "opt_mem contains_port (fs_src_ports fs) (example_sport p fs)"
    "opt_mem contains_port (fs_dst_ports fs) (example_dport p fs)"
    by (fastforce simp: example_ready_def fs_wf_def example_sport_def example_dport_def
        split: option.splits list.splits)+
qed

lemma matching_example_matches:
  assumes ready: "example_ready fs" and p: "picks_ok pick (fs_protos fs)" "picks_ok pick (fs_icmp_types fs)"
    and n: "picks_ok pick_name (fs_ingress fs)" "picks_ok pick_name (fs_egress fs)"
  shows "fs_matches fs (matching_example pick pick_name fs hints)"
proof -
  let ?f = "matching_example pick pick_name fs hints"
  have fb: "ip_to_int ''192.0.2.50'' = Inr 0xC0000232" "ip_to_int ''198.51.100.20'' = Inr 0xC6336414"
    by code_simp+
  from ready have wf: "list_all cube_wf (fs_src_ips fs)" "list_all cube_wf (fs_dst_ips fs)"
    "fs_src_ips fs \<noteq> []" "fs_dst_ips fs \<noteq> []"
    by (simp_all add: example_ready_def fs_wf_def)
  note ips = pick_ip_inside [OF wf(1,3) fb(1)] pick_ip_inside [OF wf(2,4) fb(2)]
  have nums: "opt_mem num_mem (fs_icmp_types fs) (fl_icmp_type ?f)"
    using p(2) by (auto simp: matching_example_def picks_ok_def pick_opt_def num_mem_def
        split: option.splits prod.splits)
  have names: "opt_mem name_mem (fs_ingress fs) (fl_ingress ?f)" "opt_mem name_mem (fs_egress fs) (fl_egress ?f)"
    using n by (auto simp: matching_example_def picks_ok_def pick_opt_def name_mem_def names_lower_def
        split: option.splits prod.splits)
  have "flow_established ?f = fs_established fs"
    by (simp add: flow_established_def matching_example_def split: prod.split)
  moreover have "proto_from_name (fl_proto ?f) = Some (fst (example_proto pick fs))"
    "opt_mem num_mem (fs_protos fs) (Some (fst (example_proto pick fs)))"
    using example_proto_ok [OF ready p(1)] by (simp_all add: matching_example_def case_prod_beta)
  moreover have "opt_mem contains_port (fs_src_ports fs) (fl_sport ?f)"
    "opt_mem contains_port (fs_dst_ports fs) (fl_dport ?f)"
    using example_ports_ok [OF ready] by (simp_all add: matching_example_def split: prod.split)
  moreover have "\<exists>s d. ip_to_int (fl_src_ip ?f) = Inr s \<and> ip_to_int (fl_dst_ip ?f) = Inr d
      \<and> list_ex (\<lambda>c. contains_ip c s) (fs_src_ips fs) \<and> list_ex (\<lambda>c. contains_ip c d) (fs_dst_ips fs)"
    using ips by (simp add: matching_example_def split: prod.split) blast
  ultimately show ?thesis
    using ready nums names by (simp add: fs_matches_iff match_known_dimensions_iff example_ready_def)
qed

section \<open>The near miss does not match its rule\<close>

text \<open>
  The generator moves one dimension just outside its first value. That leaves the rule when the
  dimension has one value; the port dimension is checked against all of its intervals.
\<close>

definition one_valued :: "fieldset \<Rightarrow> bool" where
  "one_valued fs \<longleftrightarrow> length (fs_src_ips fs) = 1 \<and> length (fs_dst_ips fs) = 1
     \<and> pred_option is_singleton (fs_protos fs) \<and> pred_option is_singleton (fs_icmp_types fs)"

lemma outside_all_cubes:
  assumes "list_all cube_wf cs" "length cs = 1" "\<not> list_all cube_is_any cs"
    and "ip_to_int (pick_outside_ip (hd cs)) = Inr w"
  shows "\<not> list_ex (\<lambda>c. contains_ip c w) cs"
  using assms outside_ip_outside by (cases cs) auto

lemma matching_example_simps:
  "fl_established (matching_example pick pick_name fs hints) = fs_established fs"
  "fl_tcp_flags (matching_example pick pick_name fs hints) = None"
  "fl_icmp_type (matching_example pick pick_name fs hints) = pick_opt pick (fs_icmp_types fs)"
  by (simp_all add: matching_example_def case_prod_beta)

lemma near_miss_misses:
  assumes wf: "fs_wf fs" and one: "one_valued fs"
    and p: "picks_ok pick (fs_protos fs)" "picks_ok pick (fs_icmp_types fs)"
    and near: "near_miss_example pick fs (matching_example pick pick_name fs hints) = (Some g, why)"
  shows "\<not> fs_matches fs g"
proof
  assume "fs_matches fs g"
  then have m: "match_known_dimensions fs g" by (simp add: fs_matches_iff)
  note k = m [unfolded match_known_dimensions_iff]
  let ?f = "matching_example pick pick_name fs hints"
  show False
  proof (cases "fl_icmp_type ?f")
    case (Some t)
    with near have "fl_icmp_type g = Some (if t = 8 then 0 else 8)"
      by (auto simp: near_miss_example_def Let_def)
    with k one p(2) Some show False
      by (auto simp: matching_example_simps pick_opt_def picks_ok_def one_valued_def is_singleton_def
          num_mem_def split: option.splits if_splits)
  next
    case None
    consider (port) i ps q where "fs_dst_ports fs = Some (i # ps)" "fl_dport g = Some q"
        "\<not> contains_port (i # ps) q"
      | (dst) "\<not> list_all cube_is_any (fs_dst_ips fs)" "fl_dst_ip g = pick_outside_ip (hd (fs_dst_ips fs))"
      | (src) "\<not> list_all cube_is_any (fs_src_ips fs)" "fl_src_ip g = pick_outside_ip (hd (fs_src_ips fs))"
      | (prot) "fs_protos fs \<noteq> None"
        "fl_proto g = (if fst (example_proto pick fs) = 6 then ''udp'' else ''tcp'')"
      | (est) "fs_established fs" "\<not> fl_established g" "fl_tcp_flags g = None"
      using near None
      by (auto simp: near_miss_example_def Let_def case_prod_beta matching_example_simps
          split: option.splits list.splits if_splits)
    then show False
    proof cases
      case port
      with k show False by simp
    next
      case dst
      with k wf one outside_all_cubes [of "fs_dst_ips fs"] show False
        by (auto simp: fs_wf_def one_valued_def)
    next
      case src
      with k wf one outside_all_cubes [of "fs_src_ips fs"] show False
        by (auto simp: fs_wf_def one_valued_def)
    next
      case prot
      with k one p(1) show False
        by (auto simp: example_proto_def picks_ok_def one_valued_def is_singleton_def num_mem_def
            proto_from_name_names split: if_splits)
    next
      case est
      with k show False by (simp add: flow_established_def)
    qed
  qed
qed

section \<open>Properties of the example generator\<close>

text \<open>
  For a rule whose domains have members, the illustration \<open>generate_rule_example\<close> builds
  matches the rule, whichever members the iteration order of its sets offers, with or without
  hint addresses.
\<close>

theorem example_matches_rule:
  assumes "example_ready (r_fields r)"
    and "picks_ok pick (fs_protos (r_fields r))" "picks_ok pick (fs_icmp_types (r_fields r))"
    and "picks_ok pick_name (fs_ingress (r_fields r))" "picks_ok pick_name (fs_egress (r_fields r))"
  shows "\<exists>f. ex_matching (generate_rule_example pick pick_name r hints) = Some f \<and> fs_matches (r_fields r) f"
  using matching_example_matches [OF assms] assms(1)
  by (simp add: generate_rule_example_def example_ready_def Let_def case_prod_beta)

definition sample_rule :: rule where
  "sample_rule = (rule_default ''10'')\<lparr>r_fields := fieldset_default\<lparr>fs_protos := Some {6},
     fs_dst_ips := [mk_cube 0xC6336400 0xFFFFFF00], fs_dst_ports := Some [(443, 443)]\<rparr>\<rparr>"

lemma sample_rule_simps:
  "fs_protos (r_fields sample_rule) = Some {6}" "fs_icmp_types (r_fields sample_rule) = None"
  "fs_ingress (r_fields sample_rule) = None" "fs_egress (r_fields sample_rule) = None"
  "fs_src_ips (r_fields sample_rule) = [cube_any]"
  "fs_dst_ips (r_fields sample_rule) = [mk_cube 0xC6336400 0xFFFFFF00]"
  "fs_src_ports (r_fields sample_rule) = None" "fs_dst_ports (r_fields sample_rule) = Some [(443, 443)]"
  "\<not> fs_opaque (r_fields sample_rule)" "fs_wf (r_fields sample_rule)"
  by (simp_all add: sample_rule_def fieldset_default_def fs_wf_def)

theorem example_matches_rule_witness:
  "\<exists>f. ex_matching (generate_rule_example (\<lambda>_. 6) (\<lambda>_. []) sample_rule [''198.51.100.77'']) = Some f
     \<and> fs_matches (r_fields sample_rule) f"
  by (rule example_matches_rule) (simp_all add: example_ready_def picks_ok_def sample_rule_simps)

text \<open>
  Where every constrained dimension of a rule holds one value, the near miss the generator
  offers does not match the rule.
\<close>

theorem near_miss_leaves_rule:
  assumes "fs_wf (r_fields r)" and "one_valued (r_fields r)"
    and "picks_ok pick (fs_protos (r_fields r))" "picks_ok pick (fs_icmp_types (r_fields r))"
    and "ex_near_miss (generate_rule_example pick pick_name r hints) = Some g"
  shows "\<not> fs_matches (r_fields r) g"
  using assms near_miss_misses [OF assms(1-4), of pick_name hints g]
  by (auto simp: generate_rule_example_def Let_def case_prod_beta prod_eq_iff split: if_splits)

theorem near_miss_leaves_rule_witness:
  "\<exists>g. ex_near_miss (generate_rule_example (\<lambda>_. 6) (\<lambda>_. []) sample_rule []) = Some g
     \<and> \<not> fs_matches (r_fields sample_rule) g"
proof -
  have "\<not> Option.is_none (ex_near_miss (generate_rule_example (\<lambda>_. 6) (\<lambda>_. []) sample_rule []))"
    by code_simp
  then obtain g where g: "ex_near_miss (generate_rule_example (\<lambda>_. 6) (\<lambda>_. []) sample_rule []) = Some g"
    by (cases "ex_near_miss (generate_rule_example (\<lambda>_. 6) (\<lambda>_. []) sample_rule [])") auto
  have "\<not> fs_matches (r_fields sample_rule) g"
    by (rule near_miss_leaves_rule [OF _ _ _ _ g])
      (simp_all add: one_valued_def picks_ok_def sample_rule_simps)
  with g show ?thesis by blast
qed

end
