(* ===== verification/Findings.thy ===== *)
theory Findings
  imports Engine_Sound Examples
begin

text \<open>
  \<open>services/policy_test/findings.py\<close>: the static defects of a rule list and of a route table.
  Shown here: a rule reported as shadowed or unreachable decides no packet, every covered rule is
  reported, removing a rule that a decidable rule covers changes no device, the packet offered as
  evidence is caught by the rule named, and the routing findings are exactly the static routes
  whose next hop is on no connected subnet.
\<close>

section \<open>The detector\<close>

datatype param = P_text string | P_list "string list"

record finding =
  fd_key :: string
  fd_severity :: string
  fd_rule_id :: "string option"
  fd_acl :: "string option"
  fd_params :: "param dict"
  fd_message :: string
  fd_witness :: "flow option"
  fd_expected :: "string option"

definition witness_for ::
  "(int set \<Rightarrow> int) \<Rightarrow> (string set \<Rightarrow> string) \<Rightarrow> rule \<Rightarrow> string \<Rightarrow> flow option" where
  "witness_for pick pick_name r bound_ingress =
     (if fs_opaque (r_fields r) \<or> fs_narrowing (r_fields r) \<noteq> [] then None
      else case ex_matching (generate_rule_example pick pick_name r []) of
        None \<Rightarrow> None
      | Some f \<Rightarrow>
          Some (if bound_ingress \<noteq> [] \<and> no_name (fl_ingress f) then f\<lparr>fl_ingress := Some bound_ingress\<rparr>
                else f))"

definition unresolved_finding :: "string \<Rightarrow> rule \<Rightarrow> finding list" where
  "unresolved_finding acl r =
     (if r_unresolved r \<noteq> [] then
        [\<lparr>fd_key = ''unresolved_object'', fd_severity = ''medium'', fd_rule_id = Some (r_id r),
          fd_acl = Some acl,
          fd_params = [(''rule_id'', P_text (r_id r)), (''objects'', P_list (r_unresolved r)),
            (''acl'', P_text acl)],
          fd_message = ''finding.unresolved_object'', fd_witness = None, fd_expected = None\<rparr>]
      else [])"

definition unreachable_finding ::
  "(int set \<Rightarrow> int) \<Rightarrow> (string set \<Rightarrow> string) \<Rightarrow> string \<Rightarrow> rule \<Rightarrow> rule \<Rightarrow> finding" where
  "unreachable_finding pick pick_name acl cover r =
     \<lparr>fd_key = ''unreachable'',
      fd_severity = (if r_action r = ''permit'' then ''high'' else ''medium''),
      fd_rule_id = Some (r_id r), fd_acl = Some acl,
      fd_params = [(''rule_id'', P_text (r_id r)), (''blocked_by'', P_text (r_id cover)), (''acl'', P_text acl)],
      fd_message = ''finding.unreachable'', fd_witness = witness_for pick pick_name r [],
      fd_expected = Some (r_id cover)\<rparr>"

definition any_any_finding :: "string \<Rightarrow> rule \<Rightarrow> finding list" where
  "any_any_finding acl r =
     (if r_action r = ''permit'' \<and> is_any_any (r_fields r) then
        [\<lparr>fd_key = ''any_any'', fd_severity = ''high'', fd_rule_id = Some (r_id r), fd_acl = Some acl,
          fd_params = [(''rule_id'', P_text (r_id r)), (''acl'', P_text acl)],
          fd_message = ''finding.any_any'', fd_witness = None, fd_expected = None\<rparr>]
      else [])"

definition first_cover :: "rule list \<Rightarrow> rule \<Rightarrow> rule option" where
  "first_cover earlier r =
     (if fs_opaque (r_fields r) then None
      else find (\<lambda>p. \<not> fs_opaque (r_fields p) \<and> fs_contains (r_fields p) (r_fields r)) earlier)"

definition shadowed_finding ::
  "(int set \<Rightarrow> int) \<Rightarrow> (string set \<Rightarrow> string) \<Rightarrow> string \<Rightarrow> rule list \<Rightarrow> rule \<Rightarrow> finding list" where
  "shadowed_finding pick pick_name acl earlier r =
     (case first_cover earlier r of
        None \<Rightarrow> []
      | Some prev \<Rightarrow>
          [\<lparr>fd_key = ''shadowed'',
            fd_severity = (if r_action prev \<noteq> r_action r then ''high'' else ''low''),
            fd_rule_id = Some (r_id r), fd_acl = Some acl,
            fd_params = [(''rule_id'', P_text (r_id r)), (''shadowed_by'', P_text (r_id prev)),
              (''acl'', P_text acl), (''prev_action'', P_text (r_action prev)),
              (''curr_action'', P_text (r_action r))],
            fd_message = ''finding.shadowed'', fd_witness = witness_for pick pick_name r [],
            fd_expected = Some (r_id prev)\<rparr>])"

text \<open>The loop over the enabled rules: the earlier rules and the any-any rule seen so far.\<close>

fun rule_defects ::
  "(int set \<Rightarrow> int) \<Rightarrow> (string set \<Rightarrow> string) \<Rightarrow> string \<Rightarrow> rule list \<Rightarrow> rule option \<Rightarrow> rule list \<Rightarrow> finding list"
where
  "rule_defects pick pick_name acl earlier cover [] = []"
| "rule_defects pick pick_name acl earlier cover (r # rs) =
     unresolved_finding acl r @
     (case cover of
        Some c \<Rightarrow>
          unreachable_finding pick pick_name acl c r
            # rule_defects pick pick_name acl (earlier @ [r]) cover rs
      | None \<Rightarrow>
          any_any_finding acl r @ shadowed_finding pick pick_name acl earlier r
            @ rule_defects pick pick_name acl (earlier @ [r])
                (if \<not> fs_opaque (r_fields r) \<and> is_any_any (r_fields r) then Some r else None) rs)"

definition enabled_rules :: "ruleset \<Rightarrow> rule list" where
  "enabled_rules rs = filter (\<lambda>r. \<not> r_disabled r) (rs_rules rs)"

definition find_ruleset_defects ::
  "(int set \<Rightarrow> int) \<Rightarrow> (string set \<Rightarrow> string) \<Rightarrow> ruleset \<Rightarrow> finding list" where
  "find_ruleset_defects pick pick_name rs =
     rule_defects pick pick_name (rs_name rs) [] None (enabled_rules rs)"

text \<open>A next hop that does not parse raises inside the \<open>try\<close> and is reported as well.\<close>

definition route_to_nowhere :: "route_table \<Rightarrow> route \<Rightarrow> bool" where
  "route_to_nowhere tb r \<longleftrightarrow>
     (case rt_next_hop r of
        None \<Rightarrow> False
      | Some nh \<Rightarrow>
          rt_source r = ''static'' \<and> nh \<noteq> [] \<and> rt_interface r = []
          \<and> (case ip_to_int nh of
               Inl _ \<Rightarrow> True
             | Inr ip \<Rightarrow> \<not> list_ex (\<lambda>c. contains_ip (rt_cube c) ip) (connected_subnets tb)))"

definition nowhere_finding :: "route \<Rightarrow> finding" where
  "nowhere_finding r =
     \<lparr>fd_key = ''route_to_nowhere'', fd_severity = ''high'', fd_rule_id = None, fd_acl = None,
      fd_params = [(''prefix'', P_text (rt_prefix r)),
        (''next_hop'', P_text (case rt_next_hop r of None \<Rightarrow> [] | Some nh \<Rightarrow> nh))],
      fd_message = ''finding.route_to_nowhere'', fd_witness = None, fd_expected = None\<rparr>"

definition find_routing_defects :: "route_table \<Rightarrow> finding list" where
  "find_routing_defects tb = map nowhere_finding (filter (route_to_nowhere tb) (tb_routes tb))"

definition analyze_policy_findings ::
  "(int set \<Rightarrow> int) \<Rightarrow> (string set \<Rightarrow> string) \<Rightarrow> environment \<Rightarrow> finding list" where
  "analyze_policy_findings pick pick_name env =
     (case env of
        Ios e \<Rightarrow>
          concat (map (find_ruleset_defects pick pick_name \<circ> snd) (ie_acls e))
          @ find_routing_defects (ie_routes e)
      | Forti e \<Rightarrow>
          find_ruleset_defects pick pick_name
            \<lparr>rs_name = ''firewall_policy'', rs_kind = ''firewall_policy'', rs_rules = fe_policies e,
             rs_default_action = ''deny'', rs_unresolved = []\<rparr>
          @ find_routing_defects (fe_routes e))"

section \<open>What a finding about a rule says\<close>

text \<open>
  The state of the loop: the any-any rule is one of the earlier rules. \<open>defect_of\<close> is what the
  loop reports about the rule after the list \<open>pre\<close> of earlier rules.
\<close>

definition any_any_rule :: "rule \<Rightarrow> bool" where
  "any_any_rule r \<longleftrightarrow> \<not> fs_opaque (r_fields r) \<and> is_any_any (r_fields r)"

definition defect_of ::
  "(int set \<Rightarrow> int) \<Rightarrow> (string set \<Rightarrow> string) \<Rightarrow> string \<Rightarrow> rule list \<Rightarrow> rule \<Rightarrow> finding set" where
  "defect_of pick pick_name acl pre r =
     set (unresolved_finding acl r) \<union>
     (case find any_any_rule pre of
        Some c \<Rightarrow> {unreachable_finding pick pick_name acl c r}
      | None \<Rightarrow> set (any_any_finding acl r) \<union> set (shadowed_finding pick pick_name acl pre r))"

lemma rule_defects_set:
  "set (rule_defects pick pick_name acl earlier (find any_any_rule earlier) rs) =
     (\<Union>i < length rs. defect_of pick pick_name acl (earlier @ take i rs) (rs ! i))"
proof (induction rs arbitrary: earlier)
  case (Cons r rs)
  have snoc: "find any_any_rule (earlier @ [r]) =
      (case find any_any_rule earlier of Some c \<Rightarrow> Some c | None \<Rightarrow> if any_any_rule r then Some r else None)"
    by (simp add: find_append split: option.split)
  have "set (rule_defects pick pick_name acl earlier (find any_any_rule earlier) (r # rs)) =
      defect_of pick pick_name acl earlier r
        \<union> set (rule_defects pick pick_name acl (earlier @ [r]) (find any_any_rule (earlier @ [r])) rs)"
    by (auto simp: defect_of_def snoc any_any_rule_def split: option.splits)
  also have "\<dots> = (\<Union>i < length (r # rs). defect_of pick pick_name acl (earlier @ take i (r # rs)) ((r # rs) ! i))"
    by (simp add: Cons.IH lessThan_Suc_eq_insert_0 image_UN [symmetric])
  finally show ?case .
qed simp

lemma at_index_iff:
  "(\<exists>i < length xs. P (take i xs) (xs ! i)) \<longleftrightarrow> (\<exists>pre x post. xs = pre @ x # post \<and> P pre x)"
proof
  assume "\<exists>i < length xs. P (take i xs) (xs ! i)"
  then obtain i where "i < length xs" "P (take i xs) (xs ! i)" by blast
  then show "\<exists>pre x post. xs = pre @ x # post \<and> P pre x"
    using id_take_nth_drop by blast
next
  assume "\<exists>pre x post. xs = pre @ x # post \<and> P pre x"
  then obtain pre x post where "xs = pre @ x # post" "P pre x" by blast
  then show "\<exists>i < length xs. P (take i xs) (xs ! i)"
    by (intro exI [of _ "length pre"]) simp
qed

lemma find_ruleset_defects_iff:
  "fd \<in> set (find_ruleset_defects pick pick_name rs) \<longleftrightarrow>
     (\<exists>pre r post. enabled_rules rs = pre @ r # post \<and> fd \<in> defect_of pick pick_name (rs_name rs) pre r)"
proof -
  have "fd \<in> set (find_ruleset_defects pick pick_name rs) \<longleftrightarrow>
      (\<exists>i < length (enabled_rules rs). fd \<in> defect_of pick pick_name (rs_name rs)
          (take i (enabled_rules rs)) (enabled_rules rs ! i))"
    using rule_defects_set [of pick pick_name "rs_name rs" "[]" "enabled_rules rs"]
    by (auto simp: find_ruleset_defects_def)
  also have "\<dots> \<longleftrightarrow> (\<exists>pre r post. enabled_rules rs = pre @ r # post
      \<and> fd \<in> defect_of pick pick_name (rs_name rs) pre r)"
    by (rule at_index_iff)
  finally show ?thesis .
qed

lemmas finding_defs = unresolved_finding_def unreachable_finding_def any_any_finding_def
  shadowed_finding_def

lemma shadowed_defect:
  assumes "fd \<in> defect_of pick pick_name acl pre r" and "fd_key fd = ''shadowed''"
  obtains c where "first_cover pre r = Some c" "fd_rule_id fd = Some (r_id r)"
    "fd_expected fd = Some (r_id c)" "fd_witness fd = witness_for pick pick_name r []"
    "find any_any_rule pre = None"
  using assms
  by (cases "first_cover pre r"; cases "find any_any_rule pre")
    (auto simp: defect_of_def finding_defs split: if_splits)

lemma unreachable_defect:
  assumes "fd \<in> defect_of pick pick_name acl pre r" and "fd_key fd = ''unreachable''"
  obtains c where "find any_any_rule pre = Some c" "fd_rule_id fd = Some (r_id r)"
    "fd_expected fd = Some (r_id c)" "fd_witness fd = witness_for pick pick_name r []"
  using assms
  by (cases "first_cover pre r"; cases "find any_any_rule pre")
    (auto simp: defect_of_def finding_defs split: if_splits)

lemma covered_defect:
  assumes "first_cover pre r = Some c"
  shows "\<exists>fd \<in> defect_of pick pick_name acl pre r.
      fd_rule_id fd = Some (r_id r) \<and> (fd_key fd = ''shadowed'' \<or> fd_key fd = ''unreachable'')"
  using assms
  by (cases "find any_any_rule pre") (simp_all add: defect_of_def finding_defs)

lemma first_coverD:
  "first_cover pre r = Some c \<Longrightarrow> c \<in> set pre \<and> fs_contains (r_fields c) (r_fields r)"
  by (auto simp: first_cover_def dest: find_SomeD split: if_splits)

section \<open>Rules that decide nothing\<close>

definition rule_wf :: "rule \<Rightarrow> bool" where
  "rule_wf r \<longleftrightarrow> fs_wf (r_fields r) \<and> fs_src_ips (r_fields r) \<noteq> [] \<and> fs_dst_ips (r_fields r) \<noteq> []"

definition flow_ports_ok :: "flow \<Rightarrow> bool" where
  "flow_ports_ok f \<longleftrightarrow> pred_option (\<lambda>p. 1 \<le> p \<and> p \<le> 65535) (fl_sport f)
     \<and> pred_option (\<lambda>p. 1 \<le> p \<and> p \<le> 65535) (fl_dport f)"

lemma find_dead:
  assumes "c \<in> set pre" and "P r \<Longrightarrow> P c"
  shows "find P (pre @ r # post) = find P (pre @ post)"
proof (cases "find P pre")
  case None
  with assms(1) have "\<not> P c" by (simp add: find_None_iff)
  with assms(2) None show ?thesis by (auto simp: find_append)
qed (simp add: find_append)

lemma cover_stops:
  "rule_wf c \<Longrightarrow> fs_contains (r_fields c) (r_fields r) \<Longrightarrow> rule_stops_walk r f \<Longrightarrow> rule_stops_walk c f"
  by (rule acl_walk.covers_stops) (simp_all add: rule_covers_def rule_wf_def)

lemma any_any_stops:
  assumes "any_any_rule c" "rule_wf c" "flow_ports_ok f" "rule_stops_walk r f"
  shows "rule_stops_walk c f"
proof -
  from assms(4) have "flow_addressed f"
    by (auto simp: rule_stops_walk_iff match_known_dimensions_iff flow_addressed_def)
  with assms(1-3) have "fs_matches (r_fields c) f"
    by (intro is_any_any_matches) (simp_all add: any_any_rule_def rule_wf_def flow_ports_ok_def)
  then show ?thesis by (simp add: rule_stops_walk_iff fs_matches_iff)
qed

text \<open>The rule a finding names as the one that decides instead.\<close>

definition blocks :: "finding \<Rightarrow> rule \<Rightarrow> rule \<Rightarrow> bool" where
  "blocks fd c r \<longleftrightarrow> fd_expected fd = Some (r_id c) \<and> fd_rule_id fd = Some (r_id r)
     \<and> (\<forall>f. (fd_key fd = ''shadowed'' \<or> flow_ports_ok f) \<longrightarrow> rule_stops_walk r f \<longrightarrow> rule_stops_walk c f)"

lemma defect_blocks:
  assumes fd: "fd \<in> defect_of pick pick_name acl pre r"
    and key: "fd_key fd \<in> {''shadowed'', ''unreachable''}"
    and wf: "\<forall>c \<in> set pre. rule_wf c"
  shows "\<exists>c \<in> set pre. blocks fd c r"
proof (cases "fd_key fd = ''shadowed''")
  case True
  with fd obtain c where "first_cover pre r = Some c" "fd_rule_id fd = Some (r_id r)"
    "fd_expected fd = Some (r_id c)"
    by (rule shadowed_defect)
  with wf show ?thesis
    by (auto simp: blocks_def dest!: first_coverD intro: cover_stops)
next
  case False
  with key have u: "fd_key fd = ''unreachable''" by simp
  with fd obtain c where "find any_any_rule pre = Some c" "fd_rule_id fd = Some (r_id r)"
    "fd_expected fd = Some (r_id c)"
    by (rule unreachable_defect)
  with wf u show ?thesis
    by (auto simp: blocks_def dest!: find_SomeD intro: any_any_stops)
qed

lemma dead_on_device:
  assumes dev: "list_all2 (realises denies f) (dp @ d # ds) (pre @ r # post)" "length dp = length pre"
    and c: "c \<in> set pre" "\<not> undecidable c" and cov: "rule_stops_walk r f \<Longrightarrow> rule_stops_walk c f"
  shows "device_permits (dp @ d # ds) f = device_permits (dp @ ds) f"
proof -
  from dev have l: "list_all2 (realises denies f) dp pre" "realises denies f d r"
    by (auto simp: list_all2_append)
  from l(1) c(1) obtain e where e: "e \<in> set dp" "realises denies f e c"
    by (metis in_set_conv_nth list_all2_conv_all_nth)
  have "dr_covers d f \<Longrightarrow> rule_stops_walk r f"
    using l(2) by (auto simp: realises_def rule_stops_walk_iff fs_matches_iff fs_may_match_def
        split: if_splits)
  with cov e(2) c(2) have "dr_covers d f \<Longrightarrow> dr_covers e f"
    by (simp add: realises_def stops_walk_decidable)
  from find_dead [where P = "\<lambda>d. dr_covers d f", OF e(1) this] show ?thesis
    by (simp add: device_permits_def)
qed

text \<open>The packet offered as evidence is caught by the rule named.\<close>

lemma witness_for_matches:
  assumes "witness_for pick pick_name r [] = Some w" and "example_ready (r_fields r)"
    and "picks_ok pick (fs_protos (r_fields r))" "picks_ok pick (fs_icmp_types (r_fields r))"
    and "picks_ok pick_name (fs_ingress (r_fields r))" "picks_ok pick_name (fs_egress (r_fields r))"
  shows "fs_matches (r_fields r) w"
  using assms matching_example_matches
  by (auto simp: witness_for_def generate_rule_example_def Let_def case_prod_beta split: if_splits)

lemma reported_defect_dead:
  assumes "fd \<in> set (find_ruleset_defects pick pick_name rs)"
    and "fd_key fd = ''shadowed'' \<or> fd_key fd = ''unreachable''"
    and "\<forall>r \<in> set (rs_rules rs). rule_wf r"
  shows "\<exists>pre c r post. enabled_rules rs = pre @ r # post \<and> c \<in> set pre
    \<and> fd_rule_id fd = Some (r_id r) \<and> fd_expected fd = Some (r_id c)
    \<and> (\<forall>f. flow_ports_ok f \<longrightarrow> first_match (pre @ r # post) f = first_match (pre @ post) f)"
proof -
  from assms(1) obtain pre r post where s: "enabled_rules rs = pre @ r # post"
    and d: "fd \<in> defect_of pick pick_name (rs_name rs) pre r"
    unfolding find_ruleset_defects_iff by blast
  have "set (enabled_rules rs) \<subseteq> set (rs_rules rs)" by (auto simp: enabled_rules_def)
  with s have "set pre \<subseteq> set (rs_rules rs)" by auto
  with assms(3) defect_blocks [OF d] assms(2) obtain c where c: "c \<in> set pre" "blocks fd c r" by blast
  then have "first_match (pre @ r # post) f = first_match (pre @ post) f" if "flow_ports_ok f" for f
    using that c(2) unfolding first_match_find by (intro find_dead [OF c(1)]) (auto simp: blocks_def)
  with s c show ?thesis unfolding blocks_def by blast
qed

section \<open>Routes to nowhere\<close>

lemma route_to_nowhere_iff:
  "route_to_nowhere tb r \<longleftrightarrow> rt_source r = ''static'' \<and> rt_interface r = []
     \<and> (\<exists>nh. rt_next_hop r = Some nh \<and> nh \<noteq> []
        \<and> (\<forall>ip. ip_to_int nh = Inr ip \<longrightarrow> (\<forall>c \<in> set (tb_routes tb).
              rt_source c = ''connected'' \<longrightarrow> \<not> contains_ip (rt_cube c) ip)))"
proof (cases "rt_next_hop r")
  case (Some nh)
  then show ?thesis
    by (cases "ip_to_int nh") (auto simp: route_to_nowhere_def connected_subnets_def list_ex_iff)
qed (simp add: route_to_nowhere_def)

lemma find_routing_defects_set:
  "set (find_routing_defects tb) = nowhere_finding ` {r \<in> set (tb_routes tb). route_to_nowhere tb r}"
  by (auto simp: find_routing_defects_def)

section \<open>Properties of the detector\<close>

text \<open>
  A rule reported as shadowed or unreachable decides no packet: it stands after the rule the
  finding names, and the first-match walk of the enabled rules returns the same rule with and
  without it, for every packet whose ports are in 1..65535.
\<close>

theorem reported_rule_is_dead:
  assumes "fd \<in> set (find_ruleset_defects pick pick_name rs)"
    and "fd_key fd = ''shadowed'' \<or> fd_key fd = ''unreachable''"
    and "\<forall>r \<in> set (rs_rules rs). rule_wf r"
  shows "\<exists>pre c r post. enabled_rules rs = pre @ r # post \<and> c \<in> set pre
    \<and> fd_rule_id fd = Some (r_id r) \<and> fd_expected fd = Some (r_id c)
    \<and> (\<forall>f. flow_ports_ok f \<longrightarrow> first_match (pre @ r # post) f = first_match (pre @ post) f)"
  using assms by (rule reported_defect_dead)

definition sample_ruleset :: ruleset where
  "sample_ruleset = (ruleset_new ''ACL'' ''named-ext'')\<lparr>rs_rules :=
     [(rule_default ''10'')\<lparr>r_fields := fieldset_default\<lparr>fs_protos := Some {6}\<rparr>\<rparr>,
      (rule_default ''20'')\<lparr>r_action := ''deny'', r_fields := fieldset_default\<lparr>fs_protos := Some {6},
         fs_dst_ports := Some [(22, 22)]\<rparr>\<rparr>]\<rparr>"

lemma sample_ruleset_wf: "\<forall>r \<in> set (rs_rules sample_ruleset). rule_wf r"
  by (simp add: sample_ruleset_def ruleset_new_def rule_default_def rule_wf_def fieldset_default_def fs_wf_def)

lemma sample_flow_ports: "flow_ports_ok sample_flow"
  by (simp add: flow_ports_ok_def sample_flow_def)

lemma sample_ruleset_findings:
  "map (\<lambda>fd. (fd_key fd, fd_rule_id fd, fd_expected fd)) (find_ruleset_defects (\<lambda>_. 6) (\<lambda>_. []) sample_ruleset)
     = [(''shadowed'', Some ''20'', Some ''10'')]"
  by code_simp

lemma sample_finding:
  obtains fd where "fd \<in> set (find_ruleset_defects (\<lambda>_. 6) (\<lambda>_. []) sample_ruleset)" "fd_key fd = ''shadowed''"
    "fd_rule_id fd = Some ''20''" "fd_expected fd = Some ''10''"
  using sample_ruleset_findings
  by (cases "find_ruleset_defects (\<lambda>_. 6) (\<lambda>_. []) sample_ruleset") auto

theorem reported_rule_is_dead_witness:
  "\<exists>pre c r post. enabled_rules sample_ruleset = pre @ r # post \<and> c \<in> set pre \<and> r_id r = ''20''
     \<and> first_match (pre @ r # post) sample_flow = first_match (pre @ post) sample_flow"
proof -
  obtain fd where fd: "fd \<in> set (find_ruleset_defects (\<lambda>_. 6) (\<lambda>_. []) sample_ruleset)"
    "fd_key fd = ''shadowed''" "fd_rule_id fd = Some ''20''"
    by (rule sample_finding)
  from fd(2) have "fd_key fd = ''shadowed'' \<or> fd_key fd = ''unreachable''" by simp
  from reported_rule_is_dead [OF fd(1) this sample_ruleset_wf] fd(3) sample_flow_ports show ?thesis
    by (metis option.inject)
qed

text \<open>
  No covered rule is missed: when some earlier enabled rule contains an enabled rule, the
  later one is reported as shadowed or as unreachable.
\<close>

theorem covered_rule_is_reported:
  assumes "enabled_rules rs = pre @ r # post" and "c \<in> set pre"
    and "fs_contains (r_fields c) (r_fields r)"
  shows "\<exists>fd \<in> set (find_ruleset_defects pick pick_name rs).
    fd_rule_id fd = Some (r_id r) \<and> (fd_key fd = ''shadowed'' \<or> fd_key fd = ''unreachable'')"
proof -
  have "first_cover pre r \<noteq> None"
    using assms(2,3) fs_contains_not_opaque [OF assms(3)] by (auto simp: first_cover_def find_None_iff)
  then obtain c' where "first_cover pre r = Some c'" by blast
  then have "\<exists>fd \<in> defect_of pick pick_name (rs_name rs) pre r.
      fd_rule_id fd = Some (r_id r) \<and> (fd_key fd = ''shadowed'' \<or> fd_key fd = ''unreachable'')"
    by (rule covered_defect)
  with assms(1) show ?thesis unfolding find_ruleset_defects_iff Bex_def by blast
qed

theorem covered_rule_is_reported_witness:
  "\<exists>fd \<in> set (find_ruleset_defects (\<lambda>_. 6) (\<lambda>_. []) sample_ruleset). fd_rule_id fd = Some ''20''"
proof -
  let ?c = "(rule_default ''10'')\<lparr>r_fields := fieldset_default\<lparr>fs_protos := Some {6}\<rparr>\<rparr>"
  let ?r = "(rule_default ''20'')\<lparr>r_action := ''deny'', r_fields := fieldset_default\<lparr>fs_protos := Some {6},
         fs_dst_ports := Some [(22, 22)]\<rparr>\<rparr>"
  have "enabled_rules sample_ruleset = [?c] @ ?r # []"
    by (simp add: enabled_rules_def sample_ruleset_def ruleset_new_def rule_default_def)
  moreover have "fs_contains (r_fields ?c) (r_fields ?r)" by code_simp
  ultimately show ?thesis
    using covered_rule_is_reported [of sample_ruleset "[?c]" ?r "[]" ?c "\<lambda>_. 6" "\<lambda>_. []"]
    by (auto simp: rule_default_def)
qed

text \<open>
  A rule that a decidable earlier rule covers can be removed from the device: every device
  that realises the rule list permits the same packets without it, even when the covered rule
  itself is undecidable.
\<close>

theorem shadowed_rule_removable:
  assumes "list_all2 (realises denies f) (dp @ d # ds) (pre @ r # post)" and "length dp = length pre"
    and "c \<in> set pre" "rule_wf c" "\<not> undecidable c" and "fs_contains (r_fields c) (r_fields r)"
  shows "device_permits (dp @ d # ds) f = device_permits (dp @ ds) f"
  by (rule dead_on_device [OF assms(1-3,5) cover_stops [OF assms(4,6)]])

theorem shadowed_rule_removable_witness:
  "device_permits [\<lparr>dr_covers = (\<lambda>_. True), dr_permits = True\<rparr>, \<lparr>dr_covers = (\<lambda>_. False), dr_permits = False\<rparr>] sample_flow
     = device_permits [\<lparr>dr_covers = (\<lambda>_. True), dr_permits = True\<rparr>] sample_flow"
proof -
  let ?c = "(rule_default ''10'')\<lparr>r_fields := fieldset_default\<lparr>fs_protos := Some {6}\<rparr>\<rparr>"
  let ?r = "(rule_default ''20'')\<lparr>r_action := ''deny'', r_fields := fieldset_default\<lparr>fs_protos := Some {6},
         fs_dst_ports := Some [(22, 22)]\<rparr>\<rparr>"
  let ?d = "\<lparr>dr_covers = (\<lambda>_. True), dr_permits = True\<rparr>" and ?e = "\<lparr>dr_covers = (\<lambda>_. False), dr_permits = False\<rparr>"
  have u: "\<not> undecidable ?c" "\<not> undecidable ?r"
    by (simp_all add: undecidable_def rule_default_def fieldset_default_def)
  have m: "fs_matches (r_fields ?c) sample_flow" "\<not> fs_matches (r_fields ?r) sample_flow" by code_simp+
  have a: "\<not> ios_denies ?c" "ios_denies ?r" by (simp_all add: ios_denies_def rule_default_def)
  from u m a have dev: "list_all2 (realises ios_denies sample_flow) ([?d] @ ?e # []) ([?c] @ ?r # [])"
    by (simp add: realises_def)
  have "fs_contains (r_fields ?c) (r_fields ?r)" by code_simp
  moreover have "rule_wf ?c" by (simp add: rule_wf_def fs_wf_def fieldset_default_def)
  moreover have "?c \<in> set [?c]" by simp
  moreover have "length [?d] = length [?c]" by simp
  ultimately have "device_permits ([?d] @ ?e # []) sample_flow = device_permits ([?d] @ []) sample_flow"
    using u(1) by (intro shadowed_rule_removable [OF dev])
  then show ?thesis by simp
qed

text \<open>
  The detector also lets rules with unresolved objects cover later ones, and there the
  report can be wrong: a rule is reported as unreachable although some device that realises the
  list decides a packet differently without it.
\<close>

theorem unresolved_cover_misreports:
  "\<exists>rs fd ds ds' f. fd \<in> set (find_ruleset_defects pick pick_name rs) \<and> fd_key fd = ''unreachable''
    \<and> fd_rule_id fd = Some ''20'' \<and> map r_id (enabled_rules rs) = [''10'', ''20'', ''30'']
    \<and> list_all2 (realises ios_denies f) ds (enabled_rules rs)
    \<and> ds' = [ds ! 0, ds ! 2] \<and> device_permits ds f \<noteq> device_permits ds' f"
proof -
  let ?c = "(rule_default ''10'')\<lparr>r_unresolved := [''object-group MISSING not found or empty'']\<rparr>"
  let ?r = "(rule_default ''20'')\<lparr>r_action := ''deny''\<rparr>"
  let ?t = "rule_default ''30''"
  let ?rs = "(ruleset_new ''ACL'' ''named-ext'')\<lparr>rs_rules := [?c, ?r, ?t]\<rparr>"
  let ?f = "\<lparr>fl_src_ip = ''10.0.0.1'', fl_dst_ip = ''192.0.2.7'', fl_proto = ''tcp'', fl_sport = None,
    fl_dport = None, fl_ingress = None, fl_egress = None, fl_tcp_flags = None,
    fl_established = False, fl_icmp_type = None\<rparr>"
  let ?ds = "[\<lparr>dr_covers = (\<lambda>_. False), dr_permits = True\<rparr>, \<lparr>dr_covers = (\<lambda>_. True), dr_permits = False\<rparr>,
    \<lparr>dr_covers = (\<lambda>_. True), dr_permits = True\<rparr>]"
  have en: "enabled_rules ?rs = [?c, ?r, ?t]"
    by (simp add: enabled_rules_def ruleset_new_def rule_default_def)
  have "any_any_rule ?c" by (simp add: any_any_rule_def rule_default_def fieldset_default_def is_any_any_def cube_is_any_def cube_any_def mk_cube_def)
  then have "unreachable_finding pick pick_name ''ACL'' ?c ?r \<in> defect_of pick pick_name (rs_name ?rs) [?c] ?r"
    by (simp add: defect_of_def ruleset_new_def)
  then have fd: "unreachable_finding pick pick_name ''ACL'' ?c ?r \<in> set (find_ruleset_defects pick pick_name ?rs)"
    unfolding find_ruleset_defects_iff en
    by (intro exI [of _ "[?c]"] exI [of _ ?r] exI [of _ "[?t]"]) simp
  have "fs_matches fieldset_default ?f" by code_simp
  then have "list_all2 (realises ios_denies ?f) ?ds (enabled_rules ?rs)"
    unfolding en by (simp add: realises_def undecidable_def ios_denies_def rule_default_def fieldset_default_def)
  moreover have "device_permits ?ds ?f \<noteq> device_permits [?ds ! 0, ?ds ! 2] ?f" by simp
  moreover have "map r_id (enabled_rules ?rs) = [''10'', ''20'', ''30'']" unfolding en by (simp add: rule_default_def)
  moreover have "fd_key (unreachable_finding pick pick_name ''ACL'' ?c ?r) = ''unreachable''"
    "fd_rule_id (unreachable_finding pick pick_name ''ACL'' ?c ?r) = Some ''20''"
    by (simp_all add: unreachable_finding_def rule_default_def)
  ultimately show ?thesis
    by (intro exI [of _ ?rs] exI [of _ "unreachable_finding pick pick_name ''ACL'' ?c ?r"] exI [of _ ?ds]
        exI [of _ "[?ds ! 0, ?ds ! 2]"] exI [of _ ?f]) (simp only: fd simp_thms)
qed

text \<open>
  The packet a shadowing finding offers as evidence is one the rule it names catches, so
  the walk stops at that rule or at an earlier one.
\<close>

theorem shadow_witness_is_caught:
  assumes "fd \<in> set (find_ruleset_defects pick pick_name rs)" and "fd_key fd = ''shadowed''"
    and "fd_witness fd = Some w" and "\<forall>r \<in> set (rs_rules rs). example_ready (r_fields r)"
    and "\<forall>r \<in> set (rs_rules rs). picks_ok pick (fs_protos (r_fields r)) \<and> picks_ok pick (fs_icmp_types (r_fields r))
        \<and> picks_ok pick_name (fs_ingress (r_fields r)) \<and> picks_ok pick_name (fs_egress (r_fields r))"
  shows "\<exists>c \<in> set (enabled_rules rs). fd_expected fd = Some (r_id c) \<and> fs_matches (r_fields c) w
    \<and> first_match (enabled_rules rs) w \<noteq> None"
proof -
  from assms(1) obtain pre r post where s: "enabled_rules rs = pre @ r # post"
    and d: "fd \<in> defect_of pick pick_name (rs_name rs) pre r"
    unfolding find_ruleset_defects_iff by blast
  from d assms(2) obtain c where c: "first_cover pre r = Some c" "fd_expected fd = Some (r_id c)"
    "fd_witness fd = witness_for pick pick_name r []"
    by (rule shadowed_defect)
  have en: "set (enabled_rules rs) \<subseteq> set (rs_rules rs)" by (auto simp: enabled_rules_def)
  with s have r: "r \<in> set (rs_rules rs)" by auto
  have "fs_matches (r_fields r) w"
    using assms(3-5) c(3) r by (intro witness_for_matches) auto
  moreover have cc: "c \<in> set pre" "fs_contains (r_fields c) (r_fields r)" using first_coverD [OF c(1)] by auto
  moreover have "fs_wf (r_fields c)"
    using en s cc(1) assms(4) by (auto simp: example_ready_def)
  ultimately have m: "fs_matches (r_fields c) w" using fs_contains_matches by blast
  then have "rule_stops_walk c w" by (simp add: rule_stops_walk_iff fs_matches_iff)
  with cc(1) s have "first_match (enabled_rules rs) w \<noteq> None"
    by (auto simp: first_match_find find_None_iff)
  with m c(2) cc(1) s show ?thesis by auto
qed

theorem shadow_witness_is_caught_witness:
  "\<exists>w. \<exists>c \<in> set (enabled_rules sample_ruleset). r_id c = ''10'' \<and> fs_matches (r_fields c) w"
proof -
  obtain fd where fd: "fd \<in> set (find_ruleset_defects (\<lambda>_. 6) (\<lambda>_. []) sample_ruleset)"
    "fd_key fd = ''shadowed''" "fd_expected fd = Some ''10''"
    by (rule sample_finding)
  have "list_all (\<lambda>fd. \<not> Option.is_none (fd_witness fd)) (find_ruleset_defects (\<lambda>_. 6) (\<lambda>_. []) sample_ruleset)"
    by code_simp
  with fd(1) obtain w where w: "fd_witness fd = Some w"
    by (auto simp: list_all_iff Option.is_none_def)
  have "\<forall>r \<in> set (rs_rules sample_ruleset). example_ready (r_fields r)"
    "\<forall>r \<in> set (rs_rules sample_ruleset). picks_ok (\<lambda>_. 6) (fs_protos (r_fields r))
        \<and> picks_ok (\<lambda>_. 6) (fs_icmp_types (r_fields r))
        \<and> picks_ok (\<lambda>_. []) (fs_ingress (r_fields r)) \<and> picks_ok (\<lambda>_. []) (fs_egress (r_fields r))"
    by (simp_all add: sample_ruleset_def ruleset_new_def rule_default_def example_ready_def fieldset_default_def
        fs_wf_def picks_ok_def)
  from shadow_witness_is_caught [OF fd(1,2) w this] fd(3) show ?thesis
    by (metis option.inject)
qed

text \<open>
  The routing findings are exactly the static routes without an egress interface whose next
  hop does not parse or lies on no connected subnet.
\<close>

theorem routing_findings_exact:
  "set (find_routing_defects tb) = nowhere_finding ` {r \<in> set (tb_routes tb). rt_source r = ''static''
     \<and> rt_interface r = [] \<and> (\<exists>nh. rt_next_hop r = Some nh \<and> nh \<noteq> []
        \<and> (\<forall>ip. ip_to_int nh = Inr ip \<longrightarrow> (\<forall>c \<in> set (tb_routes tb).
              rt_source c = ''connected'' \<longrightarrow> \<not> contains_ip (rt_cube c) ip)))}"
  unfolding find_routing_defects_set route_to_nowhere_iff
  by (rule arg_cong [where f = "image nowhere_finding"]) blast

theorem routing_findings_exact_witness:
  "set (find_routing_defects \<lparr>tb_routes = [\<lparr>rt_prefix = ''10.0.0.0/8'', rt_cube = mk_cube 0x0A000000 0xFF000000,
      rt_next_hop = Some ''192.0.2.1'', rt_interface = [], rt_source = ''static'', rt_distance = 1, rt_metric = 0\<rparr>],
      tb_dynamic = False, tb_protocols = []\<rparr>) \<noteq> {}"
  unfolding routing_findings_exact by auto

end
