(* ===== verification/Worklist.thy ===== *)
theory Worklist
  imports SN_Prelude
begin

text \<open>
  The breadth-first loop that resolves nested groups. \<open>ios.py\<close> runs it over object-groups,
  \<open>fortios.py\<close> over address groups and over service groups: pop the head of a queue, skip it
  when it was seen, else mark it and append its members to the queue. The loop is written once
  here, as the list of names in the order they are visited; the callers append what each
  visited name contributes. Shown here: it ends on every input, cyclic references included,
  visits no name twice, and visits exactly what the starting queue reaches.
\<close>

function visit :: "(string \<times> string list) list \<Rightarrow> string list \<Rightarrow> string set \<Rightarrow> string list" where
  "visit edges [] seen = []"
| "visit edges (m # queue) seen =
     (if m \<in> seen then visit edges queue seen
      else m # visit edges (queue @ (case map_of edges m of None \<Rightarrow> [] | Some ms \<Rightarrow> ms)) (insert m seen))"
  by pat_completeness auto

termination
proof (relation "(\<lambda>(edges, queue, seen). card (fst ` set edges - seen)) <*mlex*> measure (\<lambda>(edges, queue, seen). length queue)",
    goal_cases)
  case 1
  show ?case by (simp add: wf_mlex)
next
  case (2 edges m queue seen)
  then show ?case by (intro mlex_leq) auto
next
  case (3 edges m queue seen)
  show ?case
  proof (cases "map_of edges m")
    case None
    then have "m \<notin> fst ` set edges" by (simp add: map_of_eq_None_iff)
    then have "fst ` set edges - insert m seen = fst ` set edges - seen" by auto
    with None show ?thesis by (intro mlex_leq) auto
  next
    case (Some ms)
    then have "m \<in> fst ` set edges" by (metis domI dom_map_of_conv_image_fst)
    with 3 have "card (fst ` set edges - insert m seen) < card (fst ` set edges - seen)"
      by (intro psubset_card_mono) auto
    then show ?thesis by (intro mlex_less) simp
  qed
qed

definition succs :: "(string \<times> string list) list \<Rightarrow> string \<Rightarrow> string list" where
  "succs edges m = (case map_of edges m of None \<Rightarrow> [] | Some ms \<Rightarrow> ms)"

lemma visit_Cons:
  "visit edges (m # queue) seen =
     (if m \<in> seen then visit edges queue seen
      else m # visit edges (queue @ succs edges m) (insert m seen))"
  by (simp add: succs_def)

declare visit.simps(2) [simp del]

lemma visit_fresh: "set (visit edges queue seen) \<inter> seen = {}"
  by (induction edges queue seen rule: visit.induct) (auto simp: visit_Cons succs_def)

lemma visit_distinct: "distinct (visit edges queue seen)"
proof (induction edges queue seen rule: visit.induct)
  case (2 edges m queue seen)
  then show ?case
    using visit_fresh [of edges "queue @ succs edges m" "insert m seen"]
    by (auto simp: visit_Cons succs_def)
qed simp

lemma visit_queue: "set queue \<subseteq> seen \<union> set (visit edges queue seen)"
  by (induction edges queue seen rule: visit.induct) (auto simp: visit_Cons succs_def)

lemma visit_closed:
  assumes "\<forall>x \<in> seen. set (succs edges x) \<subseteq> seen \<union> set queue"
  shows "\<forall>x \<in> seen \<union> set (visit edges queue seen).
      set (succs edges x) \<subseteq> seen \<union> set (visit edges queue seen)"
  using assms
proof (induction edges queue seen rule: visit.induct)
  case (1 edges seen)
  then show ?case by simp
next
  case (2 edges m queue seen)
  show ?case
  proof (cases "m \<in> seen")
    case True
    with 2 show ?thesis by (auto simp: visit_Cons)
  next
    case False
    have "\<forall>x \<in> insert m seen. set (succs edges x) \<subseteq> insert m seen \<union> set (queue @ succs edges m)"
      using 2(3) by auto
    with 2(2) False show ?thesis by (simp add: visit_Cons succs_def)
  qed
qed

definition step_rel :: "(string \<times> string list) list \<Rightarrow> (string \<times> string) set" where
  "step_rel edges = {(x, y). y \<in> set (succs edges x)}"

lemma visit_reachable: "y \<in> set (visit edges queue seen) \<Longrightarrow> \<exists>x \<in> set queue. (x, y) \<in> (step_rel edges)\<^sup>*"
proof (induction edges queue seen rule: visit.induct)
  case (2 edges m queue seen)
  show ?case
  proof (cases "m \<in> seen \<or> y = m")
    case True
    with 2 show ?thesis by (auto simp: visit_Cons split: if_splits)
  next
    case False
    with 2 obtain x where x: "x \<in> set (queue @ succs edges m)" "(x, y) \<in> (step_rel edges)\<^sup>*"
      by (fastforce simp: visit_Cons succs_def)
    then show ?thesis
      by (auto simp: step_rel_def intro: converse_rtrancl_into_rtrancl)
  qed
qed simp

text \<open>From a group whose members start the queue, the loop visits what the group reaches.\<close>

lemma visit_group:
  "insert g (set (visit edges (succs edges g) {g})) = {y. (g, y) \<in> (step_rel edges)\<^sup>*}"
proof (intro equalityI subsetI)
  let ?S = "insert g (set (visit edges (succs edges g) {g}))"
  fix y assume "y \<in> ?S"
  then show "y \<in> {y. (g, y) \<in> (step_rel edges)\<^sup>*}"
    by (auto dest!: visit_reachable simp: step_rel_def intro: converse_rtrancl_into_rtrancl)
next
  let ?S = "insert g (set (visit edges (succs edges g) {g}))"
  fix y assume "y \<in> {y. (g, y) \<in> (step_rel edges)\<^sup>*}"
  then have "(g, y) \<in> (step_rel edges)\<^sup>*" by simp
  then show "y \<in> ?S"
  proof (induction rule: rtrancl_induct)
    case (step x y)
    have "\<forall>x \<in> ?S. set (succs edges x) \<subseteq> ?S"
      using visit_closed [of "{g}" edges "succs edges g"] by auto
    with step show ?case by (auto simp: step_rel_def)
  qed simp
qed

end
