(* ===== verification/Ios_Acl.thy ===== *)
theory Ios_Acl
  imports Environments Worklist
begin

text \<open>
  The ACL half of \<open>services/policy_test/ios.py\<close>: port and ICMP names, object-groups,
  the address, port and qualifier parts of an ACE, and \<open>parse_ace_line\<close>. The functions that
  take a token list and an index keep both. Shown here: parsed rules are well-formed, an opaque
  rule and a rule with an unmodelled qualifier always carry a reason, and the object-group
  resolution collects what the group reaches.
\<close>

section \<open>Names\<close>

definition ios_port_names :: "int dict" where
  "ios_port_names = [(''echo'', 7), (''discard'', 9), (''daytime'', 13), (''chargen'', 19),
     (''ftp-data'', 20), (''ftp'', 21), (''ssh'', 22), (''telnet'', 23), (''smtp'', 25), (''time'', 37),
     (''tacacs'', 49), (''domain'', 53), (''dns'', 53), (''bootps'', 67), (''dhcps'', 67), (''bootpc'', 68),
     (''dhcpc'', 68), (''tftp'', 69), (''gopher'', 70), (''finger'', 79), (''www'', 80), (''http'', 80),
     (''kerberos'', 88), (''pop2'', 109), (''pop3'', 110), (''sunrpc'', 111), (''ident'', 113),
     (''nntp'', 119), (''ntp'', 123), (''netbios-ns'', 137), (''netbios-dgm'', 138),
     (''netbios-ssn'', 139), (''imap'', 143), (''snmp'', 161), (''snmptrap'', 162), (''bgp'', 179),
     (''ldap'', 389), (''https'', 443), (''ssl'', 443), (''ldaps'', 636), (''syslog'', 514), (''rip'', 520),
     (''l2tp'', 1701), (''pptp'', 1723), (''radius'', 1812), (''radius-acct'', 1813),
     (''ms-sql-s'', 1433), (''oracle'', 1521), (''mysql'', 3306), (''rdp'', 3389), (''sip'', 5060)]"

definition icmp_type_names :: "int dict" where
  "icmp_type_names = [(''echo-reply'', 0), (''unreachable'', 3), (''source-quench'', 4),
     (''redirect'', 5), (''alternate-address'', 6), (''echo'', 8), (''router-advertisement'', 9),
     (''router-solicitation'', 10), (''time-exceeded'', 11), (''parameter-problem'', 12),
     (''timestamp-request'', 13), (''timestamp-reply'', 14), (''information-request'', 15),
     (''information-reply'', 16), (''mask-request'', 17), (''mask-reply'', 18), (''traceroute'', 30),
     (''conversion-error'', 31), (''mobile-redirect'', 32)]"

definition icmp_code_names :: "int dict" where
  "icmp_code_names = [(''net-unreachable'', 3), (''host-unreachable'', 3), (''protocol-unreachable'', 3),
     (''port-unreachable'', 3), (''packet-too-big'', 3), (''source-route-failed'', 3),
     (''network-unknown'', 3), (''host-unknown'', 3), (''host-isolated'', 3),
     (''dod-net-prohibited'', 3), (''dod-host-prohibited'', 3), (''net-tos-unreachable'', 3),
     (''host-tos-unreachable'', 3), (''administratively-prohibited'', 3),
     (''host-precedence-unreachable'', 3), (''precedence-unreachable'', 3), (''net-redirect'', 5),
     (''host-redirect'', 5), (''net-tos-redirect'', 5), (''host-tos-redirect'', 5),
     (''ttl-exceeded'', 11), (''reassembly-timeout'', 11), (''general-parameter-problem'', 12),
     (''option-missing'', 12), (''no-room-for-option'', 12)]"

definition tcp_flag_names :: "string list" where
  "tcp_flag_names = [''ack'', ''fin'', ''psh'', ''rst'', ''syn'', ''urg'', ''match-all'', ''match-any'']"

definition qualifiers_with_value :: "string list" where
  "qualifiers_with_value = [''precedence'', ''tos'', ''dscp'', ''time-range'', ''option'']"

definition qualifiers_ignored :: "string list" where
  "qualifiers_ignored = [''log'', ''log-input'']"

section \<open>The trailing qualifiers\<close>

text \<open>The loop over the tail: an index step of two drops one more token.\<close>

fun qualifier_loop ::
  "bool \<Rightarrow> string list \<Rightarrow> bool \<Rightarrow> int set option \<Rightarrow> string list \<Rightarrow> bool \<times> int set option \<times> string list" where
  "qualifier_loop is_icmp [] established icmp_types nar = (established, icmp_types, nar)"
| "qualifier_loop is_icmp (tok # rest) established icmp_types nar =
     (let low = py_lower tok in
      if low = ''established'' then qualifier_loop is_icmp rest True icmp_types nar
      else if low \<in> set qualifiers_ignored then qualifier_loop is_icmp rest established icmp_types nar
      else if low \<in> set qualifiers_with_value then
        qualifier_loop is_icmp (drop 1 rest) established icmp_types (nar @ [low])
      else if low = ''fragments'' then qualifier_loop is_icmp rest established icmp_types (nar @ [low])
      else if low \<in> set tcp_flag_names then qualifier_loop is_icmp rest established icmp_types (nar @ [low])
      else if is_icmp \<and> dict_has icmp_type_names low then
        qualifier_loop is_icmp rest established
          (map_option (\<lambda>t. {t}) (dict_get icmp_type_names low)) nar
      else if is_icmp \<and> dict_has icmp_code_names low then
        qualifier_loop is_icmp rest established
          (map_option (\<lambda>t. {t}) (dict_get icmp_code_names low)) (nar @ [low])
      else if is_icmp \<and> py_isdigit low then
        (case rest of
           [] \<Rightarrow> qualifier_loop is_icmp [] established (Some {int (digits_val low)}) nar
         | nxt # rest' \<Rightarrow>
             if py_isdigit nxt then
               qualifier_loop is_icmp rest' established (Some {int (digits_val low)})
                 (nar @ [''icmp code '' @ nxt])
             else qualifier_loop is_icmp (nxt # rest') established (Some {int (digits_val low)}) nar)
      else qualifier_loop is_icmp rest established icmp_types (nar @ [low]))"

definition consume_trailing_qualifiers ::
  "string list \<Rightarrow> nat \<Rightarrow> string \<Rightarrow> bool \<times> int set option \<times> string list" where
  "consume_trailing_qualifiers toks idx proto_tok =
     qualifier_loop (proto_tok = ''icmp'' \<or> proto_tok = ''1'') (drop idx toks) False None []"

definition parse_port_val :: "string \<Rightarrow> int option" where
  "parse_port_val tok =
     (let s = py_lower (py_strip tok) in
      if py_isdigit s then
        (let v = int (digits_val s) in if 0 \<le> v \<and> v \<le> 65535 then Some v else None)
      else dict_get ios_port_names s)"

section \<open>Object groups\<close>

definition network_item :: "string list \<Rightarrow> object_group \<Rightarrow> object_group result" where
  "network_item toks g =
     (if py_lower (toks ! 0) = ''host'' \<and> length toks \<ge> 2 \<and> is_ip (toks ! 1) then
        bind_r (cube_from_ip (toks ! 1)) (\<lambda>c. Inr (g\<lparr>og_cubes := og_cubes g @ [c]\<rparr>))
      else if py_lower (toks ! 0) = ''group-object'' \<and> length toks \<ge> 2 then
        Inr (g\<lparr>og_refs := og_refs g @ [toks ! 1]\<rparr>)
      else if length toks \<ge> 2 \<and> is_ip (toks ! 0) \<and> is_ip (toks ! 1) then
        bind_r (ip_to_int (toks ! 1)) (\<lambda>m_int.
          bind_r (if m_int AND 0x80000000 \<noteq> 0 \<and> mask_to_prefix_len m_int \<noteq> None
                  then cube_from_netmask (toks ! 0) (toks ! 1)
                  else cube_from_wildcard (toks ! 0) (toks ! 1))
            (\<lambda>c. Inr (g\<lparr>og_cubes := og_cubes g @ [c]\<rparr>)))
      else if length toks \<ge> 1 \<and> is_ip (toks ! 0) then
        bind_r (cube_from_ip (toks ! 0)) (\<lambda>c. Inr (g\<lparr>og_cubes := og_cubes g @ [c]\<rparr>))
      else Inr g)"

text \<open>One position of the port loop: the ranges it appends.\<close>

definition ports_at :: "string list \<Rightarrow> nat \<Rightarrow> (int \<times> int) list" where
  "ports_at toks idx =
     (let t_low = py_lower (toks ! idx) in
      if t_low = ''eq'' \<and> idx + 1 < length toks then
        (case parse_port_val (toks ! (idx + 1)) of None \<Rightarrow> [] | Some p \<Rightarrow> [(p, p)])
      else if t_low = ''range'' \<and> idx + 2 < length toks then
        (case (parse_port_val (toks ! (idx + 1)), parse_port_val (toks ! (idx + 2))) of
           (Some p1, Some p2) \<Rightarrow> [(min p1 p2, max p1 p2)]
         | _ \<Rightarrow> [])
      else if t_low = ''gt'' \<and> idx + 1 < length toks then
        (case parse_port_val (toks ! (idx + 1)) of
           None \<Rightarrow> [] | Some p \<Rightarrow> if p < 65535 then [(p + 1, 65535)] else [])
      else if t_low = ''lt'' \<and> idx + 1 < length toks then
        (case parse_port_val (toks ! (idx + 1)) of
           None \<Rightarrow> [] | Some p \<Rightarrow> if p > 1 then [(1, p - 1)] else [])
      else [])"

definition service_item :: "string list \<Rightarrow> object_group \<Rightarrow> object_group" where
  "service_item toks g =
     (if py_lower (toks ! 0) = ''group-object'' \<and> length toks \<ge> 2 then
        g\<lparr>og_refs := og_refs g @ [toks ! 1]\<rparr>
      else g\<lparr>og_ports := og_ports g @ concat (map (ports_at toks) [0..<length toks])\<rparr>)"

text \<open>
  One configuration line: the groups so far and the name of the group that is open. The open
  group is the object stored under that name, so its items change the dictionary in place.
\<close>

definition object_group_line ::
  "string \<Rightarrow> object_group dict \<times> string option \<Rightarrow> (object_group dict \<times> string option) result" where
  "object_group_line raw st =
     (let (groups, current) = st;
          s = py_strip raw;
          indent = length raw - length (py_lstrip raw);
          low = py_lower s
      in if s = [] then Inr (groups, current)
         else if starts_with ''!'' s then Inr (groups, None)
         else if indent = 0 \<and> \<not> starts_with ''object-group '' low then Inr (groups, None)
         else if starts_with ''object-group '' low then
           (let toks = py_split s in
            if length toks \<ge> 3 then
              Inr (dict_set (toks ! 2)
                     \<lparr>og_name = toks ! 2, og_kind = py_lower (toks ! 1), og_cubes = [], og_ports = [], og_refs = []\<rparr>
                     groups,
                   Some (toks ! 2))
            else Inr (groups, None))
         else case current of
           None \<Rightarrow> Inr (groups, current)
         | Some nm \<Rightarrow>
             (let toks = py_split s in
              if toks = [] then Inr (groups, current)
              else case dict_get groups nm of
                None \<Rightarrow> Inr (groups, current)
              | Some g \<Rightarrow>
                  if og_kind g = ''network'' then
                    bind_r (network_item toks g) (\<lambda>g'. Inr (dict_set nm g' groups, current))
                  else if og_kind g = ''service'' \<or> og_kind g = ''port'' then
                    Inr (dict_set nm (service_item toks g) groups, current)
                  else Inr (groups, current)))"

text \<open>
  Nested references. The loop skips a reference that was seen or that names no group;
  \<open>visit\<close> marks an unknown name without following it, which contributes nothing here.
\<close>

definition group_edges :: "object_group dict \<Rightarrow> (string \<times> string list) list" where
  "group_edges groups = map (\<lambda>(n, g). (n, og_refs g)) groups"

definition group_contrib :: "(object_group \<Rightarrow> 'c list) \<Rightarrow> object_group dict \<Rightarrow> string \<Rightarrow> 'c list" where
  "group_contrib sel groups nm = (case dict_get groups nm of None \<Rightarrow> [] | Some g \<Rightarrow> sel g)"

definition resolve_group :: "object_group dict \<Rightarrow> string \<Rightarrow> object_group \<Rightarrow> object_group" where
  "resolve_group groups nm g =
     (let visited = visit (group_edges groups) (og_refs g) {nm} in
      \<lparr>og_name = nm, og_kind = og_kind g,
       og_cubes = og_cubes g @ concat (map (group_contrib og_cubes groups) visited),
       og_ports = og_ports g @ concat (map (group_contrib og_ports groups) visited),
       og_refs = og_refs g\<rparr>)"

definition parse_object_groups :: "string list \<Rightarrow> object_group dict result" where
  "parse_object_groups lines =
     bind_r (fold_r object_group_line lines ([], None))
       (\<lambda>(groups, _). Inr (map (\<lambda>(nm, g). (nm, resolve_group groups nm g)) groups))"

section \<open>Address and port parts of an ACE\<close>

text \<open>The caller's \<open>unresolved\<close> list is passed in and returned extended.\<close>

definition consume_ip_spec ::
  "string list \<Rightarrow> nat \<Rightarrow> object_group dict \<Rightarrow> string list \<Rightarrow> (cube list option \<times> nat \<times> string list) result" where
  "consume_ip_spec toks idx groups unresolved =
     (if idx \<ge> length toks then Inr (None, idx, unresolved)
      else let tok = py_lower (toks ! idx) in
        if tok = ''any'' \<or> tok = ''any4'' then Inr (Some [cube_any], idx + 1, unresolved)
        else if tok = ''host'' then
          (if idx + 1 < length toks \<and> is_ip (toks ! (idx + 1)) then
             bind_r (cube_from_ip (toks ! (idx + 1))) (\<lambda>c. Inr (Some [c], idx + 2, unresolved))
           else Inr (None, idx, unresolved))
        else if tok = ''object-group'' then
          (if idx + 1 < length toks then
             (let gname = toks ! (idx + 1) in
              case dict_get groups gname of
                Some g \<Rightarrow>
                  if og_cubes g \<noteq> [] then Inr (Some (og_cubes g), idx + 2, unresolved)
                  else Inr (Some [cube_any], idx + 2,
                    unresolved @ [''object-group '' @ [CHR 0x27] @ gname @ [CHR 0x27] @ '' not found or empty''])
              | None \<Rightarrow> Inr (Some [cube_any], idx + 2,
                    unresolved @ [''object-group '' @ [CHR 0x27] @ gname @ [CHR 0x27] @ '' not found or empty'']))
           else Inr (None, idx, unresolved))
        else if is_ip (toks ! idx) then
          (if idx + 1 < length toks \<and> is_ip (toks ! (idx + 1)) then
             bind_r (cube_from_wildcard (toks ! idx) (toks ! (idx + 1)))
               (\<lambda>c. Inr (Some [c], idx + 2, unresolved))
           else bind_r (cube_from_ip (toks ! idx)) (\<lambda>c. Inr (Some [c], idx + 1, unresolved)))
        else Inr (None, idx, unresolved))"

definition consume_port_spec ::
  "string list \<Rightarrow> nat \<Rightarrow> object_group dict \<Rightarrow> portset option \<times> nat" where
  "consume_port_spec toks idx groups =
     (if idx \<ge> length toks then (None, idx)
      else let tok = py_lower (toks ! idx) in
        if tok = ''eq'' \<and> idx + 1 < length toks then
          (map_option (\<lambda>p. ports_from_op ''eq'' p None) (parse_port_val (toks ! (idx + 1))), idx + 2)
        else if tok = ''gt'' \<and> idx + 1 < length toks then
          (map_option (\<lambda>p. ports_from_op ''gt'' p None) (parse_port_val (toks ! (idx + 1))), idx + 2)
        else if tok = ''lt'' \<and> idx + 1 < length toks then
          (map_option (\<lambda>p. ports_from_op ''lt'' p None) (parse_port_val (toks ! (idx + 1))), idx + 2)
        else if tok = ''neq'' \<and> idx + 1 < length toks then
          (map_option (\<lambda>p. ports_from_op ''neq'' p None) (parse_port_val (toks ! (idx + 1))), idx + 2)
        else if tok = ''range'' \<and> idx + 2 < length toks then
          (case (parse_port_val (toks ! (idx + 1)), parse_port_val (toks ! (idx + 2))) of
             (Some p1, Some p2) \<Rightarrow> (Some (ports_from_op ''range'' p1 (Some p2)), idx + 3)
           | _ \<Rightarrow> (None, idx + 3))
        else if tok = ''object-group'' \<and> idx + 1 < length toks then
          (case dict_get groups (toks ! (idx + 1)) of
             Some g \<Rightarrow>
               if og_kind g = ''service'' \<or> og_kind g = ''port'' \<or> og_ports g \<noteq> []
               then (Some (ports_from_list (og_ports g)), idx + 2)
               else (None, idx)
           | None \<Rightarrow> (None, idx))
        else (None, idx))"

text \<open>The administrative distance in the tail of an \<open>ip route\<close> line.\<close>

fun static_route_distance :: "string list \<Rightarrow> int" where
  "static_route_distance [] = 1"
| "static_route_distance (tok # rest) =
     (if py_lower tok \<in> {''name'', ''tag'', ''track'', ''metric''} then static_route_distance (drop 1 rest)
      else if py_isdigit tok then int (digits_val tok)
      else static_route_distance rest)"


section \<open>One ACE line\<close>

definition opaque_rule :: "string \<Rightarrow> string \<Rightarrow> string \<Rightarrow> string \<Rightarrow> rule" where
  "opaque_rule rid action raw reason = (rule_default (if rid \<noteq> [] then rid else ''opaque''))\<lparr>
     r_action := action, r_fields := fieldset_default\<lparr>fs_opaque := True\<rparr>, r_raw := raw,
     r_unresolved := [''ACE not parsed: '' @ reason]\<rparr>"

text \<open>
  The two regular expressions, on a stripped line: \<open>access-list <digits> <rest>\<close>, ignoring
  case, and \<open><digits> <rest>\<close>. Both need at least one space between the parts.
\<close>

definition match_seq :: "string \<Rightarrow> (string \<times> string) option" where
  "match_seq s =
     (let ds = takeWhile is_digit s; r = dropWhile is_digit s in
      if ds \<noteq> [] \<and> r \<noteq> [] \<and> py_isspace (hd r) then Some (ds, dropWhile py_isspace r) else None)"

definition match_access_list :: "string \<Rightarrow> (string \<times> string) option" where
  "match_access_list s =
     (if starts_with ''access-list'' (py_lower s) then
        (let r = drop 11 s in
         if r \<noteq> [] \<and> py_isspace (hd r) then match_seq (dropWhile py_isspace r) else None)
      else None)"

definition numbered_kind :: "nat \<Rightarrow> string" where
  "numbered_kind n = (if 1 \<le> n \<and> n \<le> 99 \<or> 1300 \<le> n \<and> n \<le> 1999 then ''standard'' else ''extended'')"

text \<open>The head of the function: kind, rule id and the text after the number.\<close>

definition ace_head :: "string \<Rightarrow> string \<Rightarrow> string \<Rightarrow> string \<times> string \<times> string" where
  "ace_head s seq kind =
     (case match_access_list s of
        Some (num, rest) \<Rightarrow>
          (numbered_kind (digits_val num), if seq \<noteq> [] then seq else num, py_strip rest)
      | None \<Rightarrow>
          (case match_seq s of
             Some (n, rest) \<Rightarrow> (kind, n, py_strip rest)
           | None \<Rightarrow> (kind, seq, s)))"

definition is_standard_kind :: "string \<Rightarrow> bool" where
  "is_standard_kind kind \<longleftrightarrow> kind = ''standard'' \<or> starts_with ''standard'' kind \<or> kind = ''named-std''"

definition parse_standard ::
  "string \<Rightarrow> string \<Rightarrow> string \<Rightarrow> string list \<Rightarrow> object_group dict \<Rightarrow> rule result" where
  "parse_standard raw rid action toks groups =
     bind_r (consume_ip_spec toks 1 groups []) (\<lambda>(src, _, unresolved).
       case src of
         None \<Rightarrow> Inr (opaque_rule rid action raw ''source address specification not understood'')
       | Some src_cubes \<Rightarrow> Inr ((rule_default (if rid \<noteq> [] then rid else ''std''))\<lparr>
            r_action := action,
            r_fields := fieldset_default\<lparr>fs_src_ips := src_cubes, fs_dst_ips := [cube_any]\<rparr>,
            r_raw := raw, r_unresolved := unresolved\<rparr>))"

definition extended_rule ::
  "string \<Rightarrow> string \<Rightarrow> string \<Rightarrow> int option \<Rightarrow> cube list \<Rightarrow> portset option \<Rightarrow> cube list \<Rightarrow> portset option
     \<Rightarrow> bool \<times> int set option \<times> string list \<Rightarrow> string list \<Rightarrow> rule" where
  "extended_rule raw rid action proto_num src_cubes src_ports dst_cubes dst_ports quals unresolved =
     (let (established, icmp_types, nar) = quals in
      (rule_default (if rid \<noteq> [] then rid else ''ext''))\<lparr>
        r_action := action,
        r_fields := \<lparr>fs_src_ips = src_cubes, fs_dst_ips = dst_cubes,
          fs_src_ports = src_ports, fs_dst_ports = dst_ports,
          fs_protos = map_option (\<lambda>n. {n}) proto_num,
          fs_ingress = None, fs_egress = None, fs_established = established,
          fs_opaque = False, fs_icmp_types = icmp_types, fs_narrowing = nar\<rparr>,
        r_raw := raw,
        r_unresolved := (if nar \<noteq> [] then
            unresolved @ [''ACE qualifier not evaluated: '' @ str_join '', '' nar] else unresolved)\<rparr>)"

definition parse_extended ::
  "string \<Rightarrow> string \<Rightarrow> string \<Rightarrow> string list \<Rightarrow> object_group dict \<Rightarrow> rule result" where
  "parse_extended raw rid action toks groups =
     (if 1 \<ge> length toks then Inr (opaque_rule rid action raw ''ACE ends before a protocol is given'')
      else
        let proto_tok = py_lower (toks ! 1); proto_num = proto_from_name proto_tok in
        if proto_num = None \<and> proto_tok \<notin> {''ip'', ''ipv4'', ''ip4'', ''any'', ''all''} then
          Inr (opaque_rule rid action raw
            (''protocol token '' @ [CHR 0x27] @ proto_tok @ [CHR 0x27] @ '' not understood''))
        else
          bind_r (consume_ip_spec toks 2 groups []) (\<lambda>(src, i1, unres1).
            case src of
              None \<Rightarrow> Inr (opaque_rule rid action raw ''source address specification not understood'')
            | Some src_cubes \<Rightarrow>
                let (src_ports, i2) = consume_port_spec toks i1 groups in
                bind_r (consume_ip_spec toks i2 groups unres1) (\<lambda>(dst, i3, unres2).
                  case dst of
                    None \<Rightarrow> Inr (opaque_rule rid action raw
                              ''destination address specification not understood'')
                  | Some dst_cubes \<Rightarrow>
                      let (dst_ports, i4) = consume_port_spec toks i3 groups in
                      Inr (extended_rule raw rid action proto_num src_cubes src_ports dst_cubes dst_ports
                        (consume_trailing_qualifiers toks i4 proto_tok) unres2))))"

text \<open>The \<open>except\<close> clause: any exception of the body makes the rule opaque, with its message.\<close>

fun exc_text :: "py_exc \<Rightarrow> string" where
  "exc_text (ValueError m) = m"
| "exc_text IndexError = ''list index out of range''"
| "exc_text (HTTPException c m) = m"

definition catch_ace :: "string \<Rightarrow> string \<Rightarrow> string \<Rightarrow> rule result \<Rightarrow> rule" where
  "catch_ace raw rid action res =
     (case res of
        Inr r \<Rightarrow> r
      | Inl e \<Rightarrow> (rule_default (if rid \<noteq> [] then rid else ''opaque''))\<lparr>
          r_action := action, r_fields := fieldset_default\<lparr>fs_opaque := True\<rparr>, r_raw := raw,
          r_unresolved := [''Error parsing ACE: '' @ exc_text e]\<rparr>)"

definition parse_ace_line :: "string \<Rightarrow> string \<Rightarrow> string \<Rightarrow> object_group dict \<Rightarrow> rule option" where
  "parse_ace_line raw seq kind groups =
     (let s0 = py_strip raw in
      if s0 = [] \<or> starts_with ''!'' s0 then None
      else let (knd, rid, s) = ace_head s0 seq kind in
        if starts_with ''remark '' (py_lower s) \<or> py_lower s = ''remark'' then None
        else let toks = py_split s in
          if toks = [] then None
          else let action_tok = py_lower (toks ! 0) in
            if action_tok \<noteq> ''permit'' \<and> action_tok \<noteq> ''deny'' then
              Some ((rule_default (if rid \<noteq> [] then rid else ''opaque''))\<lparr>
                r_action := ''unknown'', r_fields := fieldset_default\<lparr>fs_opaque := True\<rparr>, r_raw := raw,
                r_unresolved := [''Unrecognized ACE action: '' @ action_tok]\<rparr>)
            else Some (catch_ace raw rid action_tok
              (if is_standard_kind knd then parse_standard raw rid action_tok toks groups
               else parse_extended raw rid action_tok toks groups)))"


section \<open>What a parsed ACE guarantees\<close>

definition group_wf :: "object_group \<Rightarrow> bool" where
  "group_wf g \<longleftrightarrow> list_all cube_wf (og_cubes g)"

definition groups_wf :: "object_group dict \<Rightarrow> bool" where
  "groups_wf groups \<longleftrightarrow> (\<forall>nm g. dict_get groups nm = Some g \<longrightarrow> group_wf g)"

lemma consume_ip_spec_facts:
  assumes "groups_wf groups" and "consume_ip_spec toks idx groups u = Inr (Some cs, i, u')"
  shows "list_all cube_wf cs \<and> cs \<noteq> [] \<and> (\<exists>v. u' = u @ v)"
  using assms cube_constructors_wf
  by (auto simp: consume_ip_spec_def Let_def bind_r_eq_Inr groups_wf_def group_wf_def
      split: if_splits option.splits)

lemma consume_port_spec_nf: "pred_option ports_nf (fst (consume_port_spec toks idx groups))"
  by (auto simp: consume_port_spec_def Let_def option.pred_map comp_def pred_option_def
      split: option.split)

lemma fieldset_default_wf [simp]:
  "fs_wf fieldset_default" "fs_wf (fieldset_default\<lparr>fs_opaque := b\<rparr>)"
  "fs_src_ips fieldset_default = [cube_any]" "fs_dst_ips fieldset_default = [cube_any]"
  "fs_narrowing fieldset_default = []" "\<not> fs_opaque fieldset_default"
  by (simp_all add: fieldset_default_def fs_wf_def cube_constructors_wf)

text \<open>The invariant of a parsed rule.\<close>

definition rule_ok :: "rule \<Rightarrow> bool" where
  "rule_ok r \<longleftrightarrow> fs_wf (r_fields r) \<and> fs_src_ips (r_fields r) \<noteq> [] \<and> fs_dst_ips (r_fields r) \<noteq> []
     \<and> (fs_opaque (r_fields r) \<longrightarrow> r_unresolved r \<noteq> [])
     \<and> (fs_narrowing (r_fields r) \<noteq> [] \<longrightarrow> r_unresolved r \<noteq> [])
     \<and> (r_action r = ''permit'' \<or> r_action r = ''deny'' \<or> r_action r = ''unknown'' \<and> fs_opaque (r_fields r))"

lemma opaque_rule_ok:
  "action = ''permit'' \<or> action = ''deny'' \<Longrightarrow> rule_ok (opaque_rule rid action raw reason)"
  by (auto simp: opaque_rule_def rule_ok_def rule_default_def)

lemma parse_standard_ok:
  assumes g: "groups_wf groups" and a: "action = ''permit'' \<or> action = ''deny''"
    and p: "parse_standard raw rid action toks groups = Inr r"
  shows "rule_ok r"
proof -
  from p obtain src i u where c: "consume_ip_spec toks 1 groups [] = Inr (src, i, u)"
    "(case src of None \<Rightarrow> Inr (opaque_rule rid action raw ''source address specification not understood'')
      | Some src_cubes \<Rightarrow> Inr ((rule_default (if rid \<noteq> [] then rid else ''std''))\<lparr>
            r_action := action,
            r_fields := fieldset_default\<lparr>fs_src_ips := src_cubes, fs_dst_ips := [cube_any]\<rparr>,
            r_raw := raw, r_unresolved := u\<rparr>)) = (Inr r :: rule result)"
    by (auto simp: parse_standard_def bind_r_eq_Inr)
  show ?thesis
  proof (cases src)
    case None
    with c a show ?thesis by (auto simp: opaque_rule_ok)
  next
    case (Some cs)
    with c consume_ip_spec_facts [OF g, of toks 1 "[]" cs i u] a show ?thesis
      by (auto simp: rule_ok_def rule_default_def fieldset_default_def fs_wf_def cube_constructors_wf)
  qed
qed

lemma extended_rule_ok:
  assumes "list_all cube_wf src" "src \<noteq> []" "list_all cube_wf dst" "dst \<noteq> []"
    and "pred_option ports_nf sp" "pred_option ports_nf dp" and "action = ''permit'' \<or> action = ''deny''"
  shows "rule_ok (extended_rule raw rid action pn src sp dst dp quals u)"
  using assms by (auto simp: extended_rule_def rule_ok_def fs_wf_def Let_def split: prod.splits)

lemma parse_extended_ok:
  assumes g: "groups_wf groups" and a: "action = ''permit'' \<or> action = ''deny''"
    and p: "parse_extended raw rid action toks groups = Inr r"
  shows "rule_ok r"
proof -
  define pt where "pt = py_lower (toks ! 1)"
  note ok = opaque_rule_ok [OF a, of rid raw]
  show ?thesis
  proof (cases "1 \<ge> length toks \<or> proto_from_name pt = None \<and> pt \<notin> {''ip'', ''ipv4'', ''ip4'', ''any'', ''all''}")
    case True
    with p ok show ?thesis unfolding parse_extended_def Let_def pt_def [symmetric]
      by (auto split: if_splits)
  next
    case False
    with p obtain src i1 u1 where
      s: "consume_ip_spec toks 2 groups [] = Inr (src, i1, u1)" and
      r: "(case src of None \<Rightarrow> Inr (opaque_rule rid action raw ''source address specification not understood'')
        | Some src_cubes \<Rightarrow>
            let (src_ports, i2) = consume_port_spec toks i1 groups in
            bind_r (consume_ip_spec toks i2 groups u1) (\<lambda>(dst, i3, unres2).
              case dst of
                None \<Rightarrow> Inr (opaque_rule rid action raw ''destination address specification not understood'')
              | Some dst_cubes \<Rightarrow>
                  let (dst_ports, i4) = consume_port_spec toks i3 groups in
                  Inr (extended_rule raw rid action (proto_from_name pt) src_cubes src_ports dst_cubes dst_ports
                    (consume_trailing_qualifiers toks i4 pt) unres2))) = Inr r"
      unfolding parse_extended_def Let_def pt_def [symmetric] by (auto simp: bind_r_eq_Inr)
    show ?thesis
    proof (cases src)
      case None
      with r ok show ?thesis by auto
    next
      case (Some cs)
      obtain sp i2 where sp: "consume_port_spec toks i1 groups = (sp, i2)" by force
      with r Some obtain dst i3 u2 where
        d: "consume_ip_spec toks i2 groups u1 = Inr (dst, i3, u2)" by (auto simp: bind_r_eq_Inr)
      obtain dp i4 where dp: "consume_port_spec toks i3 groups = (dp, i4)" by force
      show ?thesis
        using r Some sp d dp ok consume_ip_spec_facts [OF g s [unfolded Some]]
          consume_ip_spec_facts [OF g, of toks i2 u1] consume_port_spec_nf [of toks i1 groups]
          consume_port_spec_nf [of toks i3 groups]
        by (cases dst) (auto intro!: extended_rule_ok [OF _ _ _ _ _ _ a])
    qed
  qed
qed

lemma catch_ace_ok:
  assumes "action = ''permit'' \<or> action = ''deny''" and "\<And>r. res = Inr r \<Longrightarrow> rule_ok r"
  shows "rule_ok (catch_ace raw rid action res)"
  using assms by (cases res) (auto simp: catch_ace_def rule_ok_def rule_default_def)

lemma parse_ace_line_ok:
  assumes g: "groups_wf groups" and p: "parse_ace_line raw seq kind groups = Some r"
  shows "rule_ok r"
proof -
  obtain knd rid s where h: "ace_head (py_strip raw) seq kind = (knd, rid, s)" by (metis prod_cases3)
  define toks where "toks = py_split s"
  define act where "act = py_lower (toks ! 0)"
  show ?thesis
  proof (cases "act = ''permit'' \<or> act = ''deny''")
    case True
    then have "rule_ok (catch_ace raw rid act
        (if is_standard_kind knd then parse_standard raw rid act toks groups
         else parse_extended raw rid act toks groups))"
      by (intro catch_ace_ok) (auto intro: parse_standard_ok [OF g] parse_extended_ok [OF g] split: if_splits)
    with p True show ?thesis
      unfolding parse_ace_line_def Let_def h toks_def [symmetric] act_def [symmetric] split
      by (simp split: if_splits)
  next
    case False
    have "rule_ok ((rule_default (if rid \<noteq> [] then rid else ''opaque''))\<lparr>
        r_action := ''unknown'', r_fields := fieldset_default\<lparr>fs_opaque := True\<rparr>, r_raw := raw,
        r_unresolved := [''Unrecognized ACE action: '' @ act]\<rparr>)"
      by (simp add: rule_ok_def rule_default_def)
    with p False show ?thesis
      unfolding parse_ace_line_def Let_def h toks_def [symmetric] act_def [symmetric] split
      by (simp split: if_splits)
  qed
qed


section \<open>Object groups\<close>

lemma succs_group_edges: "succs (group_edges groups) nm = group_contrib og_refs groups nm"
  by (induction groups) (auto simp: succs_def group_edges_def group_contrib_def split: prod.splits)

text \<open>What the resolution of a stored group collects: the items of every group it reaches.\<close>

lemma resolve_group_reaches:
  assumes "dict_get groups nm = Some g"
  shows "set (og_cubes (resolve_group groups nm g)) =
      (\<Union>m \<in> {m. (nm, m) \<in> (step_rel (group_edges groups))\<^sup>*}. set (group_contrib og_cubes groups m))"
    and "set (og_ports (resolve_group groups nm g)) =
      (\<Union>m \<in> {m. (nm, m) \<in> (step_rel (group_edges groups))\<^sup>*}. set (group_contrib og_ports groups m))"
proof -
  have "succs (group_edges groups) nm = og_refs g"
    using assms by (simp add: succs_group_edges group_contrib_def)
  then have reach: "{m. (nm, m) \<in> (step_rel (group_edges groups))\<^sup>*}
      = insert nm (set (visit (group_edges groups) (og_refs g) {nm}))"
    using visit_group [of nm "group_edges groups"] by simp
  show "set (og_cubes (resolve_group groups nm g)) =
      (\<Union>m \<in> {m. (nm, m) \<in> (step_rel (group_edges groups))\<^sup>*}. set (group_contrib og_cubes groups m))"
    unfolding reach using assms by (simp add: resolve_group_def Let_def group_contrib_def)
  show "set (og_ports (resolve_group groups nm g)) =
      (\<Union>m \<in> {m. (nm, m) \<in> (step_rel (group_edges groups))\<^sup>*}. set (group_contrib og_ports groups m))"
    unfolding reach using assms by (simp add: resolve_group_def Let_def group_contrib_def)
qed

lemma network_item_wf: "network_item toks g = Inr g' \<Longrightarrow> group_wf g \<Longrightarrow> group_wf g'"
  using cube_constructors_wf
  by (auto simp: network_item_def group_wf_def bind_r_eq_Inr split: if_splits)

lemma service_item_wf: "group_wf g \<Longrightarrow> group_wf (service_item toks g)"
  by (simp add: service_item_def group_wf_def)

lemma groups_wf_set: "groups_wf groups \<Longrightarrow> group_wf g \<Longrightarrow> groups_wf (dict_set nm g groups)"
  by (simp add: groups_wf_def)

lemma object_group_line_wf:
  assumes "object_group_line raw st = Inr st'" and "groups_wf (fst st)"
  shows "groups_wf (fst st')"
proof -
  obtain groups current where st: "st = (groups, current)" by (cases st)
  have new: "group_wf \<lparr>og_name = n, og_kind = k, og_cubes = [], og_ports = [], og_refs = []\<rparr>" for n k
    by (simp add: group_wf_def)
  show ?thesis
    using assms network_item_wf service_item_wf new
    unfolding object_group_line_def st Let_def
    by (fastforce simp: bind_r_eq_Inr groups_wf_def split: if_splits option.splits)
qed

lemma dict_get_map_entries: "dict_get (map (\<lambda>(nm, g). (nm, h nm g)) groups) k = map_option (h k) (dict_get groups k)"
  by (induction groups) auto

lemma resolve_group_wf:
  assumes "groups_wf groups" and "dict_get groups nm = Some g"
  shows "group_wf (resolve_group groups nm g)"
proof -
  have "list_all cube_wf (group_contrib og_cubes groups m)" for m
    using assms(1) by (auto simp: group_contrib_def groups_wf_def group_wf_def split: option.split)
  moreover have "list_all cube_wf (og_cubes g)" using assms by (simp add: groups_wf_def group_wf_def)
  ultimately show ?thesis by (auto simp: resolve_group_def group_wf_def list_all_iff Let_def)
qed

lemma parse_object_groups_wf:
  assumes "parse_object_groups lines = Inr groups"
  shows "groups_wf groups"
proof -
  from assms obtain gs cur where f: "fold_r object_group_line lines ([], None) = Inr (gs, cur)"
    and g: "groups = map (\<lambda>(nm, g). (nm, resolve_group gs nm g)) gs"
    by (auto simp: parse_object_groups_def bind_r_eq_Inr)
  have "groups_wf (fst (gs, cur))"
    by (rule fold_r_invariant [where P = "\<lambda>st. groups_wf (fst st)", OF f])
      (auto simp: groups_wf_def intro: object_group_line_wf [unfolded groups_wf_def, rule_format])
  then show ?thesis
    using resolve_group_wf by (auto simp: groups_wf_def g dict_get_map_entries)
qed

section \<open>Properties of the entry and group parsers\<close>

text \<open>
  Whatever line it is given, \<open>parse_ace_line\<close> returns no rule or a rule whose domain is well
  formed and names some address on both sides, whose action is \<open>permit\<close> or \<open>deny\<close> or belongs to an
  opaque rule, and which says why whenever it is opaque or narrowed by a qualifier.
\<close>

theorem parsed_ace_sound:
  assumes "groups_wf groups" and "parse_ace_line raw seq kind groups = Some r"
  shows "fs_wf (r_fields r) \<and> fs_src_ips (r_fields r) \<noteq> [] \<and> fs_dst_ips (r_fields r) \<noteq> []
    \<and> (fs_opaque (r_fields r) \<or> fs_narrowing (r_fields r) \<noteq> [] \<longrightarrow> r_unresolved r \<noteq> [])
    \<and> (r_action r = ''permit'' \<or> r_action r = ''deny'' \<or> r_action r = ''unknown'' \<and> fs_opaque (r_fields r))"
  using parse_ace_line_ok [OF assms] by (auto simp: rule_ok_def)

theorem parsed_ace_sound_witness:
  "\<exists>r. parse_ace_line ''20 permit tcp host 10.0.0.1 any eq www fragments'' [] ''named-ext'' [] = Some r
     \<and> r_unresolved r \<noteq> []"
proof -
  let ?l = "parse_ace_line ''20 permit tcp host 10.0.0.1 any eq www fragments'' [] ''named-ext'' []"
  have "\<not> Option.is_none ?l" by code_simp
  then obtain r where r: "?l = Some r" by (cases ?l) auto
  have "map_option (\<lambda>r. fs_narrowing (r_fields r)) ?l = Some [''fragments'']" by code_simp
  with r have "fs_narrowing (r_fields r) = [''fragments'']" by simp
  with parsed_ace_sound [OF _ r] r show ?thesis by (auto simp: groups_wf_def)
qed

text \<open>
  C40: the resolution of a stored object group collects exactly the addresses and the port
  ranges of the groups reachable from it over \<open>group-object\<close> references, and ends on cycles.
\<close>

theorem object_group_closure:
  assumes "dict_get groups nm = Some g"
  shows "set (og_cubes (resolve_group groups nm g)) =
      (\<Union>m \<in> {m. (nm, m) \<in> (step_rel (group_edges groups))\<^sup>*}. set (group_contrib og_cubes groups m))
    \<and> set (og_ports (resolve_group groups nm g)) =
      (\<Union>m \<in> {m. (nm, m) \<in> (step_rel (group_edges groups))\<^sup>*}. set (group_contrib og_ports groups m))"
  using resolve_group_reaches [OF assms] by simp

theorem object_group_closure_witness:
  "let a = \<lparr>og_name = ''A'', og_kind = ''network'', og_cubes = [], og_ports = [], og_refs = [''B'']\<rparr>;
       b = \<lparr>og_name = ''B'', og_kind = ''network'', og_cubes = [cube_any], og_ports = [], og_refs = [''A'']\<rparr>
   in cube_any \<in> set (og_cubes (resolve_group [(''A'', a), (''B'', b)] ''A'' a))"
proof -
  let ?a = "\<lparr>og_name = ''A'', og_kind = ''network'', og_cubes = [], og_ports = [], og_refs = [''B'']\<rparr>"
  let ?b = "\<lparr>og_name = ''B'', og_kind = ''network'', og_cubes = [cube_any], og_ports = [], og_refs = [''A'']\<rparr>"
  let ?gs = "[(''A'', ?a), (''B'', ?b)]"
  have "(''A'', ''B'') \<in> (step_rel (group_edges ?gs))\<^sup>*"
    by (rule r_into_rtrancl) (simp add: step_rel_def succs_group_edges group_contrib_def)
  moreover have "cube_any \<in> set (group_contrib og_cubes ?gs ''B'')" by (simp add: group_contrib_def)
  moreover have "dict_get ?gs ''A'' = Some ?a" by simp
  ultimately show ?thesis
    unfolding Let_def object_group_closure [THEN conjunct1, OF \<open>dict_get ?gs ''A'' = Some ?a\<close>] by blast
qed

end
