(* ===== verification/Ios_Config.thy ===== *)
theory Ios_Config
  imports Ios_Acl
begin

text \<open>
  \<open>parse_ios_config\<close> of \<open>services/policy_test/ios.py\<close>: a running configuration is cut into
  top-level blocks, the blocks fill the access lists, the interfaces and the routes, and the
  egress interface of a static route is found from the connected subnets. An \<open>except: pass\<close> of
  the code is a branch that keeps the state; an exception outside one ends the parse. Shown
  here: every rule, route and interface of the result satisfies the invariants the engine needs.
\<close>

section \<open>Blocks\<close>

datatype block_type = B_interface | B_named_std | B_named_ext | B_numbered | B_static | B_router

type_synonym block = "block_type \<times> string \<times> string list"

record block_state =
  bs_type :: "block_type option"
  bs_header :: string
  bs_lines :: "string list"
  bs_blocks :: "block list"

definition close_block :: "block_state \<Rightarrow> block_state" where
  "close_block st =
     (case bs_type st of
        None \<Rightarrow> st
      | Some t \<Rightarrow> st\<lparr>bs_blocks := bs_blocks st @ [(t, bs_header st, bs_lines st)],
                    bs_lines := [], bs_type := None\<rparr>)"

definition block_line :: "string \<Rightarrow> block_state \<Rightarrow> block_state" where
  "block_line ln st =
     (let s = py_strip ln in
      if s = [] \<or> starts_with ''!'' s then st
      else if length ln - length (py_lstrip ln) = 0 then
        (let st' = close_block st; low = py_lower s in
         if starts_with ''interface '' low then st'\<lparr>bs_type := Some B_interface, bs_header := s\<rparr>
         else if starts_with ''ip access-list standard '' low then
           st'\<lparr>bs_type := Some B_named_std, bs_header := s\<rparr>
         else if starts_with ''ip access-list extended '' low then
           st'\<lparr>bs_type := Some B_named_ext, bs_header := s\<rparr>
         else if starts_with ''access-list '' low then
           st'\<lparr>bs_blocks := bs_blocks st' @ [(B_numbered, s, [])]\<rparr>
         else if starts_with ''ip route '' low then
           st'\<lparr>bs_blocks := bs_blocks st' @ [(B_static, s, [])]\<rparr>
         else if starts_with ''router '' low then st'\<lparr>bs_type := Some B_router, bs_header := s\<rparr>
         else st')
      else (case bs_type st of None \<Rightarrow> st | Some _ \<Rightarrow> st\<lparr>bs_lines := bs_lines st @ [s]\<rparr>))"

definition extract_blocks :: "string list \<Rightarrow> block list" where
  "extract_blocks lines =
     bs_blocks (close_block (fold block_line lines
       \<lparr>bs_type = None, bs_header = [], bs_lines = [], bs_blocks = []\<rparr>))"

section \<open>One block\<close>

text \<open>What the blocks fill: the environment's tables, with the routes still apart.\<close>

record ios_build =
  ib_acls :: "ruleset dict"
  ib_interfaces :: "iface dict"
  ib_connected :: "route list"
  ib_static :: "route list"
  ib_protocols :: "string list"

text \<open>\<open>setdefault\<close>.\<close>

definition acl_default :: "string \<Rightarrow> string \<Rightarrow> ruleset dict \<Rightarrow> ruleset" where
  "acl_default nm kind acls = (case dict_get acls nm of Some a \<Rightarrow> a | None \<Rightarrow> ruleset_new nm kind)"

definition add_rule :: "rule option \<Rightarrow> ruleset \<Rightarrow> ruleset" where
  "add_rule r acl = (case r of None \<Rightarrow> acl | Some x \<Rightarrow> acl\<lparr>rs_rules := rs_rules acl @ [x]\<rparr>)"

definition numbered_acl_block :: "object_group dict \<Rightarrow> string \<Rightarrow> ruleset dict \<Rightarrow> ruleset dict" where
  "numbered_acl_block groups header acls =
     (case match_access_list header of
        None \<Rightarrow> acls
      | Some (num, _) \<Rightarrow>
          let kind = numbered_kind (digits_val num);
              acl = acl_default num (''numbered-'' @ kind) acls
          in dict_set num
               (add_rule (parse_ace_line header (str_nat (length (rs_rules acl) + 1)) kind groups) acl) acls)"

definition named_acl_block ::
  "object_group dict \<Rightarrow> string \<Rightarrow> string \<Rightarrow> string list \<Rightarrow> ruleset dict \<Rightarrow> ruleset dict" where
  "named_acl_block groups kind header body acls =
     (let acl_name = last (py_split header); acl = acl_default acl_name kind acls in
      dict_set acl_name (fold (\<lambda>ln. add_rule (parse_ace_line ln [] kind groups)) body acl) acls)"

definition iface_new :: "string \<Rightarrow> iface" where
  "iface_new nm = \<lparr>if_name = nm, if_ip = [], if_mask = [], if_prefix = [], if_secondary = [],
     if_acl_in = None, if_acl_out = None, if_shutdown = False\<rparr>"

text \<open>The prefix text of an address line; the mask of a dotted quad is parsed and may raise.\<close>

definition address_cidr :: "string \<Rightarrow> string \<Rightarrow> string result" where
  "address_cidr ip_val mask_val =
     (if is_ip mask_val then
        bind_r (ip_to_int mask_val) (\<lambda>m.
          Inr (case mask_to_prefix_len m of None \<Rightarrow> ip_val | Some n \<Rightarrow> ip_val @ ''/'' @ str_nat n))
      else Inr ip_val)"

definition iface_line :: "string \<Rightarrow> iface \<Rightarrow> iface result" where
  "iface_line ln info =
     (let low = py_lower ln in
      if low = ''shutdown'' then Inr (info\<lparr>if_shutdown := True\<rparr>)
      else if starts_with ''ip address '' low then
        (let toks = py_split ln in
         if length toks \<ge> 4 \<and> py_lower (toks ! 1) = ''address'' then
           bind_r (address_cidr (toks ! 2) (toks ! 3)) (\<lambda>cidr.
             if str_contains ''secondary'' low then
               Inr (info\<lparr>if_secondary := if_secondary info @ [(toks ! 2, toks ! 3, cidr)]\<rparr>)
             else Inr (info\<lparr>if_ip := toks ! 2, if_mask := toks ! 3, if_prefix := cidr\<rparr>))
         else Inr info)
      else if starts_with ''ip access-group '' low then
        (let toks = py_split ln in
         if length toks \<ge> 4 then
           (let direction = py_lower (toks ! 3) in
            if direction = ''in'' then Inr (info\<lparr>if_acl_in := Some (toks ! 2)\<rparr>)
            else if direction = ''out'' then Inr (info\<lparr>if_acl_out := Some (toks ! 2)\<rparr>)
            else Inr info)
         else Inr info)
      else Inr info)"

definition connected_route :: "string \<Rightarrow> iface \<Rightarrow> route list" where
  "connected_route nm info =
     (if \<not> if_shutdown info \<and> if_ip info \<noteq> [] \<and> if_mask info \<noteq> [] then
        (case cube_from_netmask (if_ip info) (if_mask info) of
           Inl _ \<Rightarrow> []
         | Inr c \<Rightarrow> [\<lparr>rt_prefix = prefix_text 24 c, rt_cube = c, rt_next_hop = None, rt_interface = nm,
              rt_source = ''connected'', rt_distance = 0, rt_metric = 0\<rparr>])
      else [])"

definition interface_block :: "string \<Rightarrow> string list \<Rightarrow> ios_build \<Rightarrow> ios_build result" where
  "interface_block header body b =
     (let nm = py_strip (drop 10 header) in
      bind_r (fold_r iface_line body (iface_new nm)) (\<lambda>info.
        Inr (b\<lparr>ib_interfaces := dict_set nm info (ib_interfaces b),
               ib_connected := ib_connected b @ connected_route nm info\<rparr>)))"

definition static_route_block :: "string \<Rightarrow> route list" where
  "static_route_block header =
     (let rest0 = drop 2 (py_split header);
          rest = (if take 1 rest0 = [''vrf''] \<and> length rest0 \<ge> 2 then drop 2 rest0 else rest0)
      in if length rest \<ge> 3 then
           (case cube_from_netmask (rest ! 0) (rest ! 1) of
              Inl _ \<Rightarrow> []
            | Inr c \<Rightarrow>
                let nexthop = rest ! 2 in
                [\<lparr>rt_prefix = prefix_text 0 c, rt_cube = c,
                  rt_next_hop = (if is_ip nexthop then Some nexthop else None),
                  rt_interface = (if is_ip nexthop then [] else nexthop),
                  rt_source = ''static'', rt_distance = static_route_distance (drop 3 rest),
                  rt_metric = 0\<rparr>])
         else [])"

definition process_block :: "object_group dict \<Rightarrow> block \<Rightarrow> ios_build \<Rightarrow> ios_build result" where
  "process_block groups blk b =
     (let (btype, header, body) = blk in
      case btype of
        B_numbered \<Rightarrow> Inr (b\<lparr>ib_acls := numbered_acl_block groups header (ib_acls b)\<rparr>)
      | B_named_std \<Rightarrow> Inr (b\<lparr>ib_acls := named_acl_block groups ''named-std'' header body (ib_acls b)\<rparr>)
      | B_named_ext \<Rightarrow> Inr (b\<lparr>ib_acls := named_acl_block groups ''named-ext'' header body (ib_acls b)\<rparr>)
      | B_interface \<Rightarrow> interface_block header body b
      | B_static \<Rightarrow> Inr (b\<lparr>ib_static := ib_static b @ static_route_block header\<rparr>)
      | B_router \<Rightarrow>
          let toks = py_split header in
          Inr (b\<lparr>ib_protocols := ib_protocols b @ [if length toks > 1 then toks ! 1 else ''dynamic'']\<rparr>))"

section \<open>The whole configuration\<close>

definition resolve_static :: "route list \<Rightarrow> route \<Rightarrow> route result" where
  "resolve_static connected sr =
     (case rt_next_hop sr of
        Some nh \<Rightarrow>
          if nh \<noteq> [] \<and> rt_interface sr = [] then
            bind_r (ip_to_int nh) (\<lambda>nh_int.
              case find (\<lambda>cr. contains_ip (rt_cube cr) nh_int) connected of
                Some cr \<Rightarrow> Inr \<lparr>rt_prefix = rt_prefix sr, rt_cube = rt_cube sr, rt_next_hop = rt_next_hop sr,
                    rt_interface = rt_interface cr, rt_source = rt_source sr,
                    rt_distance = rt_distance sr, rt_metric = 0\<rparr>
              | None \<Rightarrow> Inr sr)
          else Inr sr
      | None \<Rightarrow> Inr sr)"

definition resolve_all_static :: "route list \<Rightarrow> route list \<Rightarrow> route list result" where
  "resolve_all_static connected rs =
     fold_r (\<lambda>sr acc. bind_r (resolve_static connected sr) (\<lambda>r. Inr (acc @ [r]))) rs []"

definition parse_ios_config :: "string \<Rightarrow> ios_env result" where
  "parse_ios_config config_text =
     (let lines = map py_rstrip (splitlines config_text) in
      bind_r (parse_object_groups lines) (\<lambda>groups.
        bind_r (fold_r (process_block groups) (extract_blocks lines)
                  \<lparr>ib_acls = [], ib_interfaces = [], ib_connected = [], ib_static = [], ib_protocols = []\<rparr>)
          (\<lambda>b. bind_r (resolve_all_static (ib_connected b) (ib_static b)) (\<lambda>statics.
            Inr \<lparr>ie_acls = ib_acls b, ie_interfaces = ib_interfaces b,
                 ie_routes = \<lparr>tb_routes = ib_connected b @ statics,
                   tb_dynamic = length (ib_protocols b) > 0, tb_protocols = ib_protocols b\<rparr>,
                 ie_groups = groups, ie_unresolved = []\<rparr>))))"

section \<open>What a parsed configuration guarantees\<close>

definition route_ok :: "route \<Rightarrow> bool" where
  "route_ok r \<longleftrightarrow> cube_wf (rt_cube r) \<and> 0 \<le> rt_distance r
     \<and> (rt_source r = ''connected'' \<longrightarrow> rt_distance r = 0 \<and> rt_next_hop r = None)"

definition static_ok :: "route \<Rightarrow> bool" where
  "static_ok r \<longleftrightarrow> route_ok r \<and> rt_source r = ''static''"

text \<open>A static route as its line leaves it: an address as next hop, and no interface then.\<close>

definition static_raw :: "route \<Rightarrow> bool" where
  "static_raw r \<longleftrightarrow> static_ok r \<and> (\<forall>nh. rt_next_hop r = Some nh \<longrightarrow> is_ip nh \<and> rt_interface r = [])"

definition acls_ok :: "ruleset dict \<Rightarrow> bool" where
  "acls_ok acls \<longleftrightarrow> (\<forall>(nm, acl) \<in> set acls. list_all rule_ok (rs_rules acl))"

lemma dict_set_entries: "set (dict_set k v d) \<subseteq> insert (k, v) (set d)"
  by (induction d) auto

definition build_ok :: "ios_build \<Rightarrow> bool" where
  "build_ok b \<longleftrightarrow> acls_ok (ib_acls b)
     \<and> list_all (\<lambda>r. route_ok r \<and> rt_source r = ''connected'') (ib_connected b)
     \<and> list_all static_raw (ib_static b)"

lemma static_route_distance_nonneg: "0 \<le> static_route_distance toks"
  by (induction toks rule: static_route_distance.induct) auto

lemma add_rule_ok:
  "list_all rule_ok (rs_rules acl) \<Longrightarrow> pred_option rule_ok r \<Longrightarrow> list_all rule_ok (rs_rules (add_rule r acl))"
  by (cases r) (auto simp: add_rule_def)

lemma parse_ace_pred_ok: "groups_wf groups \<Longrightarrow> pred_option rule_ok (parse_ace_line raw seq kind groups)"
  by (cases "parse_ace_line raw seq kind groups") (auto intro: parse_ace_line_ok)

lemma acls_ok_set:
  "acls_ok acls \<Longrightarrow> list_all rule_ok (rs_rules acl) \<Longrightarrow> acls_ok (dict_set nm acl acls)"
  using dict_set_entries [of nm acl acls] by (fastforce simp: acls_ok_def)

lemma acl_default_ok: "acls_ok acls \<Longrightarrow> list_all rule_ok (rs_rules (acl_default nm kind acls))"
  by (auto simp: acls_ok_def acl_default_def ruleset_new_def split: option.split dest!: map_of_SomeD)

lemma fold_add_rule_ok:
  "groups_wf groups \<Longrightarrow> list_all rule_ok (rs_rules acl)
     \<Longrightarrow> list_all rule_ok (rs_rules (fold (\<lambda>ln. add_rule (parse_ace_line ln seq kind groups)) body acl))"
  by (induction body arbitrary: acl) (auto intro: add_rule_ok parse_ace_pred_ok)

lemma named_acl_block_ok:
  "groups_wf groups \<Longrightarrow> acls_ok acls \<Longrightarrow> acls_ok (named_acl_block groups kind header body acls)"
  by (simp add: named_acl_block_def Let_def acls_ok_set acl_default_ok fold_add_rule_ok)

lemma numbered_acl_block_ok:
  "groups_wf groups \<Longrightarrow> acls_ok acls \<Longrightarrow> acls_ok (numbered_acl_block groups header acls)"
  by (simp add: numbered_acl_block_def Let_def acls_ok_set acl_default_ok add_rule_ok
      parse_ace_pred_ok split: option.split)

lemma connected_route_ok:
  "list_all (\<lambda>r. route_ok r \<and> rt_source r = ''connected'') (connected_route nm info)"
  by (auto simp: connected_route_def route_ok_def dest: cube_constructors_wf(3) split: sum.split)

lemma static_route_block_ok: "list_all static_raw (static_route_block header)"
  by (auto simp: static_route_block_def static_raw_def static_ok_def route_ok_def Let_def static_route_distance_nonneg
      simp del: drop_drop dest: cube_constructors_wf(3) split: sum.split)

lemma process_block_ok:
  assumes g: "groups_wf groups" and b: "build_ok b" and p: "process_block groups blk b = Inr b'"
  shows "build_ok b'"
proof -
  obtain t h body where blk: "blk = (t, h, body)" by (metis prod_cases3)
  show ?thesis
  proof (cases t)
    case B_interface
    with p blk b connected_route_ok show ?thesis
      by (auto simp: process_block_def interface_block_def build_ok_def Let_def bind_r_eq_Inr)
  next
    case B_named_std
    with p blk b g named_acl_block_ok show ?thesis by (auto simp: process_block_def build_ok_def)
  next
    case B_named_ext
    with p blk b g named_acl_block_ok show ?thesis by (auto simp: process_block_def build_ok_def)
  next
    case B_numbered
    with p blk b g numbered_acl_block_ok show ?thesis by (auto simp: process_block_def build_ok_def)
  next
    case B_static
    with p blk b static_route_block_ok show ?thesis
      by (auto simp: process_block_def build_ok_def)
  next
    case B_router
    with p blk b show ?thesis by (auto simp: process_block_def build_ok_def Let_def)
  qed
qed

text \<open>What the resolution of the next hops leaves.\<close>

definition static_resolved :: "route list \<Rightarrow> route \<Rightarrow> bool" where
  "static_resolved conn r \<longleftrightarrow> static_ok r \<and>
     (\<forall>nh. rt_next_hop r = Some nh \<longrightarrow> is_ip nh \<and>
        (\<exists>ip. ip_to_int nh = Inr ip \<and>
          (case find (\<lambda>cr. contains_ip (rt_cube cr) ip) conn of
             Some cr \<Rightarrow> rt_interface r = rt_interface cr
           | None \<Rightarrow> rt_interface r = [])))"

lemma is_ip_nonempty: "is_ip nh \<Longrightarrow> nh \<noteq> []"
  by (auto simp: is_ip_def)

lemma resolve_static_ok:
  assumes "resolve_static conn sr = Inr r" and "static_raw sr"
  shows "static_resolved conn r"
proof (cases "rt_next_hop sr")
  case None
  with assms show ?thesis by (auto simp: resolve_static_def static_raw_def static_resolved_def)
next
  case (Some nh)
  with assms(2) have nh: "is_ip nh" "nh \<noteq> []" "rt_interface sr = []" "static_ok sr"
    by (auto simp: static_raw_def dest: is_ip_nonempty)
  with assms(1) Some obtain ip where ip: "ip_to_int nh = Inr ip"
    by (auto simp: resolve_static_def bind_r_eq_Inr)
  show ?thesis
    using assms(1) Some nh ip
    by (auto simp: resolve_static_def static_resolved_def static_ok_def route_ok_def split: option.splits)
qed

lemma resolve_all_static_ok:
  assumes out: "resolve_all_static conn rs = Inr out" and rs: "list_all static_raw rs"
  shows "list_all (static_resolved conn) out"
proof (rule fold_r_invariant [where P = "list_all (static_resolved conn)",
        OF out [unfolded resolve_all_static_def]])
  show "list_all (static_resolved conn) []" by simp
next
  fix r acc t
  assume r: "r \<in> set rs" and acc: "list_all (static_resolved conn) acc"
    and step: "bind_r (resolve_static conn r) (\<lambda>r. Inr (acc @ [r])) = Inr t"
  from step obtain r' where r': "resolve_static conn r = Inr r'" and t: "t = acc @ [r']"
    by (auto simp only: bind_r_eq_Inr sum.inject)
  from r rs have "static_raw r" by (simp add: list_all_iff)
  from resolve_static_ok [OF r' this] acc t show "list_all (static_resolved conn) t" by simp
qed

definition ios_env_ok :: "ios_env \<Rightarrow> bool" where
  "ios_env_ok env \<longleftrightarrow>
     acls_ok (ie_acls env)
     \<and> list_all route_ok (tb_routes (ie_routes env))
     \<and> list_all (\<lambda>r. rt_source r = ''static'' \<longrightarrow> static_resolved (connected_subnets (ie_routes env)) r)
         (tb_routes (ie_routes env))
     \<and> (tb_dynamic (ie_routes env) \<longleftrightarrow> tb_protocols (ie_routes env) \<noteq> [])"

lemma parse_ios_config_ok:
  assumes "parse_ios_config txt = Inr env"
  shows "ios_env_ok env"
proof -
  from assms obtain groups b statics where
    g: "parse_object_groups (map py_rstrip (splitlines txt)) = Inr groups"
    and f: "fold_r (process_block groups) (extract_blocks (map py_rstrip (splitlines txt)))
       \<lparr>ib_acls = [], ib_interfaces = [], ib_connected = [], ib_static = [], ib_protocols = []\<rparr> = Inr b"
    and s: "resolve_all_static (ib_connected b) (ib_static b) = Inr statics"
    and e: "env = \<lparr>ie_acls = ib_acls b, ie_interfaces = ib_interfaces b,
                 ie_routes = \<lparr>tb_routes = ib_connected b @ statics,
                   tb_dynamic = length (ib_protocols b) > 0, tb_protocols = ib_protocols b\<rparr>,
                 ie_groups = groups, ie_unresolved = []\<rparr>"
    by (auto simp: parse_ios_config_def bind_r_eq_Inr Let_def)
  have b: "build_ok b"
  proof (rule fold_r_invariant [where P = build_ok, OF f])
    fix blk s t
    assume "build_ok s" "process_block groups blk s = Inr t"
    then show "build_ok t" by (rule process_block_ok [OF parse_object_groups_wf [OF g]])
  qed (simp add: build_ok_def acls_ok_def)
  then have res: "list_all (static_resolved (ib_connected b)) statics"
    by (intro resolve_all_static_ok [OF s]) (simp add: build_ok_def)
  have src: "\<forall>r \<in> set (ib_connected b). route_ok r \<and> rt_source r = ''connected''"
    "\<forall>r \<in> set statics. route_ok r \<and> rt_source r = ''static''"
    using b res by (auto simp: build_ok_def static_resolved_def static_ok_def list_all_iff)
  then have "filter (\<lambda>r. rt_source r = ''connected'') (ib_connected b) = ib_connected b"
    "filter (\<lambda>r. rt_source r = ''connected'') statics = []"
    by (auto simp: filter_id_conv filter_empty_conv)
  then have "connected_subnets (ie_routes env) = ib_connected b"
    by (simp add: connected_subnets_def e)
  with b res src show ?thesis by (auto simp: ios_env_ok_def build_ok_def e list_all_iff)
qed

lemma route_ok_distances: "list_all route_ok rs \<Longrightarrow> distances_ok rs"
  by (auto simp: distances_ok_def route_ok_def list_all_iff)

section \<open>Properties of the configuration parser\<close>

text \<open>A small configuration that the witnesses below use.\<close>

definition sample_config :: string where
  "sample_config = str_join [CHR 0x0A]
     [''interface Gi0/0'', '' ip address 10.0.0.1 255.255.255.0'', '' ip access-group EDGE in'', ''!'',
      ''ip access-list extended EDGE'', '' permit tcp any host 10.0.0.9 eq 443'', '' deny ip any any'', ''!'',
      ''ip route 192.168.0.0 255.255.0.0 10.0.0.254 20 name core'',
      ''ip route 172.16.0.0 255.240.0.0 10.9.9.9'']"

lemma sample_config_eval:
  "(case parse_ios_config sample_config of Inl _ \<Rightarrow> []
    | Inr env \<Rightarrow> map (\<lambda>r. (contains_ip (rt_cube r) 0x0A00004D, rt_source r, rt_next_hop r)) (tb_routes (ie_routes env)))
   = [(True, ''connected'', None), (False, ''static'', Some ''10.0.0.254''), (False, ''static'', Some ''10.9.9.9'')]"
  by code_simp

lemma sample_config_routes:
  obtains env c s where "parse_ios_config sample_config = Inr env"
    "c \<in> set (tb_routes (ie_routes env))" "contains_ip (rt_cube c) 0x0A00004D"
    "s \<in> set (tb_routes (ie_routes env))" "rt_source s = ''static''" "rt_next_hop s = Some ''10.0.0.254''"
proof -
  obtain env where env: "parse_ios_config sample_config = Inr env"
    using sample_config_eval by (cases "parse_ios_config sample_config") auto
  let ?view = "\<lambda>r. (contains_ip (rt_cube r) 0x0A00004D, rt_source r, rt_next_hop r)"
  from env sample_config_eval
  have m: "map ?view (tb_routes (ie_routes env)) = [(True, ''connected'', None),
      (False, ''static'', Some ''10.0.0.254''), (False, ''static'', Some ''10.9.9.9'')]"
    by simp
  have "(True, ''connected'', None) \<in> set (map ?view (tb_routes (ie_routes env)))"
    "(False, ''static'', Some ''10.0.0.254'') \<in> set (map ?view (tb_routes (ie_routes env)))"
    unfolding m by simp_all
  then obtain c s where "c \<in> set (tb_routes (ie_routes env))" "contains_ip (rt_cube c) 0x0A00004D"
    "s \<in> set (tb_routes (ie_routes env))" "rt_source s = ''static''" "rt_next_hop s = Some ''10.0.0.254''"
    by auto
  with env show thesis by (rule that)
qed

text \<open>
  Whatever text \<open>parse_ios_config\<close> accepts, every rule of every access list it returns is
  well formed and explains itself when it is not decidable, every route has a normalised prefix
  and a distance that is not negative, 0 for connected routes, and the dynamic-routing flag is
  set exactly when a routing process was seen.
\<close>

theorem parsed_config_wellformed:
  assumes "parse_ios_config txt = Inr env"
  shows "(\<forall>(nm, acl) \<in> set (ie_acls env). \<forall>r \<in> set (rs_rules acl). rule_ok r)
    \<and> (\<forall>r \<in> set (tb_routes (ie_routes env)). cube_wf (rt_cube r) \<and> 0 \<le> rt_distance r
        \<and> (rt_source r = ''connected'' \<longrightarrow> rt_distance r = 0))
    \<and> (tb_dynamic (ie_routes env) \<longleftrightarrow> tb_protocols (ie_routes env) \<noteq> [])"
  using parse_ios_config_ok [OF assms]
  by (auto simp: ios_env_ok_def acls_ok_def route_ok_def list_all_iff)

theorem parsed_config_wellformed_witness:
  "\<exists>env. parse_ios_config sample_config = Inr env
     \<and> tb_dynamic (ie_routes env) = (tb_protocols (ie_routes env) \<noteq> [])"
  using sample_config_routes parsed_config_wellformed [of sample_config] by metis

text \<open>
  On the route table of a parsed configuration the lookup is a longest-prefix match with
  the device's tie-break, with no further assumption.
\<close>

theorem parsed_config_lookup:
  assumes "parse_ios_config txt = Inr env" and "ip_to_int dst = Inr ip"
    and "route_lookup (ie_routes env) dst = Some b"
  shows "b \<in> set (tb_routes (ie_routes env)) \<and> contains_ip (rt_cube b) ip
    \<and> (\<forall>r \<in> set (tb_routes (ie_routes env)). contains_ip (rt_cube r) ip \<longrightarrow> better_or_eq b r)"
proof -
  have "distances_ok (tb_routes (ie_routes env))"
    using parse_ios_config_ok [OF assms(1)] by (simp add: ios_env_ok_def route_ok_distances)
  then show ?thesis
    using route_lookup_best [OF assms(2), of "ie_routes env"] route_lookup_tie [OF assms(2) _ assms(3)]
      assms(3) by auto
qed

theorem parsed_config_lookup_witness:
  "\<exists>env b. parse_ios_config sample_config = Inr env \<and> route_lookup (ie_routes env) ''10.0.0.77'' = Some b
     \<and> contains_ip (rt_cube b) 0x0A00004D"
proof -
  obtain env r where env: "parse_ios_config sample_config = Inr env"
    and r: "r \<in> set (tb_routes (ie_routes env))" "contains_ip (rt_cube r) 0x0A00004D"
    by (rule sample_config_routes)
  have ip: "ip_to_int ''10.0.0.77'' = Inr 0x0A00004D" by code_simp
  from r route_lookup_best [OF ip, of "ie_routes env"]
  obtain b where b: "route_lookup (ie_routes env) ''10.0.0.77'' = Some b"
    by (cases "route_lookup (ie_routes env) ''10.0.0.77''") auto
  from parsed_config_lookup [OF env ip b] env b show ?thesis by blast
qed

text \<open>
  In a parsed configuration every static route with a next hop leaves through the interface
  of the first connected subnet that contains the next hop, and has no interface when there is
  no such subnet.
\<close>

theorem parsed_static_next_hops:
  assumes "parse_ios_config txt = Inr env" and "r \<in> set (tb_routes (ie_routes env))"
    and "rt_source r = ''static''" and "rt_next_hop r = Some nh"
  shows "\<exists>ip. ip_to_int nh = Inr ip \<and>
    (case find (\<lambda>cr. contains_ip (rt_cube cr) ip) (connected_subnets (ie_routes env)) of
       Some cr \<Rightarrow> rt_interface r = rt_interface cr
     | None \<Rightarrow> rt_interface r = [])"
  using parse_ios_config_ok [OF assms(1)] assms(2-4)
  by (auto simp: ios_env_ok_def list_all_iff static_resolved_def)

theorem parsed_static_next_hops_witness:
  "\<exists>env ip. parse_ios_config sample_config = Inr env \<and> ip_to_int ''10.0.0.254'' = Inr ip"
proof -
  obtain env r where env: "parse_ios_config sample_config = Inr env"
    and r: "r \<in> set (tb_routes (ie_routes env))" "rt_source r = ''static''" "rt_next_hop r = Some ''10.0.0.254''"
    by (rule sample_config_routes)
  from parsed_static_next_hops [OF env r] env show ?thesis by blast
qed

end
