(* ===== verification/Ace_Roundtrip.thy ===== *)
theory Ace_Roundtrip
  imports Ios_Acl
begin

text \<open>
  An extended access-list entry written out from its parts and parsed again. The rendering is
  the form the documentation of IOS gives for a TCP or UDP entry with one destination port;
  \<open>parse_ace_line\<close> returns the rule with exactly those parts, decidable, for every address,
  every wildcard and every port.
\<close>

definition render_ace :: "string \<Rightarrow> string \<Rightarrow> u32 \<Rightarrow> u32 \<Rightarrow> u32 \<Rightarrow> u32 \<Rightarrow> nat \<Rightarrow> string" where
  "render_ace action proto a w b v p =
     str_join '' '' [action, proto, int_to_ip a, int_to_ip w, int_to_ip b, int_to_ip v, ''eq'', str_nat p]"

lemma int_to_ip_chars: "c \<in> set (int_to_ip w) \<Longrightarrow> c = CHR ''.'' \<or> is_digit c"
  by (auto simp: int_to_ip_def Let_def dest: str_nat_chars)

lemma dot_not_special: "\<not> py_isspace (CHR ''.'')" "lower_char (CHR ''.'') = CHR ''.''"
  by (simp_all add: py_isspace_def lower_char_def code_def Let_def)

lemma int_to_ip_token: "word_token (int_to_ip w)"
proof -
  have "int_to_ip w \<noteq> []" by (simp add: int_to_ip_def Let_def)
  moreover have "\<not> py_isspace c" if "c \<in> set (int_to_ip w)" for c
    using int_to_ip_chars [OF that] dot_not_special is_digit_not_space by blast
  ultimately show ?thesis by (simp add: word_token_def)
qed

lemma py_lower_int_to_ip [simp]: "py_lower (int_to_ip w) = int_to_ip w"
  unfolding py_lower_def
  by (rule map_idI) (use int_to_ip_chars dot_not_special lower_digit in blast)

lemma int_to_ip_no_word: "list_ex (\<lambda>c. c \<noteq> CHR ''.'' \<and> \<not> is_digit c) s \<Longrightarrow> int_to_ip w \<noteq> s"
  using int_to_ip_chars by (force simp: list_ex_iff)

lemma int_to_ip_keywords [simp]:
  "int_to_ip w \<noteq> ''any''" "int_to_ip w \<noteq> ''any4''" "int_to_ip w \<noteq> ''host''"
  "int_to_ip w \<noteq> ''object-group''" "int_to_ip w \<noteq> ''eq''" "int_to_ip w \<noteq> ''gt''"
  "int_to_ip w \<noteq> ''lt''" "int_to_ip w \<noteq> ''neq''" "int_to_ip w \<noteq> ''range''"
  by (rule int_to_ip_no_word, code_simp)+

lemma byte_le: "(n :: nat) mod 256 \<le> 255"
  using mod_less_divisor [of 256 n] by linarith

lemma is_ip_int_to_ip [simp]: "is_ip (int_to_ip w)"
proof -
  have b: "unat w < 4294967296" using unsigned_less [of w] by simp
  then have "unat w div 16777216 < 256" by simp
  then show ?thesis
    by (simp add: is_ip_def int_to_ip_def Let_def split_on_sep split_on_no_sep str_nat_digits byte_le)
qed

lemma parse_port_val_str_nat: "p \<le> 65535 \<Longrightarrow> parse_port_val (str_nat p) = Some (int p)"
proof -
  have "py_strip (str_nat p) = str_nat p"
    by (rule py_strip_no_space) (auto dest: str_nat_chars is_digit_not_space)
  then show "p \<le> 65535 \<Longrightarrow> ?thesis" by (simp add: parse_port_val_def str_nat_digits)
qed

lemma is_standard_kind_named_ext: "\<not> is_standard_kind ''named-ext''"
  by code_simp

text \<open>The head of the line: no sequence number, no \<open>access-list\<close> keyword, no remark.\<close>

lemma starts_with_Cons: "starts_with (x # xs) (c # cs) \<longleftrightarrow> x = c \<and> starts_with xs cs"
  by (auto simp: starts_with_def)

lemma ace_head_action:
  assumes "action = ''permit'' \<or> action = ''deny''" and "s = action @ t"
  shows "ace_head s seq kind = (kind, seq, s) \<and> \<not> starts_with ''!'' s
    \<and> \<not> (starts_with ''remark '' (py_lower s) \<or> py_lower s = ''remark'')"
proof -
  from assms obtain c cs where s: "s = c # cs" and c: "c = CHR ''p'' \<or> c = CHR ''d''" by auto
  from c have l: "py_lower s = c # py_lower cs" "c \<noteq> CHR ''a''" "c \<noteq> CHR ''!''" "c \<noteq> CHR ''r''" "\<not> is_digit c"
    by (auto simp: s py_lower_def lower_char_def is_digit_def code_def Let_def)
  then have "\<not> starts_with ''access-list'' (py_lower s)" "\<not> starts_with ''!'' s"
    "\<not> starts_with ''remark '' (py_lower s)" "py_lower s \<noteq> ''remark''" "match_seq s = None"
    by (auto simp: starts_with_Cons s match_seq_def)
  then show ?thesis by (simp add: ace_head_def match_access_list_def)
qed

lemma consume_ip_wildcard:
  assumes "toks ! i = int_to_ip a" "toks ! (i + 1) = int_to_ip w" "i + 1 < length toks"
  shows "consume_ip_spec toks i groups u = Inr (Some [mk_cube (a AND NOT w) (NOT w)], i + 2, u)"
  using assms by (simp add: consume_ip_spec_def Let_def cube_from_wildcard_def)

lemma consume_port_none:
  assumes "toks ! i = int_to_ip a" shows "consume_port_spec toks i groups = (None, i)"
  using assms by (simp add: consume_port_spec_def Let_def)

lemma consume_port_eq:
  assumes "toks ! i = ''eq''" "toks ! (i + 1) = str_nat p" "i + 1 < length toks" "p \<le> 65535"
  shows "consume_port_spec toks i groups = (Some (ports_from_op ''eq'' (int p) None), i + 2)"
proof -
  have "py_lower ''eq'' = ''eq''" by code_simp
  with assms show ?thesis by (simp add: consume_port_spec_def Let_def parse_port_val_str_nat)
qed

lemma parse_rendered:
  assumes a: "action = ''permit'' \<or> action = ''deny''" and p: "proto = ''tcp'' \<or> proto = ''udp''"
    and port: "p \<le> 65535" and raw_def: "raw = render_ace action proto a w b v p"
  shows "parse_ace_line raw seq ''named-ext'' groups =
     Some (extended_rule raw seq action (proto_from_name proto) [mk_cube (a AND NOT w) (NOT w)] None
       [mk_cube (b AND NOT v) (NOT v)] (Some (ports_from_op ''eq'' (int p) None)) (False, None, []) [])"
proof -
  let ?toks = "[action, proto, int_to_ip a, int_to_ip w, int_to_ip b, int_to_ip v, ''eq'', str_nat p]"
  have low: "py_lower action = action" "py_lower proto = proto" "word_token action" "word_token proto"
    "word_token ''eq''"
    using a p by (auto simp: py_lower_def lower_char_def code_def Let_def word_token_def py_isspace_def)
  then have toks: "py_split raw = ?toks"
    unfolding raw_def render_ace_def
    by (intro py_split_join) (auto simp: int_to_ip_token str_nat_token)
  obtain t where raw: "raw = action @ t" by (simp add: raw_def render_ace_def)
  have ne: "raw \<noteq> []" using a raw by auto
  have "last raw = last (str_nat p)"
    unfolding raw_def render_ace_def by (subst str_join_last [THEN conjunct1]) auto
  moreover have "last (str_nat p) \<in> set (str_nat p)" by (intro last_in_set) simp
  ultimately have "\<not> py_isspace (last raw)"
    using str_nat_chars [of "last (str_nat p)" p] is_digit_not_space by simp
  moreover have "\<not> py_isspace (hd raw)"
    using a raw by (auto simp: py_isspace_def code_def Let_def)
  ultimately have strip: "py_strip raw = raw" using ne by (intro py_strip_ends)
  have "proto_from_name proto \<noteq> None" using p by (elim disjE) (hypsubst, code_simp)+
  then obtain n where proto: "proto_from_name proto = Some n" by blast
  have "consume_trailing_qualifiers ?toks 8 proto = (False, None, [])"
    by (simp add: consume_trailing_qualifiers_def)
  moreover have "consume_ip_spec ?toks 2 groups [] = Inr (Some [mk_cube (a AND NOT w) (NOT w)], 4, [])"
    using consume_ip_wildcard [of ?toks 2 a w groups "[]"] by simp
  moreover have "consume_ip_spec ?toks 4 groups [] = Inr (Some [mk_cube (b AND NOT v) (NOT v)], 6, [])"
    using consume_ip_wildcard [of ?toks 4 b v groups "[]"] by simp
  moreover have "consume_port_spec ?toks 4 groups = (None, 4)"
    by (rule consume_port_none [of _ _ b]) simp
  moreover have "consume_port_spec ?toks 6 groups = (Some (ports_from_op ''eq'' (int p) None), 8)"
    using consume_port_eq [of ?toks 6 p groups] port by simp
  ultimately have "parse_extended raw seq action ?toks groups =
     Inr (extended_rule raw seq action (proto_from_name proto) [mk_cube (a AND NOT w) (NOT w)] None
       [mk_cube (b AND NOT v) (NOT v)] (Some (ports_from_op ''eq'' (int p) None)) (False, None, []) [])"
    using proto low by (simp add: parse_extended_def Let_def)
  with a show ?thesis
    using ne low ace_head_action [OF a raw] is_standard_kind_named_ext
    by (elim disjE) (simp_all add: parse_ace_line_def Let_def strip toks catch_ace_def)
qed

section \<open>Property of the entry parser\<close>

text \<open>
  C39: an extended ACE that is printed from its parts is read back as a decidable rule with the
  printed action, which matches a packet with both addresses, the protocol and the destination
  port given if and only if the protocol is the printed one, both addresses agree with the
  printed ones outside the wildcard bits, and the port is the printed one.
\<close>

theorem ace_print_parse:
  assumes "action = ''permit'' \<or> action = ''deny''" and "proto = ''tcp'' \<or> proto = ''udp''" and "p \<le> 65535"
    and "ip_to_int (fl_src_ip f) = Inr s" "ip_to_int (fl_dst_ip f) = Inr d"
    and "proto_from_name (fl_proto f) = Some q" and "fl_dport f = Some k" "1 \<le> k" "k \<le> 65535"
  shows "\<exists>r. parse_ace_line (render_ace action proto a w b v p) seq ''named-ext'' groups = Some r
    \<and> r_action r = action \<and> r_unresolved r = [] \<and> \<not> fs_opaque (r_fields r)
    \<and> (fs_matches (r_fields r) f \<longleftrightarrow> proto_from_name proto = Some q
        \<and> s AND NOT w = a AND NOT w \<and> d AND NOT v = b AND NOT v \<and> k = int p)"
proof -
  from assms(2) obtain n where n: "proto_from_name proto = Some n"
    using proto_from_name_names(3,4) by auto
  have port: "contains_port (ports_from_op ''eq'' (int p) None) k \<longleftrightarrow> k = int p"
    by (rule ports_from_op_denotes(1)) (use assms(3,8,9) in auto)
  show ?thesis
    using parse_rendered [OF assms(1-3) refl, of a w b v seq groups] assms(4-7) port n
    by (auto simp: extended_rule_def rule_default_def fs_matches_iff match_known_dimensions_iff num_mem_def)
qed

theorem ace_print_parse_witness:
  "\<exists>r. parse_ace_line (render_ace ''permit'' ''tcp'' 0x0A000000 0x0000FFFF 0xC0000207 0 443) [] ''named-ext'' [] = Some r
    \<and> fs_matches (r_fields r) \<lparr>fl_src_ip = ''10.0.7.9'', fl_dst_ip = ''192.0.2.7'', fl_proto = ''tcp'',
        fl_sport = None, fl_dport = Some 443, fl_ingress = None, fl_egress = None,
        fl_tcp_flags = None, fl_established = False, fl_icmp_type = None\<rparr>"
proof -
  let ?f = "\<lparr>fl_src_ip = ''10.0.7.9'', fl_dst_ip = ''192.0.2.7'', fl_proto = ''tcp'',
        fl_sport = None, fl_dport = Some 443, fl_ingress = None, fl_egress = None,
        fl_tcp_flags = None, fl_established = False, fl_icmp_type = None\<rparr>"
  have ips: "ip_to_int (fl_src_ip ?f) = Inr 0x0A000709" "ip_to_int (fl_dst_ip ?f) = Inr 0xC0000207"
    by code_simp+
  have q: "proto_from_name (fl_proto ?f) = Some 6" by code_simp
  have "\<exists>r. parse_ace_line (render_ace ''permit'' ''tcp'' 0x0A000000 0x0000FFFF 0xC0000207 0 443) [] ''named-ext'' [] = Some r
    \<and> r_action r = ''permit'' \<and> r_unresolved r = [] \<and> \<not> fs_opaque (r_fields r)
    \<and> (fs_matches (r_fields r) ?f \<longleftrightarrow> proto_from_name ''tcp'' = Some 6
        \<and> (0x0A000709 :: u32) AND NOT 0x0000FFFF = 0x0A000000 AND NOT 0x0000FFFF
        \<and> (0xC0000207 :: u32) AND NOT 0 = 0xC0000207 AND NOT 0 \<and> 443 = int 443)"
    by (rule ace_print_parse [OF _ _ _ ips q]) simp_all
  then show ?thesis by (auto simp: proto_from_name_names)
qed

end
