(* ===== verification/Forti_Tree.thy ===== *)
theory Forti_Tree
  imports SN_Prelude
begin

text \<open>
  The FortiOS block syntax of \<open>fw_analyzers/fortios.py\<close>: tokens, the tree of \<open>config\<close> and
  \<open>edit\<close> blocks, and the accessors. The code keeps a stack of references into the tree it is
  building; a reference is the path of block names from the root, so the stack is the path of the
  block that is open, and an update through it changes the tree at that path.
\<close>

section \<open>Tokens\<close>

text \<open>\<open>_FORTI_TOKEN.findall\<close>: a quoted text where a closing quote follows, else a run of non-space.\<close>

function forti_scan :: "string \<Rightarrow> string list" where
  "forti_scan [] = []"
| "forti_scan (c # cs) =
     (if c = CHR 0x22 \<and> CHR 0x22 \<in> set cs then
        (c # takeWhile (\<lambda>d. d \<noteq> CHR 0x22) cs @ [CHR 0x22])
          # forti_scan (drop 1 (dropWhile (\<lambda>d. d \<noteq> CHR 0x22) cs))
      else if py_isspace c then forti_scan cs
      else (c # takeWhile (\<lambda>d. \<not> py_isspace d) cs) # forti_scan (dropWhile (\<lambda>d. \<not> py_isspace d) cs))"
  by pat_completeness auto
termination
  by (relation "measure length") (auto simp: less_Suc_eq_le length_dropWhile_le diff_le_mono2 le_diff_conv
      intro: le_trans [OF length_dropWhile_le])

definition unquote :: "string \<Rightarrow> string" where
  "unquote t =
     (if t \<noteq> [] \<and> hd t = CHR 0x22 \<and> last t = CHR 0x22 \<and> length t \<ge> 2 then butlast (tl t) else t)"

definition forti_tokens :: "string \<Rightarrow> string list" where
  "forti_tokens s = map unquote (forti_scan s)"

section \<open>The tree\<close>

datatype forti_node = Node (node_sets: "string list dict") (node_children: "(string \<times> forti_node) list")

definition empty_node :: forti_node where "empty_node = Node [] []"

text \<open>\<open>setdefault(name, {\<dots>})\<close> on the children of a node.\<close>

definition child_default :: "string \<Rightarrow> forti_node \<Rightarrow> forti_node" where
  "child_default k n =
     (if k \<in> fst ` set (node_children n) then n
      else Node (node_sets n) (node_children n @ [(k, empty_node)]))"

definition set_entry :: "string \<Rightarrow> string list \<Rightarrow> forti_node \<Rightarrow> forti_node" where
  "set_entry k vs n = Node (dict_set k vs (node_sets n)) (node_children n)"

text \<open>An update of the first child with a name, and of the node at a path.\<close>

fun map_at :: "string \<Rightarrow> ('n \<Rightarrow> 'n) \<Rightarrow> (string \<times> 'n) list \<Rightarrow> (string \<times> 'n) list" where
  "map_at k f [] = []"
| "map_at k f ((k', n) # rest) = (if k' = k then (k', f n) # rest else (k', n) # map_at k f rest)"

fun update_at :: "string list \<Rightarrow> (forti_node \<Rightarrow> forti_node) \<Rightarrow> forti_node \<Rightarrow> forti_node" where
  "update_at [] f n = f n"
| "update_at (k # ks) f n = Node (node_sets n) (map_at k (update_at ks f) (node_children n))"

text \<open>One line: the root and the path of the open block.\<close>

definition forti_line :: "string \<Rightarrow> forti_node \<times> string list \<Rightarrow> forti_node \<times> string list" where
  "forti_line raw st =
     (let (root, path) = st; s = py_strip raw; low = py_lower s in
      if s = [] \<or> starts_with ''#'' s then (root, path)
      else if starts_with ''config '' low then
        (let nm = strip_char (CHR 0x22) (py_strip (drop 7 s)) in
         (update_at path (child_default nm) root, path @ [nm]))
      else if starts_with ''edit '' low then
        (let nm = strip_char (CHR 0x22) (py_strip (drop 5 s)) in
         (update_at path (child_default nm) root, path @ [nm]))
      else if low = ''next'' \<or> low = ''end'' then (root, butlast path)
      else if starts_with ''set '' low then
        (let toks = forti_tokens s in
         if length toks \<ge> 2 then (update_at path (set_entry (py_lower (toks ! 1)) (drop 2 toks)) root, path)
         else (root, path))
      else (root, path))"

definition forti_tree :: "string \<Rightarrow> forti_node" where
  "forti_tree content = fst (fold forti_line (splitlines content) (empty_node, []))"

definition forti_get :: "forti_node \<Rightarrow> string \<Rightarrow> forti_node option" where
  "forti_get root path = map_of (node_children root) path"

definition forti_set1 :: "forti_node \<Rightarrow> string \<Rightarrow> string \<Rightarrow> string" where
  "forti_set1 n k d = (case dict_get (node_sets n) k of None \<Rightarrow> d | Some vs \<Rightarrow> if vs = [] then d else hd vs)"

text \<open>\<open>sets.get(key, default)\<close>.\<close>

definition sets_get :: "forti_node \<Rightarrow> string \<Rightarrow> string list \<Rightarrow> string list" where
  "sets_get n k d = (case dict_get (node_sets n) k of None \<Rightarrow> d | Some vs \<Rightarrow> vs)"

text \<open>The entries of a section, none where the section is absent.\<close>

definition forti_entries :: "forti_node \<Rightarrow> string \<Rightarrow> (string \<times> forti_node) list" where
  "forti_entries root path = (case forti_get root path of None \<Rightarrow> [] | Some n \<Rightarrow> node_children n)"

section \<open>The open path exists\<close>

text \<open>Every prefix of the stack is a block of the tree, so no reference of the stack dangles.\<close>

fun node_at :: "string list \<Rightarrow> forti_node \<Rightarrow> forti_node option" where
  "node_at [] n = Some n"
| "node_at (k # ks) n = (case map_of (node_children n) k of None \<Rightarrow> None | Some m \<Rightarrow> node_at ks m)"

lemma map_of_map_at: "map_of (map_at k f xs) k' = (if k' = k then map_option f (map_of xs k) else map_of xs k')"
  by (induction k f xs rule: map_at.induct) auto

lemma node_at_update: "node_at p n = Some m \<Longrightarrow> node_at p (update_at p f n) = Some (f m)"
  by (induction p f n arbitrary: m rule: update_at.induct)
    (auto simp: map_of_map_at split: option.splits)

lemma node_at_snoc:
  "node_at (p @ [k]) n = (case node_at p n of None \<Rightarrow> None | Some m \<Rightarrow> map_of (node_children m) k)"
  by (induction p n rule: node_at.induct) (auto split: option.splits)

lemma child_default_has: "map_of (node_children (child_default k n)) k \<noteq> None"
  by (auto simp: child_default_def map_of_eq_None_iff)

lemma node_at_prefix: "node_at p n \<noteq> None \<Longrightarrow> node_at (butlast p) n \<noteq> None"
  by (cases p rule: rev_cases) (auto simp: node_at_snoc split: option.splits)

lemma forti_line_path:
  assumes "node_at (snd st) (fst st) \<noteq> None"
  shows "node_at (snd (forti_line raw st)) (fst (forti_line raw st)) \<noteq> None"
proof -
  obtain root path m where st: "st = (root, path)" and m: "node_at path root = Some m"
    using assms by (cases st) auto
  have upd: "node_at path (update_at path f root) = Some (f m)" for f
    by (rule node_at_update [OF m])
  have "node_at (path @ [k]) (update_at path (child_default k) root) \<noteq> None" for k
    using upd [of "child_default k"] child_default_has [of k m] by (simp add: node_at_snoc)
  then show ?thesis
    using upd node_at_prefix [of path root] m by (auto simp: forti_line_def st Let_def)
qed

lemma forti_stack_path:
  "node_at (snd st) (fst st) \<noteq> None \<Longrightarrow> node_at (snd (fold forti_line ls st)) (fst (fold forti_line ls st)) \<noteq> None"
proof (induction ls arbitrary: st)
  case (Cons l ls)
  from Cons.IH [OF forti_line_path [OF Cons.prems]] show ?case by simp
qed simp

end
