(* ===== verification/Forti_Config.thy ===== *)
theory Forti_Config
  imports Forti_Tree Environments Worklist
begin

text \<open>
  \<open>services/policy_test/builtins.py\<close> and \<open>services/policy_test/fortios.py\<close>: factory objects,
  custom addresses and services with their groups, interfaces, static routes and policies of a
  FortiOS configuration. An exception the code does not catch is the result of the whole parse.
  The theorems about them are in \<open>Forti_Sound\<close>.
\<close>

section \<open>Factory objects\<close>

definition builtin_addresses :: "cube list dict" where
  "builtin_addresses = [(''all'', [cube_any]), (''none'', []), (''all_ipv4'', [cube_any])]"

abbreviation svc :: "int set option \<Rightarrow> (int \<times> int) list option \<Rightarrow> service" where
  "svc p d \<equiv> \<lparr>sv_protos = p, sv_ports = d, sv_icmp = None\<rparr>"

abbreviation tcp_svc :: "(int \<times> int) list \<Rightarrow> service" where "tcp_svc d \<equiv> svc (Some {6}) (Some d)"
abbreviation udp_svc :: "(int \<times> int) list \<Rightarrow> service" where "udp_svc d \<equiv> svc (Some {17}) (Some d)"
abbreviation both_svc :: "(int \<times> int) list \<Rightarrow> service" where "both_svc d \<equiv> svc (Some {6, 17}) (Some d)"

definition builtin_services :: "service dict" where
  "builtin_services =
    [(''all'', svc None None),
     (''all_tcp'', tcp_svc [(1, 65535)]), (''all_udp'', udp_svc [(1, 65535)]),
     (''all_icmp'', svc (Some {1}) None),
     (''ping'', \<lparr>sv_protos = Some {1}, sv_ports = None, sv_icmp = Some {8}\<rparr>),
     (''http'', tcp_svc [(80, 80)]), (''https'', tcp_svc [(443, 443)]), (''ssh'', tcp_svc [(22, 22)]),
     (''telnet'', tcp_svc [(23, 23)]), (''dns'', both_svc [(53, 53)]), (''smtp'', tcp_svc [(25, 25)]),
     (''smtps'', tcp_svc [(465, 465)]), (''ftp'', tcp_svc [(21, 21)]), (''ftp_get'', tcp_svc [(21, 21)]),
     (''ftp_put'', tcp_svc [(21, 21)]), (''ntp'', udp_svc [(123, 123)]), (''snmp'', udp_svc [(161, 162)]),
     (''rdp'', both_svc [(3389, 3389)]), (''syslog'', udp_svc [(514, 514)]),
     (''ike'', udp_svc [(500, 500), (4500, 4500)]), (''ldap'', tcp_svc [(389, 389)]),
     (''ldaps'', tcp_svc [(636, 636)]), (''radius'', udp_svc [(1812, 1813)]),
     (''radius-acct'', udp_svc [(1813, 1813)]), (''kerberos'', both_svc [(88, 88)]),
     (''imap'', tcp_svc [(143, 143)]), (''imaps'', tcp_svc [(993, 993)]), (''pop3'', tcp_svc [(110, 110)]),
     (''pop3s'', tcp_svc [(995, 995)]), (''mysql'', tcp_svc [(3306, 3306)]), (''mssql'', tcp_svc [(1433, 1433)]),
     (''ms-sql'', tcp_svc [(1433, 1433)]), (''oracle'', tcp_svc [(1521, 1521)]), (''sip'', both_svc [(5060, 5060)]),
     (''squid'', tcp_svc [(3128, 3128)]), (''vnc'', tcp_svc [(5900, 5900)]), (''bgp'', tcp_svc [(179, 179)]),
     (''gre'', svc (Some {47}) None), (''ah'', svc (Some {51}) None), (''esp'', svc (Some {50}) None),
     (''ospf'', svc (Some {89}) None), (''webaccess'', tcp_svc [(80, 80), (443, 443)])]"

definition lookup_builtin_address :: "string \<Rightarrow> cube list option" where
  "lookup_builtin_address nm = dict_get builtin_addresses (py_lower (py_strip nm))"

definition lookup_builtin_service :: "string \<Rightarrow> service option" where
  "lookup_builtin_service nm = dict_get builtin_services (py_lower (py_strip nm))"

section \<open>Port ranges\<close>

text \<open>One comma-separated part of the destination half of a chunk.\<close>

definition port_range_part :: "string \<Rightarrow> (int \<times> int) list" where
  "port_range_part sub0 =
     (let sub = py_strip sub0 in
      if sub = [] then []
      else if CHR ''-'' \<in> set sub then
        (case split_once (CHR ''-'') sub of
           (a, Some b) \<Rightarrow>
             (case (py_int a, py_int b) of
                (Some p1, Some p2) \<Rightarrow> [(min p1 p2, max p1 p2)]
              | _ \<Rightarrow> [])
         | (a, None) \<Rightarrow> [])
      else if py_isdigit sub then [(int (digits_val sub), int (digits_val sub))]
      else [])"

definition parse_port_ranges :: "string \<Rightarrow> (int \<times> int) list" where
  "parse_port_ranges spec =
     concat (map (\<lambda>chunk. concat (map port_range_part
         (split_on (CHR '','') (fst (split_once (CHR '':'') chunk)))))
       (py_split spec))"

section \<open>Address ranges\<close>

text \<open>
  \<open>ipaddress.summarize_address_range\<close>, from Python's standard library: the fewest blocks, each as
  large as the alignment of the first address and the rest of the range allow.
\<close>

fun trailing_zeros :: "nat \<Rightarrow> nat" where
  "trailing_zeros n = (if n = 0 then 32 else if odd n then 0 else Suc (trailing_zeros (n div 2)))"

fun log2_floor :: "nat \<Rightarrow> nat" where
  "log2_floor n = (if n < 2 then 0 else Suc (log2_floor (n div 2)))"

declare trailing_zeros.simps [simp del] log2_floor.simps [simp del]

definition block_bits :: "nat \<Rightarrow> nat \<Rightarrow> nat" where
  "block_bits first lst = min (min 32 (trailing_zeros first)) (log2_floor (lst - first + 1))"

function summarize :: "nat \<Rightarrow> nat \<Rightarrow> (nat \<times> nat) list" where
  "summarize first lst =
     (if first > lst then []
      else let k = block_bits first lst in (first, 32 - k) # summarize (first + 2 ^ k) lst)"
  by pat_completeness auto
termination by (relation "measure (\<lambda>(first, lst). Suc lst - first)") (auto simp: Let_def diff_less_mono2)

declare summarize.simps [simp del]

text \<open>\<open>summarize_address_range\<close> refuses a range whose last address is below its first.\<close>

definition range_cubes :: "u32 \<Rightarrow> u32 \<Rightarrow> cube list result" where
  "range_cubes s e =
     (if e < s then Inl (ValueError ''last IP address must be greater than first'')
      else fold_r (\<lambda>net acc. bind_r (cube_from_cidr (int_to_ip (word_of_nat (fst net))) (int (snd net)))
                               (\<lambda>c. Inr (acc @ [c])))
             (summarize (unat s) (unat e)) [])"

section \<open>Custom addresses and address groups\<close>

text \<open>\<open>Some\<close> is what the entry stores, \<open>None\<close> that it stores nothing.\<close>

definition subnet_cubes :: "string list \<Rightarrow> cube list option result" where
  "subnet_cubes subnet =
     (if length subnet \<ge> 2 \<and> is_ip (subnet ! 0) \<and> is_ip (subnet ! 1) then
        Inr (case cube_from_netmask (subnet ! 0) (subnet ! 1) of Inl _ \<Rightarrow> None | Inr c \<Rightarrow> Some [c])
      else if length subnet = 1 \<and> CHR 0x2F \<in> set (subnet ! 0) then
        (case split_once (CHR 0x2F) (subnet ! 0) of
           (ip_part, Some pfx) \<Rightarrow>
             if is_ip ip_part \<and> py_isdigit pfx then
               bind_r (cube_from_cidr ip_part (int (digits_val pfx))) (\<lambda>c. Inr (Some [c]))
             else Inr None
         | (ip_part, None) \<Rightarrow> Inr None)
      else Inr None)"

definition iprange_cubes :: "string \<Rightarrow> string \<Rightarrow> cube list option" where
  "iprange_cubes start_ip end_ip =
     (if is_ip start_ip \<and> is_ip end_ip then
        (case (ip_to_int start_ip, ip_to_int end_ip) of
           (Inr s, Inr e) \<Rightarrow>
             if s = e then (case cube_from_ip start_ip of Inl _ \<Rightarrow> None | Inr c \<Rightarrow> Some [c])
             else (case range_cubes s e of Inl _ \<Rightarrow> None | Inr cs \<Rightarrow> Some cs)
         | _ \<Rightarrow> None)
      else None)"

definition address_entry :: "forti_node \<Rightarrow> cube list option result" where
  "address_entry n =
     (case sets_get n ''type'' [''ipmask''] of
        [] \<Rightarrow> Inl IndexError
      | t # _ \<Rightarrow>
          (let atype = py_lower t in
           if atype = ''ipmask'' then subnet_cubes (sets_get n ''subnet'' [])
           else if atype = ''iprange'' then
             Inr (iprange_cubes (forti_set1 n ''start-ip'' []) (forti_set1 n ''end-ip'' []))
           else if atype = ''fqdn'' then Inr (Some [])
           else Inr None))"

definition raw_addresses :: "forti_node \<Rightarrow> cube list dict result" where
  "raw_addresses root =
     fold_r (\<lambda>(nm, n) acc. bind_r (address_entry n) (\<lambda>c.
         Inr (case c of None \<Rightarrow> acc | Some cs \<Rightarrow> dict_set nm cs acc)))
       (forti_entries root ''firewall address'') []"

definition group_members :: "forti_node \<Rightarrow> string \<Rightarrow> string list dict" where
  "group_members root path = map (\<lambda>(nm, n). (nm, sets_get n ''member'' [])) (forti_entries root path)"

text \<open>
  The walk over the members of a group follows a name only when it is neither a factory object
  nor a custom one.
\<close>

definition address_edges :: "cube list dict \<Rightarrow> string list dict \<Rightarrow> (string \<times> string list) list" where
  "address_edges raw groups = map (\<lambda>(g, ms).
     (g, if lookup_builtin_address g \<noteq> None \<or> dict_has raw g then [] else ms)) groups"

definition address_contrib :: "cube list dict \<Rightarrow> string \<Rightarrow> cube list" where
  "address_contrib raw m =
     (case lookup_builtin_address m of
        Some cs \<Rightarrow> cs
      | None \<Rightarrow> (case dict_get raw m of Some cs \<Rightarrow> cs | None \<Rightarrow> []))"

definition group_cubes :: "cube list dict \<Rightarrow> string list dict \<Rightarrow> string \<Rightarrow> string list \<Rightarrow> cube list" where
  "group_cubes raw groups g members =
     concat (map (address_contrib raw) (visit (address_edges raw groups) members {g}))"

definition resolve_addresses :: "cube list dict \<Rightarrow> string list dict \<Rightarrow> cube list dict" where
  "resolve_addresses raw groups =
     fold (\<lambda>(g, ms) acc. dict_set g (group_cubes raw groups g ms) acc) groups raw"

section \<open>Custom services and service groups\<close>

definition service_entry :: "forti_node \<Rightarrow> service option" where
  "service_entry n =
     (let protocol = py_upper (forti_set1 n ''protocol'' ''TCP/UDP/SCTP'');
          tcp_range = forti_set1 n ''tcp-portrange'' [];
          udp_range = forti_set1 n ''udp-portrange'' [];
          num = forti_set1 n ''protocol-number'' []
      in if protocol = ''IP'' \<and> num \<noteq> [] then
           map_option (\<lambda>p. svc (Some {p}) None) (py_int num)
         else if protocol = ''ICMP'' then
           (let t = forti_set1 n ''icmptype'' [] in
            Some \<lparr>sv_protos = Some {1}, sv_ports = None,
              sv_icmp = (if py_isdigit t then Some {int (digits_val t)} else None)\<rparr>)
         else
           (let protos = (if tcp_range \<noteq> [] then {6} else {}) \<union> (if udp_range \<noteq> [] then {17} else {});
                ports = (if tcp_range \<noteq> [] then parse_port_ranges tcp_range else [])
                  @ (if udp_range \<noteq> [] then parse_port_ranges udp_range else [])
            in Some (svc (Some (if tcp_range = [] \<and> udp_range = [] then {6, 17} else protos))
                 (if ports \<noteq> [] then Some ports else None))))"

definition raw_services :: "forti_node \<Rightarrow> service dict" where
  "raw_services root =
     fold (\<lambda>(nm, n) acc. case service_entry n of None \<Rightarrow> acc | Some s \<Rightarrow> dict_set nm s acc)
       (forti_entries root ''firewall service custom'') []"

text \<open>The union both the groups and the policies form over the services they list.\<close>

record svc_acc =
  sa_protos :: "int set"
  sa_ports :: "(int \<times> int) list"
  sa_icmp :: "int set"
  sa_any_proto :: bool
  sa_any_port :: bool
  sa_any_icmp :: bool

definition svc_acc_empty :: svc_acc where
  "svc_acc_empty = \<lparr>sa_protos = {}, sa_ports = [], sa_icmp = {}, sa_any_proto = False,
     sa_any_port = False, sa_any_icmp = False\<rparr>"

definition add_service :: "service \<Rightarrow> svc_acc \<Rightarrow> svc_acc" where
  "add_service s a = \<lparr>
     sa_protos = sa_protos a \<union> (case sv_protos s of None \<Rightarrow> {} | Some p \<Rightarrow> p),
     sa_ports = sa_ports a @ (case sv_ports s of None \<Rightarrow> [] | Some d \<Rightarrow> d),
     sa_icmp = sa_icmp a \<union> (case sv_icmp s of None \<Rightarrow> {} | Some i \<Rightarrow> i),
     sa_any_proto = (sa_any_proto a \<or> sv_protos s = None),
     sa_any_port = (sa_any_port a \<or> sv_ports s = None),
     sa_any_icmp = (sa_any_icmp a \<or> sv_icmp s = None)\<rparr>"

definition acc_service :: "svc_acc \<Rightarrow> service" where
  "acc_service a = \<lparr>
     sv_protos = (if sa_any_proto a \<or> sa_protos a = {} then None else Some (sa_protos a)),
     sv_ports = (if sa_any_port a \<or> sa_ports a = [] then None else Some (sa_ports a)),
     sv_icmp = (if sa_any_icmp a \<or> sa_icmp a = {} then None else Some (sa_icmp a))\<rparr>"

text \<open>A factory service, else a custom one.\<close>

definition service_def :: "service dict \<Rightarrow> string \<Rightarrow> service option" where
  "service_def services m =
     (case lookup_builtin_service m of Some s \<Rightarrow> Some s | None \<Rightarrow> dict_get services m)"

definition service_edges :: "service dict \<Rightarrow> string list dict \<Rightarrow> (string \<times> string list) list" where
  "service_edges raw groups = map (\<lambda>(g, ms). (g, if service_def raw g \<noteq> None then [] else ms)) groups"

definition add_named :: "service dict \<Rightarrow> string \<Rightarrow> svc_acc \<Rightarrow> svc_acc" where
  "add_named services m a = (case service_def services m of None \<Rightarrow> a | Some s \<Rightarrow> add_service s a)"

definition group_service :: "service dict \<Rightarrow> string list dict \<Rightarrow> string \<Rightarrow> string list \<Rightarrow> service" where
  "group_service raw groups g members =
     acc_service (fold (add_named raw) (visit (service_edges raw groups) members {g}) svc_acc_empty)"

definition resolve_services :: "service dict \<Rightarrow> string list dict \<Rightarrow> service dict" where
  "resolve_services raw groups =
     fold (\<lambda>(g, ms) acc. dict_set g (group_service raw groups g ms) acc) groups raw"

section \<open>Interfaces and routes\<close>

text \<open>One entry of \<open>system interface\<close>: the interface with its connected route, if it has an address.\<close>

definition forti_interface :: "string \<Rightarrow> forti_node \<Rightarrow> (forti_iface \<times> route list) option" where
  "forti_interface nm n =
     (let ip = sets_get n ''ip'' []; status = py_lower (forti_set1 n ''status'' ''up'') in
      if length ip \<ge> 2 \<and> is_ip (ip ! 0) \<and> is_ip (ip ! 1) then
        Some (\<lparr>fi_name = nm, fi_ip = ip ! 0, fi_mask = ip ! 1, fi_status = status\<rparr>,
          if status = ''up'' \<and> ip ! 0 \<noteq> ''0.0.0.0'' then
            (case cube_from_netmask (ip ! 0) (ip ! 1) of
               Inl _ \<Rightarrow> []
             | Inr c \<Rightarrow> [\<lparr>rt_prefix = prefix_text 24 c, rt_cube = c, rt_next_hop = None,
                 rt_interface = nm, rt_source = ''connected'', rt_distance = 0, rt_metric = 0\<rparr>])
          else [])
      else None)"

definition forti_interfaces :: "forti_node \<Rightarrow> forti_iface dict \<times> route list" where
  "forti_interfaces root =
     fold (\<lambda>(nm, n) (ifs, conn). case forti_interface nm n of
             None \<Rightarrow> (ifs, conn)
           | Some (info, rs) \<Rightarrow> (dict_set nm info ifs, conn @ rs))
       (forti_entries root ''system interface'') ([], [])"

text \<open>
  One entry of \<open>router static\<close>. The distance is read before anything else is checked, and its
  \<open>ValueError\<close> is not caught; every later exception drops the route.
\<close>

definition static_egress :: "route list \<Rightarrow> string \<Rightarrow> string \<Rightarrow> string result" where
  "static_egress connected gw device =
     (if gw \<noteq> [] \<and> device = [] then
        bind_r (ip_to_int gw) (\<lambda>w.
          Inr (case find (\<lambda>cr. contains_ip (rt_cube cr) w) connected of
                 None \<Rightarrow> device | Some cr \<Rightarrow> rt_interface cr))
      else Inr device)"

definition forti_distance :: "forti_node \<Rightarrow> int result" where
  "forti_distance n =
     (let t = forti_set1 n ''distance'' ''10'' in
      if t = [] then Inr 10
      else case py_int t of
        None \<Rightarrow> Inl (ValueError (''invalid literal for int() with base 10: '' @ t))
      | Some d \<Rightarrow> Inr d)"

definition static_entry :: "route list \<Rightarrow> forti_node \<Rightarrow> route list result" where
  "static_entry connected n =
     (if py_lower (forti_set1 n ''status'' ''enable'') = ''disable'' then Inr []
      else
        let dst = sets_get n ''dst'' [''0.0.0.0'', ''0.0.0.0''];
            gw = forti_set1 n ''gateway'' []; device = forti_set1 n ''device'' []
        in bind_r (forti_distance n) (\<lambda>distance.
             if length dst \<ge> 2 \<and> is_ip (dst ! 0) \<and> is_ip (dst ! 1) then
               (case bind_r (cube_from_netmask (dst ! 0) (dst ! 1)) (\<lambda>c.
                        bind_r (static_egress connected gw device) (\<lambda>egress.
                          Inr \<lparr>rt_prefix = prefix_text 0 c, rt_cube = c,
                            rt_next_hop = (if gw = [] then None else Some gw),
                            rt_interface = egress, rt_source = ''static'',
                            rt_distance = distance, rt_metric = 0\<rparr>)) of
                  Inl _ \<Rightarrow> Inr []
                | Inr r \<Rightarrow> Inr [r])
             else Inr []))"

definition forti_routes :: "forti_node \<Rightarrow> route list \<Rightarrow> route_table result" where
  "forti_routes root connected =
     bind_r (fold_r (\<lambda>(rid, n) acc. bind_r (static_entry connected n) (\<lambda>rs. Inr (acc @ rs)))
               (forti_entries root ''router static'') [])
       (\<lambda>statics.
          let ospf = forti_get root ''router ospf'' \<noteq> None; bgp = forti_get root ''router bgp'' \<noteq> None in
          Inr \<lparr>tb_routes = connected @ statics, tb_dynamic = (ospf \<or> bgp),
            tb_protocols = (if ospf \<or> bgp then [if ospf then ''ospf'' else ''bgp''] else [])\<rparr>)"

section \<open>Policies\<close>

definition quoted :: "string \<Rightarrow> string" where "quoted s = [CHR 0x27] @ s @ [CHR 0x27]"

text \<open>The cubes an address name contributes, with the reason when it contributes none.\<close>

definition collect_policy_address :: "cube list dict \<Rightarrow> string \<Rightarrow> string \<Rightarrow> cube list \<times> string list" where
  "collect_policy_address addresses pid nm =
     (case lookup_builtin_address nm of
        Some cs \<Rightarrow> (cs, [])
      | None \<Rightarrow>
          (case dict_get addresses nm of
             Some cs \<Rightarrow>
               if cs \<noteq> [] then (cs, [])
               else ([], [''address '' @ quoted nm @ '' referenced by policy '' @ pid
                 @ '' cannot be resolved offline (FQDN, dynamic or geography object)''])
           | None \<Rightarrow> ([], [''address '' @ quoted nm @ '' referenced by policy '' @ pid @ '' is not defined''])))"

definition collect_addresses :: "cube list dict \<Rightarrow> string \<Rightarrow> string list \<Rightarrow> cube list \<times> string list" where
  "collect_addresses addresses pid names =
     (concat (map (fst \<circ> collect_policy_address addresses pid) names),
      concat (map (snd \<circ> collect_policy_address addresses pid) names))"

definition policy_service_reasons :: "service dict \<Rightarrow> string \<Rightarrow> string list \<Rightarrow> string list" where
  "policy_service_reasons services pid names =
     concat (map (\<lambda>s. if service_def services s = None
        then [''service '' @ quoted s @ '' referenced by policy '' @ pid @ '' is not defined''] else []) names)"

text \<open>The three service dimensions: all ANY when no listed service is defined.\<close>

definition policy_service :: "service dict \<Rightarrow> string list \<Rightarrow> service" where
  "policy_service services names =
     (if list_ex (\<lambda>s. service_def services s \<noteq> None) names
      then acc_service (fold (add_named services) names svc_acc_empty)
      else \<lparr>sv_protos = None, sv_ports = None, sv_icmp = None\<rparr>)"

definition negate_keys :: "string list" where
  "negate_keys = [''srcaddr-negate'', ''dstaddr-negate'', ''service-negate'',
     ''internet-service-negate'', ''internet-service-src-negate'']"

definition narrowing_keys :: "string list" where
  "narrowing_keys = [''groups'', ''users'', ''fsso-groups'', ''application'', ''app-category'',
     ''app-group'', ''url-category'']"

definition internet_service :: "forti_node \<Rightarrow> bool" where
  "internet_service n \<longleftrightarrow>
     forti_set1 n ''internet-service'' [] = ''enable'' \<or> sets_get n ''internet-service-name'' [] \<noteq> []
     \<or> forti_set1 n ''internet-service-src'' [] = ''enable''
     \<or> sets_get n ''internet-service-src-name'' [] \<noteq> []"

definition policy_narrowing :: "forti_node \<Rightarrow> string list" where
  "policy_narrowing n =
     (let schedule = forti_set1 n ''schedule'' ''always'' in
      (if schedule \<noteq> [] \<and> schedule \<noteq> ''always'' then [''schedule '' @ schedule] else [])
      @ filter (\<lambda>k. sets_get n k [] \<noteq> []) narrowing_keys)"

definition policy_raw :: "string \<Rightarrow> forti_node \<Rightarrow> string" where
  "policy_raw pid n = ''edit '' @ pid @ [CHR 0x0A] @
     str_join [CHR 0x0A] (map (\<lambda>(k, v). ''  set '' @ k @ '' '' @ str_join '' '' v) (node_sets n))"

text \<open>Every reason for which the policy cannot be decided offline, in the order of the code.\<close>

definition policy_reasons :: "cube list dict \<Rightarrow> service dict \<Rightarrow> string \<Rightarrow> forti_node \<Rightarrow> string list" where
  "policy_reasons addresses services pid n =
     (if py_lower (forti_set1 n ''action'' ''deny'') = ''ipsec'' then
        [''policy '' @ pid @ '' uses the legacy '' @ quoted ''ipsec'' @
           '' action: the traffic is forwarded into a VPN tunnel, which is neither a plain accept nor a deny'']
      else [])
     @ snd (collect_addresses addresses pid (sets_get n ''srcaddr'' [''all'']))
     @ snd (collect_addresses addresses pid (sets_get n ''dstaddr'' [''all'']))
     @ policy_service_reasons services pid (sets_get n ''service'' [''ALL''])
     @ (if internet_service n then
          [''policy '' @ pid @ '' references ISDB internet-service which cannot be resolved offline'']
        else [])
     @ concat (map (\<lambda>k. if forti_set1 n k [] = ''enable''
          then [''policy '' @ pid @ '' sets '' @ k @ '': the match is inverted and cannot be modelled''] else [])
          negate_keys)
     @ (if policy_narrowing n \<noteq> [] then
          [''policy '' @ pid @ '' condition not evaluated: '' @ str_join '', '' (policy_narrowing n)]
        else [])"

definition or_any :: "cube list \<Rightarrow> cube list" where "or_any cs = (if cs = [] then [cube_any] else cs)"

definition policy_intfs :: "string list \<Rightarrow> string set option" where
  "policy_intfs names = (if ''any'' \<in> set names then None else Some (set names))"

definition policy_fields :: "cube list dict \<Rightarrow> service dict \<Rightarrow> string \<Rightarrow> forti_node \<Rightarrow> fieldset" where
  "policy_fields addresses services pid n =
     (let s = policy_service services (sets_get n ''service'' [''ALL'']) in
      \<lparr>fs_src_ips = or_any (fst (collect_addresses addresses pid (sets_get n ''srcaddr'' [''all'']))),
       fs_dst_ips = or_any (fst (collect_addresses addresses pid (sets_get n ''dstaddr'' [''all'']))),
       fs_src_ports = None,
       fs_dst_ports = map_option ports_from_list (sv_ports s),
       fs_protos = sv_protos s,
       fs_ingress = policy_intfs (sets_get n ''srcintf'' [''any'']),
       fs_egress = policy_intfs (sets_get n ''dstintf'' [''any'']),
       fs_established = False,
       fs_opaque = (policy_reasons addresses services pid n \<noteq> []),
       fs_icmp_types = sv_icmp s,
       fs_narrowing = policy_narrowing n\<rparr>)"

definition policy_rule :: "cube list dict \<Rightarrow> service dict \<Rightarrow> string \<Rightarrow> forti_node \<Rightarrow> rule" where
  "policy_rule addresses services pid n =
     \<lparr>r_id = pid, r_name = forti_set1 n ''name'' [],
      r_action = (if policy_reasons addresses services pid n \<noteq> [] then ''unknown''
        else if py_lower (forti_set1 n ''action'' ''deny'') = ''accept'' then ''permit'' else ''deny''),
      r_fields = policy_fields addresses services pid n,
      r_disabled = (py_lower (forti_set1 n ''status'' ''enable'') = ''disable''),
      r_raw = policy_raw pid n, r_line_no = None,
      r_nat = (py_lower (forti_set1 n ''nat'' ''disable'') = ''enable''),
      r_unresolved = policy_reasons addresses services pid n\<rparr>"

section \<open>The whole configuration\<close>

definition parse_fortios_config :: "string \<Rightarrow> forti_env result" where
  "parse_fortios_config config_text =
     (let root = forti_tree config_text in
      bind_r (raw_addresses root) (\<lambda>raw.
        let addresses = resolve_addresses raw (group_members root ''firewall addrgrp'');
            services = resolve_services (raw_services root) (group_members root ''firewall service group'');
            (ifs, conn) = forti_interfaces root
        in bind_r (forti_routes root conn) (\<lambda>tb.
          let policies = map (\<lambda>(pid, n). policy_rule addresses services pid n)
                (forti_entries root ''firewall policy'')
          in Inr \<lparr>fe_policies = policies, fe_routes = tb, fe_interfaces = ifs,
               fe_addresses = addresses, fe_services = services,
               fe_unresolved = concat (map r_unresolved policies)\<rparr>)))"

end
