(* ===== verification/Forti_Sound.thy ===== *)
theory Forti_Sound
  imports Forti_Config
begin

text \<open>
  What the FortiOS front end guarantees: the blocks an address range is summarised into are exactly
  the range; every policy of an accepted configuration is well formed, opaque exactly when
  something of it could not be resolved, and then carries no action; a policy covers at least the
  traffic of each service it lists, and more than that when it lists several.
\<close>

section \<open>An address range is exactly the union of its blocks\<close>

lemma trailing_zeros_dvd: "2 ^ min 32 (trailing_zeros n) dvd n"
proof (induction n rule: trailing_zeros.induct)
  case (1 n)
  show ?case
  proof (cases "n = 0 \<or> odd n")
    case False
    then obtain m where m: "n = 2 * m" "m \<noteq> 0" by (auto elim: evenE)
    with 1 have "2 ^ min 32 (trailing_zeros m) dvd m" by simp
    moreover have "trailing_zeros n = Suc (trailing_zeros m)"
      using m by (subst trailing_zeros.simps) simp
    then have "2 ^ min 32 (trailing_zeros n) dvd 2 * (2 ^ min 32 (trailing_zeros m) :: nat)"
      by (simp add: min_def le_imp_power_dvd flip: power_Suc)
    ultimately show ?thesis using m(1) by (meson dvd_refl dvd_trans mult_dvd_mono)
  qed (auto simp: trailing_zeros.simps [of n])
qed

lemma log2_floor_le: "n \<noteq> 0 \<Longrightarrow> 2 ^ log2_floor n \<le> n"
proof (induction n rule: log2_floor.induct)
  case (1 n)
  show ?case
  proof (cases "n < 2")
    case False
    then have "2 ^ log2_floor (n div 2) \<le> n div 2" using 1 by auto
    with False show ?thesis by (subst log2_floor.simps) simp
  qed (use 1 in \<open>simp add: log2_floor.simps [of n]\<close>)
qed

lemma block_bits_facts:
  assumes "first \<le> lst"
  shows "block_bits first lst \<le> 32" "2 ^ block_bits first lst dvd first"
    "first + 2 ^ block_bits first lst \<le> Suc lst"
proof -
  let ?k = "block_bits first lst"
  show "?k \<le> 32" by (simp add: block_bits_def)
  have "2 ^ ?k dvd (2 ^ min 32 (trailing_zeros first) :: nat)"
    by (rule le_imp_power_dvd) (simp add: block_bits_def min_le_iff_disj)
  then show "2 ^ ?k dvd first" using trailing_zeros_dvd dvd_trans by blast
  have "(2 :: nat) ^ ?k \<le> 2 ^ log2_floor (lst - first + 1)"
    by (rule power_increasing) (simp_all add: block_bits_def)
  also have "\<dots> \<le> lst - first + 1" by (rule log2_floor_le) simp
  finally show "first + 2 ^ ?k \<le> Suc lst" using assms by simp
qed

definition in_block :: "nat \<times> nat \<Rightarrow> nat \<Rightarrow> bool" where
  "in_block b x \<longleftrightarrow> fst b \<le> x \<and> x < fst b + 2 ^ (32 - snd b)"

definition block_ok :: "nat \<times> nat \<Rightarrow> bool" where
  "block_ok b \<longleftrightarrow> snd b \<le> 32 \<and> 2 ^ (32 - snd b) dvd fst b"

lemma summarize_exact:
  "list_all block_ok (summarize first lst)
     \<and> (list_ex (\<lambda>b. in_block b x) (summarize first lst) \<longleftrightarrow> first \<le> x \<and> x \<le> lst)"
proof (induction first lst rule: summarize.induct)
  case (1 first lst)
  show ?case
  proof (cases "first > lst")
    case True
    then show ?thesis by (subst (1 2) summarize.simps) auto
  next
    case False
    let ?k = "block_bits first lst"
    from False have "first \<le> lst" by simp
    note k = block_bits_facts [OF this]
    from 1 [OF False refl]
    have IH: "list_all block_ok (summarize (first + 2 ^ ?k) lst)"
      "list_ex (\<lambda>b. in_block b x) (summarize (first + 2 ^ ?k) lst) \<longleftrightarrow> first + 2 ^ ?k \<le> x \<and> x \<le> lst"
      by auto
    have s: "summarize first lst = (first, 32 - ?k) # summarize (first + 2 ^ ?k) lst"
      using False by (subst summarize.simps) (simp add: Let_def)
    have "block_ok (first, 32 - ?k)"
      "in_block (first, 32 - ?k) x \<longleftrightarrow> first \<le> x \<and> x < first + 2 ^ ?k"
      using k by (simp_all add: block_ok_def in_block_def)
    with IH k(3) show ?thesis unfolding s by auto
  qed
qed

lemma and_prefix_mask_eq:
  assumes "n \<le> 32"
  shows "(x :: u32) AND prefix_mask n = y AND prefix_mask n
    \<longleftrightarrow> unat x div 2 ^ (32 - n) = unat y div 2 ^ (32 - n)"
proof -
  have "x AND prefix_mask n = y AND prefix_mask n \<longleftrightarrow> drop_bit (32 - n) x = drop_bit (32 - n) y"
    (is "?l \<longleftrightarrow> ?r")
  proof
    assume ?l
    then have l: "bit (x AND prefix_mask n) i = bit (y AND prefix_mask n) i" for i by simp
    have "bit x i = bit y i" if "32 - n \<le> i" for i
    proof (cases "i < 32")
      case True
      with l [of i] that assms show ?thesis
        by (auto simp: prefix_mask_def all_ones bit_simps split: if_splits)
    next
      case False
      then show ?thesis using bit_imp_le_length [of x i] bit_imp_le_length [of y i] by auto
    qed
    then show ?r by (intro bit_word_eqI) (simp add: bit_simps)
  next
    assume ?r
    then have r: "bit (drop_bit (32 - n) x) i = bit (drop_bit (32 - n) y) i" for i by simp
    have "bit x i = bit y i" if "32 - n \<le> i" for i
      using r [of "i - (32 - n)"] that by (simp add: bit_simps)
    then show ?l by (intro bit_word_eqI) (auto simp: prefix_mask_def all_ones bit_simps)
  qed
  also have "\<dots> \<longleftrightarrow> unat (drop_bit (32 - n) x) = unat (drop_bit (32 - n) y)"
    by (rule word_unat_eq_iff)
  finally show ?thesis
    by (subst (asm) unat_drop_bit_eq, subst (asm) unat_drop_bit_eq)
      (simp only: drop_bit_eq_div [where 'a = nat])
qed

lemma aligned_block_iff:
  assumes "(p :: nat) > 0" "p dvd b"
  shows "x div p = b div p \<longleftrightarrow> b \<le> x \<and> x < b + p"
proof -
  from assms(2) obtain q where q: "b = p * q" by (auto simp: dvd_def)
  have "x div p = q \<longleftrightarrow> p * q \<le> x \<and> x < p * Suc q"
    using assms(1) by (auto simp: div_nat_eqI less_mult_imp_div_less mult.commute
        dest: dividend_less_times_div [of p x] intro: div_times_less_eq_dividend)
  then show ?thesis using assms(1) q by (simp add: add.commute)
qed

lemma fold_r_append:
  "(\<And>x. x \<in> set xs \<Longrightarrow> f x = Inr (g x))
     \<Longrightarrow> fold_r (\<lambda>x acc. bind_r (f x) (\<lambda>c. Inr (acc @ [c]))) xs acc = Inr (acc @ map g xs)"
  by (induction xs arbitrary: acc) simp_all

definition block_cube :: "nat \<times> nat \<Rightarrow> cube" where
  "block_cube b = mk_cube (word_of_nat (fst b) AND prefix_mask (snd b)) (prefix_mask (snd b))"

lemma block_cidr:
  assumes "block_ok b"
  shows "cube_from_cidr (int_to_ip (word_of_nat (fst b))) (int (snd b)) = Inr (block_cube b)"
  using assms by (simp add: cube_from_cidr_def block_cube_def block_ok_def prefix_mask_def Let_def)

lemma block_cube_contains:
  assumes "block_ok b" and "fst b < 2 ^ 32"
  shows "contains_ip (block_cube b) ip \<longleftrightarrow> in_block b (unat ip)"
proof -
  have n: "snd b \<le> 32" "2 ^ (32 - snd b) dvd fst b" using assms(1) by (simp_all add: block_ok_def)
  have w: "unat (word_of_nat (fst b) :: u32) = fst b"
    using assms(2) by (simp add: unat_of_nat take_bit_nat_eq_self_iff)
  have "contains_ip (block_cube b) ip \<longleftrightarrow> ip AND prefix_mask (snd b) = word_of_nat (fst b) AND prefix_mask (snd b)"
    by (simp add: block_cube_def and.assoc)
  also have "\<dots> \<longleftrightarrow> unat ip div 2 ^ (32 - snd b) = fst b div 2 ^ (32 - snd b)"
    using and_prefix_mask_eq [OF n(1)] w by simp
  also have "\<dots> \<longleftrightarrow> in_block b (unat ip)"
    using aligned_block_iff [of "2 ^ (32 - snd b)" "fst b" "unat ip"] n(2) by (simp add: in_block_def)
  finally show ?thesis .
qed

lemma range_cubes_exact:
  assumes "s \<le> e"
  shows "\<exists>cs. range_cubes s e = Inr cs \<and> list_all cube_wf cs
    \<and> (\<forall>ip. list_ex (\<lambda>c. contains_ip c ip) cs \<longleftrightarrow> s \<le> ip \<and> ip \<le> e)"
proof -
  let ?bs = "summarize (unat s) (unat e)"
  have ok: "list_all block_ok ?bs" using summarize_exact by blast
  have small: "fst b < 2 ^ 32" if "b \<in> set ?bs" for b
  proof -
    have "in_block b (fst b)" by (simp add: in_block_def)
    with that have "list_ex (\<lambda>b'. in_block b' (fst b)) ?bs" by (auto simp: list_ex_iff)
    then have "fst b \<le> unat e" using summarize_exact by blast
    also have "unat e < 2 ^ 32" using unsigned_less [of e] by simp
    finally show ?thesis .
  qed
  have "range_cubes s e = Inr (map block_cube ?bs)"
    using assms ok fold_r_append [of ?bs "\<lambda>b. cube_from_cidr (int_to_ip (word_of_nat (fst b))) (int (snd b))"
        block_cube "[]"] block_cidr
    by (auto simp: range_cubes_def list_all_iff not_less)
  moreover have "list_ex (\<lambda>c. contains_ip c ip) (map block_cube ?bs) \<longleftrightarrow> s \<le> ip \<and> ip \<le> e" for ip
  proof -
    have "list_ex (\<lambda>c. contains_ip c ip) (map block_cube ?bs) \<longleftrightarrow> list_ex (\<lambda>b. in_block b (unat ip)) ?bs"
      using ok small block_cube_contains by (auto simp: list_ex_iff list_all_iff)
    also have "\<dots> \<longleftrightarrow> unat s \<le> unat ip \<and> unat ip \<le> unat e" using summarize_exact by blast
    finally show ?thesis by (simp add: word_le_nat_alt)
  qed
  moreover have "list_all cube_wf (map block_cube ?bs)" by (simp add: list_all_iff block_cube_def)
  ultimately show ?thesis by blast
qed

lemma and_ones32: "(x :: u32) AND 0xFFFFFFFF = x"
  by (simp only: all_ones and.right_neutral)

section \<open>What a parsed policy guarantees\<close>

definition addresses_ok :: "cube list dict \<Rightarrow> bool" where
  "addresses_ok d \<longleftrightarrow> (\<forall>nm cs. dict_get d nm = Some cs \<longrightarrow> list_all cube_wf cs)"

lemma builtin_address_wf: "lookup_builtin_address nm = Some cs \<Longrightarrow> list_all cube_wf cs"
  by (auto simp: lookup_builtin_address_def builtin_addresses_def split: if_splits)

lemma addresses_ok_set: "addresses_ok d \<Longrightarrow> list_all cube_wf cs \<Longrightarrow> addresses_ok (dict_set nm cs d)"
  by (simp add: addresses_ok_def)

lemma address_entry_wf: "address_entry n = Inr (Some cs) \<Longrightarrow> list_all cube_wf cs"
proof -
  assume a: "address_entry n = Inr (Some cs)"
  have sub: "subnet_cubes sub = Inr (Some cs) \<Longrightarrow> list_all cube_wf cs" for sub
    using cube_constructors_wf(2,3)
    by (auto simp: subnet_cubes_def bind_r_eq_Inr split: sum.splits if_splits prod.splits option.splits)
  have rng: "iprange_cubes i j = Some cs \<Longrightarrow> list_all cube_wf cs" for i j
  proof -
    assume r: "iprange_cubes i j = Some cs"
    then obtain s e where "ip_to_int i = Inr s" "ip_to_int j = Inr e"
      "if s = e then (case cube_from_ip i of Inl _ \<Rightarrow> None | Inr c \<Rightarrow> Some [c]) = Some cs
       else (case range_cubes s e of Inl _ \<Rightarrow> None | Inr cs \<Rightarrow> Some cs) = Some cs"
      by (auto simp: iprange_cubes_def split: if_splits sum.splits)
    then show ?thesis
      using range_cubes_exact [of s e] cube_constructors_wf(1)
      by (cases "s \<le> e") (auto simp: range_cubes_def split: if_splits sum.splits)
  qed
  from a sub rng show ?thesis
    by (auto simp: address_entry_def Let_def split: list.splits if_splits)
qed

lemma raw_addresses_ok:
  assumes "raw_addresses root = Inr raw" shows "addresses_ok raw"
proof (rule fold_r_invariant [where P = addresses_ok, OF assms [unfolded raw_addresses_def]])
  fix x acc t
  assume "addresses_ok acc" and "(case x of (nm, n) \<Rightarrow> \<lambda>acc. bind_r (address_entry n) (\<lambda>c.
         Inr (case c of None \<Rightarrow> acc | Some cs \<Rightarrow> dict_set nm cs acc))) acc = Inr t"
  then show "addresses_ok t"
    by (cases x) (auto simp: bind_r_eq_Inr intro!: addresses_ok_set [OF _ address_entry_wf]
        split: option.splits)
qed (simp add: addresses_ok_def)

lemma address_contrib_wf:
  assumes "addresses_ok raw" shows "list_all cube_wf (address_contrib raw m)"
proof (cases "lookup_builtin_address m")
  case None
  with assms show ?thesis
    by (cases "dict_get raw m") (simp_all add: address_contrib_def addresses_ok_def)
qed (simp add: address_contrib_def builtin_address_wf)

lemma group_cubes_wf: "addresses_ok raw \<Longrightarrow> list_all cube_wf (group_cubes raw groups g ms)"
  using address_contrib_wf by (fastforce simp: group_cubes_def list_all_iff)

lemma resolve_addresses_ok:
  assumes "addresses_ok raw" shows "addresses_ok (resolve_addresses raw groups)"
proof -
  have "addresses_ok acc \<Longrightarrow> addresses_ok (fold (\<lambda>(g, ms) acc. dict_set g (group_cubes raw gs g ms) acc) xs acc)"
    for acc xs gs
    using assms by (induction xs arbitrary: acc) (auto intro!: addresses_ok_set group_cubes_wf)
  with assms show ?thesis by (simp add: resolve_addresses_def)
qed

lemma collect_address_wf:
  "addresses_ok addresses \<Longrightarrow> list_all cube_wf (fst (collect_policy_address addresses pid nm))"
  by (auto simp: collect_policy_address_def addresses_ok_def dest: builtin_address_wf split: option.split)

lemma collect_addresses_wf:
  "addresses_ok addresses \<Longrightarrow> list_all cube_wf (or_any (fst (collect_addresses addresses pid names)))"
  using collect_address_wf [of addresses pid]
  by (auto simp: or_any_def collect_addresses_def list_all_iff)

lemma policy_rule_fields:
  assumes "addresses_ok addresses"
  shows "fs_wf (r_fields (policy_rule addresses services pid n))"
    "fs_src_ips (r_fields (policy_rule addresses services pid n)) \<noteq> []"
    "fs_dst_ips (r_fields (policy_rule addresses services pid n)) \<noteq> []"
  using collect_addresses_wf [OF assms]
  by (auto simp: policy_rule_def policy_fields_def fs_wf_def or_any_def Let_def option.pred_set)

text \<open>
  A custom address of type iprange covers exactly the addresses from its start to its end:
  the blocks the range is summarised into neither miss an address of it nor reach past its ends.
\<close>

theorem iprange_exact:
  assumes "is_ip a" "is_ip b" "ip_to_int a = Inr s" "ip_to_int b = Inr e" "s \<le> e"
  shows "\<exists>cs. iprange_cubes a b = Some cs \<and> (\<forall>ip. list_ex (\<lambda>c. contains_ip c ip) cs \<longleftrightarrow> s \<le> ip \<and> ip \<le> e)"
proof (cases "s = e")
  case True
  then show ?thesis
    using assms by (auto simp: iprange_cubes_def cube_from_ip_def bind_r_def and_ones32)
next
  case False
  obtain cs where "range_cubes s e = Inr cs"
    "\<forall>ip. list_ex (\<lambda>c. contains_ip c ip) cs \<longleftrightarrow> s \<le> ip \<and> ip \<le> e"
    using range_cubes_exact [OF assms(5)] by blast
  then show ?thesis using False assms(1-4) by (simp add: iprange_cubes_def)
qed

lemma sample_range: "is_ip ''10.0.0.5''" "is_ip ''10.0.0.20''"
  "ip_to_int ''10.0.0.5'' = Inr 0x0A000005" "ip_to_int ''10.0.0.20'' = Inr 0x0A000014"
  by code_simp+

theorem iprange_exact_witness:
  "\<exists>cs. iprange_cubes ''10.0.0.5'' ''10.0.0.20'' = Some cs
     \<and> (\<forall>ip. list_ex (\<lambda>c. contains_ip c ip) cs \<longleftrightarrow> 0x0A000005 \<le> ip \<and> ip \<le> 0x0A000014)"
  by (rule iprange_exact [OF sample_range]) simp

section \<open>Accepted configurations\<close>

lemma policy_rule_shape:
  "r_fields (policy_rule addresses services pid n) = policy_fields addresses services pid n"
  "r_unresolved (policy_rule addresses services pid n) = policy_reasons addresses services pid n"
  "r_action (policy_rule addresses services pid n) \<in> {''permit'', ''deny'', ''unknown''}"
  "r_action (policy_rule addresses services pid n) = ''unknown''
     \<longleftrightarrow> policy_reasons addresses services pid n \<noteq> []"
  by (simp_all add: policy_rule_def)

lemma policy_fields_opaque:
  "fs_opaque (policy_fields addresses services pid n) \<longleftrightarrow> policy_reasons addresses services pid n \<noteq> []"
  "fs_narrowing (policy_fields addresses services pid n) = policy_narrowing n"
  by (simp_all add: policy_fields_def Let_def)

lemma narrowing_is_reason: "policy_narrowing n \<noteq> [] \<Longrightarrow> policy_reasons addresses services pid n \<noteq> []"
  by (simp add: policy_reasons_def)

lemma parse_fortios_policy:
  assumes "parse_fortios_config txt = Inr env" "p \<in> set (fe_policies env)"
  shows "\<exists>pid n. addresses_ok (fe_addresses env)
    \<and> (pid, n) \<in> set (forti_entries (forti_tree txt) ''firewall policy'')
    \<and> p = policy_rule (fe_addresses env) (fe_services env) pid n"
proof -
  from assms(1) obtain raw where raw: "raw_addresses (forti_tree txt) = Inr raw"
    by (auto simp: parse_fortios_config_def bind_r_eq_Inr Let_def)
  have "addresses_ok (fe_addresses env) \<and> fe_policies env =
      map (\<lambda>(pid, n). policy_rule (fe_addresses env) (fe_services env) pid n)
        (forti_entries (forti_tree txt) ''firewall policy'')"
    using assms(1) raw resolve_addresses_ok [OF raw_addresses_ok [OF raw]]
    by (auto simp: parse_fortios_config_def bind_r_eq_Inr Let_def split: prod.splits)
  with assms(2) show ?thesis by auto
qed

text \<open>
  In a configuration that \<open>parse_fortios_config\<close> accepts, every policy has well-formed address
  and port domains with at least one source and one destination; it is opaque, and its action
  unknown, exactly when it carries a reason why it cannot be decided offline; and a condition that
  is not evaluated is always such a reason.
\<close>

theorem parsed_forti_wellformed:
  assumes "parse_fortios_config txt = Inr env" and "p \<in> set (fe_policies env)"
  shows "fs_wf (r_fields p) \<and> fs_src_ips (r_fields p) \<noteq> [] \<and> fs_dst_ips (r_fields p) \<noteq> []
    \<and> (fs_opaque (r_fields p) \<longleftrightarrow> r_unresolved p \<noteq> [])
    \<and> (r_action p = ''unknown'' \<longleftrightarrow> r_unresolved p \<noteq> [])
    \<and> (fs_narrowing (r_fields p) \<noteq> [] \<longrightarrow> r_unresolved p \<noteq> [])
    \<and> r_action p \<in> {''permit'', ''deny'', ''unknown''}"
proof -
  obtain pid n where "addresses_ok (fe_addresses env)"
    "p = policy_rule (fe_addresses env) (fe_services env) pid n"
    using parse_fortios_policy [OF assms] by blast
  then show ?thesis
    using policy_rule_fields [of "fe_addresses env" "fe_services env" pid n]
      policy_rule_shape [of "fe_addresses env" "fe_services env" pid n]
      narrowing_is_reason [of n "fe_addresses env" "fe_services env" pid]
    by (simp add: policy_fields_opaque)
qed

definition forti_sample :: string where
  "forti_sample = str_join [CHR 0x0A] [''config firewall policy'', ''edit 7'', ''set srcaddr all'',
     ''set dstaddr lost'', ''set service PING HTTPS'', ''set action accept'', ''next'', ''end'']"

lemma forti_sample_eval:
  "map_sum id (\<lambda>env. map (\<lambda>p. (r_id p, r_action p)) (fe_policies env)) (parse_fortios_config forti_sample)
     = Inr [(''7'', ''unknown'')]"
  by code_simp

lemma forti_sample_parsed:
  obtains env p where "parse_fortios_config forti_sample = Inr env" "p \<in> set (fe_policies env)"
    "r_action p = ''unknown''"
  using forti_sample_eval by (cases "parse_fortios_config forti_sample") auto

theorem parsed_forti_wellformed_witness:
  "\<exists>env p. parse_fortios_config forti_sample = Inr env \<and> p \<in> set (fe_policies env)
     \<and> fs_wf (r_fields p) \<and> r_unresolved p \<noteq> []"
proof -
  obtain env p where "parse_fortios_config forti_sample = Inr env" "p \<in> set (fe_policies env)"
    "r_action p = ''unknown''" by (rule forti_sample_parsed)
  with parsed_forti_wellformed [of forti_sample env p] show ?thesis by blast
qed

section \<open>The services of a policy\<close>

definition with_service :: "service \<Rightarrow> fieldset \<Rightarrow> fieldset" where
  "with_service s fs = fs\<lparr>fs_dst_ports := map_option ports_from_list (sv_ports s),
     fs_protos := sv_protos s, fs_icmp_types := sv_icmp s\<rparr>"

text \<open>One service is below another when it restricts no dimension less.\<close>

definition opt_below :: "('a \<Rightarrow> 'b set) \<Rightarrow> 'a option \<Rightarrow> 'a option \<Rightarrow> bool" where
  "opt_below f a b \<longleftrightarrow> (case b of None \<Rightarrow> True | Some y \<Rightarrow> (case a of None \<Rightarrow> False | Some x \<Rightarrow> f x \<subseteq> f y))"

definition service_below :: "service \<Rightarrow> service \<Rightarrow> bool" where
  "service_below s t \<longleftrightarrow> opt_below id (sv_protos s) (sv_protos t)
     \<and> opt_below set (sv_ports s) (sv_ports t) \<and> opt_below id (sv_icmp s) (sv_icmp t)"

definition dim_in :: "('a \<Rightarrow> 'b set) \<Rightarrow> 'a option \<Rightarrow> bool \<Rightarrow> 'b set \<Rightarrow> bool" where
  "dim_in f d any acc \<longleftrightarrow> (case d of None \<Rightarrow> any | Some x \<Rightarrow> f x \<subseteq> acc)"

definition service_in :: "service \<Rightarrow> svc_acc \<Rightarrow> bool" where
  "service_in s a \<longleftrightarrow> dim_in id (sv_protos s) (sa_any_proto a) (sa_protos a)
     \<and> dim_in set (sv_ports s) (sa_any_port a) (set (sa_ports a))
     \<and> dim_in id (sv_icmp s) (sa_any_icmp a) (sa_icmp a)"

lemma dim_in_mono: "dim_in f d any acc \<Longrightarrow> dim_in f d (any \<or> b) (acc \<union> extra)"
  by (auto simp: dim_in_def split: option.splits)

lemma dim_in_below:
  "dim_in f d any (f acc) \<Longrightarrow> f none = {} \<Longrightarrow> opt_below f d (if any \<or> acc = none then None else Some acc)"
  by (auto simp: dim_in_def opt_below_def split: option.splits)

lemma service_in_add: "service_in s (add_service s a)"
  by (simp add: service_in_def dim_in_def add_service_def split: option.split)

lemma service_in_mono: "service_in s a \<Longrightarrow> service_in s (add_service t a)"
  by (simp add: service_in_def add_service_def dim_in_mono)

lemma service_in_below: "service_in s a \<Longrightarrow> service_below s (acc_service a)"
  using dim_in_below [of id "sv_protos s" "sa_any_proto a" "sa_protos a" "{}"]
    dim_in_below [of set "sv_ports s" "sa_any_port a" "sa_ports a" "[]"]
    dim_in_below [of id "sv_icmp s" "sa_any_icmp a" "sa_icmp a" "{}"]
  by (simp only: service_in_def service_below_def acc_service_def service.select_convs id_apply list.set simp_thms)

lemma fold_add_named_in:
  "service_in s a \<Longrightarrow> service_in s (fold (add_named services) names a)"
  by (induction names arbitrary: a) (auto simp: add_named_def service_in_mono split: option.split)

lemma fold_add_named_listed:
  "nm \<in> set names \<Longrightarrow> service_def services nm = Some s
     \<Longrightarrow> service_in s (fold (add_named services) names a)"
  by (induction names arbitrary: a)
    (auto simp: add_named_def service_in_add fold_add_named_in split: option.split)

lemma policy_service_below:
  assumes "nm \<in> set names" "service_def services nm = Some s"
  shows "service_below s (policy_service services names)"
  using assms service_in_below [OF fold_add_named_listed [OF assms]]
  by (auto simp: policy_service_def list_ex_iff service_below_def opt_below_def)

lemma opt_mem_below:
  "opt_below id a b \<Longrightarrow> opt_mem num_mem a x \<Longrightarrow> opt_mem num_mem b x"
  by (cases a; cases b; cases x) (auto simp: opt_below_def num_mem_def)

lemma contains_port_mono: "set a \<subseteq> set b \<Longrightarrow> contains_port a p \<Longrightarrow> contains_port b p"
  by (auto simp: contains_port_iff)

lemma contains_from_list_mono:
  "set a \<subseteq> set b \<Longrightarrow> contains_port (ports_from_list a) p \<Longrightarrow> contains_port (ports_from_list b) p"
  unfolding contains_from_list by (rule contains_port_mono) (simp_all add: image_mono)

lemma opt_ports_below:
  "opt_below set a b \<Longrightarrow> opt_mem contains_port (map_option ports_from_list a) x
     \<Longrightarrow> opt_mem contains_port (map_option ports_from_list b) x"
  by (cases a; cases b; cases x) (auto simp: opt_below_def intro: contains_from_list_mono)

lemma with_service_mono:
  assumes "service_below s t" "fs_matches (with_service s fs) f"
  shows "fs_matches (with_service t fs) f"
  using assms opt_mem_below [of "sv_protos s" "sv_protos t"] opt_mem_below [of "sv_icmp s" "sv_icmp t"]
    opt_ports_below [of "sv_ports s" "sv_ports t"]
  by (simp add: fs_matches_iff match_known_dimensions_iff with_service_def service_below_def)

lemma policy_fields_service:
  "with_service (policy_service services (sets_get n ''service'' [''ALL''])) (policy_fields addresses services pid n)
     = policy_fields addresses services pid n"
  by (simp add: policy_fields_def with_service_def Let_def)

text \<open>
  No traffic of a listed service is lost: a packet that matches a policy whose services are
  replaced by one of the services it lists, factory, custom or group, matches the policy itself.
\<close>

theorem listed_service_matched:
  assumes "nm \<in> set (sets_get n ''service'' [''ALL''])" and "service_def services nm = Some s"
    and "fs_matches (with_service s (policy_fields addresses services pid n)) f"
  shows "fs_matches (policy_fields addresses services pid n) f"
  using with_service_mono [OF policy_service_below [OF assms(1,2)] assms(3)]
  by (simp only: policy_fields_service)

definition web_policy :: forti_node where
  "web_policy = Node [(''service'', [''PING'', ''HTTPS'']), (''action'', [''accept''])] []"

lemma web_policy_https:
  "''HTTPS'' \<in> set (sets_get web_policy ''service'' [''ALL''])"
  "service_def [] ''HTTPS'' = Some (tcp_svc [(443, 443)])"
  "fs_matches (with_service (tcp_svc [(443, 443)]) (policy_fields [] [] ''7'' web_policy)) sample_flow"
  by code_simp+

theorem listed_service_matched_witness:
  "fs_matches (policy_fields [] [] ''7'' web_policy) sample_flow"
  by (rule listed_service_matched [OF web_policy_https])

end
