(* ===== verification/Corr_Rules.thy ===== *)
theory Corr_Rules
  imports Complex_Main SN_Prelude
begin

text \<open>
  \<open>observability/rules.py\<close>: the catalogue of correlation rules, their thresholds and the loop that
  runs them over the window of normalized events. A rule's check is a field of its catalogue
  entry, as in the code; the entries of the table and what they declare are those of \<open>RULES\<close>.
  JSON columns hold the value, not its text, and a float is the number it denotes. Shown here:
  effective thresholds stay inside the declared interval and keep the declared type.
\<close>

section \<open>JSON values\<close>

datatype json = JNull | JBool bool | JInt int | JFloat rat | JStr string
  | JList "json list" | JObj "(string \<times> json) list"

type_synonym params = "json dict"

text \<open>Python's truth value.\<close>

fun json_true :: "json \<Rightarrow> bool" where
  "json_true JNull = False"
| "json_true (JBool b) = b"
| "json_true (JInt i) = (i \<noteq> 0)"
| "json_true (JFloat r) = (r \<noteq> 0)"
| "json_true (JStr s) = (s \<noteq> [])"
| "json_true (JList xs) = (xs \<noteq> [])"
| "json_true (JObj d) = (d \<noteq> [])"

text \<open>The number a JSON number denotes; booleans count as 0 and 1.\<close>

fun num_of :: "json \<Rightarrow> rat" where
  "num_of (JInt i) = of_int i"
| "num_of (JFloat r) = r"
| "num_of (JBool b) = of_bool b"
| "num_of _ = 0"

definition trunc :: "rat \<Rightarrow> int" where
  "trunc r = (if r < 0 then - floor (- r) else floor r)"

text \<open>\<open>int(value)\<close> of a JSON value: None where it raises \<open>TypeError\<close> or \<open>ValueError\<close>.\<close>

definition json_to_int :: "json \<Rightarrow> int option" where
  "json_to_int j =
     (case j of
        JBool b \<Rightarrow> Some (of_bool b)
      | JInt i \<Rightarrow> Some i
      | JFloat r \<Rightarrow> Some (trunc r)
      | JStr s \<Rightarrow> py_int s
      | _ \<Rightarrow> None)"

fun is_number :: "json \<Rightarrow> bool" where
  "is_number (JInt i) = True"
| "is_number (JFloat r) = True"
| "is_number _ = False"

text \<open>\<open>(x or {})\<close> on which a dict method is called next.\<close>

definition as_dict :: "json option \<Rightarrow> json dict result" where
  "as_dict v = (case v of None \<Rightarrow> Inr [] | Some j \<Rightarrow>
     if \<not> json_true j then Inr [] else (case j of JObj d \<Rightarrow> Inr d | _ \<Rightarrow> Inl AttributeError))"

section \<open>Events, findings and retractions\<close>

record event =
  e_id :: int
  e_ts :: int
  e_ingested :: int
  e_tenant :: string
  e_source :: string
  e_type :: string
  e_entity_type :: string
  e_entity_id :: string
  e_severity :: "int option"
  e_device_ip :: "string option"
  e_interface :: "string option"
  e_src_ip :: "string option"
  e_dst_ip :: "string option"
  e_dst_port :: "int option"
  e_protocol :: "string option"
  e_metrics :: "json dict"
  e_attrs :: "json dict"

definition roles :: "string list" where
  "roles = [''trigger'', ''supporting'', ''symptom'', ''consequence'']"

record conclusion_finding =
  f_event :: int
  f_ts :: int
  f_tenant :: string
  f_role :: string
  f_entity :: string
  f_severity :: "int option"
  f_src :: "string option"
  f_dst :: "string option"
  f_port :: "string option"
  f_summary :: string
  f_attrs :: "json dict"
  f_key :: "string option"
  f_interface :: "string option"

record retraction =
  rt_target :: string
  rt_entity :: string
  rt_tenant :: string
  rt_reason :: string
  rt_witness :: conclusion_finding
  rt_window :: int

datatype item = Found conclusion_finding | Retracts retraction

section \<open>The catalogue\<close>

record param_spec =
  ps_name :: string
  ps_default :: json
  ps_min :: json
  ps_max :: json

record corr_rule =
  cr_version :: string
  cr_outputs :: "string list"
  cr_params :: "param_spec list"
  cr_base :: "int option"
  cr_check :: "event list \<Rightarrow> params \<Rightarrow> item list result"

abbreviation int_spec :: "string \<Rightarrow> int \<Rightarrow> int \<Rightarrow> int \<Rightarrow> param_spec" where
  "int_spec nm d lo hi \<equiv> \<lparr>ps_name = nm, ps_default = JInt d, ps_min = JInt lo, ps_max = JInt hi\<rparr>"

abbreviation float_spec :: "string \<Rightarrow> rat \<Rightarrow> rat \<Rightarrow> rat \<Rightarrow> param_spec" where
  "float_spec nm d lo hi \<equiv> \<lparr>ps_name = nm, ps_default = JFloat d, ps_min = JFloat lo, ps_max = JFloat hi\<rparr>"

definition confirmation_param :: string where "confirmation_param = ''min_observations''"

definition confirmation_spec :: param_spec where
  "confirmation_spec = int_spec confirmation_param 1 1 20"

definition parameter_specs :: "corr_rule dict \<Rightarrow> string \<Rightarrow> param_spec list" where
  "parameter_specs reg rid =
     (case dict_get reg rid of
        None \<Rightarrow> []
      | Some r \<Rightarrow>
          cr_params r @ (if list_ex (\<lambda>p. ps_name p = confirmation_param) (cr_params r) then []
                         else [confirmation_spec]))"

definition defaults_for :: "corr_rule dict \<Rightarrow> string \<Rightarrow> params" where
  "defaults_for reg rid = map (\<lambda>s. (ps_name s, ps_default s)) (parameter_specs reg rid)"

text \<open>\<open>min\<close> and \<open>max\<close> of Python return their first argument on a tie.\<close>

definition py_min :: "json \<Rightarrow> json \<Rightarrow> json" where
  "py_min a b = (if num_of b < num_of a then b else a)"

definition py_max :: "json \<Rightarrow> json \<Rightarrow> json" where
  "py_max a b = (if num_of b > num_of a then b else a)"

text \<open>\<open>type(default)(value)\<close> on numbers.\<close>

definition cast_like :: "json \<Rightarrow> json \<Rightarrow> json" where
  "cast_like d v = (case d of JInt i \<Rightarrow> JInt (trunc (num_of v)) | JFloat r \<Rightarrow> JFloat (num_of v) | _ \<Rightarrow> v)"

definition param_value :: "json option \<Rightarrow> param_spec \<Rightarrow> json" where
  "param_value saved s =
     (let value = (case saved of None \<Rightarrow> ps_default s | Some v \<Rightarrow> if is_number v then v else ps_default s)
      in cast_like (ps_default s) (py_max (ps_min s) (py_min (ps_max s) value)))"

definition params_for :: "json dict \<Rightarrow> corr_rule dict \<Rightarrow> string \<Rightarrow> params result" where
  "params_for settings reg rid =
     bind_r (as_dict (dict_get settings ''correlation_rules'')) (\<lambda>all.
       if parameter_specs reg rid = [] then
         Inr []
       else
         bind_r (as_dict (dict_get all rid)) (\<lambda>saved.
           Inr (fold (\<lambda>s out. dict_set (ps_name s) (param_value (dict_get saved (ps_name s)) s) out)
                 (parameter_specs reg rid) [])))"

definition json_int :: "json \<Rightarrow> int" where "json_int v = trunc (num_of v)"

text \<open>\<open>int(params.get("min_observations", 1) or 1)\<close>.\<close>

definition needed_observations :: "params \<Rightarrow> int" where
  "needed_observations ps =
     (case dict_get ps confirmation_param of
        None \<Rightarrow> 1
      | Some v \<Rightarrow> if json_true v then json_int v else 1)"

definition min_observations :: "json dict \<Rightarrow> corr_rule dict \<Rightarrow> string \<Rightarrow> int result" where
  "min_observations settings reg rid =
     bind_r (params_for settings reg rid) (\<lambda>ps.
       Inr (case dict_get ps confirmation_param of None \<Rightarrow> 1 | Some v \<Rightarrow> json_int v))"

definition declares_output :: "corr_rule dict \<Rightarrow> string \<Rightarrow> string \<Rightarrow> bool" where
  "declares_output reg rid nm \<longleftrightarrow>
     (case dict_get reg rid of None \<Rightarrow> False | Some r \<Rightarrow> nm \<in> set (cr_outputs r))"

definition base_confidence :: "corr_rule dict \<Rightarrow> string \<Rightarrow> int" where
  "base_confidence reg rid =
     (case dict_get reg rid of
        None \<Rightarrow> 40
      | Some r \<Rightarrow> (case cr_base r of None \<Rightarrow> 40 | Some b \<Rightarrow> b))"

section \<open>Running the rules\<close>

type_synonym produced = "(string \<times> string \<times> params \<times> item) list"

definition run_rule :: "json dict \<Rightarrow> corr_rule dict \<Rightarrow> event list \<Rightarrow> string \<Rightarrow> corr_rule \<Rightarrow> produced result" where
  "run_rule settings reg events rid r =
     bind_r (params_for settings reg rid) (\<lambda>ps.
       Inr (case cr_check r events ps of
              Inl _ \<Rightarrow> []
            | Inr items \<Rightarrow> map (\<lambda>i. (rid, cr_version r, ps, i)) items))"

definition evaluate_rules ::
  "json dict \<Rightarrow> corr_rule dict \<Rightarrow> event list \<Rightarrow> string list option \<Rightarrow> produced result" where
  "evaluate_rules settings reg events only =
     fold_r (\<lambda>(rid, r) out.
         if (case only of None \<Rightarrow> False | Some ids \<Rightarrow> rid \<notin> set ids) then Inr out
         else bind_r (run_rule settings reg events rid r) (\<lambda>p. Inr (out @ p)))
       reg []"

section \<open>The shipped catalogue\<close>

text \<open>
  The entries of \<open>RULES\<close>: version, outputs, thresholds and base confidence, with the check functions
  as an argument that \<open>Corr_Checks\<close> supplies; titles and advice are not part of the model.
\<close>

abbreviation entry ::
  "(string \<Rightarrow> event list \<Rightarrow> params \<Rightarrow> item list result) \<Rightarrow> string \<Rightarrow> string list \<Rightarrow> param_spec list \<Rightarrow> int
     \<Rightarrow> string \<times> corr_rule" where
  "entry checks rid outs specs base \<equiv>
     (rid, \<lparr>cr_version = ''1.0.0'', cr_outputs = outs, cr_params = specs, cr_base = Some base,
        cr_check = checks rid\<rparr>)"

definition corr_rules :: "(string \<Rightarrow> event list \<Rightarrow> params \<Rightarrow> item list result) \<Rightarrow> corr_rule dict" where
  "corr_rules checks =
    [entry checks ''BLOCKED_TRAFFIC_001'' [''trigger'', ''supporting''] [int_spec ''match_delta_s'' 120 0 3600] 65,
     entry checks ''HIGH_SEVERITY_LOG_001'' [''trigger''] [int_spec ''max_severity'' 3 0 7] 45,
     entry checks ''CFG_CHANGE_001'' [''trigger''] [] 55,
     entry checks ''IFACE_DOWN_001'' [''symptom''] [] 60,
     entry checks ''IFACE_RECOVERED_001'' [''consequence'', ''retraction''] [int_spec ''window_s'' 3600 60 86400] 0,
     entry checks ''BASELINE_SPIKE_001'' [''trigger'']
       [int_spec ''min_deviation_pct'' 200 20 10000, float_spec ''min_quality'' (3/10) 0 1] 55,
     entry checks ''NEW_TALKER_001'' [''trigger''] [int_spec ''min_bytes'' 10000 0 (10 ^ 12)] 40,
     entry checks ''FLOW_EXPORTER_UNKNOWN_001'' [''trigger'']
       [int_spec ''min_persistence_s'' 3600 0 604800, int_spec ''min_packets'' 50 1 (10 ^ 9)] 90,
     entry checks ''TOP_TALKER_001'' [''supporting'']
       [int_spec ''min_share_pct'' 50 5 100, int_spec ''min_bytes'' (10 ^ 7) 0 (10 ^ 15)] 45,
     entry checks ''BASELINE_NORMAL_RETRACT_001'' [''supporting'', ''retraction'']
       [int_spec ''normal_band_pct'' 50 5 500, float_spec ''min_quality'' (5/10) 0 1,
        int_spec ''window_s'' 7200 60 86400] 0,
     entry checks ''IFACE_FLAPPING_001'' [''trigger''] [int_spec ''min_transitions'' 4 2 100] 70,
     entry checks ''BLAST_RADIUS_001'' [''trigger''] [int_spec ''min_sources'' 3 2 1000] 70,
     entry checks ''DEVICE_UNREACHABLE_001'' [''trigger''] [int_spec ''min_silent_rounds'' 3 1 100] 75,
     entry checks ''IFACE_ERRORS_001'' [''trigger''] [int_spec ''min_errors'' 100 1 1000000] 60,
     entry checks ''DEVICE_LOAD_001'' [''symptom'']
       [int_spec ''max_cpu_pct'' 85 1 100, int_spec ''max_memory_pct'' 90 1 100, int_spec ''max_disk_pct'' 90 1 100] 50,
     entry checks ''TRAFFIC_SPIKE_001'' [''supporting'']
       [int_spec ''min_flows'' 5 2 1000, int_spec ''spike_ratio'' 10 2 1000, int_spec ''include_control_plane'' 0 0 1] 50]"

section \<open>Effective thresholds\<close>

definition spec_ok :: "param_spec \<Rightarrow> bool" where
  "spec_ok s \<longleftrightarrow>
     (case (ps_default s, ps_min s, ps_max s) of
        (JInt d, JInt lo, JInt hi) \<Rightarrow> lo \<le> hi
      | (JFloat d, JFloat lo, JFloat hi) \<Rightarrow> lo \<le> hi
      | _ \<Rightarrow> False)"

text \<open>The value has the type of the default and lies in the declared interval.\<close>

definition value_ok :: "param_spec \<Rightarrow> json \<Rightarrow> bool" where
  "value_ok s v \<longleftrightarrow>
     (case (ps_default s, v) of (JInt _, JInt _) \<Rightarrow> True | (JFloat _, JFloat _) \<Rightarrow> True | _ \<Rightarrow> False)
     \<and> num_of (ps_min s) \<le> num_of v \<and> num_of v \<le> num_of (ps_max s)"

lemma clamp_bounds:
  "num_of a \<le> num_of b \<Longrightarrow> num_of a \<le> num_of (py_max a (py_min b v)) \<and> num_of (py_max a (py_min b v)) \<le> num_of b"
  by (auto simp: py_max_def py_min_def)

lemma trunc_bounds: "of_int lo \<le> r \<Longrightarrow> r \<le> of_int hi \<Longrightarrow> lo \<le> trunc r \<and> trunc r \<le> hi"
  unfolding trunc_def by (cases "r < 0") (auto simp: le_floor_iff floor_le_iff, linarith+)

lemma spec_ok_cases [consumes 1, case_names Int Float]:
  assumes "spec_ok s"
  obtains d lo hi where "ps_default s = JInt d" "ps_min s = JInt lo" "ps_max s = JInt hi" "lo \<le> hi"
    | d lo hi where "ps_default s = JFloat d" "ps_min s = JFloat lo" "ps_max s = JFloat hi" "lo \<le> hi"
  using assms by (auto simp: spec_ok_def split: json.splits)

lemma param_value_ok:
  assumes "spec_ok s" shows "value_ok s (param_value saved s)"
proof -
  obtain w where w: "param_value saved s = cast_like (ps_default s) (py_max (ps_min s) (py_min (ps_max s) w))"
    by (simp add: param_value_def Let_def)
  show ?thesis
    using assms
  proof (cases rule: spec_ok_cases)
    case (Int d lo hi)
    with clamp_bounds [of "JInt lo" "JInt hi" w] trunc_bounds [of lo _ hi] show ?thesis
      by (simp add: w value_ok_def cast_like_def)
  next
    case (Float d lo hi)
    with clamp_bounds [of "JFloat lo" "JFloat hi" w] show ?thesis
      by (simp add: w value_ok_def cast_like_def)
  qed
qed

lemma fold_param_values:
  assumes "distinct (map ps_name ss)" "s \<in> set ss"
  shows "dict_get (fold (\<lambda>s out. dict_set (ps_name s) (v s) out) ss acc) (ps_name s) = Some (v s)"
proof -
  have skip: "nm \<notin> ps_name ` set ss \<Longrightarrow>
      dict_get (fold (\<lambda>s out. dict_set (ps_name s) (v s) out) ss acc) nm = dict_get acc nm" for ss acc nm
    by (induction ss arbitrary: acc) auto
  from assms show ?thesis
    by (induction ss arbitrary: acc) (auto simp: skip)
qed

definition registry_ok :: "corr_rule dict \<Rightarrow> bool" where
  "registry_ok reg \<longleftrightarrow> (\<forall>rid r. dict_get reg rid = Some r \<longrightarrow>
     list_all spec_ok (cr_params r) \<and> distinct (map ps_name (cr_params r))
     \<and> confirmation_param \<notin> ps_name ` set (cr_params r))"

lemma confirmation_spec_ok: "spec_ok confirmation_spec"
  by (simp add: confirmation_spec_def spec_ok_def)

lemma parameter_specs_known:
  assumes "registry_ok reg" "dict_get reg rid = Some r"
  shows "parameter_specs reg rid = cr_params r @ [confirmation_spec]"
proof -
  have "confirmation_param \<notin> ps_name ` set (cr_params r)"
    using assms by (simp add: registry_ok_def)
  then have "\<not> list_ex (\<lambda>p. ps_name p = confirmation_param) (cr_params r)"
    unfolding list_ex_iff by (metis imageI)
  with assms(2) show ?thesis by (simp add: parameter_specs_def)
qed

lemma parameter_specs_rule:
  assumes "s \<in> set (parameter_specs reg rid)" obtains r where "dict_get reg rid = Some r"
  using assms by (cases "dict_get reg rid") (auto simp: parameter_specs_def)

lemma params_for_ok:
  assumes "registry_ok reg" "params_for settings reg rid = Inr ps" "s \<in> set (parameter_specs reg rid)"
  shows "\<exists>v. dict_get ps (ps_name s) = Some v \<and> value_ok s v"
proof -
  let ?ss = "parameter_specs reg rid"
  obtain r where r: "dict_get reg rid = Some r"
    using parameter_specs_rule [OF assms(3)] by blast
  have nm: "ps_name confirmation_spec = confirmation_param" by (simp add: confirmation_spec_def)
  have ss: "distinct (map ps_name ?ss)" "spec_ok s"
    using assms(1,3) r confirmation_spec_ok nm parameter_specs_known [OF assms(1) r]
    by (auto simp: registry_ok_def list_all_iff)
  from assms(2,3) obtain saved where
    "ps = fold (\<lambda>s out. dict_set (ps_name s) (param_value (dict_get saved (ps_name s)) s) out) ?ss []"
    by (auto simp: params_for_def bind_r_eq_Inr split: if_splits)
  then show ?thesis
    using fold_param_values [OF ss(1) assms(3), of "\<lambda>s. param_value (dict_get saved (ps_name s)) s" "[]"]
      param_value_ok [OF ss(2)] by blast
qed

lemma corr_rules_ok: "registry_ok (corr_rules checks)"
proof -
  have "list_all (\<lambda>(rid, r). list_all spec_ok (cr_params r) \<and> distinct (map ps_name (cr_params r))
      \<and> confirmation_param \<notin> ps_name ` set (cr_params r)) (corr_rules checks)"
    by (simp add: corr_rules_def spec_ok_def confirmation_param_def)
  then show ?thesis
    unfolding registry_ok_def list_all_iff [of _ "corr_rules checks"] by (blast dest: map_of_SomeD)
qed

text \<open>
  C12: whatever the administrator saved, the thresholds a shipped rule runs with have the declared
  type and lie between the declared minimum and maximum, and it needs between one and twenty
  distinct observations before it may conclude.
\<close>

theorem effective_params_in_bounds:
  assumes "params_for settings (corr_rules checks) rid = Inr ps"
    and "s \<in> set (parameter_specs (corr_rules checks) rid)"
  shows "(\<exists>v. dict_get ps (ps_name s) = Some v \<and> value_ok s v)
    \<and> 1 \<le> needed_observations ps \<and> needed_observations ps \<le> 20"
proof -
  obtain r where r: "dict_get (corr_rules checks) rid = Some r"
    using parameter_specs_rule [OF assms(2)] by blast
  have "confirmation_spec \<in> set (parameter_specs (corr_rules checks) rid)"
    by (simp add: parameter_specs_known [OF corr_rules_ok r])
  from params_for_ok [OF corr_rules_ok assms(1) this]
  obtain v where "dict_get ps confirmation_param = Some v" "value_ok confirmation_spec v"
    by (auto simp: confirmation_spec_def)
  then have "1 \<le> needed_observations ps \<and> needed_observations ps \<le> 20"
    by (auto simp: value_ok_def confirmation_spec_def needed_observations_def json_int_def trunc_def
        split: json.splits)
  then show ?thesis using params_for_ok [OF corr_rules_ok assms] by blast
qed

definition sample_settings :: "json dict" where
  "sample_settings = [(''correlation_rules'', JObj [(''IFACE_DOWN_001'',
     JObj [(''min_observations'', JFloat (50/2)), (''unknown'', JInt 3)])])]"

lemma sample_params:
  "params_for sample_settings (corr_rules checks) ''IFACE_DOWN_001'' = Inr [(''min_observations'', JInt 20)]"
  "confirmation_spec \<in> set (parameter_specs (corr_rules checks) ''IFACE_DOWN_001'')"
  by (simp_all add: params_for_def sample_settings_def as_dict_def parameter_specs_def corr_rules_def
      confirmation_spec_def confirmation_param_def param_value_def cast_like_def py_max_def py_min_def
      trunc_def)

theorem effective_params_in_bounds_witness:
  "\<exists>ps. params_for sample_settings (corr_rules (\<lambda>_ _ _. Inr [])) ''IFACE_DOWN_001'' = Inr ps
     \<and> needed_observations ps \<le> 20"
  using effective_params_in_bounds [OF sample_params(1) sample_params(2)] sample_params(1) by blast

end
