(* ===== verification/Obs_Store.thy ===== *)
theory Obs_Store
  imports Corr_Rules
begin

text \<open>
  The tables of \<open>observability/storage/schema.sql\<close> that the correlation and incident engines read
  and write: events, evidence, incidents and the history of conclusions. A table is the list of
  its rows in insertion order; a new row takes one more than the largest id, as SQLite does for an
  \<open>INTEGER PRIMARY KEY\<close>.
\<close>

datatype evidence_status = Active | Retracted

record evidence =
  ev_id :: int
  ev_created :: int
  ev_ts :: int
  ev_tenant :: string
  ev_incident :: "int option"
  ev_event :: "int option"
  ev_entity :: "string option"
  ev_role :: string
  ev_rule :: string
  ev_version :: string
  ev_params :: params
  ev_severity :: "int option"
  ev_src :: "string option"
  ev_dst :: "string option"
  ev_port :: "string option"
  ev_summary :: "string option"
  ev_attrs :: "json dict"
  ev_dedup :: "string option"
  ev_status :: evidence_status
  ev_by_evidence :: "int option"
  ev_by_rule :: "string option"
  ev_retracted_at :: "int option"
  ev_reason :: "string option"

text \<open>The value of \<open>reasoning_json\<close>: two conclusions are equal texts exactly when they are equal here.\<close>

record path =
  pa_cause :: string
  pa_version :: string
  pa_params :: params
  pa_base :: int
  pa_step :: int
  pa_rules :: "string list"
  pa_sources :: "string list"
  pa_by_role :: "(string \<times> int list) list"
  pa_refs :: "int list"
  pa_retracted :: nat

datatype reasoning = Path path | All_Retracted nat

record incident =
  in_id :: int
  in_tenant :: string
  in_entity :: string
  in_opened :: int
  in_last :: int
  in_closed :: "int option"
  in_title :: string
  in_severity :: "int option"
  in_count :: int
  in_status :: string
  in_cause :: "string option"
  in_confidence :: "int option"
  in_reasoning :: "reasoning option"

record conclusion =
  co_id :: int
  co_incident :: int
  co_ts :: int
  co_cause :: string
  co_confidence :: int
  co_reasoning :: reasoning
  co_superseded :: "int option"

record obs_db =
  db_events :: "event list"
  db_evidence :: "evidence list"
  db_incidents :: "incident list"
  db_conclusions :: "conclusion list"

definition db_empty :: obs_db where
  "db_empty = \<lparr>db_events = [], db_evidence = [], db_incidents = [], db_conclusions = []\<rparr>"

definition next_id :: "int list \<Rightarrow> int" where
  "next_id ids = fold max ids 0 + 1"

text \<open>\<open>UPDATE \<dots> SET \<dots> WHERE \<dots>\<close>.\<close>

definition update_where :: "('r \<Rightarrow> bool) \<Rightarrow> ('r \<Rightarrow> 'r) \<Rightarrow> 'r list \<Rightarrow> 'r list" where
  "update_where P f rows = map (\<lambda>r. if P r then f r else r) rows"

text \<open>\<open>sorted({\<dots>})\<close> on texts: by code point, without repetitions.\<close>

fun text_le :: "string \<Rightarrow> string \<Rightarrow> bool" where
  "text_le [] t = True"
| "text_le (c # s) [] = False"
| "text_le (c # s) (d # t) = (code c < code d \<or> code c = code d \<and> text_le s t)"

fun insert_text :: "string \<Rightarrow> string list \<Rightarrow> string list" where
  "insert_text s [] = [s]"
| "insert_text s (t # ts) = (if text_le s t then s # t # ts else t # insert_text s ts)"

definition sorted_texts :: "string list \<Rightarrow> string list" where
  "sorted_texts xs = foldr insert_text (remdups xs) []"

section \<open>Lemmas on tables\<close>

lemma set_insert_text [simp]: "set (insert_text s ts) = insert s (set ts)"
  by (induction ts) auto

lemma distinct_insert_text: "s \<notin> set ts \<Longrightarrow> distinct ts \<Longrightarrow> distinct (insert_text s ts)"
  by (induction ts) auto

lemma set_sorted_texts [simp]: "set (sorted_texts xs) = set xs"
proof -
  have "set (foldr insert_text ys []) = set ys" for ys by (induction ys) auto
  then show ?thesis by (simp add: sorted_texts_def)
qed

lemma distinct_sorted_texts [simp]: "distinct (sorted_texts xs)"
proof -
  have set: "set (foldr insert_text ys []) = set ys" for ys by (induction ys) auto
  have "distinct ys \<Longrightarrow> distinct (foldr insert_text ys [])" for ys
    by (induction ys) (auto simp: distinct_insert_text set)
  then show ?thesis by (simp add: sorted_texts_def)
qed

lemma fold_max_ge: "(a :: int) \<le> fold max ids a" and fold_max_mem: "x \<in> set ids \<Longrightarrow> x \<le> fold max ids a"
  by (induction ids arbitrary: a) (force simp: max.coboundedI1 max.coboundedI2 intro: order_trans [OF max.cobounded1] order_trans [OF max.cobounded2])+

lemma next_id_fresh: "x \<in> set ids \<Longrightarrow> x < next_id ids"
  using fold_max_mem [of x ids 0] by (simp add: next_id_def)

lemma next_id_notin: "next_id ids \<notin> set ids"
  using next_id_fresh by blast

lemma next_id_pos: "1 \<le> next_id ids"
  using fold_max_ge [of 0 ids] by (simp add: next_id_def)

lemma set_update_where: "r \<in> set (update_where P f rows) \<longleftrightarrow> (\<exists>r0 \<in> set rows. r = (if P r0 then f r0 else r0))"
  by (auto simp: update_where_def)

lemma length_update_where [simp]: "length (update_where P f rows) = length rows"
  by (simp add: update_where_def)

lemma map_update_where:
  "(\<And>r. g (f r) = g r) \<Longrightarrow> map g (update_where P f rows) = map g rows"
  by (simp add: update_where_def)

lemma update_where_append [simp]:
  "update_where P f (xs @ ys) = update_where P f xs @ update_where P f ys"
  by (simp add: update_where_def)

end
