(* ===== verification/Suppression.thy ===== *)
theory Suppression
  imports SN_Prelude
begin

text \<open>
  \<open>observability/suppression.py\<close>: the declarations of what the operator expects, with or without a
  time window. The saved section is a parameter: its values in order, \<open>None\<close> for one that is not a
  dictionary. The clock is an argument.
\<close>

record suppression =
  sp_tenant :: "string option"
  sp_entity :: "string option"
  sp_interface :: "string option"
  sp_from :: "int option"
  sp_to :: "int option"

type_synonym suppressions = "(string \<times> suppression option) list"

definition any_interface :: string where "any_interface = ''*''"

text \<open>\<open>x or y\<close> on an optional text.\<close>

definition or_text :: "string option \<Rightarrow> string \<Rightarrow> string" where
  "or_text x y = (case x of None \<Rightarrow> y | Some s \<Rightarrow> if s = [] then y else s)"

definition sup_key :: "string \<Rightarrow> string \<Rightarrow> string option \<Rightarrow> string" where
  "sup_key tenant entity interface = str_join ''|'' [tenant, entity, or_text interface any_interface]"

definition all_suppressions :: "suppressions option \<Rightarrow> suppressions" where
  "all_suppressions saved = (case saved of None \<Rightarrow> [] | Some d \<Rightarrow> d)"

definition sup_covers :: "suppression \<Rightarrow> string option \<Rightarrow> bool" where
  "sup_covers r interface \<longleftrightarrow>
     (let target = or_text (sp_interface r) any_interface in
      target = any_interface \<or> interface = Some target)"

definition in_window :: "suppression \<Rightarrow> int \<Rightarrow> bool" where
  "in_window r at \<longleftrightarrow>
     (case sp_from r of Some frm \<Rightarrow> \<not> at < frm | None \<Rightarrow> True)
     \<and> (case sp_to r of Some till \<Rightarrow> \<not> at > till | None \<Rightarrow> True)"

definition sup_active :: "suppressions \<Rightarrow> string \<Rightarrow> string option \<Rightarrow> string option \<Rightarrow> int \<Rightarrow> suppression option" where
  "sup_active sups tenant entity interface at =
     (case entity of
        None \<Rightarrow> None
      | Some ek \<Rightarrow>
          if ek = [] then None
          else find (\<lambda>r. sp_tenant r = Some tenant \<and> sp_entity r = Some ek \<and> sup_covers r interface
                 \<and> in_window r at)
               (List.map_filter snd sups))"

text \<open>\<open>now or int(time.time())\<close>: a given time of zero is replaced by the clock as well.\<close>

definition or_clock :: "int option \<Rightarrow> int \<Rightarrow> int" where
  "or_clock now clock = (case now of None \<Rightarrow> clock | Some t \<Rightarrow> if t = 0 then clock else t)"

definition sup_expired :: "suppression \<Rightarrow> int option \<Rightarrow> int \<Rightarrow> bool" where
  "sup_expired r now clock \<longleftrightarrow> (case sp_to r of None \<Rightarrow> False | Some till \<Rightarrow> till < or_clock now clock)"

section \<open>Lemmas\<close>

lemma sup_active_iff:
  "sup_active sups tenant entity interface at \<noteq> None \<longleftrightarrow>
     (\<exists>ek r. entity = Some ek \<and> ek \<noteq> [] \<and> Some r \<in> snd ` set sups \<and> sp_tenant r = Some tenant
        \<and> sp_entity r = Some ek \<and> sup_covers r interface \<and> in_window r at)"
proof -
  have mem: "r \<in> set (List.map_filter snd sups) \<longleftrightarrow> Some r \<in> snd ` set sups" for r
    by (force simp: List.map_filter_def)
  show ?thesis
  proof (cases entity)
    case (Some ek)
    then show ?thesis
      by (cases "ek = []") (simp_all add: sup_active_def find_None_iff mem, blast)
  qed (simp add: sup_active_def)
qed

lemma device_suppression_covers_all: "sp_interface r = None \<Longrightarrow> sup_covers r i"
  by (simp add: sup_covers_def or_text_def)

lemma expired_not_in_window: "sup_expired r (Some now) clock \<Longrightarrow> now \<noteq> 0 \<Longrightarrow> now \<le> at \<Longrightarrow> \<not> in_window r at"
  by (auto simp: sup_expired_def in_window_def or_clock_def split: option.splits)

end
