(* ===== verification/Corr_Checks.thy ===== *)
theory Corr_Checks
  imports Obs_Store Suppression
begin

text \<open>
  The check functions of the correlation rules of \<open>observability/rules.py\<close>. What the texts of the
  summaries take from \<open>observability/endpoints.py\<close> and from Python's number formatting is an
  argument, and so is the direction of a conversation; every decision is computed. The arrow of the
  summaries is written \<open>->\<close>. An exception
  inside a check is the left value, which the evaluation loop turns into no findings.
\<close>

section \<open>Values\<close>

record endpoint_kb =
  kb_describe :: "string option \<Rightarrow> string"
  kb_direction :: "string option \<Rightarrow> string option \<Rightarrow> string option"
  kb_repr :: "json \<Rightarrow> string"
  kb_signed :: "rat \<Rightarrow> string"
  kb_round :: "rat \<Rightarrow> string"

text \<open>\<open>d.get(k)\<close> with \<open>JNull\<close> for Python's \<open>None\<close>, \<open>d.get(k, x)\<close>, and \<open>a or b\<close>.\<close>

definition jget :: "json dict \<Rightarrow> string \<Rightarrow> json" where
  "jget d k = (case dict_get d k of None \<Rightarrow> JNull | Some v \<Rightarrow> v)"

definition jget_or :: "json dict \<Rightarrow> string \<Rightarrow> json \<Rightarrow> json" where
  "jget_or d k x = (case dict_get d k of None \<Rightarrow> x | Some v \<Rightarrow> v)"

definition jor :: "json \<Rightarrow> json \<Rightarrow> json" where "jor a b = (if json_true a then a else b)"

text \<open>\<open>str(v)\<close>.\<close>

definition jtext :: "endpoint_kb \<Rightarrow> json \<Rightarrow> string" where
  "jtext kb v =
     (case v of JStr s \<Rightarrow> s | JInt i \<Rightarrow> str_int i | JNull \<Rightarrow> ''None''
      | JBool b \<Rightarrow> (if b then ''True'' else ''False'') | _ \<Rightarrow> kb_repr kb v)"

definition jnum :: "json \<Rightarrow> rat result" where
  "jnum v = (case v of JInt _ \<Rightarrow> Inr (num_of v) | JFloat _ \<Rightarrow> Inr (num_of v) | JBool _ \<Rightarrow> Inr (num_of v)
     | _ \<Rightarrow> Inl TypeError)"

text \<open>\<open>v or 0\<close> as a number.\<close>

definition jnum0 :: "json \<Rightarrow> rat result" where "jnum0 v = (if json_true v then jnum v else Inr 0)"

definition threshold :: "params \<Rightarrow> string \<Rightarrow> rat result" where
  "threshold ps nm = (case dict_get ps nm of None \<Rightarrow> Inl (KeyError nm) | Some v \<Rightarrow> Inr (num_of v))"

definition opt_text :: "string option \<Rightarrow> string" where
  "opt_text x = (case x of None \<Rightarrow> ''None'' | Some s \<Rightarrow> s)"

definition present :: "string option \<Rightarrow> bool" where "present x \<longleftrightarrow> or_text x [] \<noteq> []"

definition opt_json :: "string option \<Rightarrow> json" where
  "opt_json x = (case x of None \<Rightarrow> JNull | Some s \<Rightarrow> JStr s)"

definition merged :: "json dict \<Rightarrow> json dict \<Rightarrow> json dict" where
  "merged a b = fold (\<lambda>(k, v) d. dict_set k v d) b a"

text \<open>A loop that appends what each step yields.\<close>

definition collect_r :: "('a \<Rightarrow> 'b list result) \<Rightarrow> 'a list \<Rightarrow> 'b list result" where
  "collect_r f xs = fold_r (\<lambda>x acc. bind_r (f x) (\<lambda>ys. Inr (acc @ ys))) xs []"

text \<open>\<open>setdefault(key, []).append(x)\<close> in order.\<close>

definition group_by :: "('a \<Rightarrow> 'k) \<Rightarrow> 'a list \<Rightarrow> ('k \<times> 'a list) list" where
  "group_by key xs =
     fold (\<lambda>x d. AList.update (key x) ((case map_of d (key x) of None \<Rightarrow> [] | Some ys \<Rightarrow> ys) @ [x]) d) xs []"

definition finding_of :: "event \<Rightarrow> string \<Rightarrow> string \<Rightarrow> string \<Rightarrow> json dict \<Rightarrow> conclusion_finding" where
  "finding_of ev role entity summary attrs =
     \<lparr>f_event = e_id ev, f_ts = e_ts ev, f_tenant = e_tenant ev, f_role = role, f_entity = entity,
      f_severity = None, f_src = None, f_dst = None, f_port = None, f_summary = summary,
      f_attrs = attrs, f_key = None, f_interface = None\<rparr>"

definition ip_key :: "string option \<Rightarrow> string" where "ip_key x = ''ip:'' @ opt_text x"

section \<open>Traffic blocked by policy\<close>

definition block_actions :: "string list" where
  "block_actions = [''deny'', ''drop'', ''block'', ''close'', ''reject'', ''reset'']"

text \<open>The two sides agree on a field when either does not say, or their texts are equal.\<close>

definition agree :: "endpoint_kb \<Rightarrow> json \<Rightarrow> json \<Rightarrow> bool" where
  "agree kb a b \<longleftrightarrow> a = JNull \<or> b = JNull \<or> jtext kb a = jtext kb b"

definition corroborates :: "endpoint_kb \<Rightarrow> rat \<Rightarrow> event \<Rightarrow> event \<Rightarrow> bool" where
  "corroborates kb delta ev f \<longleftrightarrow>
     e_tenant f = e_tenant ev \<and> e_src_ip f = e_src_ip ev \<and> e_dst_ip f = e_dst_ip ev
     \<and> of_int (abs (e_ts f - e_ts ev)) \<le> delta + 60
     \<and> agree kb (jor (jget (e_attrs ev) ''proto'') (jget (e_attrs ev) ''protocol'')) (jget (e_attrs f) ''protocol'')
     \<and> agree kb (jor (jget (e_attrs ev) ''dst_port'') (jget (e_attrs ev) ''dport'')) (jget (e_attrs f) ''dst_port'')"

definition blocks_traffic :: "endpoint_kb \<Rightarrow> event \<Rightarrow> bool" where
  "blocks_traffic kb ev \<longleftrightarrow>
     e_type ev = ''log.security'' \<and> present (e_src_ip ev) \<and> present (e_dst_ip ev)
     \<and> (let action = py_lower (jtext kb (jor (jget (e_attrs ev) ''action'') (JStr []))) in
        action = [] \<or> action \<in> set block_actions)"

definition blocked_pair :: "endpoint_kb \<Rightarrow> event \<Rightarrow> event \<Rightarrow> conclusion_finding list" where
  "blocked_pair kb ev m =
     (let entity = ip_key (e_src_ip ev) in
      [(finding_of ev ''trigger'' entity
          (''Traffico bloccato '' @ kb_describe kb (e_src_ip ev) @ '' -> '' @ kb_describe kb (e_dst_ip ev))
          [(''action'', jget (e_attrs ev) ''action'')])
          \<lparr>f_severity := e_severity ev, f_src := e_src_ip ev, f_dst := e_dst_ip ev\<rparr>,
       (finding_of m ''supporting'' entity
          (''Flusso corrispondente '' @ kb_describe kb (e_src_ip m) @ '' -> '' @ kb_describe kb (e_dst_ip m))
          [(''metrics'', JObj (e_metrics m))])
          \<lparr>f_src := e_src_ip m, f_dst := e_dst_ip m\<rparr>])"

definition blocked_findings :: "endpoint_kb \<Rightarrow> event list \<Rightarrow> params \<Rightarrow> conclusion_finding list result" where
  "blocked_findings kb events ps =
     (let flows = filter (\<lambda>e. e_type e = ''flow.aggregate'') events in
      collect_r (\<lambda>ev.
        if \<not> blocks_traffic kb ev then Inr []
        else if flows = [] then Inr []
        else bind_r (threshold ps ''match_delta_s'') (\<lambda>delta.
          Inr (case find (corroborates kb delta ev) flows of None \<Rightarrow> [] | Some m \<Rightarrow> blocked_pair kb ev m)))
       events)"

definition blocked_traffic :: "endpoint_kb \<Rightarrow> event list \<Rightarrow> params \<Rightarrow> item list result" where
  "blocked_traffic kb events ps = bind_r (blocked_findings kb events ps) (\<lambda>fs. Inr (map Found fs))"

section \<open>Logs and changes\<close>

definition high_severity_log :: "endpoint_kb \<Rightarrow> event list \<Rightarrow> params \<Rightarrow> item list result" where
  "high_severity_log kb events ps =
     collect_r (\<lambda>ev.
       if \<not> starts_with ''log.'' (e_type ev) then Inr []
       else (case e_severity ev of
          None \<Rightarrow> Inr []
        | Some s \<Rightarrow>
            bind_r (threshold ps ''max_severity'') (\<lambda>mx.
              if of_int s > mx then Inr []
              else
                let m = jget (e_attrs ev) ''message'';
                    f = (\<lambda>txt. (finding_of ev ''trigger'' (if present (e_src_ip ev) then ip_key (e_src_ip ev)
                          else ip_key (e_device_ip ev)) (take 200 txt) [(''action'', jget (e_attrs ev) ''action'')])
                          \<lparr>f_severity := Some s, f_src := e_src_ip ev, f_dst := e_dst_ip ev\<rparr>)
                in if \<not> json_true m then Inr [Found (f ''Evento critico'')]
                   else (case m of JStr txt \<Rightarrow> Inr [Found (f txt)] | _ \<Rightarrow> Inl TypeError))))
      events"

text \<open>The last part of a dotted field name.\<close>

definition field_name :: "endpoint_kb \<Rightarrow> event \<Rightarrow> string" where
  "field_name kb ev = jtext kb (jget_or (e_attrs ev) ''field'' (JStr []))"

definition config_change :: "endpoint_kb \<Rightarrow> event list \<Rightarrow> params \<Rightarrow> item list result" where
  "config_change kb events ps =
     collect_r (\<lambda>ev.
       if e_type ev \<notin> {''device.change'', ''interface.change''} then Inr []
       else if py_lower (last (split_on (CHR ''.'') (field_name kb ev))) = ''link'' then Inr []
       else Inr [Found ((finding_of ev ''trigger'' (ip_key (e_device_ip ev))
          (''Modifica su '' @ (if present (e_interface ev) then or_text (e_interface ev) [] else opt_text (e_device_ip ev))
             @ '': '' @ jtext kb (jget (e_attrs ev) ''field'') @ '' '' @ jtext kb (jget (e_attrs ev) ''before'')
             @ '' -> '' @ jtext kb (jget (e_attrs ev) ''after'')) (e_attrs ev))
          \<lparr>f_severity := e_severity ev, f_interface := e_interface ev\<rparr>)])
      events"

section \<open>Interfaces\<close>

definition link_up_values :: "string list" where "link_up_values = [''up'', ''1'', ''true'']"

definition link_down_values :: "string list" where
  "link_down_values = [''down'', ''0'', ''false'', ''lowerlayerdown'', ''notpresent'']"

definition admin_down_values :: "string list" where
  "admin_down_values = [''down'', ''0'', ''false'', ''admin_down'', ''administratively down'']"

text \<open>A change of the link or operational status of a port.\<close>

definition link_field :: "endpoint_kb \<Rightarrow> event \<Rightarrow> bool" where
  "link_field kb ev \<longleftrightarrow> str_contains ''link'' (py_lower (field_name kb ev))
     \<or> str_contains ''status'' (py_lower (field_name kb ev))"

definition goes_down :: "endpoint_kb \<Rightarrow> event \<Rightarrow> bool" where
  "goes_down kb ev \<longleftrightarrow> e_type ev = ''interface.change''
     \<and> py_lower (jtext kb (jget (e_attrs ev) ''after'')) \<in> set link_down_values \<and> link_field kb ev
     \<and> py_lower (jtext kb (jor (jget (e_attrs ev) ''admin_status'') (JStr []))) \<notin> set admin_down_values"

definition interface_down :: "endpoint_kb \<Rightarrow> event list \<Rightarrow> params \<Rightarrow> item list result" where
  "interface_down kb events ps =
     Inr (concat (map (\<lambda>ev. if goes_down kb ev then
         [Found ((finding_of ev ''symptom'' (ip_key (e_device_ip ev))
            (''Interfaccia '' @ opt_text (e_interface ev) @ '' passata a down'') (e_attrs ev))
            \<lparr>f_severity := e_severity ev, f_interface := e_interface ev\<rparr>)] else []) events))"

definition goes_up :: "endpoint_kb \<Rightarrow> event \<Rightarrow> bool" where
  "goes_up kb ev \<longleftrightarrow> e_type ev = ''interface.change'' \<and> link_field kb ev
     \<and> py_lower (jtext kb (jget (e_attrs ev) ''after'')) \<in> set link_up_values"

definition interface_recovered :: "endpoint_kb \<Rightarrow> event list \<Rightarrow> params \<Rightarrow> item list result" where
  "interface_recovered kb events ps =
     collect_r (\<lambda>ev.
       if \<not> goes_up kb ev then Inr []
       else bind_r (threshold ps ''window_s'') (\<lambda>w.
         let txt = ''Interfaccia '' @ opt_text (e_interface ev) @ '' tornata su'' in
         Inr [Retracts \<lparr>rt_target = ''IFACE_DOWN_001'', rt_entity = ip_key (e_device_ip ev),
           rt_tenant = e_tenant ev, rt_reason = txt,
           rt_witness = (finding_of ev ''consequence'' (ip_key (e_device_ip ev)) txt (e_attrs ev))
             \<lparr>f_interface := e_interface ev\<rparr>,
           rt_window = trunc w\<rparr>]))
      events"

text \<open>\<open>max_span_s\<close> is not a declared threshold, so the default of an hour always applies.\<close>

definition interface_flapping :: "endpoint_kb \<Rightarrow> event list \<Rightarrow> params \<Rightarrow> item list result" where
  "interface_flapping kb events ps =
     (let changes = filter (\<lambda>ev. e_type ev = ''interface.change'' \<and> present (e_interface ev) \<and> link_field kb ev) events;
          max_span = (case dict_get ps ''max_span_s'' of None \<Rightarrow> 3600 | Some v \<Rightarrow> num_of v)
      in collect_r (\<lambda>((tenant, device_ip, interface), seen).
           bind_r (threshold ps ''min_transitions'') (\<lambda>mn.
             if of_nat (length seen) < mn then Inr []
             else
               let recent = filter (\<lambda>e. of_int (e_ts (last seen) - e_ts e) \<le> max_span) seen in
               if of_nat (length recent) < mn then Inr []
               else
                 let span = e_ts (last recent) - e_ts (hd recent); n = length recent; nm = opt_text interface in
                 Inr [Found ((finding_of (last recent) ''trigger'' (ip_key device_ip)
                   (''Interfaccia '' @ nm @ '' instabile: '' @ str_nat n @ '' transizioni in ''
                      @ str_int (max (span div 60) 1) @ '' minuti'')
                   [(''interface'', opt_json interface), (''transitions'', JInt (int n)), (''span_s'', JInt span)])
                   \<lparr>f_severity := Some 3, f_key := Some (''flap:'' @ nm), f_interface := interface\<rparr>)]))
         (group_by (\<lambda>ev. (e_tenant ev, e_device_ip ev, e_interface ev)) changes))"

section \<open>Several clients blocked towards one destination\<close>

text \<open>
  The sources and the latest finding of a destination; \<open>f.ts >= last.ts\<close> makes a later one win a tie.
\<close>

definition latest :: "conclusion_finding list \<Rightarrow> conclusion_finding" where
  "latest fs = fold (\<lambda>f l. if f_ts f \<ge> f_ts l then f else l) (tl fs) (hd fs)"

definition blocked_port :: "endpoint_kb \<Rightarrow> event list \<Rightarrow> conclusion_finding \<Rightarrow> string" where
  "blocked_port kb events f =
     (let ev = find (\<lambda>e. e_id e = f_event f) (rev events);
          attrs = (case ev of None \<Rightarrow> [] | Some e \<Rightarrow> e_attrs e);
          port = jor (jor (jget attrs ''dst_port'') (jget attrs ''dport''))
                   (case ev of None \<Rightarrow> JNull | Some e \<Rightarrow> (case e_dst_port e of None \<Rightarrow> JNull | Some n \<Rightarrow> JInt n))
      in if port = JNull \<or> port = JStr [] then [] else jtext kb port)"

definition blast_radius ::
  "endpoint_kb \<Rightarrow> params result \<Rightarrow> event list \<Rightarrow> params \<Rightarrow> item list result" where
  "blast_radius kb blocked_params events ps =
     bind_r blocked_params (\<lambda>bps.
       bind_r (blocked_findings kb events bps) (\<lambda>blocked.
         collect_r (\<lambda>((tenant, dst, port), fs).
             bind_r (threshold ps ''min_sources'') (\<lambda>mn.
               let sources = remdups (map (\<lambda>f. or_text (f_src f) []) fs); l = latest fs;
                   target = (if port = [] then opt_text dst else opt_text dst @ '':'' @ port)
               in if of_nat (length sources) < mn then Inr []
                  else Inr [Found \<lparr>f_event = f_event l, f_ts = f_ts l, f_tenant = tenant, f_role = ''trigger'',
                    f_entity = ''dst:'' @ target, f_severity = Some 3, f_src = None, f_dst = dst, f_port = None,
                    f_summary = str_nat (length sources) @ '' client bloccati verso '' @ kb_describe kb dst
                      @ (if port = [] then [] else '' porta '' @ port),
                    f_attrs = [(''sources'', JInt (int (length sources))),
                      (''sample'', JList (map JStr (take 10 (sorted_texts sources)))),
                      (''dst_port'', if port = [] then JNull else JStr port), (''threshold'', jget ps ''min_sources'')],
                    f_key = None, f_interface = None\<rparr>]))
           (group_by (\<lambda>f. (f_tenant f, f_dst f, blocked_port kb events f))
             (filter (\<lambda>f. f_role f = ''trigger'' \<and> present (f_dst f) \<and> present (f_src f)) blocked))))"

section \<open>Devices that stopped answering\<close>

text \<open>The rounds of a device in time order, and those after its last answer.\<close>

definition rounds :: "event list \<Rightarrow> event list" where
  "rounds seen = sort_key e_ts (sort_key e_id seen)"

fun after_last :: "('a \<Rightarrow> bool) \<Rightarrow> 'a list \<Rightarrow> ('a \<times> 'a list) option" where
  "after_last P [] = None"
| "after_last P (x # xs) =
     (case after_last P xs of Some r \<Rightarrow> Some r | None \<Rightarrow> if P x then Some (x, xs) else None)"

definition answers :: "event \<Rightarrow> bool" where "answers e \<longleftrightarrow> e_type e = ''device.state''"
definition silent :: "event \<Rightarrow> bool" where "silent e \<longleftrightarrow> e_type e = ''device.unreachable''"

definition silent_rounds_finding ::
  "params \<Rightarrow> rat \<Rightarrow> string \<Rightarrow> string option \<Rightarrow> event list \<Rightarrow> item list result" where
  "silent_rounds_finding ps mn tenant device_ip seen =
     (case after_last answers (rounds seen) of
        None \<Rightarrow> Inr []
      | Some (last_ok, rest) \<Rightarrow>
          let silent_after = filter silent rest; n = length silent_after in
          if of_nat n < mn then Inr []
          else if silent_after = [] then Inl IndexError
          else Inr [Found ((finding_of (last silent_after) ''trigger'' (ip_key device_ip)
                (opt_text device_ip @ '' non risponde da '' @ str_nat n @ '' giri di polling consecutivi'')
                [(''silent_rounds'', JInt (int n)), (''last_answer_ts'', JInt (e_ts last_ok)),
                 (''threshold'', jget ps ''min_silent_rounds'')])
                \<lparr>f_severity := Some 2, f_key := Some ''unreachable''\<rparr>)])"

definition device_unreachable :: "endpoint_kb \<Rightarrow> event list \<Rightarrow> params \<Rightarrow> item list result" where
  "device_unreachable kb events ps =
     collect_r (\<lambda>((tenant, device_ip), seen).
         bind_r (threshold ps ''min_silent_rounds'') (\<lambda>mn.
           silent_rounds_finding ps mn tenant device_ip seen))
       (group_by (\<lambda>e. (e_tenant e, e_device_ip e))
         (filter (\<lambda>e. (answers e \<or> silent e) \<and> present (e_device_ip e)) events))"

section \<open>Measures\<close>

text \<open>The sum of the error counters a port exposes, \<open>None\<close> when it exposes none.\<close>

definition error_total :: "event \<Rightarrow> int option" where
  "error_total ev =
     (let vs = filter is_number (map (jget (e_metrics ev)) [''in_errors'', ''out_errors'']) in
      if vs = [] then None else Some (sum_list (map json_int vs)))"

definition interface_errors :: "endpoint_kb \<Rightarrow> event list \<Rightarrow> params \<Rightarrow> item list result" where
  "interface_errors kb events ps =
     (let samples = concat (map (\<lambda>ev.
            if e_type ev = ''interface.state'' \<and> present (e_interface ev)
            then (case error_total ev of None \<Rightarrow> [] | Some t \<Rightarrow> [(ev, t)]) else []) events)
      in collect_r (\<lambda>((tenant, device_ip, interface), xs).
           if length xs < 2 then Inr []
           else bind_r (threshold ps ''min_errors'') (\<lambda>mn.
             let delta = snd (last xs) - snd (hd xs); ev = fst (last xs); span = e_ts ev - e_ts (fst (hd xs));
                 nm = opt_text interface
             in if of_int delta < mn then Inr []
                else Inr [Found ((finding_of ev ''trigger'' (ip_key device_ip)
                  (''Interfaccia '' @ nm @ '': '' @ str_int delta @ '' errori in ''
                     @ str_int (max (span div 60) 1) @ '' minuti'')
                  [(''interface'', opt_json interface), (''errors_delta'', JInt delta), (''span_s'', JInt span),
                   (''threshold'', jget ps ''min_errors'')])
                  \<lparr>f_severity := Some 4, f_key := Some (''errors:'' @ nm), f_interface := interface\<rparr>)]))
         (group_by (\<lambda>(ev, t). (e_tenant ev, e_device_ip ev, e_interface ev)) samples))"

definition load_fields :: "(string \<times> string \<times> string) list" where
  "load_fields = [(''cpu_pct'', ''max_cpu_pct'', ''CPU''), (''memory_pct'', ''max_memory_pct'', ''Memoria''),
     (''disk_pct'', ''max_disk_pct'', ''Disco'')]"

definition device_load :: "endpoint_kb \<Rightarrow> event list \<Rightarrow> params \<Rightarrow> item list result" where
  "device_load kb events ps =
     collect_r (\<lambda>ev.
       if \<not> answers ev then Inr []
       else collect_r (\<lambda>(field, limit, label).
         let value = jget (e_metrics ev) field in
         bind_r (threshold ps limit) (\<lambda>lim.
           if value = JNull then Inr []
           else bind_r (jnum value) (\<lambda>v.
             if v < lim then Inr []
             else Inr [Found ((finding_of ev ''symptom'' (ip_key (e_device_ip ev))
               (label @ '' al '' @ jtext kb value @ ''% su '' @ opt_text (e_device_ip ev)
                  @ '' (soglia '' @ jtext kb (jget ps limit) @ ''%)'')
               [(''metric'', JStr field), (''value'', value), (''threshold'', jget ps limit)])
               \<lparr>f_severity := Some 4, f_key := Some field\<rparr>)]))) load_fields)
      events"

definition flow_bytes :: "event \<Rightarrow> json" where
  "flow_bytes f = jor (jget (e_metrics f) ''bytes'') (JInt 0)"

definition spike_flows :: "endpoint_kb \<Rightarrow> params \<Rightarrow> event list \<Rightarrow> event list" where
  "spike_flows kb ps events =
     (let flows = filter (\<lambda>e. e_type e = ''flow.aggregate'') events in
      if json_true (jget ps ''include_control_plane'') then flows
      else filter (\<lambda>f. kb_direction kb (e_src_ip f) (e_dst_ip f) \<noteq> Some ''control_plane'') flows)"

definition traffic_spike :: "endpoint_kb \<Rightarrow> event list \<Rightarrow> params \<Rightarrow> item list result" where
  "traffic_spike kb events ps =
     (let flows = spike_flows kb ps events in
      bind_r (threshold ps ''min_flows'') (\<lambda>mn. bind_r (threshold ps ''spike_ratio'') (\<lambda>ratio.
        if of_nat (length flows) < mn then Inr []
        else if flows = [] then Inl IndexError
        else bind_r (collect_r (\<lambda>f. bind_r (jnum (flow_bytes f)) (\<lambda>v. Inr [v])) flows) (\<lambda>vs.
          let volumes = sort_key num_of (map flow_bytes flows); mid = volumes ! (length volumes div 2) in
          if num_of mid \<le> 0 then Inr []
          else Inr (map (\<lambda>f. Found ((finding_of f ''supporting'' (ip_key (e_src_ip f))
                (''Volume anomalo '' @ kb_describe kb (e_src_ip f) @ '' -> '' @ kb_describe kb (e_dst_ip f)
                   @ '': '' @ jtext kb (flow_bytes f) @ '' byte contro una mediana di '' @ jtext kb mid)
                [(''bytes'', flow_bytes f), (''median_bytes'', mid),
                 (''direction'', opt_json (kb_direction kb (e_src_ip f) (e_dst_ip f)))])
                \<lparr>f_src := e_src_ip f, f_dst := e_dst_ip f\<rparr>))
              (filter (\<lambda>f. \<not> num_of (flow_bytes f) < num_of mid * ratio) flows))))))"

section \<open>Baselines and talkers\<close>

text \<open>A measure whose quality is too low for the rule is skipped before its deviation is read.\<close>

definition baseline_measure ::
  "params \<Rightarrow> event \<Rightarrow> (json dict \<Rightarrow> rat \<Rightarrow> item list result) \<Rightarrow> item list result" where
  "baseline_measure ps ev use =
     (if e_type ev \<noteq> ''flow.baseline'' then Inr []
      else bind_r (jnum0 (jget (e_metrics ev) ''quality'')) (\<lambda>q. bind_r (threshold ps ''min_quality'') (\<lambda>mq.
        if q < mq then Inr []
        else if jget (e_metrics ev) ''deviation_pct'' = JNull then Inr []
        else bind_r (jnum (jget (e_metrics ev) ''deviation_pct'')) (use (e_metrics ev)))))"

definition baseline_spike :: "endpoint_kb \<Rightarrow> event list \<Rightarrow> params \<Rightarrow> item list result" where
  "baseline_spike kb events ps =
     collect_r (\<lambda>ev. baseline_measure ps ev (\<lambda>m d. bind_r (threshold ps ''min_deviation_pct'') (\<lambda>mn.
         if d < mn then Inr []
         else Inr [Found ((finding_of ev ''trigger'' (ip_key (e_src_ip ev))
           (kb_describe kb (e_src_ip ev) @ '': traffico '' @ kb_signed kb d @ ''% rispetto all'' @ [CHR 0x27]
              @ ''abitudine ('' @ jtext kb (jget m ''observed'') @ '' byte contro '' @ jtext kb (jget m ''expected'')
              @ '' attesi, baseline '' @ jtext kb (jget_or (e_attrs ev) ''quality_label'' (JStr ''?'')) @ '')'')
           (merged (e_attrs ev) m)) \<lparr>f_severity := Some 4, f_src := e_src_ip ev\<rparr>)])))
      events"

definition baseline_normal_retracts :: "endpoint_kb \<Rightarrow> event list \<Rightarrow> params \<Rightarrow> item list result" where
  "baseline_normal_retracts kb events ps =
     collect_r (\<lambda>ev. baseline_measure ps ev (\<lambda>m d.
         bind_r (threshold ps ''normal_band_pct'') (\<lambda>band. bind_r (threshold ps ''window_s'') (\<lambda>w.
           if abs d > band then Inr []
           else Inr [Retracts \<lparr>rt_target = ''TRAFFIC_SPIKE_001'', rt_entity = ip_key (e_src_ip ev),
             rt_tenant = e_tenant ev,
             rt_reason = ''Il confronto con lo storico colloca il volume nella norma ('' @ kb_signed kb d
               @ ''% sull'' @ [CHR 0x27] @ ''atteso)'',
             rt_witness = (finding_of ev ''supporting'' (ip_key (e_src_ip ev))
               (kb_describe kb (e_src_ip ev) @ '': volume nella norma storica ('' @ kb_signed kb d
                  @ ''% sull'' @ [CHR 0x27] @ ''atteso)'') m) \<lparr>f_src := e_src_ip ev\<rparr>,
             rt_window = trunc w\<rparr>]))))
      events"

definition new_talker :: "endpoint_kb \<Rightarrow> event list \<Rightarrow> params \<Rightarrow> item list result" where
  "new_talker kb events ps =
     collect_r (\<lambda>ev.
       if e_type ev \<noteq> ''flow.emergence'' then Inr []
       else if \<not> present (e_src_ip ev) \<or> kb_direction kb (e_src_ip ev) (e_src_ip ev) = Some ''control_plane''
       then Inr []
       else
         let dst = jor (jget (e_attrs ev) ''dst_ip'') (JStr []) in
         if json_true dst \<and> kb_direction kb (e_src_ip ev) (Some (jtext kb dst)) = Some ''control_plane'' then Inr []
         else bind_r (jnum0 (jget (e_metrics ev) ''observed'')) (\<lambda>obs. bind_r (threshold ps ''min_bytes'') (\<lambda>mn.
           if obs < mn then Inr []
           else Inr [Found ((finding_of ev ''trigger'' (ip_key (e_src_ip ev))
             (kb_describe kb (e_src_ip ev) @ '': host mai osservato prima, ''
                @ jtext kb (jor (jget (e_metrics ev) ''observed'') (JInt 0)) @ '' byte trasmessi'')
             (merged (e_attrs ev) (e_metrics ev))) \<lparr>f_severity := Some 5, f_src := e_src_ip ev\<rparr>)])))
      events"

text \<open>\<open>persisted // 60\<close>.\<close>

definition minutes :: "json \<Rightarrow> json" where
  "minutes v = (case v of JFloat r \<Rightarrow> JFloat (of_int (floor (r / 60))) | _ \<Rightarrow> JInt (json_int v div 60))"

definition unknown_exporter :: "endpoint_kb \<Rightarrow> event list \<Rightarrow> params \<Rightarrow> item list result" where
  "unknown_exporter kb events ps =
     collect_r (\<lambda>ev.
       if e_type ev \<noteq> ''platform.exporter_unknown'' then Inr []
       else bind_r (jnum0 (jget (e_metrics ev) ''persisted_s'')) (\<lambda>persisted.
         bind_r (jnum0 (jget (e_metrics ev) ''packets'')) (\<lambda>packets.
         bind_r (threshold ps ''min_persistence_s'') (\<lambda>mp. bind_r (threshold ps ''min_packets'') (\<lambda>mk.
           if persisted < mp \<or> packets < mk then Inr []
           else Inr [Found ((finding_of ev ''trigger'' (''exporter:'' @ e_entity_id ev)
             (''Exporter '' @ kb_describe kb (Some (e_entity_id ev)) @ '' fuori inventario da ''
                @ jtext kb (minutes (jor (jget (e_metrics ev) ''persisted_s'') (JInt 0))) @ '' minuti: ''
                @ jtext kb (jor (jget (e_metrics ev) ''packets'') (JInt 0)) @ '' pacchetti scartati'')
             (merged (e_attrs ev) (e_metrics ev))) \<lparr>f_severity := e_severity ev, f_src := e_src_ip ev\<rparr>)])))))
      events"

definition top_talker :: "endpoint_kb \<Rightarrow> event list \<Rightarrow> params \<Rightarrow> item list result" where
  "top_talker kb events ps =
     collect_r (\<lambda>ev.
       let share = jget (e_metrics ev) ''share_pct'' in
       if e_type ev \<noteq> ''flow.top_talker'' \<or> share = JNull then Inr []
       else bind_r (jnum share) (\<lambda>s. bind_r (threshold ps ''min_share_pct'') (\<lambda>mn.
         if s < mn then Inr []
         else bind_r (jnum0 (jget (e_metrics ev) ''observed'')) (\<lambda>obs. bind_r (threshold ps ''min_bytes'') (\<lambda>mb.
           if obs < mb then Inr []
           else Inr [Found ((finding_of ev ''supporting'' (ip_key (e_src_ip ev))
             (kb_describe kb (e_src_ip ev) @ '' rappresenta il '' @ kb_round kb s
                @ ''% del traffico osservato dell'' @ [CHR 0x27] @ ''ora ('' @ jtext kb (jget (e_metrics ev) ''observed'')
                @ '' byte su '' @ jtext kb (jget (e_metrics ev) ''total'') @ '')'')
             (merged (e_attrs ev) (e_metrics ev))) \<lparr>f_src := e_src_ip ev\<rparr>)])))))
      events"

section \<open>The catalogue with its checks\<close>

text \<open>The thresholds do not depend on the checks, so the rule that reuses another one reads its own.\<close>

definition rule_checks ::
  "endpoint_kb \<Rightarrow> json dict \<Rightarrow> string \<Rightarrow> event list \<Rightarrow> params \<Rightarrow> item list result" where
  "rule_checks kb settings rid =
     (if rid = ''BLOCKED_TRAFFIC_001'' then blocked_traffic kb
      else if rid = ''HIGH_SEVERITY_LOG_001'' then high_severity_log kb
      else if rid = ''CFG_CHANGE_001'' then config_change kb
      else if rid = ''IFACE_DOWN_001'' then interface_down kb
      else if rid = ''IFACE_RECOVERED_001'' then interface_recovered kb
      else if rid = ''BASELINE_SPIKE_001'' then baseline_spike kb
      else if rid = ''NEW_TALKER_001'' then new_talker kb
      else if rid = ''FLOW_EXPORTER_UNKNOWN_001'' then unknown_exporter kb
      else if rid = ''TOP_TALKER_001'' then top_talker kb
      else if rid = ''BASELINE_NORMAL_RETRACT_001'' then baseline_normal_retracts kb
      else if rid = ''IFACE_FLAPPING_001'' then interface_flapping kb
      else if rid = ''BLAST_RADIUS_001'' then
        blast_radius kb (params_for settings (corr_rules (\<lambda>_ _ _. Inr [])) ''BLOCKED_TRAFFIC_001'')
      else if rid = ''DEVICE_UNREACHABLE_001'' then device_unreachable kb
      else if rid = ''IFACE_ERRORS_001'' then interface_errors kb
      else if rid = ''DEVICE_LOAD_001'' then device_load kb
      else traffic_spike kb)"

definition shipped_rules :: "endpoint_kb \<Rightarrow> json dict \<Rightarrow> corr_rule dict" where
  "shipped_rules kb settings = corr_rules (rule_checks kb settings)"

end
