(* ===== verification/Incidents.thy ===== *)
theory Incidents
  imports Obs_Store Suppression
begin

text \<open>
  \<open>observability/incidents.py\<close>: free evidence is assigned to the open incident of the same tenant
  and entity, or to a new one; incidents that stay quiet are closed; and the conclusion of an
  incident is deduced from its active evidence. The ARP and VLAN lookup of
  \<open>collectors/mac_history.py\<close> is an argument, false where it fails; so is the clock that dates the
  conclusions.
\<close>

definition gap_s :: int where "gap_s = 900"
definition quiet_s :: int where "quiet_s = 1800"
definition incident_lookback :: int where "incident_lookback = 3600"
definition confidence_step :: int where "confidence_step = 8"
definition confidence_max :: int where "confidence_max = 95"

section \<open>Grouping\<close>

text \<open>\<open>ORDER BY ts ASC, id ASC\<close>.\<close>

definition by_time :: "evidence list \<Rightarrow> evidence list" where
  "by_time evs = sort_key ev_ts (sort_key ev_id evs)"

definition unassigned :: "int \<Rightarrow> evidence list \<Rightarrow> evidence list" where
  "unassigned since evs =
     by_time (filter (\<lambda>e. ev_incident e = None \<and> ev_status e = Active \<and> ev_created e \<ge> since) evs)"

definition entity_label :: "string \<Rightarrow> string" where
  "entity_label k = (case split_once (CHR '':'') k of (_, Some rest) \<Rightarrow> rest | (_, None) \<Rightarrow> k)"

text \<open>The open incident the evidence belongs to: the oldest one that matches.\<close>

definition matching_incident :: "string \<Rightarrow> string \<Rightarrow> int \<Rightarrow> incident list \<Rightarrow> incident option" where
  "matching_incident tenant entity ts ins =
     (case sort_key in_opened (sort_key in_id (filter (\<lambda>i. in_tenant i = tenant \<and> in_closed i = None
             \<and> in_entity i = entity \<and> in_last i \<ge> ts - gap_s) ins)) of
        [] \<Rightarrow> None | i # _ \<Rightarrow> Some i)"

definition new_incident :: "string \<Rightarrow> string \<Rightarrow> int \<Rightarrow> int \<Rightarrow> int \<Rightarrow> incident" where
  "new_incident tenant entity ts severity i =
     \<lparr>in_id = i, in_tenant = tenant, in_entity = entity, in_opened = ts, in_last = ts, in_closed = None,
      in_title = entity_label entity, in_severity = Some severity, in_count = 0, in_status = ''new'',
      in_cause = None, in_confidence = None, in_reasoning = None\<rparr>"

definition absorb :: "int \<Rightarrow> int \<Rightarrow> incident \<Rightarrow> incident" where
  "absorb ts severity i =
     i\<lparr>in_last := max (in_last i) ts, in_opened := min (in_opened i) ts, in_count := in_count i + 1,
       in_severity := Some (min (case in_severity i of None \<Rightarrow> severity | Some s \<Rightarrow> s) severity)\<rparr>"

definition evidence_severity :: "evidence \<Rightarrow> int" where
  "evidence_severity e = (case ev_severity e of None \<Rightarrow> 4 | Some s \<Rightarrow> s)"

text \<open>One row of the loop: the database, the incidents touched, the number linked.\<close>

definition group_row :: "evidence \<Rightarrow> obs_db \<times> int list \<times> nat \<Rightarrow> obs_db \<times> int list \<times> nat" where
  "group_row e st =
     (case st of (db, touched, linked) \<Rightarrow>
        (case ev_entity e of
           None \<Rightarrow> st
         | Some entity \<Rightarrow>
             if entity = [] then st
             else
               let ts = ev_ts e; severity = evidence_severity e;
                   (ins, iid) = (case matching_incident (ev_tenant e) entity ts (db_incidents db) of
                       None \<Rightarrow> (let n = next_id (map in_id (db_incidents db)) in
                                (db_incidents db @ [new_incident (ev_tenant e) entity ts severity n], n))
                     | Some i \<Rightarrow> (db_incidents db, in_id i))
               in (db\<lparr>db_evidence := update_where (\<lambda>x. ev_id x = ev_id e) (\<lambda>x. x\<lparr>ev_incident := Some iid\<rparr>)
                        (db_evidence db),
                     db_incidents := update_where (\<lambda>i. in_id i = iid) (absorb ts severity) ins\<rparr>,
                   touched @ [iid], linked + 1)))"

definition recently_retracted :: "int \<Rightarrow> evidence list \<Rightarrow> int list" where
  "recently_retracted since evs =
     concat (map (\<lambda>e. case (ev_incident e, ev_retracted_at e) of
         (Some i, Some when) \<Rightarrow> if ev_status e = Retracted \<and> when \<ge> since then [i] else []
       | _ \<Rightarrow> []) evs)"

section \<open>Reasoning\<close>

definition find_incident :: "int \<Rightarrow> incident list \<Rightarrow> incident option" where
  "find_incident iid ins = find (\<lambda>i. in_id i = iid) ins"

definition active_of :: "int \<Rightarrow> evidence list \<Rightarrow> evidence list" where
  "active_of iid evs = by_time (filter (\<lambda>e. ev_incident e = Some iid \<and> ev_status e = Active) evs)"

definition retracted_of :: "int \<Rightarrow> evidence list \<Rightarrow> nat" where
  "retracted_of iid evs = length (filter (\<lambda>e. ev_incident e = Some iid \<and> ev_status e = Retracted) evs)"

definition evidence_ips :: "evidence list \<Rightarrow> string list" where
  "evidence_ips evs = sorted_texts (filter (\<lambda>ip. ip \<noteq> [])
     (concat (map (\<lambda>e. [or_text (ev_src e) [], or_text (ev_dst e) []]) evs)))"

definition device_state_seen :: "event list \<Rightarrow> incident \<Rightarrow> string list \<Rightarrow> bool" where
  "device_state_seen events i ips \<longleftrightarrow>
     list_ex (\<lambda>e. e_tenant e = in_tenant i \<and> e_type e \<in> {''device.state'', ''interface.state''}
       \<and> e_device_ip e \<in> Some ` set ips
       \<and> in_opened i - 300 \<le> e_ts e \<and> e_ts e \<le> in_last i + 300) events"

definition corroborating_sources ::
  "(string list \<Rightarrow> string \<Rightarrow> bool) \<Rightarrow> event list \<Rightarrow> incident \<Rightarrow> evidence list \<Rightarrow> string list" where
  "corroborating_sources vlans events i evs =
     (let ips = evidence_ips evs; rs = map ev_role evs in
      (if ''supporting'' \<in> set rs then [''evidenza_di_supporto''] else [])
      @ (if ''symptom'' \<in> set rs then [''sintomo_osservato''] else [])
      @ (if ''consequence'' \<in> set rs then [''conseguenza_osservata''] else [])
      @ (if length (remdups (map ev_rule evs)) > 1 then [''piu_regole_concordi''] else [])
      @ (if list_ex (\<lambda>e. or_text (ev_port e) [] \<noteq> []) evs then [''posizione_fisica''] else [])
      @ (if ips = [] then []
         else (if device_state_seen events i ips then [''stato_apparato''] else [])
           @ (if vlans ips (in_tenant i) then [''binding_arp_vlan''] else [])))"

text \<open>The most severe trigger, the oldest one on a tie.\<close>

definition primary_trigger :: "evidence list \<Rightarrow> evidence option" where
  "primary_trigger evs =
     (case sort_key (\<lambda>e. case ev_severity e of None \<Rightarrow> 9 | Some s \<Rightarrow> s)
             (sort_key ev_ts (sort_key ev_id (filter (\<lambda>e. ev_role e = ''trigger'') evs))) of
        [] \<Rightarrow> None | t # _ \<Rightarrow> Some t)"

definition group_by_role :: "evidence list \<Rightarrow> (string \<times> int list) list" where
  "group_by_role evs =
     fold (\<lambda>e d. dict_set (ev_role e) ((case dict_get d (ev_role e) of None \<Rightarrow> [] | Some ids \<Rightarrow> ids) @ [ev_id e]) d)
       evs []"

text \<open>A conclusion is archived and replaced only when it changed.\<close>

definition current_conclusion :: "int \<Rightarrow> conclusion list \<Rightarrow> conclusion option" where
  "current_conclusion iid cs =
     (case sort_key (\<lambda>c. - co_ts c) (sort_key (\<lambda>c. - co_id c)
             (filter (\<lambda>c. co_incident c = iid \<and> co_superseded c = None) cs)) of
        [] \<Rightarrow> None | c # _ \<Rightarrow> Some c)"

definition new_conclusion :: "int \<Rightarrow> int \<Rightarrow> string \<Rightarrow> int \<Rightarrow> reasoning \<Rightarrow> conclusion list \<Rightarrow> conclusion" where
  "new_conclusion clock iid cause confidence rs cs =
     \<lparr>co_id = next_id (map co_id cs), co_incident = iid, co_ts = clock, co_cause = cause,
      co_confidence = confidence, co_reasoning = rs, co_superseded = None\<rparr>"

definition record_conclusion ::
  "int \<Rightarrow> int \<Rightarrow> string \<Rightarrow> int \<Rightarrow> reasoning \<Rightarrow> conclusion list \<Rightarrow> conclusion list" where
  "record_conclusion clock iid cause confidence rs cs =
     (case current_conclusion iid cs of
        None \<Rightarrow> cs @ [new_conclusion clock iid cause confidence rs cs]
      | Some c \<Rightarrow>
          if co_reasoning c = rs then cs
          else
            let cs' = update_where (\<lambda>x. co_id x = co_id c) (\<lambda>x. x\<lparr>co_superseded := Some clock\<rparr>) cs
            in cs' @ [new_conclusion clock iid cause confidence rs cs'])"

definition total_retraction :: string where "total_retraction = ''tutte_le_evidenze_ritrattate''"

definition summary_of :: "evidence \<Rightarrow> string" where "summary_of e = or_text (ev_summary e) []"

definition reason_incident ::
  "corr_rule dict \<Rightarrow> (string list \<Rightarrow> string \<Rightarrow> bool) \<Rightarrow> int \<Rightarrow> int \<Rightarrow> obs_db \<Rightarrow> obs_db" where
  "reason_incident reg vlans clock iid db =
     (case find_incident iid (db_incidents db) of
        None \<Rightarrow> db
      | Some i \<Rightarrow>
          let evs = active_of iid (db_evidence db); retracted = retracted_of iid (db_evidence db) in
          if evs = [] then
            (if retracted = 0 then db
             else db\<lparr>db_conclusions :=
               record_conclusion clock iid total_retraction 0 (All_Retracted retracted) (db_conclusions db)\<rparr>)
          else
            let trig = primary_trigger evs;
                cause = (case trig of None \<Rightarrow> ''causa_non_determinata'' | Some t \<Rightarrow> ev_rule t);
                base = (case trig of None \<Rightarrow> 25 | Some t \<Rightarrow> base_confidence reg (ev_rule t));
                sources = corroborating_sources vlans (db_events db) i evs;
                confidence = min (base + confidence_step * int (length sources)) confidence_max;
                p = Path \<lparr>pa_cause = cause,
                      pa_version = (case trig of None \<Rightarrow> ''-'' | Some t \<Rightarrow> ev_version t),
                      pa_params = (case trig of None \<Rightarrow> [] | Some t \<Rightarrow> ev_params t), pa_base = base,
                      pa_step = confidence_step, pa_rules = sorted_texts (map ev_rule evs),
                      pa_sources = sources, pa_by_role = group_by_role evs, pa_refs = map ev_id evs,
                      pa_retracted = retracted\<rparr>;
                summary = summary_of (case trig of None \<Rightarrow> hd evs | Some t \<Rightarrow> t);
                title = take 160 (if summary = [] then entity_label (in_entity i) else summary)
            in db\<lparr>db_incidents := update_where (\<lambda>x. in_id x = iid)
                   (\<lambda>x. x\<lparr>in_cause := Some cause, in_confidence := Some confidence,
                     in_reasoning := Some p, in_title := title\<rparr>) (db_incidents db),
                 db_conclusions := record_conclusion clock iid cause confidence p (db_conclusions db)\<rparr>)"

section \<open>The two periodic operations\<close>

definition group_once ::
  "corr_rule dict \<Rightarrow> (string list \<Rightarrow> string \<Rightarrow> bool) \<Rightarrow> int option \<Rightarrow> int \<Rightarrow> obs_db \<Rightarrow> obs_db \<times> nat" where
  "group_once reg vlans given clock db =
     (let now = or_clock given clock; since = now - incident_lookback;
          (db', touched, linked) = fold group_row (unassigned since (db_evidence db)) (db, [], 0);
          all = touched @ recently_retracted since (db_evidence db')
      in (fold (reason_incident reg vlans clock) (sort (remdups all)) db', linked))"

definition close_stale :: "int option \<Rightarrow> int \<Rightarrow> obs_db \<Rightarrow> obs_db \<times> nat" where
  "close_stale given clock db =
     (let now = or_clock given clock;
          stale = (\<lambda>i. in_closed i = None \<and> in_last i < now - quiet_s)
      in (db\<lparr>db_incidents := update_where stale (\<lambda>i. i\<lparr>in_closed := Some now\<rparr>) (db_incidents db)\<rparr>,
          length (filter stale (db_incidents db))))"

end
