(* ===== verification/Correlator.thy ===== *)
theory Correlator
  imports Obs_Store Suppression
begin

text \<open>
  \<open>observability/correlator.py\<close>: one correlation cycle. Findings are inserted under a key that makes
  a repeated conclusion a duplicate, after the confirmation, output and suppression filters; then
  the retractions run over the evidence that stands. The digest of the key
  (\<open>hashlib.sha256\<close>), the physical position of a client (\<open>collectors/mac_history.py\<close>) and the
  normalization of the sources (\<open>observability/normalize.py\<close>) are arguments.
\<close>

definition corr_lookback :: int where "corr_lookback = 900"
definition max_events_per_cycle :: nat where "max_events_per_cycle = 2000"

section \<open>Inserting evidence\<close>

definition dedup_text :: "string \<Rightarrow> string \<Rightarrow> conclusion_finding \<Rightarrow> string" where
  "dedup_text rid version f =
     str_join ''|'' [rid, version, str_int (f_event f), f_role f, f_entity f, or_text (f_key f) []]"

definition finding_port ::
  "(string \<Rightarrow> string \<Rightarrow> string option) \<Rightarrow> conclusion_finding \<Rightarrow> string option" where
  "finding_port port_of f =
     (if f_port f = None \<and> f_role f = ''trigger'' \<and> or_text (f_src f) [] \<noteq> []
      then port_of (or_text (f_src f) []) (f_tenant f) else f_port f)"

definition evidence_row ::
  "(string \<Rightarrow> string) \<Rightarrow> (string \<Rightarrow> string \<Rightarrow> string option) \<Rightarrow> int \<Rightarrow> string \<Rightarrow> string \<Rightarrow> params
     \<Rightarrow> conclusion_finding \<Rightarrow> int \<Rightarrow> evidence" where
  "evidence_row digest port_of now rid version ps f i =
     \<lparr>ev_id = i, ev_created = now, ev_ts = f_ts f, ev_tenant = f_tenant f, ev_incident = None,
      ev_event = Some (f_event f), ev_entity = Some (f_entity f), ev_role = f_role f, ev_rule = rid,
      ev_version = version, ev_params = ps, ev_severity = f_severity f, ev_src = f_src f,
      ev_dst = f_dst f, ev_port = finding_port port_of f, ev_summary = Some (f_summary f),
      ev_attrs = f_attrs f, ev_dedup = Some (digest (dedup_text rid version f)), ev_status = Active,
      ev_by_evidence = None, ev_by_rule = None, ev_retracted_at = None, ev_reason = None\<rparr>"

text \<open>
  \<open>INSERT OR IGNORE\<close>: the row is skipped when its key is present, or its role fails the check of
  the table. The result is the table, the id of the row with the key, and the number of new rows.
\<close>

definition insert_finding ::
  "(string \<Rightarrow> string) \<Rightarrow> (string \<Rightarrow> string \<Rightarrow> string option) \<Rightarrow> int \<Rightarrow> string \<Rightarrow> string \<Rightarrow> params
     \<Rightarrow> conclusion_finding \<Rightarrow> evidence list \<Rightarrow> evidence list \<times> int option \<times> nat" where
  "insert_finding digest port_of now rid version ps f evs =
     (let k = digest (dedup_text rid version f); i = next_id (map ev_id evs) in
      if f_role f \<in> set roles \<and> \<not> list_ex (\<lambda>e. ev_dedup e = Some k) evs
      then (evs @ [evidence_row digest port_of now rid version ps f i], Some i, 1)
      else (evs, map_option ev_id (find (\<lambda>e. ev_dedup e = Some k) evs), 0))"

section \<open>Retractions\<close>

definition retraction_target :: "retraction \<Rightarrow> evidence \<Rightarrow> bool" where
  "retraction_target r e \<longleftrightarrow>
     ev_tenant e = rt_tenant r \<and> ev_entity e = Some (rt_entity r) \<and> ev_rule e = rt_target r
     \<and> ev_status e = Active \<and> ev_ts e \<ge> f_ts (rt_witness r) - rt_window r"

definition mark_retracted :: "int option \<Rightarrow> string \<Rightarrow> int \<Rightarrow> string \<Rightarrow> evidence \<Rightarrow> evidence" where
  "mark_retracted w rid now reason e =
     e\<lparr>ev_status := Retracted, ev_by_evidence := w, ev_by_rule := Some rid,
       ev_retracted_at := Some now, ev_reason := Some reason\<rparr>"

definition apply_retraction ::
  "(string \<Rightarrow> string) \<Rightarrow> (string \<Rightarrow> string \<Rightarrow> string option) \<Rightarrow> int \<Rightarrow> string \<Rightarrow> string \<Rightarrow> params
     \<Rightarrow> retraction \<Rightarrow> evidence list \<Rightarrow> evidence list \<times> nat" where
  "apply_retraction digest port_of now rid version ps r evs =
     (let targets = map ev_id (filter (retraction_target r) evs) in
      if targets = [] then (evs, 0)
      else
        let (evs', w, created) = insert_finding digest port_of now rid version ps (rt_witness r) evs in
        (update_where (\<lambda>e. ev_id e \<in> set targets) (mark_retracted w rid now (rt_reason r)) evs', created))"

section \<open>One cycle\<close>

text \<open>The events of the cycle: recent ones, and those normalized recently whatever their date.\<close>

definition cycle_events :: "int \<Rightarrow> event list \<Rightarrow> event list" where
  "cycle_events now events =
     take max_events_per_cycle
       (sort_key e_ts (filter (\<lambda>e. e_ts e \<ge> now - corr_lookback \<or> e_ingested e \<ge> now - corr_lookback) events))"

definition finding_group :: "string \<Rightarrow> conclusion_finding \<Rightarrow> string \<times> string \<times> string \<times> string" where
  "finding_group rid f = (rid, f_tenant f, f_entity f, or_text (f_key f) [])"

text \<open>The distinct events the rule saw for the group.\<close>

definition observed :: "produced \<Rightarrow> string \<times> string \<times> string \<times> string \<Rightarrow> int set" where
  "observed found g =
     set (concat (map (\<lambda>(rid, _, _, it).
       case it of Found f \<Rightarrow> (if finding_group rid f = g then [f_event f] else []) | Retracts r \<Rightarrow> []) found))"

definition confirmed :: "produced \<Rightarrow> string \<Rightarrow> params \<Rightarrow> conclusion_finding \<Rightarrow> bool" where
  "confirmed found rid ps f \<longleftrightarrow> \<not> int (card (observed found (finding_group rid f))) < needed_observations ps"

record cycle =
  cy_evidence :: "evidence list"
  cy_emitted :: nat
  cy_unconfirmed :: nat
  cy_suppressed :: nat

definition conclude ::
  "(string \<Rightarrow> string) \<Rightarrow> (string \<Rightarrow> string \<Rightarrow> string option) \<Rightarrow> suppressions \<Rightarrow> corr_rule dict \<Rightarrow> int
     \<Rightarrow> produced \<Rightarrow> string \<times> string \<times> params \<times> item \<Rightarrow> cycle \<Rightarrow> cycle" where
  "conclude digest port_of sups reg now found p c =
     (case p of (rid, version, ps, it) \<Rightarrow>
        (case it of
           Retracts r \<Rightarrow> c
         | Found f \<Rightarrow>
             if \<not> confirmed found rid ps f then c\<lparr>cy_unconfirmed := cy_unconfirmed c + 1\<rparr>
             else if \<not> declares_output reg rid (f_role f) then c
             else if sup_active sups (f_tenant f) (Some (f_entity f)) (f_interface f) (f_ts f) \<noteq> None
             then c\<lparr>cy_suppressed := cy_suppressed c + 1\<rparr>
             else (case insert_finding digest port_of now rid version ps f (cy_evidence c) of
                     (evs, _, n) \<Rightarrow> c\<lparr>cy_evidence := evs, cy_emitted := cy_emitted c + n\<rparr>)))"

definition retract ::
  "(string \<Rightarrow> string) \<Rightarrow> (string \<Rightarrow> string \<Rightarrow> string option) \<Rightarrow> corr_rule dict \<Rightarrow> int
     \<Rightarrow> string \<times> string \<times> params \<times> item \<Rightarrow> cycle \<Rightarrow> cycle" where
  "retract digest port_of reg now p c =
     (case p of (rid, version, ps, it) \<Rightarrow>
        (case it of
           Found f \<Rightarrow> c
         | Retracts r \<Rightarrow>
             if \<not> declares_output reg rid ''retraction'' then c
             else (case apply_retraction digest port_of now rid version ps r (cy_evidence c) of
                     (evs, n) \<Rightarrow> c\<lparr>cy_evidence := evs, cy_emitted := cy_emitted c + n\<rparr>)))"

definition run_cycle ::
  "(string \<Rightarrow> string) \<Rightarrow> (string \<Rightarrow> string \<Rightarrow> string option) \<Rightarrow> suppressions \<Rightarrow> corr_rule dict \<Rightarrow> int
     \<Rightarrow> produced \<Rightarrow> evidence list \<Rightarrow> cycle" where
  "run_cycle digest port_of sups reg now found evs =
     fold (retract digest port_of reg now) found
       (fold (conclude digest port_of sups reg now found) found
         \<lparr>cy_evidence = evs, cy_emitted = 0, cy_unconfirmed = 0, cy_suppressed = 0\<rparr>)"

text \<open>
  The projection of the sources commits on its own, so its effect stays when a malformed threshold
  section makes the evaluation raise.
\<close>

definition correlate_once ::
  "(int \<Rightarrow> obs_db \<Rightarrow> obs_db) \<Rightarrow> (string \<Rightarrow> string) \<Rightarrow> (string \<Rightarrow> string \<Rightarrow> string option)
     \<Rightarrow> json dict \<Rightarrow> suppressions \<Rightarrow> corr_rule dict \<Rightarrow> int option \<Rightarrow> int \<Rightarrow> obs_db \<Rightarrow> obs_db \<times> nat result" where
  "correlate_once project digest port_of settings sups reg given clock db0 =
     (let now = or_clock given clock; db = project now db0 in
      case evaluate_rules settings reg (cycle_events now (db_events db)) None of
        Inl x \<Rightarrow> (db, Inl x)
      | Inr found \<Rightarrow>
          (let c = run_cycle digest port_of sups reg now found (db_evidence db) in
           (db\<lparr>db_evidence := cy_evidence c\<rparr>, Inr (cy_emitted c))))"

end
