(* ===== verification/Correlator_Sound.thy ===== *)
theory Correlator_Sound
  imports Correlator
begin

text \<open>
  What one correlation cycle does to the evidence table: every new row is a conclusion that passed
  all three filters or the witness of a declared retraction, every changed row was the target of
  a declared retraction, every conclusion that passes the filters is recorded, and reading the
  same window again adds nothing.
\<close>

section \<open>Rows and keys\<close>

definition finding_key :: "(string \<Rightarrow> string) \<Rightarrow> string \<Rightarrow> string \<Rightarrow> conclusion_finding \<Rightarrow> string" where
  "finding_key digest rid version f = digest (dedup_text rid version f)"

definition has_key :: "string \<Rightarrow> evidence list \<Rightarrow> bool" where
  "has_key k evs \<longleftrightarrow> list_ex (\<lambda>e. ev_dedup e = Some k) evs"

lemma insert_finding_cases:
  obtains (new) "f_role f \<in> set roles" "\<not> has_key (finding_key digest rid v f) evs"
      "insert_finding digest port_of now rid v ps f evs =
         (evs @ [evidence_row digest port_of now rid v ps f (next_id (map ev_id evs))],
          Some (next_id (map ev_id evs)), 1)"
    | (old) w where "f_role f \<in> set roles \<longrightarrow> has_key (finding_key digest rid v f) evs"
      "insert_finding digest port_of now rid v ps f evs = (evs, w, 0)"
proof (cases "f_role f \<in> set roles \<and> \<not> has_key (finding_key digest rid v f) evs")
  case True
  then show ?thesis using new by (simp add: insert_finding_def has_key_def finding_key_def Let_def)
next
  case False
  then show ?thesis using old by (auto simp: insert_finding_def has_key_def finding_key_def Let_def)
qed

lemma evidence_row_simps [simp]:
  "ev_id (evidence_row digest port_of now rid v ps f i) = i"
  "ev_dedup (evidence_row digest port_of now rid v ps f i) = Some (finding_key digest rid v f)"
  "ev_status (evidence_row digest port_of now rid v ps f i) = Active"
  "ev_incident (evidence_row digest port_of now rid v ps f i) = None"
  by (simp_all add: evidence_row_def finding_key_def)

lemma mark_retracted_simps [simp]:
  "ev_id (mark_retracted w rid now reason e) = ev_id e"
  "ev_dedup (mark_retracted w rid now reason e) = ev_dedup e"
  "ev_status (mark_retracted w rid now reason e) = Retracted"
  "ev_incident (mark_retracted w rid now reason e) = ev_incident e"
  by (simp_all add: mark_retracted_def)

section \<open>The history of a row\<close>

text \<open>
  What a cycle may do to a row: nothing, or retract it, when it is active, by a declared retraction
  of its tenant, entity and rule that reaches back to its time.
\<close>

definition row_step :: "corr_rule dict \<Rightarrow> int \<Rightarrow> produced \<Rightarrow> evidence \<Rightarrow> evidence \<Rightarrow> bool" where
  "row_step reg now found e0 e \<longleftrightarrow> e = e0 \<or>
     (\<exists>rid v ps r w. (rid, v, ps, Retracts r) \<in> set found \<and> declares_output reg rid ''retraction''
        \<and> ev_tenant e0 = rt_tenant r \<and> ev_entity e0 = Some (rt_entity r) \<and> ev_rule e0 = rt_target r
        \<and> ev_status e0 = Active \<and> ev_ts e0 \<ge> f_ts (rt_witness r) - rt_window r
        \<and> e = mark_retracted w rid now (rt_reason r) e0)"

text \<open>The three filters of the first pass.\<close>

definition admitted :: "suppressions \<Rightarrow> corr_rule dict \<Rightarrow> produced \<Rightarrow> string \<Rightarrow> params \<Rightarrow> conclusion_finding \<Rightarrow> bool" where
  "admitted sups reg found rid ps f \<longleftrightarrow> confirmed found rid ps f \<and> declares_output reg rid (f_role f)
     \<and> sup_active sups (f_tenant f) (Some (f_entity f)) (f_interface f) (f_ts f) = None"

text \<open>Why a row may be new.\<close>

definition justified ::
  "(string \<Rightarrow> string) \<Rightarrow> (string \<Rightarrow> string \<Rightarrow> string option) \<Rightarrow> suppressions \<Rightarrow> corr_rule dict \<Rightarrow> int
     \<Rightarrow> produced \<Rightarrow> evidence \<Rightarrow> bool" where
  "justified digest port_of sups reg now found e \<longleftrightarrow>
     (\<exists>rid v ps f. (rid, v, ps, Found f) \<in> set found \<and> admitted sups reg found rid ps f
        \<and> e = evidence_row digest port_of now rid v ps f (ev_id e))
     \<or> (\<exists>rid v ps r. (rid, v, ps, Retracts r) \<in> set found \<and> declares_output reg rid ''retraction''
        \<and> e = evidence_row digest port_of now rid v ps (rt_witness r) (ev_id e))"

lemma row_step_refl [simp]: "row_step reg now found e e"
  by (simp add: row_step_def)

lemma row_step_id: "row_step reg now found e0 e \<Longrightarrow> ev_id e = ev_id e0"
  by (auto simp: row_step_def)

lemma row_step_dedup: "row_step reg now found e0 e \<Longrightarrow> ev_dedup e = ev_dedup e0"
  by (auto simp: row_step_def)

lemma row_step_mark:
  assumes "row_step reg now found e0 e" "(rid, v, ps, Retracts r) \<in> set found"
    "declares_output reg rid ''retraction''" "retraction_target r e"
  shows "row_step reg now found e0 (mark_retracted w rid now (rt_reason r) e)"
proof -
  have "e = e0" using assms(1,4) by (auto simp: row_step_def retraction_target_def)
  with assms(2-4) show ?thesis unfolding row_step_def retraction_target_def by blast
qed

text \<open>The state of a cycle that started from the rows \<open>evs\<close>.\<close>

definition cycle_inv ::
  "(string \<Rightarrow> string) \<Rightarrow> (string \<Rightarrow> string \<Rightarrow> string option) \<Rightarrow> suppressions \<Rightarrow> corr_rule dict \<Rightarrow> int
     \<Rightarrow> produced \<Rightarrow> evidence list \<Rightarrow> cycle \<Rightarrow> bool" where
  "cycle_inv digest port_of sups reg now found evs c \<longleftrightarrow>
     (\<exists>news. list_all2 (row_step reg now found) (evs @ news) (cy_evidence c)
        \<and> list_all (justified digest port_of sups reg now found) news
        \<and> cy_emitted c = length news) \<and> distinct (map ev_id (cy_evidence c))"

lemma cycle_inv_insert:
  assumes inv: "cycle_inv digest port_of sups reg now found evs c"
    and ins: "insert_finding digest port_of now rid v ps f (cy_evidence c) = (evs', w, n)"
    and just: "\<And>i. justified digest port_of sups reg now found (evidence_row digest port_of now rid v ps f i)"
  shows "cycle_inv digest port_of sups reg now found evs (c\<lparr>cy_evidence := evs', cy_emitted := cy_emitted c + n\<rparr>)"
proof (cases rule: insert_finding_cases [of f digest rid v "cy_evidence c" port_of now ps])
  case new
  from inv obtain news where "list_all2 (row_step reg now found) (evs @ news) (cy_evidence c)"
    "list_all (justified digest port_of sups reg now found) news" "cy_emitted c = length news"
    "distinct (map ev_id (cy_evidence c))" by (auto simp: cycle_inv_def)
  moreover let ?row = "evidence_row digest port_of now rid v ps f (next_id (map ev_id (cy_evidence c)))"
  have "evs' = cy_evidence c @ [?row]" "n = 1" using new(3) ins by simp_all
  ultimately show ?thesis
    unfolding cycle_inv_def using just next_id_notin [of "map ev_id (cy_evidence c)"]
    by (intro conjI exI [of _ "news @ [?row]"]) (auto simp: list_all2_appendI simp flip: append_assoc)
next
  case old
  then show ?thesis using inv ins by (simp add: cycle_inv_def)
qed

lemma retract_rows:
  assumes "list_all2 (row_step reg now found) xs ys" "distinct (map ev_id ys)"
    and "set ids \<subseteq> ev_id ` {e \<in> set ys. retraction_target r e}"
    and "(rid, v, ps, Retracts r) \<in> set found" "declares_output reg rid ''retraction''"
  shows "list_all2 (row_step reg now found) xs
    (update_where (\<lambda>e. ev_id e \<in> set ids) (mark_retracted w rid now (rt_reason r)) ys)"
proof -
  have "retraction_target r y" if y: "y \<in> set ys" "ev_id y \<in> set ids" for y
  proof -
    obtain z where z: "z \<in> set ys" "retraction_target r z" "ev_id z = ev_id y" using y(2) assms(3) by auto
    have "inj_on ev_id (set ys)" using assms(2) by (simp add: distinct_map)
    with z y(1) show ?thesis by (metis inj_onD)
  qed
  with assms(1,4,5) show ?thesis
    unfolding update_where_def list_all2_conv_all_nth
    by (auto intro!: row_step_mark)
qed

lemma cycle_inv_retract:
  assumes inv: "cycle_inv digest port_of sups reg now found evs c"
    and mem: "(rid, v, ps, Retracts r) \<in> set found" and dec: "declares_output reg rid ''retraction''"
    and app: "apply_retraction digest port_of now rid v ps r (cy_evidence c) = (evs', n)"
  shows "cycle_inv digest port_of sups reg now found evs (c\<lparr>cy_evidence := evs', cy_emitted := cy_emitted c + n\<rparr>)"
proof -
  let ?ids = "map ev_id (filter (retraction_target r) (cy_evidence c))"
  show ?thesis
  proof (cases "?ids = []")
    case True
    then show ?thesis using inv app by (simp add: apply_retraction_def cycle_inv_def)
  next
    case False
    obtain ys w where ins: "insert_finding digest port_of now rid v ps (rt_witness r) (cy_evidence c) = (ys, w, n)"
      and evs': "evs' = update_where (\<lambda>e. ev_id e \<in> set ?ids) (mark_retracted w rid now (rt_reason r)) ys"
      using app False by (auto simp: apply_retraction_def Let_def split: prod.splits)
    have "justified digest port_of sups reg now found (evidence_row digest port_of now rid v ps (rt_witness r) i)" for i
      unfolding justified_def evidence_row_simps using mem dec by blast
    from cycle_inv_insert [OF inv ins this]
    obtain news where n: "list_all2 (row_step reg now found) (evs @ news) ys" "distinct (map ev_id ys)"
      "list_all (justified digest port_of sups reg now found) news" "cy_emitted c + n = length news"
      by (auto simp: cycle_inv_def)
    have "set (cy_evidence c) \<subseteq> set ys"
      by (rule insert_finding_cases [of "rt_witness r" digest rid v "cy_evidence c" port_of now ps]) (use ins in auto)
    then have "set ?ids \<subseteq> ev_id ` {e \<in> set ys. retraction_target r e}" by auto
    from retract_rows [OF n(1,2) this mem dec, of w] n show ?thesis
      unfolding cycle_inv_def evs' by (auto simp: map_update_where)
  qed
qed

lemma cycle_inv_conclude:
  assumes "cycle_inv digest port_of sups reg now found evs c" "p \<in> set found"
  shows "cycle_inv digest port_of sups reg now found evs (conclude digest port_of sups reg now found p c)"
proof -
  obtain rid v ps it where p: "p = (rid, v, ps, it)" by (cases p) auto
  show ?thesis
  proof (cases "\<exists>f. it = Found f \<and> admitted sups reg found rid ps f")
    case True
    then obtain f where f: "it = Found f" "admitted sups reg found rid ps f" by blast
    have "justified digest port_of sups reg now found (evidence_row digest port_of now rid v ps f i)" for i
      using assms(2) f p by (auto simp: justified_def)
    with assms(1) f p show ?thesis
      by (cases "insert_finding digest port_of now rid v ps f (cy_evidence c)")
        (auto simp: conclude_def admitted_def intro!: cycle_inv_insert)
  next
    case False
    then show ?thesis
      using assms(1) p by (auto simp: conclude_def admitted_def cycle_inv_def split: item.split)
  qed
qed

lemma cycle_inv_retract_step:
  assumes "cycle_inv digest port_of sups reg now found evs c" "p \<in> set found"
  shows "cycle_inv digest port_of sups reg now found evs (retract digest port_of reg now p c)"
proof -
  obtain rid v ps it where p: "p = (rid, v, ps, it)" by (cases p) auto
  show ?thesis
  proof (cases it)
    case (Retracts r)
    with assms p show ?thesis
      by (cases "apply_retraction digest port_of now rid v ps r (cy_evidence c)")
        (auto simp: retract_def intro!: cycle_inv_retract)
  qed (use assms p in \<open>simp add: retract_def\<close>)
qed

lemma fold_keeps: "P c \<Longrightarrow> (\<And>p c. p \<in> set ps \<Longrightarrow> P c \<Longrightarrow> P (f p c)) \<Longrightarrow> P (fold f ps c)"
  by (induction ps arbitrary: c) auto

lemma run_cycle_inv:
  assumes "distinct (map ev_id evs)"
  shows "cycle_inv digest port_of sups reg now found evs (run_cycle digest port_of sups reg now found evs)"
  unfolding run_cycle_def
proof (rule fold_keeps, rule fold_keeps)
  show "cycle_inv digest port_of sups reg now found evs
    \<lparr>cy_evidence = evs, cy_emitted = 0, cy_unconfirmed = 0, cy_suppressed = 0\<rparr>"
    unfolding cycle_inv_def using assms by (intro conjI exI [of _ "[]"]) (simp_all add: list_all2_refl)
qed (simp_all add: cycle_inv_conclude cycle_inv_retract_step)

section \<open>Keys only accumulate\<close>

lemma has_key_append [simp]: "has_key k (xs @ ys) \<longleftrightarrow> has_key k xs \<or> has_key k ys"
  by (simp add: has_key_def)

lemma has_key_map: "has_key k evs \<longleftrightarrow> Some k \<in> set (map ev_dedup evs)"
  by (simp add: has_key_def list_ex_iff image_iff eq_commute)

lemma insert_finding_has_key:
  "insert_finding digest port_of now rid v ps f evs = (evs', w, n) \<Longrightarrow>
     (has_key k evs \<longrightarrow> has_key k evs') \<and> (f_role f \<in> set roles \<longrightarrow> has_key (finding_key digest rid v f) evs')"
  by (rule insert_finding_cases [of f digest rid v evs port_of now ps]) (auto simp: has_key_def)

lemma has_key_marked:
  "has_key k (update_where P (mark_retracted w rid now reason) evs) \<longleftrightarrow> has_key k evs"
  unfolding has_key_map by (simp add: map_update_where)

lemma has_key_conclude:
  "has_key k (cy_evidence c) \<Longrightarrow> has_key k (cy_evidence (conclude digest port_of sups reg now found p c))"
  using insert_finding_has_key
  by (auto simp: conclude_def split: prod.splits item.splits)

lemma has_key_retract:
  "has_key k (cy_evidence c) \<Longrightarrow> has_key k (cy_evidence (retract digest port_of reg now p c))"
  using insert_finding_has_key has_key_marked
  by (auto simp: retract_def apply_retraction_def Let_def split: prod.splits item.splits if_splits)

lemma has_key_run: "has_key k (cy_evidence c) \<Longrightarrow>
   has_key k (cy_evidence (fold (retract digest port_of reg now) ps2 (fold (conclude digest port_of sups reg now found) ps1 c)))"
  by (rule fold_keeps [where P = "\<lambda>c. has_key k (cy_evidence c)"], rule fold_keeps)
    (simp_all add: has_key_conclude has_key_retract)

lemma conclude_records:
  assumes "admitted sups reg found rid ps f" "f_role f \<in> set roles"
  shows "has_key (finding_key digest rid v f)
    (cy_evidence (conclude digest port_of sups reg now found (rid, v, ps, Found f) c))"
proof -
  obtain evs w n where ins: "insert_finding digest port_of now rid v ps f (cy_evidence c) = (evs, w, n)"
    by (cases "insert_finding digest port_of now rid v ps f (cy_evidence c)") auto
  with insert_finding_has_key [OF ins] assms show ?thesis
    by (simp add: conclude_def admitted_def)
qed

lemma run_cycle_records:
  assumes "(rid, v, ps, Found f) \<in> set found" "admitted sups reg found rid ps f" "f_role f \<in> set roles"
  shows "has_key (finding_key digest rid v f) (cy_evidence (run_cycle digest port_of sups reg now found evs))"
proof -
  obtain xs ys where eq: "found = xs @ (rid, v, ps, Found f) # ys"
    using split_list [OF assms(1)] by blast
  have split: "fold F found c0 = fold F ys (F (rid, v, ps, Found f) (fold F xs c0))" for F and c0 :: cycle
    by (subst eq) simp
  show ?thesis
    unfolding run_cycle_def split [of "conclude digest port_of sups reg now found"]
    by (intro has_key_run conclude_records assms)
qed

section \<open>Reading the window again\<close>

lemma conclude_again:
  assumes "p \<in> set found"
    and "\<And>rid v ps f. (rid, v, ps, Found f) \<in> set found \<Longrightarrow> admitted sups reg found rid ps f
      \<Longrightarrow> f_role f \<in> set roles \<Longrightarrow> has_key (finding_key digest rid v f) (cy_evidence c)"
  shows "cy_evidence (conclude digest port_of sups reg now found p c) = cy_evidence c
    \<and> cy_emitted (conclude digest port_of sups reg now found p c) = cy_emitted c"
proof -
  obtain rid v ps it where p: "p = (rid, v, ps, it)" by (cases p) auto
  show ?thesis
  proof (cases "\<exists>f. it = Found f \<and> admitted sups reg found rid ps f")
    case True
    then obtain f where f: "it = Found f" "admitted sups reg found rid ps f" by blast
    have "f_role f \<in> set roles \<longrightarrow> has_key (finding_key digest rid v f) (cy_evidence c)"
      using assms p f by blast
    then obtain w where "insert_finding digest port_of now rid v ps f (cy_evidence c) = (cy_evidence c, w, 0)"
      by (cases rule: insert_finding_cases [of f digest rid v "cy_evidence c" port_of now ps]) auto
    then show ?thesis using p f by (simp add: conclude_def admitted_def)
  next
    case False
    then show ?thesis using p by (auto simp: conclude_def admitted_def split: item.split)
  qed
qed

lemma run_cycle_again:
  assumes "\<And>rid v ps r. (rid, v, ps, Retracts r) \<notin> set found"
    and "evs = cy_evidence (run_cycle digest port_of sups reg now found evs0)"
  shows "cy_evidence (run_cycle digest port_of sups reg now' found evs) = evs
    \<and> cy_emitted (run_cycle digest port_of sups reg now' found evs) = 0"
proof -
  have keys: "(rid, v, ps, Found f) \<in> set found \<Longrightarrow> admitted sups reg found rid ps f \<Longrightarrow> f_role f \<in> set roles
      \<Longrightarrow> has_key (finding_key digest rid v f) evs" for rid v ps f
    unfolding assms(2) by (rule run_cycle_records)
  have again: "cy_evidence c = evs \<and> cy_emitted c = 0 \<Longrightarrow> p \<in> set found \<Longrightarrow>
      cy_evidence (conclude digest port_of sups reg now' found p c) = evs
      \<and> cy_emitted (conclude digest port_of sups reg now' found p c) = 0" for c :: cycle and p
    using conclude_again [of p found sups reg digest c port_of now'] keys by metis
  have skip: "p \<in> set found \<Longrightarrow> retract digest port_of reg now' p c = c" for p c
    using assms(1) by (auto simp: retract_def split: prod.splits item.splits)
  show ?thesis
    unfolding run_cycle_def
  proof (rule fold_keeps [where P = "\<lambda>c. cy_evidence c = evs \<and> cy_emitted c = 0"], rule fold_keeps)
    fix p and c :: cycle
    assume "p \<in> set found" "cy_evidence c = evs \<and> cy_emitted c = 0"
    then show "cy_evidence (conclude digest port_of sups reg now' found p c) = evs
      \<and> cy_emitted (conclude digest port_of sups reg now' found p c) = 0"
      by (rule again [rotated])
  qed (simp_all add: skip)
qed

section \<open>Properties\<close>

text \<open>
  C8: a cycle explains every row it leaves. The evidence table it returns is, row for row, the old
  table followed by the new rows, where a new row is a finding that its rule saw often enough, that
  the rule declares, and that no suppression covers at the time of its event, or the witness of a
  declared retraction; and a row differs from what it was only by having been retracted, by a
  declared retraction of the same tenant, entity and rule. The number returned counts the new rows.
\<close>

theorem cycle_explains_rows:
  assumes "distinct (map ev_id evs)"
  shows "\<exists>news. list_all2 (row_step reg now found) (evs @ news)
      (cy_evidence (run_cycle digest port_of sups reg now found evs))
    \<and> list_all (justified digest port_of sups reg now found) news
    \<and> cy_emitted (run_cycle digest port_of sups reg now found evs) = length news
    \<and> distinct (map ev_id (cy_evidence (run_cycle digest port_of sups reg now found evs)))"
  using run_cycle_inv [OF assms] by (auto simp: cycle_inv_def)

definition link_down :: conclusion_finding where
  "link_down = \<lparr>f_event = 7, f_ts = 1000, f_tenant = ''acme'', f_role = ''symptom'', f_entity = ''ip:10.0.0.1'',
     f_severity = Some 4, f_src = None, f_dst = None, f_port = None, f_summary = ''down'', f_attrs = [],
     f_key = None, f_interface = Some ''Gi0/1''\<rparr>"

definition sample_found :: produced where
  "sample_found = [(''IFACE_DOWN_001'', ''1.0.0'', [(''min_observations'', JInt 1)], Found link_down)]"

abbreviation no_checks :: "corr_rule dict" where "no_checks \<equiv> corr_rules (\<lambda>_ _ _. Inr [])"

lemma link_down_admitted:
  "(''IFACE_DOWN_001'', ''1.0.0'', [(''min_observations'', JInt 1)], Found link_down) \<in> set sample_found"
  "admitted [] no_checks sample_found ''IFACE_DOWN_001'' [(''min_observations'', JInt 1)] link_down"
  "f_role link_down \<in> set roles"
  by (simp_all add: sample_found_def admitted_def confirmed_def observed_def needed_observations_def
      confirmation_param_def json_int_def trunc_def declares_output_def corr_rules_def link_down_def
      sup_active_def List.map_filter_def roles_def)

theorem cycle_explains_rows_witness:
  "\<exists>news. list_all2 (row_step no_checks 2000 sample_found) news
      (cy_evidence (run_cycle id (\<lambda>_ _. None) [] no_checks 2000 sample_found []))
    \<and> list_all (justified id (\<lambda>_ _. None) [] no_checks 2000 sample_found) news"
  using cycle_explains_rows [of "[]"] by (metis append_Nil distinct.simps(1) list.map(1))

text \<open>
  C9: nothing is lost: a finding whose role is one of the four, that was seen often enough, is
  declared by its rule and is not suppressed, has evidence under its key after the cycle, whatever
  else the cycle found.
\<close>

theorem admitted_finding_recorded:
  assumes "(rid, v, ps, Found f) \<in> set found" and "admitted sups reg found rid ps f"
    and "f_role f \<in> set roles"
  shows "\<exists>e \<in> set (cy_evidence (run_cycle digest port_of sups reg now found evs)).
    ev_dedup e = Some (digest (dedup_text rid v f))"
  using run_cycle_records [OF assms] by (simp add: has_key_def list_ex_iff finding_key_def)

theorem admitted_finding_recorded_witness:
  "\<exists>e. e \<in> set (cy_evidence (run_cycle id (\<lambda>_ _. None) [] no_checks 2000 sample_found []))
    \<and> ev_dedup e = Some (dedup_text ''IFACE_DOWN_001'' ''1.0.0'' link_down)"
  using admitted_finding_recorded [OF link_down_admitted, of id "\<lambda>_ _. None" 2000 "[]"] by auto

text \<open>
  The window is read again at every cycle, and reading it again concludes nothing new: after a
  cycle whose items are findings, a later cycle over the same items leaves the table as it is and
  emits nothing.
\<close>

theorem cycle_repeat_adds_nothing:
  assumes "\<And>rid v ps r. (rid, v, ps, Retracts r) \<notin> set found"
  shows "let evs' = cy_evidence (run_cycle digest port_of sups reg now found evs)
    in cy_evidence (run_cycle digest port_of sups reg later found evs') = evs'
       \<and> cy_emitted (run_cycle digest port_of sups reg later found evs') = 0"
  using run_cycle_again [OF assms refl] by (simp add: Let_def)

theorem cycle_repeat_adds_nothing_witness:
  "let evs = cy_evidence (run_cycle id (\<lambda>_ _. None) [] no_checks 2000 sample_found [])
   in evs \<noteq> [] \<and> cy_emitted (run_cycle id (\<lambda>_ _. None) [] no_checks 2300 sample_found evs) = 0"
  using cycle_repeat_adds_nothing [of sample_found id "\<lambda>_ _. None" "[]" no_checks 2000 "[]" 2300]
    run_cycle_records [OF link_down_admitted, of id "\<lambda>_ _. None" 2000 "[]"]
  by (auto simp: sample_found_def has_key_def Let_def)

end
