(* ===== verification/Obs_Pipeline.thy ===== *)
theory Obs_Pipeline
  imports Incidents_Sound
begin

text \<open>
  The periodic task of \<open>observability/correlator.py\<close> and the states it reaches: a step is one
  correlation cycle, one grouping or one closing of quiet incidents, under any settings and at any
  time. The properties of the incident engine are stated here.
\<close>

section \<open>Steps and reachable states\<close>

text \<open>What the engines take from the rest of the platform.\<close>

record platform =
  pl_project :: "int \<Rightarrow> obs_db \<Rightarrow> obs_db"
  pl_digest :: "string \<Rightarrow> string"
  pl_port :: "string \<Rightarrow> string \<Rightarrow> string option"
  pl_vlans :: "string list \<Rightarrow> string \<Rightarrow> bool"

text \<open>The projection of the sources writes events only.\<close>

definition projects_events :: "platform \<Rightarrow> bool" where
  "projects_events pl \<longleftrightarrow> (\<forall>now db. db_evidence (pl_project pl now db) = db_evidence db
     \<and> db_incidents (pl_project pl now db) = db_incidents db
     \<and> db_conclusions (pl_project pl now db) = db_conclusions db)"

inductive obs_step :: "platform \<Rightarrow> corr_rule dict \<Rightarrow> obs_db \<Rightarrow> obs_db \<Rightarrow> bool" for pl reg where
  correlate: "obs_step pl reg db (fst (correlate_once (pl_project pl) (pl_digest pl) (pl_port pl)
      settings sups reg given clock db))"
| group: "obs_step pl reg db (fst (group_once reg (pl_vlans pl) given clock db))"
| close: "obs_step pl reg db (fst (close_stale given clock db))"

inductive reachable :: "platform \<Rightarrow> corr_rule dict \<Rightarrow> obs_db \<Rightarrow> bool" for pl reg where
  start: "reachable pl reg db_empty"
| step: "reachable pl reg db \<Longrightarrow> obs_step pl reg db db' \<Longrightarrow> reachable pl reg db'"

text \<open>
  One turn of \<open>correlation_loop\<close>; each of its three calls reads the clock. An exception of the
  first one skips the other two.
\<close>

definition loop_turn ::
  "platform \<Rightarrow> corr_rule dict \<Rightarrow> json dict \<Rightarrow> suppressions \<Rightarrow> int \<Rightarrow> int \<Rightarrow> int \<Rightarrow> obs_db \<Rightarrow> obs_db" where
  "loop_turn pl reg settings sups t1 t2 t3 db =
     (case correlate_once (pl_project pl) (pl_digest pl) (pl_port pl) settings sups reg None t1 db of
        (db1, Inl x) \<Rightarrow> db1
      | (db1, Inr n) \<Rightarrow> fst (close_stale None t3 (fst (group_once reg (pl_vlans pl) None t2 db1))))"

lemma loop_turn_reachable:
  assumes "reachable pl reg db" shows "reachable pl reg (loop_turn pl reg settings sups t1 t2 t3 db)"
proof -
  obtain db1 r where c: "correlate_once (pl_project pl) (pl_digest pl) (pl_port pl) settings sups reg None t1 db = (db1, r)"
    by (cases "correlate_once (pl_project pl) (pl_digest pl) (pl_port pl) settings sups reg None t1 db") auto
  have "reachable pl reg db1"
    using reachable.step [OF assms obs_step.correlate [of pl reg db settings sups None t1]] c by simp
  then have "reachable pl reg (fst (close_stale None t3 (fst (group_once reg (pl_vlans pl) None t2 db1))))"
    by (intro reachable.step [OF reachable.step [OF _ obs_step.group] obs_step.close])
  with \<open>reachable pl reg db1\<close> c show ?thesis by (simp add: loop_turn_def split: sum.split)
qed

lemma correlate_once_ok:
  assumes "obs_ok db" "projects_events pl"
  shows "obs_ok (fst (correlate_once (pl_project pl) (pl_digest pl) (pl_port pl) settings sups reg given clock db))"
  using assms by (auto simp: correlate_once_def Let_def obs_ok_def projects_events_def run_cycle_links split: sum.split)

lemma reachable_ok:
  assumes "reachable pl reg db" "projects_events pl" "bases_ok reg"
  shows "obs_ok db"
  using assms(1)
proof (induction rule: reachable.induct)
  case start
  show ?case
    by (simp add: obs_ok_def db_empty_def links_ok_def confidence_ok_def conclusions_ok_def open_conclusions_def)
next
  case (step db db')
  from step.hyps(2) show ?case
  proof cases
    case (correlate settings sups given clock)
    then show ?thesis using correlate_once_ok [OF step.IH assms(2)] by simp
  next
    case (group given clock)
    then show ?thesis using group_once_ok [OF step.IH assms(3)] by simp
  next
    case (close given clock)
    then show ?thesis using close_stale_ok [OF step.IH] by simp
  qed
qed

lemma corr_rules_bases: "bases_ok (corr_rules checks)"
proof -
  have "list_all (\<lambda>(rid, r). case cr_base r of None \<Rightarrow> True | Some b \<Rightarrow> 0 \<le> b) (corr_rules checks)"
    by (simp add: corr_rules_def)
  then show ?thesis
    unfolding bases_ok_def base_confidence_def list_all_iff
    by (auto split: option.splits dest!: map_of_SomeD)
qed

section \<open>A sample turn\<close>

text \<open>One link-down event, concluded by the shipped rule, grouped, and not closed.\<close>

definition sample_reg :: "corr_rule dict" where
  "sample_reg = corr_rules (\<lambda>rid _ _. Inr (if rid = ''IFACE_DOWN_001'' then [Found link_down] else []))"

definition sample_platform :: platform where
  "sample_platform = \<lparr>pl_project = (\<lambda>_ db. db), pl_digest = id, pl_port = (\<lambda>_ _. None), pl_vlans = (\<lambda>_ _. False)\<rparr>"

definition sample_db :: obs_db where
  "sample_db = loop_turn sample_platform sample_reg [] [] 1100 1101 1102 db_empty"

lemma sample_projects: "projects_events sample_platform"
  by (simp add: projects_events_def sample_platform_def)

lemma sample_reachable: "reachable sample_platform sample_reg sample_db"
  unfolding sample_db_def by (intro loop_turn_reachable reachable.start)

lemma sample_db_rows:
  "map (\<lambda>e. (ev_id e, ev_incident e)) (db_evidence sample_db) = [(1, Some 1)]"
  "map (\<lambda>i. (in_id i, in_closed i, in_cause i, in_confidence i)) (db_incidents sample_db)
     = [(1, None, Some ''causa_non_determinata'', Some 33)]"
  by code_simp+

section \<open>Properties\<close>

text \<open>
  C7: in every state that any sequence of correlations, groupings and closings reaches, an assigned
  evidence belongs to an existing incident of its own tenant and entity, whose time span contains it
  and whose severity is at least as bad, and the event count of every incident is the number of
  evidence rows assigned to it.
\<close>

theorem reachable_incidents_account:
  assumes "reachable pl (corr_rules checks) db" and "projects_events pl"
  shows "(\<forall>e \<in> set (db_evidence db). link_ok (db_incidents db) e)
    \<and> (\<forall>i \<in> set (db_incidents db). in_opened i \<le> in_last i
         \<and> in_count i = int (linked_to (in_id i) (db_evidence db)))"
  using reachable_ok [OF assms corr_rules_bases] by (simp add: obs_ok_def links_ok_def list_all_iff)

theorem reachable_incidents_account_witness:
  "\<exists>e i. e \<in> set (db_evidence sample_db) \<and> i \<in> set (db_incidents sample_db)
     \<and> ev_incident e = Some (in_id i) \<and> in_tenant i = ev_tenant e
     \<and> in_count i = int (linked_to (in_id i) (db_evidence sample_db))"
proof -
  obtain e where e: "e \<in> set (db_evidence sample_db)" "ev_incident e = Some 1"
    using sample_db_rows(1) by (cases "db_evidence sample_db") auto
  have acc: "(\<forall>e \<in> set (db_evidence sample_db). link_ok (db_incidents sample_db) e)
    \<and> (\<forall>i \<in> set (db_incidents sample_db). in_opened i \<le> in_last i
         \<and> in_count i = int (linked_to (in_id i) (db_evidence sample_db)))"
    by (rule reachable_incidents_account [OF sample_reachable [unfolded sample_reg_def] sample_projects])
  with e(1) have "link_ok (db_incidents sample_db) e" by blast
  with e(2) obtain i where "i \<in> set (db_incidents sample_db)" "in_id i = 1" "in_tenant i = ev_tenant e"
    unfolding link_ok_def by blast
  with e acc show ?thesis by metis
qed

text \<open>
  C11: in every reachable state the confidence of an incident, and of every archived conclusion, is
  between 0 and 95, and an incident has at most one conclusion that is not superseded.
\<close>

theorem reachable_confidence_bounds:
  assumes "reachable pl (corr_rules checks) db" and "projects_events pl"
  shows "(\<forall>i \<in> set (db_incidents db). \<forall>c. in_confidence i = Some c \<longrightarrow> 0 \<le> c \<and> c \<le> 95)
    \<and> (\<forall>c \<in> set (db_conclusions db). 0 \<le> co_confidence c \<and> co_confidence c \<le> 95)
    \<and> (\<forall>iid. length (filter (\<lambda>c. co_incident c = iid \<and> co_superseded c = None) (db_conclusions db)) \<le> 1)"
  using reachable_ok [OF assms corr_rules_bases]
  by (simp add: obs_ok_def confidence_ok_def conclusions_ok_def open_conclusions_def confidence_max_def)

theorem reachable_confidence_bounds_witness:
  "\<exists>i c. i \<in> set (db_incidents sample_db) \<and> in_confidence i = Some c \<and> 0 \<le> c \<and> c \<le> 95"
proof -
  obtain i where "i \<in> set (db_incidents sample_db)" "in_confidence i = Some 33"
    using sample_db_rows(2) by (cases "db_incidents sample_db") auto
  then show ?thesis
    using reachable_confidence_bounds [OF sample_reachable [unfolded sample_reg_def] sample_projects] by blast
qed

text \<open>
  C10: no evidence is left behind: after a grouping, every active evidence concluded within the last
  hour that names an entity is assigned to an incident, whatever the date of its event.
\<close>

theorem grouping_assigns_all:
  assumes "e \<in> set (db_evidence (fst (group_once reg vlans given clock db)))"
    and "ev_status e = Active" and "ev_created e \<ge> or_clock given clock - 3600"
    and "ev_entity e = Some entity" and "entity \<noteq> []"
  shows "ev_incident e \<noteq> None"
proof
  assume free: "ev_incident e = None"
  obtain db1 touched linked ids where
    f: "fold group_row (unassigned (or_clock given clock - incident_lookback) (db_evidence db)) (db, [], 0)
      = (db1, touched, linked)"
    and g: "group_once reg vlans given clock db = (fold (reason_incident reg vlans clock) ids db1, linked)"
    by (rule group_once_cases)
  have "e \<in> set (db_evidence db1)" using assms(1) g by (simp add: reason_keeps_evidence)
  from group_fold_free [OF f this free] assms(2-5) free show False
    by (simp add: unassigned_rows incident_lookback_def)
qed

theorem grouping_assigns_all_witness:
  "\<exists>e. e \<in> set (db_evidence (fst (group_once sample_reg (\<lambda>_ _. False) (Some 1200) 1200
       (fst (correlate_once (\<lambda>_ db. db) id (\<lambda>_ _. None) [] [] sample_reg (Some 1100) 1100 db_empty)))))
     \<and> ev_incident e \<noteq> None"
proof -
  let ?db = "fst (group_once sample_reg (\<lambda>_ _. False) (Some 1200) 1200
       (fst (correlate_once (\<lambda>_ db. db) id (\<lambda>_ _. None) [] [] sample_reg (Some 1100) 1100 db_empty)))"
  have "map (\<lambda>e. (ev_status e = Active, ev_created e, ev_entity e)) (db_evidence ?db)
      = [(True, 1100, Some ''ip:10.0.0.1'')]"
    by code_simp
  then obtain e where e: "e \<in> set (db_evidence ?db)" "ev_status e = Active" "ev_created e = 1100"
    "ev_entity e = Some ''ip:10.0.0.1''" by (cases "db_evidence ?db") auto
  have "ev_incident e \<noteq> None"
    by (rule grouping_assigns_all [OF e(1,2) _ e(4)]) (simp_all add: e(3) or_clock_def)
  with e(1) show ?thesis by blast
qed

section \<open>Where the engine and its documentation part\<close>

text \<open>Reasoning leaves the life of the incidents alone.\<close>

definition incident_life :: "incident \<Rightarrow> int \<times> int \<times> int option \<times> int" where
  "incident_life i = (in_id i, in_last i, in_closed i, in_count i)"

lemma reason_keeps_life:
  "map incident_life (db_incidents (reason_incident reg vlans clock iid db)) = map incident_life (db_incidents db)"
  by (simp add: reason_incident_def Let_def map_update_where incident_life_def split: option.split)

lemma fold_reason_keeps_life:
  "map incident_life (db_incidents (fold (reason_incident reg vlans clock) ids db))
     = map incident_life (db_incidents db)"
  by (induction ids arbitrary: db) (simp_all add: reason_keeps_life)

lemma fold_reason_keeps_incident:
  assumes "i \<in> set (db_incidents db)"
  shows "\<exists>j \<in> set (db_incidents (fold (reason_incident reg vlans clock) ids db)). incident_life j = incident_life i"
proof -
  have "incident_life i \<in> set (map incident_life (db_incidents (fold (reason_incident reg vlans clock) ids db)))"
    unfolding fold_reason_keeps_life using assms by simp
  then show ?thesis by (metis (no_types) image_iff list.set_map)
qed

text \<open>
  An incident is meant to close after thirty minutes without new evidence. An evidence whose
  event is older than that, as every hourly measure is, and that opens an incident, has it closed by
  the closing of the same cycle, although it was assigned in that cycle; so the next evidence of
  the entity opens another incident.
\<close>

theorem old_event_incident_born_closed:
  assumes "unassigned (now - incident_lookback) (db_evidence db) = [e]"
    and "ev_entity e = Some entity" and "entity \<noteq> []"
    and "matching_incident (ev_tenant e) entity (ev_ts e) (db_incidents db) = None"
    and "ev_ts e < now - quiet_s" and "now \<noteq> 0"
  shows "\<exists>i. i \<in> set (db_incidents (fst (close_stale (Some now) clock
        (fst (group_once reg vlans (Some now) clock db)))))
    \<and> e\<lparr>ev_incident := Some (in_id i)\<rparr> \<in> set (db_evidence (fst (close_stale (Some now) clock
        (fst (group_once reg vlans (Some now) clock db)))))
    \<and> in_count i = 1 \<and> in_closed i = Some now"
proof -
  let ?n = "next_id (map in_id (db_incidents db))"
  let ?new = "absorb (ev_ts e) (evidence_severity e) (new_incident (ev_tenant e) entity (ev_ts e) (evidence_severity e) ?n)"
  have now: "or_clock (Some now) clock = now" using assms(6) by (simp add: or_clock_def)
  obtain db1 touched linked ids where f: "fold group_row [e] (db, [], 0) = (db1, touched, linked)"
    and g: "group_once reg vlans (Some now) clock db = (fold (reason_incident reg vlans clock) ids db1, linked)"
    using group_once_cases [of "Some now" clock db reg vlans] assms(1) now by metis
  have t: "target_incident e entity (db_incidents db)
      = (db_incidents db @ [new_incident (ev_tenant e) entity (ev_ts e) (evidence_severity e) ?n], ?n)"
    using assms(4) by (simp add: target_incident_def Let_def)
  have db1: "db_evidence db1 = assign (ev_id e) ?n (db_evidence db)"
    "db_incidents db1 = update_where (\<lambda>i. in_id i = ?n) (absorb (ev_ts e) (evidence_severity e))
       (db_incidents db @ [new_incident (ev_tenant e) entity (ev_ts e) (evidence_severity e) ?n])"
    using f assms(2,3) t by (auto simp: group_row_eq)
  have "?new \<in> set (db_incidents db1)"
    by (auto simp: db1 update_where_def new_incident_def)
  then obtain j where j: "j \<in> set (db_incidents (fst (group_once reg vlans (Some now) clock db)))"
    "in_id j = ?n" "in_last j = ev_ts e" "in_closed j = None" "in_count j = 1"
    using fold_reason_keeps_incident [of ?new db1 reg vlans clock ids] g
    by (auto simp: absorb_def new_incident_def incident_life_def)
  have "e \<in> set (db_evidence db)"
    using assms(1) unassigned_rows [of "now - incident_lookback" "db_evidence db"] by auto
  then have "e\<lparr>ev_incident := Some ?n\<rparr> \<in> set (db_evidence (fst (group_once reg vlans (Some now) clock db)))"
    by (simp add: g reason_keeps_evidence db1 assign_def set_update_where) blast
  with j assms(5) show ?thesis
    by (intro exI [of _ "j\<lparr>in_closed := Some now\<rparr>"])
      (auto simp: close_stale_def now Let_def set_update_where intro!: bexI [of _ j])
qed

definition hourly_finding :: conclusion_finding where
  "hourly_finding = link_down\<lparr>f_ts := 3600, f_role := ''trigger'', f_entity := ''ip:10.0.0.5''\<rparr>"

definition hourly_row :: evidence where
  "hourly_row = evidence_row id (\<lambda>_ _. None) 10000 ''BASELINE_SPIKE_001'' ''1.0.0'' [] hourly_finding 1"

lemma hourly_row_facts:
  "unassigned (10000 - incident_lookback) (db_evidence (db_empty\<lparr>db_evidence := [hourly_row]\<rparr>)) = [hourly_row]"
  "ev_entity hourly_row = Some ''ip:10.0.0.5''" "ev_ts hourly_row < 10000 - quiet_s"
  "matching_incident (ev_tenant hourly_row) ''ip:10.0.0.5'' (ev_ts hourly_row)
     (db_incidents (db_empty\<lparr>db_evidence := [hourly_row]\<rparr>)) = None"
  by (simp_all add: hourly_row_def evidence_row_def hourly_finding_def link_down_def unassigned_def by_time_def
      incident_lookback_def quiet_s_def db_empty_def matching_incident_def)

theorem old_event_incident_born_closed_witness:
  "\<exists>i. i \<in> set (db_incidents (fst (close_stale (Some 10000) 0
      (fst (group_once no_checks (\<lambda>_ _. False) (Some 10000) 0 (db_empty\<lparr>db_evidence := [hourly_row]\<rparr>))))))
    \<and> in_closed i = Some 10000"
  using old_event_incident_born_closed [OF hourly_row_facts(1,2) _ hourly_row_facts(4,3),
      of 0 no_checks "\<lambda>_ _. False"] by auto

text \<open>
  When every evidence of an incident was retracted, the history records the total retraction,
  but the incident itself is left as it was, with the cause and the confidence that no longer stand.
\<close>

theorem total_retraction_keeps_cause:
  assumes "find_incident iid (db_incidents db) = Some i"
    and "active_of iid (db_evidence db) = []" and "retracted_of iid (db_evidence db) \<noteq> 0"
  shows "db_incidents (reason_incident reg vlans clock iid db) = db_incidents db
    \<and> (\<exists>c \<in> set (db_conclusions (reason_incident reg vlans clock iid db)).
         co_incident c = iid \<and> co_superseded c = None
         \<and> co_reasoning c = All_Retracted (retracted_of iid (db_evidence db)))"
proof (cases rule: current_conclusion_cases [of iid "db_conclusions db"])
  case none
  with assms show ?thesis
    by (simp add: reason_incident_def Let_def record_conclusion_def new_conclusion_def)
next
  case (some c)
  with assms show ?thesis
    by (auto simp: reason_incident_def Let_def record_conclusion_def new_conclusion_def open_conclusions_def)
qed

definition retracted_db :: obs_db where
  "retracted_db = db_empty\<lparr>
     db_evidence := [mark_retracted (Some 2) ''BASELINE_NORMAL_RETRACT_001'' 10100 ''in norm''
       (hourly_row\<lparr>ev_incident := Some 1\<rparr>)],
     db_incidents := [(new_incident ''acme'' ''ip:10.0.0.5'' 3600 4 1)
       \<lparr>in_count := 1, in_cause := Some ''TRAFFIC_SPIKE_001'', in_confidence := Some 58\<rparr>]\<rparr>"

theorem total_retraction_keeps_cause_witness:
  "\<exists>i. db_incidents (reason_incident no_checks (\<lambda>_ _. False) 10200 1 retracted_db) = [i]
    \<and> in_cause i = Some ''TRAFFIC_SPIKE_001'' \<and> in_confidence i = Some 58"
proof -
  obtain i where i: "find_incident 1 (db_incidents retracted_db) = Some i" "db_incidents retracted_db = [i]"
    "in_cause i = Some ''TRAFFIC_SPIKE_001''" "in_confidence i = Some 58"
    by (simp add: retracted_db_def find_incident_def new_incident_def)
  have "active_of 1 (db_evidence retracted_db) = []" "retracted_of 1 (db_evidence retracted_db) \<noteq> 0"
    by (simp_all add: retracted_db_def active_of_def retracted_of_def by_time_def)
  from total_retraction_keeps_cause [OF i(1) this] i(2-4) show ?thesis by simp
qed

end
