(* ===== verification/Corr_Checks_Sound.thy ===== *)
theory Corr_Checks_Sound
  imports Corr_Checks Obs_Pipeline
begin

text \<open>
  What the shipped checks guarantee: they produce only what their catalogue entries declare and
  always name an entity; a device is reported unreachable exactly when it answered and then missed
  enough rounds; and, where the code departs from its intention, a port that recovers silences the
  other ports of its device.
\<close>

section \<open>Loops and groups\<close>

lemma collect_r_all:
  assumes "collect_r f xs = Inr ys" "\<And>x zs. x \<in> set xs \<Longrightarrow> f x = Inr zs \<Longrightarrow> list_all P zs"
  shows "list_all P ys"
  using assms(1) unfolding collect_r_def
proof (rule fold_r_invariant [where P = "list_all P"])
  fix x acc t assume "x \<in> set xs" "list_all P acc" "bind_r (f x) (\<lambda>ys. Inr (acc @ ys)) = Inr t"
  then show "list_all P t" using assms(2) by (auto simp: bind_r_eq_Inr)
qed simp

lemma collect_r_mem:
  "collect_r f xs = Inr ys \<Longrightarrow> y \<in> set ys \<longleftrightarrow> (\<exists>x \<in> set xs. \<exists>zs. f x = Inr zs \<and> y \<in> set zs)"
proof -
  have gen: "fold_r (\<lambda>x acc. bind_r (f x) (\<lambda>ys. Inr (acc @ ys))) xs acc = Inr ys \<Longrightarrow>
      y \<in> set ys \<longleftrightarrow> y \<in> set acc \<or> (\<exists>x \<in> set xs. \<exists>zs. f x = Inr zs \<and> y \<in> set zs)" for acc
  proof (induction xs arbitrary: acc)
    case (Cons x xs)
    then obtain zs where "f x = Inr zs" by (auto simp: bind_r_eq_Inr)
    with Cons show ?case by auto
  qed simp
  show "collect_r f xs = Inr ys \<Longrightarrow> y \<in> set ys \<longleftrightarrow> (\<exists>x \<in> set xs. \<exists>zs. f x = Inr zs \<and> y \<in> set zs)"
    using gen [of "[]"] by (simp add: collect_r_def)
qed

lemma collect_r_defined: "collect_r f xs = Inr ys \<Longrightarrow> x \<in> set xs \<Longrightarrow> \<exists>zs. f x = Inr zs"
proof -
  have "fold_r (\<lambda>x acc. bind_r (f x) (\<lambda>ys. Inr (acc @ ys))) xs acc = Inr ys \<Longrightarrow> x \<in> set xs \<Longrightarrow> \<exists>zs. f x = Inr zs" for acc
    by (induction xs arbitrary: acc) (auto simp: bind_r_eq_Inr)
  then show "collect_r f xs = Inr ys \<Longrightarrow> x \<in> set xs \<Longrightarrow> \<exists>zs. f x = Inr zs" unfolding collect_r_def by blast
qed

text \<open>The groups are the classes of the rows with equal keys, in their order.\<close>

lemma group_by_snoc:
  "group_by key (xs @ [x]) = AList.update (key x)
     ((case map_of (group_by key xs) (key x) of None \<Rightarrow> [] | Some ys \<Rightarrow> ys) @ [x]) (group_by key xs)"
  by (simp add: group_by_def)

lemma group_by_lookup:
  "map_of (group_by key xs) k
     = (if k \<in> key ` set xs then Some (filter (\<lambda>x. key x = k) xs) else None)"
proof (induction xs rule: rev_induct)
  case (snoc x xs)
  have "filter (\<lambda>y. key y = key x) xs = []" if "key x \<notin> key ` set xs"
    using that by (auto simp: filter_empty_conv) (metis imageI)
  with snoc show ?case by (auto simp: group_by_snoc update_conv')
qed (simp add: group_by_def)

lemma distinct_group_by: "distinct (map fst (group_by key xs))"
proof (induction xs rule: rev_induct)
  case (snoc x xs)
  then show ?case by (simp add: group_by_snoc distinct_update)
qed (simp add: group_by_def)

lemma group_by_mem:
  "(k, ys) \<in> set (group_by key xs) \<longleftrightarrow> k \<in> key ` set xs \<and> ys = filter (\<lambda>x. key x = k) xs"
  using map_of_eq_Some_iff [OF distinct_group_by [of key xs], of k ys]
  by (auto simp: group_by_lookup split: if_splits)

section \<open>Declared outputs\<close>

definition item_ok :: "string list \<Rightarrow> item \<Rightarrow> bool" where
  "item_ok outs it \<longleftrightarrow> (case it of
       Found f \<Rightarrow> f_role f \<in> set outs \<and> f_role f \<in> set roles \<and> f_entity f \<noteq> []
     | Retracts r \<Rightarrow> ''retraction'' \<in> set outs \<and> f_role (rt_witness r) \<in> set outs
         \<and> f_role (rt_witness r) \<in> set roles \<and> f_entity (rt_witness r) \<noteq> [])"

lemma finding_of_simps [simp]:
  "f_role (finding_of ev role entity summary attrs) = role"
  "f_entity (finding_of ev role entity summary attrs) = entity"
  "f_tenant (finding_of ev role entity summary attrs) = e_tenant ev"
  by (simp_all add: finding_of_def)

lemma ip_key_nonempty [simp]: "ip_key x \<noteq> []"
  by (simp add: ip_key_def)

lemma roles_mem [simp]:
  "''trigger'' \<in> set roles" "''supporting'' \<in> set roles" "''symptom'' \<in> set roles" "''consequence'' \<in> set roles"
  by (simp_all add: roles_def)

lemmas check_splits = if_splits option.splits json.splits prod.splits

lemma blocked_findings_ok:
  assumes "blocked_findings kb events ps = Inr fs"
  shows "list_all (\<lambda>f. f_role f \<in> {''trigger'', ''supporting''} \<and> f_entity f \<noteq> []) fs"
  using assms unfolding blocked_findings_def Let_def
  by (rule collect_r_all) (auto simp: bind_r_eq_Inr blocked_pair_def Let_def split: if_splits option.splits)

lemma blocked_traffic_ok: "blocked_traffic kb events ps = Inr items \<Longrightarrow> list_all (item_ok [''trigger'', ''supporting'']) items"
  using blocked_findings_ok [of kb events ps]
  by (fastforce simp: blocked_traffic_def bind_r_eq_Inr list_all_iff item_ok_def)

lemma high_severity_log_ok: "high_severity_log kb events ps = Inr items \<Longrightarrow> list_all (item_ok [''trigger'']) items"
  unfolding high_severity_log_def
  by (erule collect_r_all) (auto simp: bind_r_eq_Inr item_ok_def Let_def split: check_splits)

lemma config_change_ok: "config_change kb events ps = Inr items \<Longrightarrow> list_all (item_ok [''trigger'']) items"
  unfolding config_change_def
  by (erule collect_r_all) (auto simp: item_ok_def split: if_splits)

lemma interface_down_ok: "interface_down kb events ps = Inr items \<Longrightarrow> list_all (item_ok [''symptom'']) items"
  by (auto simp: interface_down_def item_ok_def list_all_iff)

lemma interface_recovered_ok:
  "interface_recovered kb events ps = Inr items \<Longrightarrow> list_all (item_ok [''consequence'', ''retraction'']) items"
  unfolding interface_recovered_def
  by (erule collect_r_all) (auto simp: bind_r_eq_Inr item_ok_def Let_def split: if_splits)

lemma interface_flapping_ok: "interface_flapping kb events ps = Inr items \<Longrightarrow> list_all (item_ok [''trigger'']) items"
  unfolding interface_flapping_def Let_def
  by (erule collect_r_all) (auto simp: bind_r_eq_Inr item_ok_def split: if_splits prod.splits)

lemma blast_radius_ok: "blast_radius kb bp events ps = Inr items \<Longrightarrow> list_all (item_ok [''trigger'']) items"
  unfolding blast_radius_def bind_r_eq_Inr
  by (elim exE conjE, erule collect_r_all) (auto simp: bind_r_eq_Inr item_ok_def Let_def split: if_splits prod.splits)

lemma silent_rounds_finding_ok:
  "silent_rounds_finding ps mn tenant d seen = Inr items \<Longrightarrow> list_all (item_ok [''trigger'']) items"
  by (auto simp: silent_rounds_finding_def item_ok_def Let_def split: option.splits prod.splits if_splits)

lemma device_unreachable_ok: "device_unreachable kb events ps = Inr items \<Longrightarrow> list_all (item_ok [''trigger'']) items"
  unfolding device_unreachable_def
  by (erule collect_r_all) (auto simp: bind_r_eq_Inr silent_rounds_finding_ok split: prod.splits)

lemma interface_errors_ok: "interface_errors kb events ps = Inr items \<Longrightarrow> list_all (item_ok [''trigger'']) items"
  unfolding interface_errors_def Let_def
  by (erule collect_r_all) (auto simp: bind_r_eq_Inr item_ok_def split: if_splits prod.splits)

lemma device_load_ok: "device_load kb events ps = Inr items \<Longrightarrow> list_all (item_ok [''symptom'']) items"
  unfolding device_load_def
  by (erule collect_r_all, simp split: if_splits, erule collect_r_all)
    (auto simp: bind_r_eq_Inr item_ok_def Let_def split: if_splits prod.splits)

lemma traffic_spike_ok: "traffic_spike kb events ps = Inr items \<Longrightarrow> list_all (item_ok [''supporting'']) items"
  by (auto simp: traffic_spike_def bind_r_eq_Inr Let_def item_ok_def list_all_iff split: if_splits)

lemma baseline_measure_ok:
  "baseline_measure ps ev use = Inr zs \<Longrightarrow> (\<And>m d ws. use m d = Inr ws \<Longrightarrow> list_all P ws) \<Longrightarrow> list_all P zs"
  by (auto simp: baseline_measure_def bind_r_eq_Inr split: if_splits)

lemma baseline_spike_ok: "baseline_spike kb events ps = Inr items \<Longrightarrow> list_all (item_ok [''trigger'']) items"
  unfolding baseline_spike_def
  by (erule collect_r_all, erule baseline_measure_ok) (auto simp: bind_r_eq_Inr item_ok_def split: if_splits)

lemma baseline_normal_retracts_ok:
  "baseline_normal_retracts kb events ps = Inr items \<Longrightarrow> list_all (item_ok [''supporting'', ''retraction'']) items"
  unfolding baseline_normal_retracts_def
  by (erule collect_r_all, erule baseline_measure_ok) (auto simp: bind_r_eq_Inr item_ok_def split: if_splits)

lemma new_talker_ok: "new_talker kb events ps = Inr items \<Longrightarrow> list_all (item_ok [''trigger'']) items"
  unfolding new_talker_def
  by (erule collect_r_all) (auto simp: bind_r_eq_Inr item_ok_def Let_def split: if_splits)

lemma unknown_exporter_ok: "unknown_exporter kb events ps = Inr items \<Longrightarrow> list_all (item_ok [''trigger'']) items"
  unfolding unknown_exporter_def
  by (erule collect_r_all) (auto simp: bind_r_eq_Inr item_ok_def split: if_splits)

lemma top_talker_ok: "top_talker kb events ps = Inr items \<Longrightarrow> list_all (item_ok [''supporting'']) items"
  unfolding top_talker_def
  by (erule collect_r_all) (auto simp: bind_r_eq_Inr item_ok_def Let_def split: if_splits)

lemma rule_checks_ok:
  assumes "dict_get (shipped_rules kb settings) rid = Some r" "cr_check r events ps = Inr items"
  shows "list_all (item_ok (cr_outputs r)) items"
proof -
  have "(rid, r) \<in> set (shipped_rules kb settings)" using assms(1) by (rule map_of_SomeD)
  then show ?thesis
    using assms(2) unfolding shipped_rules_def corr_rules_def
    by (auto simp: rule_checks_def blocked_traffic_ok high_severity_log_ok config_change_ok interface_down_ok
        interface_recovered_ok interface_flapping_ok blast_radius_ok device_unreachable_ok interface_errors_ok
        device_load_ok traffic_spike_ok baseline_spike_ok baseline_normal_retracts_ok new_talker_ok
        unknown_exporter_ok top_talker_ok)
qed

text \<open>
  The shipped checks keep the promise of their catalogue: whatever the events and thresholds,
  every finding of a rule has one of the four roles and a role its entry declares, every retraction
  comes from a rule that declares retractions, with a witness of a declared role, and none of them
  lacks an entity; so the cycle discards nothing as undeclared.
\<close>

theorem shipped_rules_declare_outputs:
  assumes "dict_get (shipped_rules kb settings) rid = Some r" and "cr_check r events ps = Inr items"
  shows "(\<forall>f. Found f \<in> set items \<longrightarrow> declares_output (shipped_rules kb settings) rid (f_role f)
       \<and> f_role f \<in> set roles \<and> f_entity f \<noteq> [])
    \<and> (\<forall>t. Retracts t \<in> set items \<longrightarrow> declares_output (shipped_rules kb settings) rid ''retraction''
       \<and> declares_output (shipped_rules kb settings) rid (f_role (rt_witness t))
       \<and> f_role (rt_witness t) \<in> set roles \<and> f_entity (rt_witness t) \<noteq> [])"
  using rule_checks_ok [OF assms] assms(1)
  by (fastforce simp: list_all_iff item_ok_def declares_output_def)

definition sample_kb :: endpoint_kb where
  "sample_kb = \<lparr>kb_describe = opt_text, kb_direction = (\<lambda>_ _. None), kb_repr = (\<lambda>_. []),
     kb_signed = (\<lambda>_. []), kb_round = (\<lambda>_. [])\<rparr>"

definition port_event :: "int \<Rightarrow> int \<Rightarrow> string \<Rightarrow> string \<Rightarrow> event" where
  "port_event i ts port state = \<lparr>e_id = i, e_ts = ts, e_ingested = ts, e_tenant = ''acme'', e_source = ''snmp'',
     e_type = ''interface.change'', e_entity_type = ''interface'', e_entity_id = ''10.0.0.1:'' @ port,
     e_severity = Some 4, e_device_ip = Some ''10.0.0.1'', e_interface = Some port, e_src_ip = None,
     e_dst_ip = None, e_dst_port = None, e_protocol = None, e_metrics = [],
     e_attrs = [(''field'', JStr ''link''), (''after'', JStr state)]\<rparr>"

lemma sample_shipped:
  obtains r where "dict_get (shipped_rules sample_kb []) ''IFACE_DOWN_001'' = Some r"
    "map_sum id (map (\<lambda>i. case i of Found f \<Rightarrow> f_role f | Retracts t \<Rightarrow> ''retraction''))
       (cr_check r [port_event 1 1000 ''Gi0/1'' ''down''] []) = Inr [''symptom'']"
    "declares_output (shipped_rules sample_kb []) ''IFACE_DOWN_001'' nm \<longleftrightarrow> nm = ''symptom''"
proof -
  let ?r = "the (dict_get (shipped_rules sample_kb []) ''IFACE_DOWN_001'')"
  have "dict_get (shipped_rules sample_kb []) ''IFACE_DOWN_001'' = Some ?r"
    by (simp add: shipped_rules_def corr_rules_def)
  moreover have "map_sum id (map (\<lambda>i. case i of Found f \<Rightarrow> f_role f | Retracts t \<Rightarrow> ''retraction''))
       (cr_check ?r [port_event 1 1000 ''Gi0/1'' ''down''] []) = Inr [''symptom'']"
    by code_simp
  moreover have "declares_output (shipped_rules sample_kb []) ''IFACE_DOWN_001'' nm \<longleftrightarrow> nm = ''symptom''"
    by (simp add: declares_output_def shipped_rules_def corr_rules_def)
  ultimately show ?thesis by (rule that)
qed

theorem shipped_rules_declare_outputs_witness:
  "\<exists>r items f. dict_get (shipped_rules sample_kb []) ''IFACE_DOWN_001'' = Some r
     \<and> cr_check r [port_event 1 1000 ''Gi0/1'' ''down''] [] = Inr items \<and> Found f \<in> set items
     \<and> declares_output (shipped_rules sample_kb []) ''IFACE_DOWN_001'' (f_role f)"
proof -
  obtain r where r: "dict_get (shipped_rules sample_kb []) ''IFACE_DOWN_001'' = Some r"
    and m: "map_sum id (map (\<lambda>i. case i of Found f \<Rightarrow> f_role f | Retracts t \<Rightarrow> ''retraction''))
       (cr_check r [port_event 1 1000 ''Gi0/1'' ''down''] []) = Inr [''symptom'']"
    by (rule sample_shipped [of "''symptom''"])
  obtain items where items: "cr_check r [port_event 1 1000 ''Gi0/1'' ''down''] [] = Inr items"
    using m by (cases "cr_check r [port_event 1 1000 ''Gi0/1'' ''down''] []") auto
  obtain it where it: "items = [it]" using m items by auto
  then obtain f where "it = Found f" using m items by (cases it) auto
  with shipped_rules_declare_outputs [OF r items] r items it show ?thesis by auto
qed

section \<open>Unreachable devices\<close>

lemma after_last_spec:
  "after_last P xs = Some (x, ys) \<longleftrightarrow> (\<exists>pre. xs = pre @ x # ys) \<and> P x \<and> (\<forall>y \<in> set ys. \<not> P y)"
proof (induction xs)
  case (Cons a xs)
  have none: "after_last P xs = None \<longleftrightarrow> (\<forall>y \<in> set xs. \<not> P y)" for xs
    by (induction xs) (auto split: option.splits)
  show ?case
  proof (cases "after_last P xs")
    case None
    with Cons none [of xs] show ?thesis
      by (auto simp: Cons_eq_append_conv)
  next
    case (Some r)
    then have "\<exists>y \<in> set xs. P y" using none [of xs] by auto
    with Some Cons show ?thesis by (cases r) (auto simp: Cons_eq_append_conv)
  qed
qed auto

lemma rounds_mem: "set (rounds xs) = set xs"
  by (simp add: rounds_def)

definition missed_rounds :: "rat \<Rightarrow> event list \<Rightarrow> bool" where
  "missed_rounds mn xs \<longleftrightarrow> (\<exists>pre ok post. xs = pre @ ok # post \<and> answers ok \<and> (\<forall>e \<in> set post. silent e)
     \<and> mn \<le> of_nat (length post))"

lemma after_last_missed:
  assumes "\<forall>e \<in> set xs. answers e \<or> silent e"
  shows "missed_rounds mn xs \<longleftrightarrow> (\<exists>ok post. after_last answers xs = Some (ok, post) \<and> mn \<le> of_nat (length (filter silent post)))"
proof -
  have sil: "silent e \<longleftrightarrow> \<not> answers e" if "e \<in> set xs" for e
    using assms that by (auto simp: answers_def silent_def)
  have eq: "filter silent post = post" if "xs = pre @ ok # post" "\<forall>e \<in> set post. \<not> answers e" for pre ok post
    using that sil by (intro filter_True) auto
  show ?thesis
  proof
    assume "missed_rounds mn xs"
    then obtain pre ok post where r: "xs = pre @ ok # post" "answers ok" "\<forall>e \<in> set post. silent e" "mn \<le> of_nat (length post)"
      unfolding missed_rounds_def by blast
    then have "\<forall>e \<in> set post. \<not> answers e" using sil by auto
    with r eq [OF r(1)] after_last_spec [of answers xs ok post]
    show "\<exists>ok post. after_last answers xs = Some (ok, post) \<and> mn \<le> of_nat (length (filter silent post))" by auto
  next
    assume "\<exists>ok post. after_last answers xs = Some (ok, post) \<and> mn \<le> of_nat (length (filter silent post))"
    then obtain ok post pre where r: "xs = pre @ ok # post" "answers ok" "\<forall>e \<in> set post. \<not> answers e"
      "mn \<le> of_nat (length (filter silent post))" by (auto simp: after_last_spec)
    then have "\<forall>e \<in> set post. silent e" using sil by auto
    with r eq [OF r(1,3)] show "missed_rounds mn xs" unfolding missed_rounds_def by auto
  qed
qed

lemma silent_rounds_finding_iff:
  assumes "silent_rounds_finding ps mn t dev seen = Inr zs" "1 \<le> mn"
    and "\<forall>e \<in> set seen. (answers e \<or> silent e) \<and> e_tenant e = t"
  shows "zs \<noteq> [] \<longleftrightarrow> missed_rounds mn (rounds seen)"
    "i \<in> set zs \<Longrightarrow> \<exists>f. i = Found f \<and> f_tenant f = t \<and> f_entity f = ip_key dev"
proof -
  have "\<forall>e \<in> set (rounds seen). answers e \<or> silent e" using assms(3) by (simp add: rounds_mem)
  note missed = after_last_missed [OF this, of mn]
  have "(zs \<noteq> [] \<longleftrightarrow> missed_rounds mn (rounds seen))
    \<and> (\<forall>i \<in> set zs. \<exists>f. i = Found f \<and> f_tenant f = t \<and> f_entity f = ip_key dev)"
  proof (cases "after_last answers (rounds seen)")
    case None
    with assms(1) missed show ?thesis by (simp add: silent_rounds_finding_def)
  next
    case (Some r)
    obtain ok post where r: "r = (ok, post)" by (cases r)
    show ?thesis
    proof (cases "of_nat (length (filter silent post)) < mn")
      case True
      with assms(1) Some r missed show ?thesis by (simp add: silent_rounds_finding_def Let_def)
    next
      case False
      then have ne: "filter silent post \<noteq> []" using assms(2) by auto
      then have "last (filter silent post) \<in> set post" using last_in_set [OF ne] by auto
      moreover have "set post \<subseteq> set seen"
        using Some r rounds_mem [of seen] by (auto simp: after_last_spec)
      ultimately have "e_tenant (last (filter silent post)) = t" using assms(3) by blast
      with assms(1) Some r missed False ne show ?thesis
        by (auto simp: silent_rounds_finding_def Let_def)
    qed
  qed
  then show "zs \<noteq> [] \<longleftrightarrow> missed_rounds mn (rounds seen)"
    "i \<in> set zs \<Longrightarrow> \<exists>f. i = Found f \<and> f_tenant f = t \<and> f_entity f = ip_key dev" by blast+
qed

text \<open>The polling rounds of a device in the window, in time order.\<close>

definition device_rounds :: "string \<Rightarrow> string \<Rightarrow> event list \<Rightarrow> event list" where
  "device_rounds tenant d events =
     rounds (filter (\<lambda>e. (answers e \<or> silent e) \<and> e_tenant e = tenant \<and> e_device_ip e = Some d) events)"

abbreviation round_key :: "event \<Rightarrow> string \<times> string option" where
  "round_key e \<equiv> (e_tenant e, e_device_ip e)"

definition round_events :: "event list \<Rightarrow> event list" where
  "round_events events = filter (\<lambda>e. (answers e \<or> silent e) \<and> present (e_device_ip e)) events"

lemma round_class:
  "d \<noteq> [] \<Longrightarrow> filter (\<lambda>e. round_key e = (tenant, Some d)) (round_events events)
     = filter (\<lambda>e. (answers e \<or> silent e) \<and> e_tenant e = tenant \<and> e_device_ip e = Some d) events"
  unfolding round_events_def filter_filter
  by (rule filter_cong [OF refl]) (auto simp: present_def or_text_def)

lemma ip_key_Some: "ip_key (Some a) = ip_key (Some b) \<longleftrightarrow> a = b"
  by (simp add: ip_key_def opt_text_def)

lemma present_Some: "present x \<Longrightarrow> \<exists>s. x = Some s"
  by (cases x) (simp_all add: present_def or_text_def)

text \<open>
  A device is reported unreachable exactly when, among its rounds in time order, there is an
  answer followed by as many silent rounds as the threshold and by no other answer: a device that
  never answered is not reported, and neither is one that answered again.
\<close>

theorem unreachable_exactly_after_answer:
  assumes "device_unreachable kb events ps = Inr items" and "threshold ps ''min_silent_rounds'' = Inr mn"
    and "1 \<le> mn" and "d \<noteq> []"
  shows "(\<exists>f. Found f \<in> set items \<and> f_tenant f = tenant \<and> f_entity f = ip_key (Some d))
    \<longleftrightarrow> (\<exists>pre ok post. device_rounds tenant d events = pre @ ok # post \<and> answers ok
          \<and> (\<forall>e \<in> set post. silent e) \<and> mn \<le> of_nat (length post))"
proof -
  let ?groups = "group_by round_key (round_events events)"
  let ?step = "\<lambda>((t, dev), seen). bind_r (threshold ps ''min_silent_rounds'') (\<lambda>mn. silent_rounds_finding ps mn t dev seen)"
  have col: "collect_r ?step ?groups = Inr items"
    using assms(1) by (simp add: device_unreachable_def round_events_def)
  have rows: "\<forall>e \<in> set seen. (answers e \<or> silent e) \<and> e_tenant e = t" if "((t, dev), seen) \<in> set ?groups" for t dev seen
    using that by (auto simp: group_by_mem round_events_def)
  show ?thesis
    unfolding missed_rounds_def [symmetric]
  proof
    assume "\<exists>f. Found f \<in> set items \<and> f_tenant f = tenant \<and> f_entity f = ip_key (Some d)"
    then obtain f t dev seen zs where f: "f_tenant f = tenant" "f_entity f = ip_key (Some d)"
      and g: "((t, dev), seen) \<in> set ?groups" and z: "silent_rounds_finding ps mn t dev seen = Inr zs" "Found f \<in> set zs"
      unfolding collect_r_mem [OF col] using assms(2) by auto
    have "f_tenant f = t \<and> f_entity f = ip_key dev"
      using silent_rounds_finding_iff(2) [OF z(1) assms(3) rows [OF g] z(2)] by simp
    moreover have "present dev" using g by (auto simp: group_by_mem round_events_def)
    ultimately have "t = tenant" "dev = Some d" using f present_Some [of dev] ip_key_Some by auto
    moreover have "missed_rounds mn (rounds seen)"
      using silent_rounds_finding_iff(1) [OF z(1) assms(3) rows [OF g]] z(2) by (metis empty_iff empty_set)
    ultimately show "missed_rounds mn (device_rounds tenant d events)"
      using g round_class [OF assms(4), of tenant events] by (simp add: group_by_mem device_rounds_def)
  next
    assume missed: "missed_rounds mn (device_rounds tenant d events)"
    let ?seen = "filter (\<lambda>e. round_key e = (tenant, Some d)) (round_events events)"
    have seen: "missed_rounds mn (rounds ?seen)"
      using missed round_class [OF assms(4), of tenant events] by (simp add: device_rounds_def)
    then have "?seen \<noteq> []" by (auto simp: missed_rounds_def rounds_def)
    then have "(tenant, Some d) \<in> round_key ` set (round_events events)"
      by (force simp: filter_empty_conv)
    then have g: "((tenant, Some d), ?seen) \<in> set ?groups" by (simp add: group_by_mem)
    obtain zs where z: "silent_rounds_finding ps mn tenant (Some d) ?seen = Inr zs"
      using collect_r_defined [OF col g] assms(2) by auto
    then obtain i where i: "i \<in> set zs"
      using silent_rounds_finding_iff(1) [OF z assms(3) rows [OF g]] seen by (cases zs) auto
    obtain f where f: "i = Found f" "f_tenant f = tenant" "f_entity f = ip_key (Some d)"
      using silent_rounds_finding_iff(2) [OF z assms(3) rows [OF g] i] by blast
    have "i \<in> set items"
      unfolding collect_r_mem [OF col] using g z i assms(2) by (intro bexI [OF _ g]) auto
    with f show "\<exists>f. Found f \<in> set items \<and> f_tenant f = tenant \<and> f_entity f = ip_key (Some d)" by blast
  qed
qed

definition round_event :: "int \<Rightarrow> string \<Rightarrow> event" where
  "round_event i kind = (port_event i (1000 + 60 * i) [] [])\<lparr>e_type := kind, e_interface := None, e_attrs := []\<rparr>"

definition silent_window :: "event list" where
  "silent_window = round_event 1 ''device.state'' # map (\<lambda>i. round_event i ''device.unreachable'') [2, 3, 4]"

lemma silent_window_facts:
  "\<not> isl (device_unreachable sample_kb silent_window [(''min_silent_rounds'', JInt 3)])"
  "threshold [(''min_silent_rounds'', JInt 3)] ''min_silent_rounds'' = Inr 3"
  "device_rounds ''acme'' ''10.0.0.1'' silent_window
     = [] @ round_event 1 ''device.state'' # map (\<lambda>i. round_event i ''device.unreachable'') [2, 3, 4]"
proof -
  show "\<not> isl (device_unreachable sample_kb silent_window [(''min_silent_rounds'', JInt 3)])" by code_simp
  show "threshold [(''min_silent_rounds'', JInt 3)] ''min_silent_rounds'' = Inr 3" by (simp add: threshold_def)
  show "device_rounds ''acme'' ''10.0.0.1'' silent_window
     = [] @ round_event 1 ''device.state'' # map (\<lambda>i. round_event i ''device.unreachable'') [2, 3, 4]"
    by (simp add: device_rounds_def silent_window_def rounds_def round_event_def port_event_def answers_def silent_def)
qed

theorem unreachable_exactly_after_answer_witness:
  "\<exists>items f. device_unreachable sample_kb silent_window [(''min_silent_rounds'', JInt 3)] = Inr items
     \<and> Found f \<in> set items \<and> f_entity f = ip_key (Some ''10.0.0.1'')"
proof -
  obtain items where i: "device_unreachable sample_kb silent_window [(''min_silent_rounds'', JInt 3)] = Inr items"
    using silent_window_facts(1)
    by (cases "device_unreachable sample_kb silent_window [(''min_silent_rounds'', JInt 3)]") auto
  have "answers (round_event 1 ''device.state'')"
    "\<forall>e \<in> set (map (\<lambda>i. round_event i ''device.unreachable'') [2, 3, 4]). silent e"
    by (simp_all add: answers_def silent_def round_event_def)
  then show ?thesis
    using unreachable_exactly_after_answer [OF i silent_window_facts(2), of "''10.0.0.1''" "''acme''"]
      silent_window_facts(3) i by fastforce
qed

section \<open>Recovery of another port\<close>

definition cycle_rows :: "event list \<Rightarrow> (int option \<times> string \<times> evidence_status) list" where
  "cycle_rows events = map (\<lambda>e. (ev_event e, ev_rule e, ev_status e))
     (db_evidence (fst (correlate_once (\<lambda>_ db. db) id (\<lambda>_ _. None) [] [] (shipped_rules sample_kb [])
        (Some 1100) 1100 (db_empty\<lparr>db_events := events\<rparr>))))"

text \<open>
  The recovery of a port is meant to retract the fall of that port. Retractions name the device
  only, so when one port of a device is down and another one comes up in the same window, the fall of
  the first is retracted although it is still down; alone it stands.
\<close>

theorem recovery_silences_other_port:
  "cycle_rows [port_event 1 1000 ''Gi0/1'' ''down''] = [(Some 1, ''IFACE_DOWN_001'', Active)]
   \<and> cycle_rows [port_event 1 1000 ''Gi0/1'' ''down'', port_event 2 1010 ''Gi0/2'' ''up'']
     = [(Some 1, ''IFACE_DOWN_001'', Retracted), (Some 2, ''IFACE_RECOVERED_001'', Active)]"
  by (rule conjI; code_simp)

end
