(* ===== verification/Wire.thy ===== *)
theory Wire
  imports Ip_Cubes
begin

text \<open>
  Network byte order. The parts of Python's \<open>struct\<close> and \<open>ipaddress\<close> modules that the flow
  decoders use: a field of \<open>n\<close> bytes at an offset, slices, and the texts of IPv4 and IPv6 addresses.
  Shown here: writing a number on \<open>n\<close> bytes and reading the field back gives the number.
\<close>

type_synonym byte = "8 word"
type_synonym bytes = "byte list"

text \<open>\<open>int.from_bytes(b, "big")\<close>; on the empty string it is 0.\<close>

definition be_nat :: "bytes \<Rightarrow> nat" where
  "be_nat bs = foldl (\<lambda>a b. 256 * a + unat b) 0 bs"

text \<open>\<open>b[i:j]\<close> with non-negative bounds.\<close>

definition slice :: "bytes \<Rightarrow> nat \<Rightarrow> nat \<Rightarrow> bytes" where
  "slice bs i j = take (j - i) (drop i bs)"

text \<open>One big-endian field of a structure that is known to fit.\<close>

definition field :: "bytes \<Rightarrow> nat \<Rightarrow> nat \<Rightarrow> nat" where
  "field bs i n = be_nat (slice bs i (i + n))"

text \<open>\<open>struct.unpack_from\<close> of one field; \<open>None\<close> is \<open>struct.error\<close>.\<close>

definition unpack :: "nat \<Rightarrow> bytes \<Rightarrow> nat \<Rightarrow> nat option" where
  "unpack n bs i = (if i + n \<le> length bs then Some (field bs i n) else None)"

section \<open>Address texts\<close>

text \<open>\<open>str(IPv4Address(b))\<close> for four bytes.\<close>

definition ipv4_text :: "bytes \<Rightarrow> string" where
  "ipv4_text bs = int_to_ip (word_of_nat (be_nat bs))"

definition hex_digit :: "nat \<Rightarrow> char" where
  "hex_digit n = (if n < 10 then char_of (48 + n) else char_of (87 + n))"

fun hex_text :: "nat \<Rightarrow> string" where
  "hex_text n = (if n < 16 then [hex_digit n] else hex_text (n div 16) @ [hex_digit (n mod 16)])"

declare hex_text.simps [simp del]

definition hextets :: "nat \<Rightarrow> string list" where
  "hextets n = map (\<lambda>i. hex_text (n div 65536 ^ (7 - i) mod 65536)) [0..<8]"

text \<open>
  \<open>IPv6Address._compress_hextets\<close>: the first longest run of zero groups, when it has more than one
  group, is replaced by an empty group. The state of the scan is the current run and the best one,
  each as start and length.
\<close>

fun zero_run :: "string list \<Rightarrow> nat \<Rightarrow> nat \<times> nat \<Rightarrow> nat \<times> nat \<Rightarrow> nat \<times> nat" where
  "zero_run [] i cur best = best"
| "zero_run (h # hs) i (s, n) (bs, bn) =
     (if h = ''0'' then
        (let s' = (if n = 0 then i else s); n' = n + 1 in
         zero_run hs (i + 1) (s', n') (if n' > bn then (s', n') else (bs, bn)))
      else zero_run hs (i + 1) (0, 0) (bs, bn))"

definition compress_hextets :: "string list \<Rightarrow> string list" where
  "compress_hextets hs =
     (case zero_run hs 0 (0, 0) (0, 0) of
        (s, n) \<Rightarrow> if n > 1 then
            (if s = 0 then [[]] else []) @ take s hs @ [[]] @ drop (s + n) hs
              @ (if s + n = length hs then [[]] else [])
          else hs)"

definition str_ipv6 :: "nat \<Rightarrow> string" where
  "str_ipv6 n = str_join '':'' (compress_hextets (hextets n))"

definition ipv6_text :: "bytes \<Rightarrow> string" where
  "ipv6_text bs = str_ipv6 (be_nat bs)"

lemma str_ipv6_examples: "str_ipv6 1 = ''::1'' \<and> str_ipv6 0 = ''::'' \<and> str_ipv6 (0x20010db8 * 2 ^ 96 + 1) = ''2001:db8::1''"
  by code_simp

section \<open>Writing fields\<close>

fun be_bytes :: "nat \<Rightarrow> nat \<Rightarrow> bytes" where
  "be_bytes 0 v = []"
| "be_bytes (Suc n) v = be_bytes n (v div 256) @ [word_of_nat (v mod 256)]"

named_theorems wire_simps \<open>facts that read what was written\<close>

lemma length_be_bytes [simp]: "length (be_bytes n v) = n"
  by (induction n arbitrary: v) auto

lemma be_nat_Nil [simp]: "be_nat [] = 0"
  and be_nat_snoc [simp]: "be_nat (bs @ [b]) = 256 * be_nat bs + unat b"
  by (simp_all add: be_nat_def)

lemma unat_byte: "unat (word_of_nat (v mod 256) :: byte) = v mod 256"
  by (simp add: unat_of_nat)

lemma be_nat_be_bytes [simp]: "be_nat (be_bytes n v) = v mod 256 ^ n"
proof (induction n arbitrary: v)
  case (Suc n)
  have "256 * (v div 256 mod 256 ^ n) + v mod 256 = v mod (256 * 256 ^ n)"
    by (metis add.commute mod_mult2_eq)
  with Suc show ?case by (simp add: unat_byte)
qed simp

lemma be_nat_bound: "be_nat bs < 256 ^ length bs"
proof (induction bs rule: rev_induct)
  case (snoc b bs)
  have "unat b < 256" using unsigned_less [of b] by simp
  with snoc show ?case by (simp add: algebra_simps)
qed simp

lemma field_bound: "field bs i n < 256 ^ n"
proof -
  have "length (slice bs i (i + n)) \<le> n" by (simp add: slice_def)
  then have "(256 :: nat) ^ length (slice bs i (i + n)) \<le> 256 ^ n"
    by (rule power_increasing) simp
  with be_nat_bound [of "slice bs i (i + n)"] have "be_nat (slice bs i (i + n)) < 256 ^ n"
    by (rule less_le_trans)
  then show ?thesis by (simp only: field_def)
qed

lemma length_slice [simp]: "j \<le> length bs \<Longrightarrow> length (slice bs i j) = j - i"
  by (simp add: slice_def)

lemma slice_append_right: "i = length xs + k \<Longrightarrow> slice (xs @ ys) i (i + n) = slice ys k (k + n)"
  by (simp add: slice_def)

lemma slice_append_left: "i + n \<le> length xs \<Longrightarrow> slice (xs @ ys) i (i + n) = slice xs i (i + n)"
  by (simp add: slice_def)

lemma slice_all: "n = length xs \<Longrightarrow> slice (xs @ ys) 0 n = xs"
  by (simp add: slice_def)

lemma field_append_right: "i \<ge> length xs \<Longrightarrow> field (xs @ ys) i n = field ys (i - length xs) n"
  by (simp add: field_def slice_def)

lemma field_append_left: "i + n \<le> length xs \<Longrightarrow> field (xs @ ys) i n = field xs i n"
  by (simp add: field_def slice_def)

lemma field_be_bytes: "field (be_bytes n v @ ys) 0 n = v mod 256 ^ n"
  by (simp add: field_def slice_def)

lemma field_be_bytes_end: "field (be_bytes n v) 0 n = v mod 256 ^ n"
  by (simp add: field_def slice_def)

lemmas wire_read = field_append_right field_append_left field_be_bytes field_be_bytes_end

end
