(* ===== verification/Obs_Metrics.thy ===== *)
theory Obs_Metrics
  imports Obs_Store
begin

text \<open>
  \<open>observability/metrics.py\<close>: the counters and gauges of the pipeline, and the warnings that are
  written at most once a minute per key. Locks are left out: each operation is one step.
\<close>

record metrics =
  mt_counters :: "int dict"
  mt_gauges :: "int dict"
  mt_warned :: "rat dict"

definition metrics_empty :: metrics where
  "metrics_empty = \<lparr>mt_counters = [], mt_gauges = [], mt_warned = []\<rparr>"

text \<open>\<open>sorted(labels.items())\<close>: the keys of a call are distinct, so only they are compared.\<close>

fun insert_label :: "string \<times> string \<Rightarrow> (string \<times> string) list \<Rightarrow> (string \<times> string) list" where
  "insert_label l [] = [l]"
| "insert_label l (m # ms) = (if text_le (fst l) (fst m) then l # m # ms else m # insert_label l ms)"

definition metric_key :: "string \<Rightarrow> (string \<times> string) list \<Rightarrow> string" where
  "metric_key name labels =
     (if labels = [] then name
      else name @ ''{'' @ str_join '','' (map (\<lambda>(k, v). k @ ''='' @ v) (foldr insert_label labels [])) @ ''}'')"

definition counter :: "metrics \<Rightarrow> string \<Rightarrow> int" where
  "counter m key = (case dict_get (mt_counters m) key of None \<Rightarrow> 0 | Some n \<Rightarrow> n)"

definition metric_inc :: "string \<Rightarrow> int \<Rightarrow> (string \<times> string) list \<Rightarrow> metrics \<Rightarrow> metrics" where
  "metric_inc name amount labels m =
     (let key = metric_key name labels in
      m\<lparr>mt_counters := dict_set key (counter m key + amount) (mt_counters m)\<rparr>)"

definition set_gauge :: "string \<Rightarrow> int \<Rightarrow> (string \<times> string) list \<Rightarrow> metrics \<Rightarrow> metrics" where
  "set_gauge name value labels m = m\<lparr>mt_gauges := dict_set (metric_key name labels) value (mt_gauges m)\<rparr>"

text \<open>The instant of the last warning starts at 0.0, and the clock of the process is \<open>time.monotonic()\<close>.\<close>

definition should_warn :: "rat \<Rightarrow> string \<Rightarrow> metrics \<Rightarrow> metrics \<times> bool" where
  "should_warn now key m =
     (let last = (case dict_get (mt_warned m) key of None \<Rightarrow> 0 | Some t \<Rightarrow> t) in
      if now - last \<ge> 60 then (m\<lparr>mt_warned := dict_set key now (mt_warned m)\<rparr>, True) else (m, False))"

lemma counter_inc: "counter (metric_inc name amount labels m) key
    = (if key = metric_key name labels then counter m key + amount else counter m key)"
  by (simp add: metric_inc_def counter_def Let_def)

lemma counter_warn [simp]: "counter (fst (should_warn now k m)) key = counter m key"
  by (simp add: should_warn_def counter_def Let_def)

text \<open>Two warnings for one key are at least a minute apart.\<close>

lemma should_warn_spaced:
  assumes "snd (should_warn t1 key m)" and "snd (should_warn t2 key (fst (should_warn t1 key m)))"
  shows "t1 + 60 \<le> t2"
  using assms by (auto simp: should_warn_def Let_def split: if_splits)

end
