(* ===== verification/Netflow.thy ===== *)
theory Netflow
  imports Wire Obs_Metrics
begin

text \<open>
  \<open>observability/ingesters/ipfix.py\<close>: the decoder of NetFlow v5, NetFlow v9 and IPFIX datagrams with
  its state, the templates each exporter announced and the data sets that arrived before their
  template. The clock (\<open>time.monotonic()\<close>) is an argument that does not advance inside a datagram.
  The only exception the code can reach is the \<open>struct.error\<close> of a header that does not fit; it is
  raised before any change of state, and \<open>parse\<close> turns it into an empty list and a counter.
\<close>

text \<open>A normalized record.\<close>

record flow_rec =
  fr_src :: string
  fr_dst :: string
  fr_proto :: "nat option"
  fr_dport :: "nat option"
  fr_bytes :: nat
  fr_packets :: nat
  fr_end :: nat
  fr_exporter :: string

definition mk_record :: "string \<Rightarrow> string \<Rightarrow> nat option \<Rightarrow> nat option \<Rightarrow> nat \<Rightarrow> nat \<Rightarrow> nat \<Rightarrow> string \<Rightarrow> flow_rec" where
  "mk_record src dst proto dport nbytes npkts end_ts exporter =
     \<lparr>fr_src = src, fr_dst = dst, fr_proto = proto, fr_dport = dport, fr_bytes = nbytes,
      fr_packets = npkts, fr_end = end_ts, fr_exporter = exporter\<rparr>"

section \<open>NetFlow v5\<close>

definition v5_record :: "bytes \<Rightarrow> nat \<Rightarrow> nat \<Rightarrow> string \<Rightarrow> flow_rec" where
  "v5_record data off unix_secs exporter =
     mk_record (ipv4_text (slice data off (off + 4))) (ipv4_text (slice data (off + 4) (off + 8)))
       (Some (field data (off + 38) 1)) (Some (field data (off + 34) 2))
       (field data (off + 20) 4) (field data (off + 16) 4) unix_secs exporter"

fun v5_records :: "bytes \<Rightarrow> nat \<Rightarrow> nat \<Rightarrow> nat \<Rightarrow> string \<Rightarrow> flow_rec list" where
  "v5_records data 0 off unix_secs exporter = []"
| "v5_records data (Suc n) off unix_secs exporter =
     (if off + 48 > length data then []
      else v5_record data off unix_secs exporter # v5_records data n (off + 48) unix_secs exporter)"

definition parse_v5 :: "bytes \<Rightarrow> string \<Rightarrow> flow_rec list option" where
  "parse_v5 data exporter =
     (if length data < 24 then None
      else Some (v5_records data (min (field data 2 2) 30) 24 (field data 8 4) exporter))"

section \<open>The template cache and the data sets that wait for a template\<close>

text \<open>A field of a template: the number of the information element, negative for an enterprise one, and its length.\<close>

type_synonym tfields = "(int \<times> nat) list"
type_synonym tkey = "string \<times> nat \<times> nat"
type_synonym waiting = "bytes \<times> string \<times> nat"

record nf_state =
  nf_templates :: "(tkey \<times> (tfields \<times> rat)) list"
  nf_pending :: "(tkey \<times> waiting list) list"
  nf_decoded :: "flow_rec list"
  nf_metrics :: metrics

definition max_templates :: nat where "max_templates = 1024"
definition template_ttl :: rat where "template_ttl = 1800"
definition max_pending_sets :: nat where "max_pending_sets = 256"

definition nf_init :: nf_state where
  "nf_init = \<lparr>nf_templates = [], nf_pending = [], nf_decoded = [], nf_metrics = metrics_empty\<rparr>"

definition nf_count :: "string \<Rightarrow> (string \<times> string) list \<Rightarrow> nf_state \<Rightarrow> nf_state" where
  "nf_count name labels st = st\<lparr>nf_metrics := metric_inc name 1 labels (nf_metrics st)\<rparr>"

text \<open>\<open>min(_templates, key=lambda k: _templates[k][1])\<close>: the first of the oldest entries.\<close>

fun oldest_entry :: "(tkey \<times> (tfields \<times> rat)) \<Rightarrow> (tkey \<times> (tfields \<times> rat)) list \<Rightarrow> tkey" where
  "oldest_entry b [] = fst b"
| "oldest_entry b (e # es) = oldest_entry (if snd (snd e) < snd (snd b) then e else b) es"

definition drop_oldest :: "(tkey \<times> (tfields \<times> rat)) list \<Rightarrow> (tkey \<times> (tfields \<times> rat)) list" where
  "drop_oldest ts = (case ts of [] \<Rightarrow> [] | e # es \<Rightarrow> AList.delete (oldest_entry e es) ts)"

lemma oldest_entry_mem: "oldest_entry b es \<in> fst ` set (b # es)"
proof (induction es arbitrary: b)
  case (Cons e es)
  from Cons [of b] Cons [of e] show ?case by (cases "snd (snd e) < snd (snd b)") auto
qed simp

lemma length_delete_mem: "k \<in> fst ` set ts \<Longrightarrow> length (AList.delete k ts) < length ts"
  by (induction ts) (auto simp: AList.delete_eq le_imp_less_Suc length_filter_le)

lemma length_drop_oldest: "ts \<noteq> [] \<Longrightarrow> length (drop_oldest ts) < length ts"
  using length_delete_mem [OF oldest_entry_mem] by (cases ts) (simp_all add: drop_oldest_def)

function evict_oldest :: "(tkey \<times> (tfields \<times> rat)) list \<Rightarrow> (tkey \<times> (tfields \<times> rat)) list" where
  "evict_oldest ts = (if length ts > max_templates then evict_oldest (drop_oldest ts) else ts)"
  by pat_completeness auto
termination
proof (relation "measure length")
  fix ts :: "(tkey \<times> (tfields \<times> rat)) list"
  assume "length ts > max_templates"
  then have "ts \<noteq> []" by auto
  then show "(drop_oldest ts, ts) \<in> measure length" by (simp add: length_drop_oldest)
qed simp

declare evict_oldest.simps [simp del]

definition evict_if_needed :: "rat \<Rightarrow> (tkey \<times> (tfields \<times> rat)) list \<Rightarrow> (tkey \<times> (tfields \<times> rat)) list" where
  "evict_if_needed now ts =
     (if length ts \<le> max_templates then ts
      else evict_oldest (filter (\<lambda>(k, f, t). \<not> now - t > template_ttl) ts))"

section \<open>Data records\<close>

definition reclen :: "tfields \<Rightarrow> nat" where
  "reclen fds = sum_list (map snd (filter (\<lambda>(ie, l). l \<noteq> 65535) fds))"

definition has_var :: "tfields \<Rightarrow> bool" where
  "has_var fds = list_ex (\<lambda>(ie, l). l = 65535) fds"

text \<open>The length of a field: announced, or read from the record when it is variable (RFC 7011, 7).\<close>

definition var_length :: "bytes \<Rightarrow> nat \<Rightarrow> (nat \<times> nat) option" where
  "var_length payload pos =
     (if pos \<ge> length payload then None
      else let l = unat (payload ! pos) in
        if l = 255 then map_option (\<lambda>l'. (l', pos + 3)) (unpack 2 payload (pos + 1))
        else Some (l, pos + 1))"

fun decode_one_var :: "bytes \<Rightarrow> nat \<Rightarrow> tfields \<Rightarrow> (int \<times> bytes) list \<Rightarrow> ((int \<times> bytes) list \<times> nat) option" where
  "decode_one_var payload pos [] rc = Some (rc, pos)"
| "decode_one_var payload pos ((ie, len) # fs) rc =
     (case (if len = 65535 then var_length payload pos else Some (len, pos)) of
        None \<Rightarrow> None
      | Some (l, p) \<Rightarrow>
          if p + l > length payload then None
          else decode_one_var payload (p + l) fs (AList.update ie (slice payload p (p + l)) rc))"

fun decode_fixed :: "bytes \<Rightarrow> nat \<Rightarrow> tfields \<Rightarrow> (int \<times> bytes) list \<Rightarrow> (int \<times> bytes) list" where
  "decode_fixed payload pos [] rc = rc"
| "decode_fixed payload pos ((ie, len) # fs) rc =
     decode_fixed payload (pos + len) fs (AList.update ie (slice payload pos (pos + len)) rc)"

definition rec_uint :: "(int \<times> bytes) list \<Rightarrow> int \<Rightarrow> nat" where
  "rec_uint rc ie = (case map_of rc ie of None \<Rightarrow> 0 | Some b \<Rightarrow> be_nat b)"

definition rec_addr :: "(int \<times> bytes) list \<Rightarrow> int \<Rightarrow> int \<Rightarrow> string option" where
  "rec_addr rc ie4 ie6 =
     (case map_of rc ie4 of
        Some b \<Rightarrow> if length b = 4 then Some (ipv4_text b)
                 else (case map_of rc ie6 of Some c \<Rightarrow> if length c = 16 then Some (ipv6_text c) else None | None \<Rightarrow> None)
      | None \<Rightarrow> (case map_of rc ie6 of Some c \<Rightarrow> if length c = 16 then Some (ipv6_text c) else None | None \<Rightarrow> None))"

definition nonzero :: "nat \<Rightarrow> nat option" where
  "nonzero n = (if n = 0 then None else Some n)"

definition normalize_rec :: "(int \<times> bytes) list \<Rightarrow> string \<Rightarrow> nat \<Rightarrow> flow_rec option" where
  "normalize_rec rc exporter export_ts =
     (case (rec_addr rc 8 27, rec_addr rc 12 28) of
        (Some src, Some dst) \<Rightarrow>
          let end_ts = (if map_of rc 151 \<noteq> None then rec_uint rc 151
                        else if map_of rc 153 \<noteq> None then rec_uint rc 153 div 1000
                        else export_ts) in
          Some (mk_record src dst (nonzero (rec_uint rc 4)) (nonzero (rec_uint rc 11))
                 (rec_uint rc 1) (rec_uint rc 2) end_ts exporter)
      | _ \<Rightarrow> None)"

section \<open>Data sets\<close>

definition decode_one :: "bytes \<Rightarrow> nat \<Rightarrow> tfields \<Rightarrow> ((int \<times> bytes) list \<times> nat) option" where
  "decode_one payload off fds =
     (if has_var fds then decode_one_var payload off fds []
      else if off + reclen fds > length payload \<or> reclen fds = 0 then None
      else Some (decode_fixed payload off fds [], off + reclen fds))"

lemma var_length_progress: "var_length payload pos = Some (l, p) \<Longrightarrow> pos < p"
  by (auto simp: var_length_def Let_def split: if_splits)

lemma decode_one_var_mono:
  "decode_one_var payload pos fds rc = Some (r, p) \<Longrightarrow> pos \<le> p \<and> (fds \<noteq> [] \<longrightarrow> p \<le> length payload)
     \<and> (has_var fds \<longrightarrow> pos < p)"
proof (induction payload pos fds rc rule: decode_one_var.induct)
  case (2 payload pos ie len fs rc)
  from "2.prems" obtain l q where q: "(if len = 65535 then var_length payload pos else Some (len, pos)) = Some (l, q)"
    and le: "\<not> q + l > length payload"
    and rest: "decode_one_var payload (q + l) fs (AList.update ie (slice payload q (q + l)) rc) = Some (r, p)"
    by (auto split: option.splits if_splits)
  from "2.IH" [OF q refl le rest] q le rest var_length_progress [of payload pos l q] show ?case
    by (cases "fs = []") (auto simp: has_var_def split: if_splits)
qed (simp add: has_var_def)

lemma decode_one_progress: "decode_one payload off fds = Some (r, p) \<Longrightarrow> off < p \<and> p \<le> length payload"
  using decode_one_var_mono [of payload off fds "[]" r p]
  by (cases fds) (auto simp: decode_one_def has_var_def split: if_splits)

text \<open>
  The loop of \<open>_decode_data\<close>. A successful step moves the offset forward within the payload: a
  template with a variable field consumes its length byte, a fixed one its record length.
\<close>

function decode_loop :: "bytes \<Rightarrow> nat \<Rightarrow> tfields \<Rightarrow> string \<Rightarrow> nat \<Rightarrow> flow_rec option list" where
  "decode_loop payload off fds exporter export_ts =
     (case decode_one payload off fds of
        None \<Rightarrow> []
      | Some (rc, off') \<Rightarrow> normalize_rec rc exporter export_ts # decode_loop payload off' fds exporter export_ts)"
  by pat_completeness auto
termination
  by (relation "measure (\<lambda>(payload, off, _). length payload - off)")
     (auto dest!: decode_one_progress)

declare decode_loop.simps [simp del]

definition decode_data :: "bytes \<Rightarrow> tfields \<Rightarrow> string \<Rightarrow> nat \<Rightarrow> flow_rec list" where
  "decode_data payload fds exporter export_ts =
     List.map_filter (\<lambda>r. r) (decode_loop payload 0 fds exporter export_ts)"

definition drop_pending :: "tkey \<Rightarrow> nf_state \<Rightarrow> nf_state \<times> waiting list" where
  "drop_pending key st =
     (st\<lparr>nf_pending := AList.delete key (nf_pending st)\<rparr>,
      case map_of (nf_pending st) key of None \<Rightarrow> [] | Some ws \<Rightarrow> ws)"

definition store_template :: "rat \<Rightarrow> tkey \<Rightarrow> tfields \<Rightarrow> nf_state \<Rightarrow> nf_state" where
  "store_template now key fds st =
     (let st1 = st\<lparr>nf_templates := evict_if_needed now (AList.update key (fds, now) (nf_templates st))\<rparr>;
          (st2, ws) = drop_pending key st1 in
      st2\<lparr>nf_decoded := nf_decoded st2
            @ concat (map (\<lambda>(payload, exporter, export_ts). decode_data payload fds exporter export_ts) ws)\<rparr>)"

definition get_template :: "rat \<Rightarrow> tkey \<Rightarrow> nf_state \<Rightarrow> nf_state \<times> tfields option" where
  "get_template now key st =
     (case map_of (nf_templates st) key of
        None \<Rightarrow> (st, None)
      | Some (fds, ts) \<Rightarrow>
          if now - ts > template_ttl then (st\<lparr>nf_templates := AList.delete key (nf_templates st)\<rparr>, None)
          else (st, Some fds))"

definition pending_total :: "nf_state \<Rightarrow> nat" where
  "pending_total st = sum_list (map (\<lambda>(k, ws). length ws) (nf_pending st))"

definition buffer_pending :: "tkey \<Rightarrow> bytes \<Rightarrow> string \<Rightarrow> nat \<Rightarrow> nf_state \<Rightarrow> nf_state" where
  "buffer_pending key payload exporter export_ts st =
     (if pending_total st \<ge> max_pending_sets then nf_count ''data_before_template_dropped'' [] st
      else let ws = (case map_of (nf_pending st) key of None \<Rightarrow> [] | Some ws \<Rightarrow> ws) in
        st\<lparr>nf_pending := AList.update key (ws @ [(payload, exporter, export_ts)]) (nf_pending st)\<rparr>)"

section \<open>Template sets\<close>

text \<open>The fields of one template: whether they were all there, the fields, and the offset after them.\<close>

fun template_fields :: "bytes \<Rightarrow> bool \<Rightarrow> nat \<Rightarrow> nat \<Rightarrow> tfields \<Rightarrow> bool \<times> tfields \<times> nat" where
  "template_fields payload enterprise 0 off acc = (True, acc, off)"
| "template_fields payload enterprise (Suc n) off acc =
     (if off + 4 > length payload then (False, acc, off)
      else let ie = field payload off 2; len = field payload (off + 2) 2 in
        if enterprise \<and> bit ie 15
        then template_fields payload enterprise n (off + 8) (acc @ [(- int (ie mod 32768), len)])
        else template_fields payload enterprise n (off + 4) (acc @ [(int ie, len)]))"

lemma template_fields_offset: "off \<le> snd (snd (template_fields payload enterprise n off acc))"
proof (induction payload enterprise n off acc rule: template_fields.induct)
  case (2 payload enterprise n off acc)
  show ?case
    using "2.IH" (1,2) [OF _ refl refl] by (auto simp: Let_def intro: order_trans [rotated])
qed simp

function parse_template_set ::
    "bytes \<Rightarrow> nat \<Rightarrow> string \<Rightarrow> nat \<Rightarrow> bool \<Rightarrow> rat \<Rightarrow> nf_state \<Rightarrow> nf_state" where
  "parse_template_set payload off exporter odid enterprise now st =
     (if off + 4 \<le> length payload then
        let tid = field payload off 2; n = field payload (off + 2) 2;
            (ok, fds, off') = template_fields payload enterprise n (off + 4) [];
            st' = (if ok \<and> fds \<noteq> [] then store_template now (exporter, odid, tid) fds st else st) in
        parse_template_set payload off' exporter odid enterprise now st'
      else st)"
  by pat_completeness auto
termination
proof (relation "measure (\<lambda>(payload, off, _). length payload - off)", simp, goal_cases)
  case (1 payload off exporter odid enterprise now st tid n p ok p' fds off' st')
  with template_fields_offset [of "off + 4" payload enterprise n "[]"] show ?case
    by (auto dest!: arg_cong [where f = "\<lambda>x. snd (snd x)"])
qed

declare parse_template_set.simps [simp del]

section \<open>Datagrams\<close>

text \<open>
  The loop over the sets of a NetFlow v9 or an IPFIX message. The two versions differ in the number
  of the template set (0 or 2), of the options template set that is skipped (1 or 3) and in whether
  enterprise fields exist.
\<close>

definition process_set ::
    "nat \<Rightarrow> bool \<Rightarrow> rat \<Rightarrow> string \<Rightarrow> nat \<Rightarrow> nat \<Rightarrow> nat \<Rightarrow> bytes \<Rightarrow> nf_state \<Rightarrow> nf_state \<times> flow_rec list" where
  "process_set template_id enterprise now exporter odid export_ts set_id payload st =
     (if set_id = template_id then (parse_template_set payload 0 exporter odid enterprise now st, [])
      else if set_id = template_id + 1 then (st, [])
      else if set_id > 255 then
        (let key = (exporter, odid, set_id) in
         case get_template now key st of
           (st', Some fds) \<Rightarrow>
             if fds \<noteq> [] then (st', decode_data payload fds exporter export_ts)
             else (buffer_pending key payload exporter export_ts st', [])
         | (st', None) \<Rightarrow> (buffer_pending key payload exporter export_ts st', []))
      else (st, []))"

function walk_sets ::
    "nat \<Rightarrow> bool \<Rightarrow> rat \<Rightarrow> string \<Rightarrow> nat \<Rightarrow> nat \<Rightarrow> bytes \<Rightarrow> nat \<Rightarrow> nf_state \<times> flow_rec list \<Rightarrow> nf_state \<times> flow_rec list" where
  "walk_sets template_id enterprise now exporter odid export_ts data off acc =
     (if off + 4 \<le> length data then
        let set_id = field data off 2; set_len = field data (off + 2) 2 in
        if set_len < 4 \<or> off + set_len > length data then acc
        else case process_set template_id enterprise now exporter odid export_ts set_id
               (slice data (off + 4) (off + set_len)) (fst acc) of
          (st', recs) \<Rightarrow> walk_sets template_id enterprise now exporter odid export_ts data
                           (off + set_len) (st', snd acc @ recs)
      else acc)"
  by pat_completeness auto
termination
  by (relation "measure (\<lambda>(_, _, _, _, _, _, data, off, _). length data - off)") auto

declare walk_sets.simps [simp del]

definition drain_decoded :: "nf_state \<times> flow_rec list \<Rightarrow> nf_state \<times> flow_rec list" where
  "drain_decoded acc = (case acc of (st, recs) \<Rightarrow> (st\<lparr>nf_decoded := []\<rparr>, recs @ nf_decoded st))"

definition parse_v9 :: "rat \<Rightarrow> bytes \<Rightarrow> string \<Rightarrow> nf_state \<Rightarrow> (nf_state \<times> flow_rec list) option" where
  "parse_v9 now data exporter st =
     (if length data < 20 then None
      else Some (drain_decoded
        (walk_sets 0 False now exporter (field data 16 4) (field data 8 4) data 20 (st, []))))"

definition parse_ipfix :: "rat \<Rightarrow> bytes \<Rightarrow> string \<Rightarrow> nf_state \<Rightarrow> (nf_state \<times> flow_rec list) option" where
  "parse_ipfix now data exporter st =
     (if length data < 16 then None
      else Some (drain_decoded
        (walk_sets 2 True now exporter (field data 12 4) (field data 4 4) data 16 (st, []))))"

definition netflow_error :: "nf_state \<Rightarrow> nf_state \<times> flow_rec list" where
  "netflow_error st = (nf_count ''parse_errors'' [(''proto'', ''netflow'')] st, [])"

definition netflow_parse :: "rat \<Rightarrow> bytes \<Rightarrow> string \<Rightarrow> nf_state \<Rightarrow> nf_state \<times> flow_rec list" where
  "netflow_parse now data exporter st =
     (if length data < 4 then (st, [])
      else case (if field data 0 2 = 5 then map_option (Pair st) (parse_v5 data exporter)
                 else if field data 0 2 = 9 then parse_v9 now data exporter st
                 else if field data 0 2 = 10 then parse_ipfix now data exporter st
                 else None) of
        None \<Rightarrow> netflow_error st
      | Some r \<Rightarrow> r)"

end
