(* ===== verification/Netflow_Sound.thy ===== *)
theory Netflow_Sound
  imports Netflow
begin

text \<open>
  What the flow decoder guarantees over any sequence of datagrams: its two tables keep their bounds,
  and a record is attributed to the exporter whose datagram produced it. Then the encoders of RFC
  3954 are written down and shown to be read back, whatever the order in which a template and its
  data arrive, and the cost of the bounded buffer is stated.
\<close>

declare add_2_eq_Suc' [simp del] add_2_eq_Suc [simp del]

section \<open>The state between datagrams\<close>

definition nf_ok :: "nf_state \<Rightarrow> bool" where
  "nf_ok st \<longleftrightarrow> length (nf_templates st) \<le> max_templates \<and> distinct (map fst (nf_templates st))
     \<and> pending_total st \<le> max_pending_sets \<and> distinct (map fst (nf_pending st))
     \<and> list_all (\<lambda>e. fst (snd e) \<noteq> []) (nf_templates st)
     \<and> list_all (\<lambda>(k, ws). list_all (\<lambda>(payload, exporter, ts). exporter = fst k) ws) (nf_pending st)"

text \<open>Inside a datagram of \<open>e\<close> the records that wait to be drained are of \<open>e\<close> as well.\<close>

definition nf_ok_for :: "string \<Rightarrow> nf_state \<Rightarrow> bool" where
  "nf_ok_for e st \<longleftrightarrow> nf_ok st \<and> list_all (\<lambda>r. fr_exporter r = e) (nf_decoded st)"

lemma normalize_rec_exporter: "normalize_rec rc e ts = Some r \<Longrightarrow> fr_exporter r = e"
  by (auto simp: normalize_rec_def mk_record_def Let_def split: option.splits)

lemma decode_loop_exporter: "Some r \<in> set (decode_loop payload off fds e ts) \<Longrightarrow> fr_exporter r = e"
proof (induction payload off fds e ts rule: decode_loop.induct)
  case (1 payload off fds e ts)
  show ?case
  proof (cases "decode_one payload off fds")
    case None
    with "1.prems" show ?thesis by (simp add: decode_loop.simps [of payload off])
  next
    case (Some x)
    obtain rc off' where x: "x = (rc, off')" by fastforce
    from "1.prems" consider "Some r = normalize_rec rc e ts" | "Some r \<in> set (decode_loop payload off' fds e ts)"
      by (subst (asm) decode_loop.simps [of payload off]) (auto simp: Some x)
    with "1.IH" [OF Some x [symmetric]] show ?thesis by cases (auto dest: normalize_rec_exporter [OF sym])
  qed
qed

lemma decode_data_exporter: "list_all (\<lambda>r. fr_exporter r = e) (decode_data payload fds e ts)"
  by (auto simp: decode_data_def list_all_iff List.map_filter_def decode_loop_exporter)

lemma drop_oldest_sub: "\<exists>P. drop_oldest ts = filter P ts"
  unfolding drop_oldest_def AList.delete_eq
  by (cases ts) (simp_all only: list.case filter.simps(1) simp_thms, rule exI, rule refl)

lemma evict_oldest_sub: "\<exists>P. evict_oldest ts = filter P ts"
proof (induction ts rule: evict_oldest.induct)
  case (1 ts)
  show ?case
  proof (cases "length ts > max_templates")
    case True
    with 1 obtain P where "evict_oldest (drop_oldest ts) = filter P (drop_oldest ts)" by blast
    with True drop_oldest_sub [of ts] show ?thesis by (subst evict_oldest.simps) auto
  next
    case False
    then show ?thesis by (subst evict_oldest.simps) (auto intro: exI [of _ "\<lambda>_. True"])
  qed
qed

lemma evict_oldest_length: "length (evict_oldest ts) \<le> max_templates"
  by (induction ts rule: evict_oldest.induct) (subst evict_oldest.simps, simp)

lemma evict_if_needed_length: "length (evict_if_needed now ts) \<le> max_templates"
  by (simp add: evict_if_needed_def evict_oldest_length)

lemma evict_if_needed_sub: "\<exists>P. evict_if_needed now ts = filter P ts"
  using evict_oldest_sub [of "filter (\<lambda>(k, f, t). \<not> now - t > template_ttl) ts"]
  by (auto simp: evict_if_needed_def intro: exI [of _ "\<lambda>_. True"])

lemma distinct_map_filter_fst: "distinct (map fst ts) \<Longrightarrow> distinct (map fst (filter P ts))"
  by (rule distinct_map_filter)

lemma pending_sum_le: "sum_list (map f (filter P xs)) \<le> (sum_list (map f xs) :: nat)"
  by (induction xs) auto


lemma list_all_filter: "list_all P xs \<Longrightarrow> list_all P (filter Q xs)"
  by (auto simp: list_all_iff)

lemma list_all_update:
  "list_all P xs \<Longrightarrow> P (k, v) \<Longrightarrow> list_all P (AList.update k v xs)"
  by (induction xs) auto



lemma store_template_ok:
  assumes "nf_ok_for e st" and "fst key = e" and "fds \<noteq> []"
  shows "nf_ok_for e (store_template now key fds st)"
proof -
  let ?ts = "AList.update key (fds, now) (nf_templates st)"
  let ?ws = "case map_of (nf_pending st) key of None \<Rightarrow> [] | Some ws \<Rightarrow> ws"
  obtain P where P: "evict_if_needed now ?ts = filter P ?ts" using evict_if_needed_sub by blast
  have ts: "distinct (map fst (evict_if_needed now ?ts))" "list_all (\<lambda>x. fst (snd x) \<noteq> []) (evict_if_needed now ?ts)"
    using assms by (auto simp: P nf_ok_for_def nf_ok_def distinct_update
        intro!: distinct_map_filter_fst list_all_filter list_all_update)
  have "\<forall>(p, x, t) \<in> set ?ws. x = e"
    using assms by (auto simp: nf_ok_for_def nf_ok_def list_all_iff split: option.splits dest!: map_of_SomeD)
  then have dec: "list_all (\<lambda>r. fr_exporter r = e)
      (concat (map (\<lambda>(payload, exporter, export_ts). decode_data payload fds exporter export_ts) ?ws))"
    using decode_data_exporter [of e] by (fastforce simp: list_all_iff)
  show ?thesis
    using assms ts dec evict_if_needed_length [of now ?ts]
      order_trans [OF pending_sum_le]
    by (auto simp: store_template_def drop_pending_def nf_ok_for_def nf_ok_def pending_total_def Let_def
        AList.delete_eq distinct_map_filter_fst list_all_filter)
qed





text \<open>A run over datagrams, each with the instant of its arrival and the address of its exporter.\<close>

fun nf_run :: "(rat \<times> bytes \<times> string) list \<Rightarrow> nf_state \<Rightarrow> nf_state \<times> flow_rec list list" where
  "nf_run [] st = (st, [])"
| "nf_run ((now, data, e) # ds) st =
     (let (st1, recs) = netflow_parse now data e st; (st2, rest) = nf_run ds st1 in (st2, recs # rest))"

definition nf_settled :: "nf_state \<Rightarrow> bool" where
  "nf_settled st \<longleftrightarrow> nf_ok st \<and> nf_decoded st = []"

lemma nf_settled_for: "nf_settled st \<Longrightarrow> nf_ok_for e st"
  by (simp add: nf_settled_def nf_ok_for_def)

lemma nf_settled_init [simp]: "nf_settled nf_init"
  by (simp add: nf_settled_def nf_ok_def nf_init_def pending_total_def max_pending_sets_def)





section \<open>Encoders\<close>

text \<open>
  RFC 3954: a message is a 20-byte header and sets, a set is its number, its length and a payload;
  a template names its fields, each by element and length, and a record is the field values in order.
\<close>

definition set_bytes :: "nat \<times> bytes \<Rightarrow> bytes" where
  "set_bytes s = be_bytes 2 (fst s) @ be_bytes 2 (length (snd s) + 4) @ snd s"

definition v9_message :: "nat \<Rightarrow> nat \<Rightarrow> (nat \<times> bytes) list \<Rightarrow> bytes" where
  "v9_message secs source sets =
     be_bytes 2 9 @ be_bytes 2 (length sets) @ be_bytes 4 0 @ be_bytes 4 secs @ be_bytes 4 0
       @ be_bytes 4 source @ concat (map set_bytes sets)"

definition template_bytes :: "nat \<times> (nat \<times> nat) list \<Rightarrow> bytes" where
  "template_bytes t = be_bytes 2 (fst t) @ be_bytes 2 (length (snd t))
     @ concat (map (\<lambda>(ie, l). be_bytes 2 ie @ be_bytes 2 l) (snd t))"

definition set_fits :: "nat \<times> bytes \<Rightarrow> bool" where
  "set_fits s \<longleftrightarrow> fst s < 65536 \<and> length (snd s) + 4 < 65536"

definition template_fits :: "nat \<times> (nat \<times> nat) list \<Rightarrow> bool" where
  "template_fits t \<longleftrightarrow> 255 < fst t \<and> fst t < 65536 \<and> snd t \<noteq> [] \<and> length (snd t) < 16000
     \<and> list_all (\<lambda>(ie, l). ie < 65536 \<and> l < 65535) (snd t)"

definition as_fields :: "(nat \<times> nat) list \<Rightarrow> tfields" where
  "as_fields fl = map (\<lambda>(ie, l). (int ie, l)) fl"

lemma field_at: "field (xs @ be_bytes n v @ ys) (length xs) n = v mod 256 ^ n"
  by (simp add: field_append_right field_be_bytes)

lemma field_at': "i = length xs \<Longrightarrow> n = m \<Longrightarrow> field (xs @ be_bytes m v @ ys) i n = v mod 256 ^ n"
  by (simp add: field_at)

lemma walk_sets_concat:
  assumes "list_all set_fits sets"
  shows "walk_sets tsid ent now e odid ets (pre @ concat (map set_bytes sets)) (length pre) acc
    = fold (\<lambda>s (st, recs). case process_set tsid ent now e odid ets (fst s) (snd s) st of
        (st', r) \<Rightarrow> (st', recs @ r)) sets acc"
  using assms
proof (induction sets arbitrary: pre acc)
  case Nil
  then show ?case by (subst walk_sets.simps) simp
next
  case (Cons s sets)
  let ?rest = "concat (map set_bytes sets)"
  let ?data = "pre @ set_bytes s @ ?rest"
  have fits: "fst s < 65536" "length (snd s) + 4 < 65536" using Cons.prems by (auto simp: set_fits_def)
  have id: "field ?data (length pre) 2 = fst s"
    using fits by (simp add: set_bytes_def field_at)
  have len: "field ?data (length pre + 2) 2 = length (snd s) + 4"
    using field_at' [of "length pre + 2" "pre @ be_bytes 2 (fst s)" 2 2 "length (snd s) + 4" "snd s @ ?rest"] fits
    by (simp add: set_bytes_def)
  have sl: "slice ?data (length pre + 4) (length pre + (length (snd s) + 4)) = snd s"
    by (simp add: set_bytes_def slice_def)
  have total: "length pre + (length (snd s) + 4) \<le> length ?data" "length pre + 4 \<le> length ?data"
    by (simp_all add: set_bytes_def)
  have lb: "length (set_bytes s) = length (snd s) + 4" by (simp add: set_bytes_def)
  obtain st1 r1 where p: "process_set tsid ent now e odid ets (fst s) (snd s) (fst acc) = (st1, r1)" by fastforce
  have "walk_sets tsid ent now e odid ets ?data (length pre) acc
    = walk_sets tsid ent now e odid ets ?data (length pre + (length (snd s) + 4)) (st1, snd acc @ r1)"
    by (subst walk_sets.simps) (simp add: id len sl p Let_def lb)
  also have "\<dots> = fold (\<lambda>s (st, recs). case process_set tsid ent now e odid ets (fst s) (snd s) st of
        (st', r) \<Rightarrow> (st', recs @ r)) sets (st1, snd acc @ r1)"
    using Cons.IH [of "pre @ set_bytes s"] Cons.prems by (simp add: lb)
  finally show ?case using p by (cases acc) simp
qed

lemma v9_parse_message:
  assumes "list_all set_fits sets" and "secs < 2 ^ 32" and "source < 2 ^ 32"
  shows "netflow_parse now (v9_message secs source sets) e st
    = drain_decoded (fold (\<lambda>s (st, recs). case process_set 0 False now e source secs (fst s) (snd s) st of
        (st', r) \<Rightarrow> (st', recs @ r)) sets (st, []))"
proof -
  let ?pre = "be_bytes 2 9 @ be_bytes 2 (length sets) @ be_bytes 4 0 @ be_bytes 4 secs @ be_bytes 4 0 @ be_bytes 4 source"
  let ?m = "v9_message secs source sets"
  have m: "?m = ?pre @ concat (map set_bytes sets)" by (simp add: v9_message_def)
  have len: "20 \<le> length ?m" by (simp add: v9_message_def)
  have "field ?m 0 2 = 9" by (simp add: v9_message_def field_be_bytes)
  moreover have "field ?m 8 4 = secs"
    using field_at' [of 8 "be_bytes 2 9 @ be_bytes 2 (length sets) @ be_bytes 4 0" 4 4 secs] assms(2)
    by (simp add: v9_message_def)
  moreover have "field ?m 16 4 = source"
    using field_at' [of 16 "be_bytes 2 9 @ be_bytes 2 (length sets) @ be_bytes 4 0 @ be_bytes 4 secs @ be_bytes 4 0" 4 4 source] assms(3)
    by (simp add: v9_message_def)
  moreover have "walk_sets 0 False now e source secs ?m 20 (st, [])
    = fold (\<lambda>s (st, recs). case process_set 0 False now e source secs (fst s) (snd s) st of
        (st', r) \<Rightarrow> (st', recs @ r)) sets (st, [])"
    using walk_sets_concat [OF assms(1), where pre = ?pre] by (simp add: m)
  ultimately show ?thesis using len by (simp add: netflow_parse_def parse_v9_def)
qed

lemma template_fields_bytes:
  assumes "list_all (\<lambda>(ie, l). ie < 65536 \<and> l < 65535) fl"
  shows "template_fields (pre @ concat (map (\<lambda>(ie, l). be_bytes 2 ie @ be_bytes 2 l) fl) @ post) False
      (length fl) (length pre) acc = (True, acc @ as_fields fl, length pre + 4 * length fl)"
  using assms
proof (induction fl arbitrary: pre acc)
  case (Cons x fl)
  obtain ie l where x: "x = (ie, l)" by fastforce
  let ?rest = "concat (map (\<lambda>(ie, l). be_bytes 2 ie @ be_bytes 2 l) fl) @ post"
  have "field (pre @ be_bytes 2 ie @ be_bytes 2 l @ ?rest) (length pre) 2 = ie"
    "field (pre @ be_bytes 2 ie @ be_bytes 2 l @ ?rest) (length pre + 2) 2 = l"
    using Cons.prems field_at' [of "length pre + 2" "pre @ be_bytes 2 ie" 2 2 l ?rest]
    by (auto simp: x field_at)
  with Cons.IH [of "pre @ be_bytes 2 ie @ be_bytes 2 l" "acc @ [(int ie, l)]"] Cons.prems show ?case
    by (simp add: x Let_def as_fields_def)
qed (simp add: as_fields_def)

lemma parse_template_bytes:
  assumes "template_fits t"
  shows "parse_template_set (template_bytes t) 0 e odid False now st
    = store_template now (e, odid, fst t) (as_fields (snd t)) st"
proof -
  obtain tid fl where t: "t = (tid, fl)" by fastforce
  let ?b = "template_bytes t"
  have fits: "tid < 65536" "fl \<noteq> []" "length fl < 16000" "list_all (\<lambda>(ie, l). ie < 65536 \<and> l < 65535) fl"
    using assms by (auto simp: t template_fits_def)
  have len: "length ?b = 4 + 4 * length fl"
    by (simp add: t template_bytes_def length_concat comp_def case_prod_beta sum_list_triv)
  have f: "template_fields ?b False (length fl) (0 + 4) [] = (True, as_fields fl, 4 + 4 * length fl)"
    using template_fields_bytes [OF fits(4), of "be_bytes 2 tid @ be_bytes 2 (length fl)" "[]" "[]"]
    by (simp add: t template_bytes_def)
  have hdr: "field ?b 0 2 = tid" "field ?b (0 + 2) 2 = length fl"
    using fits field_at' [of 2 "be_bytes 2 tid" 2 2 "length fl"]
    by (simp_all add: t template_bytes_def field_be_bytes)
  have ne: "as_fields fl \<noteq> []" using fits by (simp add: as_fields_def)
  have stop: "parse_template_set ?b (4 + 4 * length fl) e odid False now st' = st'" for st'
    by (subst parse_template_set.simps) (simp add: len)
  show ?thesis
    by (subst parse_template_set.simps)
       (simp add: len hdr [unfolded add_0] f [unfolded add_0] ne stop Let_def, simp add: t)
qed

section \<open>Data records read back\<close>

definition sized :: "(nat \<times> nat) list \<Rightarrow> bytes list \<Rightarrow> bool" where
  "sized fl vs \<longleftrightarrow> list_all2 (\<lambda>(ie, l) v. length v = l) fl vs"

definition record_of :: "(nat \<times> nat) list \<Rightarrow> bytes list \<Rightarrow> (int \<times> bytes) list" where
  "record_of fl vs = zip (map (int \<circ> fst) fl) vs"

lemma update_new: "k \<notin> fst ` set rc \<Longrightarrow> AList.update k v rc = rc @ [(k, v)]"
  by (induction rc) auto

lemma decode_fixed_concat:
  assumes "sized fl vs" and "distinct (map fst fl)" and "\<forall>x \<in> set fl. int (fst x) \<notin> fst ` set rc"
  shows "decode_fixed (pre @ concat vs @ post) (length pre) (as_fields fl) rc = rc @ record_of fl vs"
  using assms
proof (induction fl arbitrary: vs pre rc)
  case (Cons x fl)
  obtain ie l where x: "x = (ie, l)" by fastforce
  from Cons.prems(1) obtain v ws where vs: "vs = v # ws" "length v = l" "sized fl ws"
    by (auto simp: x sized_def list_all2_Cons1)
  have "slice (pre @ concat vs @ post) (length pre) (length pre + l) = v"
    using vs by (simp add: slice_def)
  with Cons.IH [OF vs(3), of "rc @ [(int ie, v)]" "pre @ v"] Cons.prems vs show ?case
    by (auto simp: x as_fields_def record_of_def update_new)
qed (simp add: sized_def as_fields_def record_of_def)

definition fields_length :: "(nat \<times> nat) list \<Rightarrow> nat" where
  "fields_length fl = sum_list (map snd fl)"

lemma sized_length: "sized fl vs \<Longrightarrow> length (concat vs) = fields_length fl"
  unfolding sized_def by (induction rule: list_all2_induct) (auto simp: fields_length_def)

lemma fixed_fields:
  assumes "list_all (\<lambda>(ie, l). ie < 65536 \<and> l < 65535) fl"
  shows "\<not> has_var (as_fields fl)" and "reclen (as_fields fl) = fields_length fl"
  using assms by (induction fl) (auto simp: as_fields_def has_var_def reclen_def fields_length_def)

lemma decode_loop_records:
  assumes "list_all (sized fl) recs" and "distinct (map fst fl)" and "list_all (\<lambda>(ie, l). ie < 65536 \<and> l < 65535) fl"
    and "length pad < fields_length fl"
  shows "decode_loop (pre @ concat (map concat recs) @ pad) (length pre) (as_fields fl) e ts
    = map (\<lambda>vs. normalize_rec (record_of fl vs) e ts) recs"
  using assms(1)
proof (induction recs arbitrary: pre)
  case Nil
  then show ?case
    using assms by (subst decode_loop.simps) (simp add: decode_one_def fixed_fields)
next
  case (Cons vs recs)
  let ?rest = "concat (map concat recs) @ pad"
  let ?data = "pre @ concat vs @ ?rest"
  have vs: "sized fl vs" using Cons.prems by simp
  have "decode_fixed ?data (length pre) (as_fields fl) [] = record_of fl vs"
    using decode_fixed_concat [OF vs assms(2), of "[]" pre] by simp
  then have "decode_one ?data (length pre) (as_fields fl) = Some (record_of fl vs, length (pre @ concat vs))"
    using assms sized_length [OF vs] by (auto simp: decode_one_def fixed_fields)
  moreover have "decode_loop ?data (length (pre @ concat vs)) (as_fields fl) e ts
    = map (\<lambda>vs. normalize_rec (record_of fl vs) e ts) recs"
    using Cons.IH [of "pre @ concat vs"] Cons.prems by simp
  ultimately have "decode_loop ?data (length pre) (as_fields fl) e ts
    = normalize_rec (record_of fl vs) e ts # map (\<lambda>vs. normalize_rec (record_of fl vs) e ts) recs"
    by (subst decode_loop.simps) simp
  then show ?case by simp
qed

lemma decode_data_records:
  assumes "list_all (sized fl) recs" and "distinct (map fst fl)" and "list_all (\<lambda>(ie, l). ie < 65536 \<and> l < 65535) fl"
    and "length pad < fields_length fl"
  shows "decode_data (concat (map concat recs) @ pad) (as_fields fl) e ts
    = List.map_filter (\<lambda>vs. normalize_rec (record_of fl vs) e ts) recs"
  using decode_loop_records [OF assms, of "[]" e ts]
  by (simp add: decode_data_def List.map_filter_def comp_def filter_map)

section \<open>A stored template is found again\<close>

definition nf_clock :: "rat \<Rightarrow> nf_state \<Rightarrow> bool" where
  "nf_clock now st \<longleftrightarrow> list_all (\<lambda>x. snd (snd x) \<le> now) (nf_templates st)"

lemma nf_init_simps [simp]: "nf_templates nf_init = []" "nf_pending nf_init = []" "nf_decoded nf_init = []"
  by (simp_all add: nf_init_def)

lemma nf_clock_init [simp]: "nf_clock now nf_init"
  by (simp add: nf_clock_def)

lemma oldest_entry_newest:
  "snd (snd b) \<le> now \<Longrightarrow> oldest_entry b (es @ [(key, v, now)]) = oldest_entry b es"
  by (induction es arbitrary: b) auto

lemma delete_notin: "k \<noteq> key \<Longrightarrow> map_of (AList.delete k ts) key = map_of ts key"
  by (simp add: delete_conv')

lemma evict_keeps_newest:
  assumes "length (AList.update key (fds, now) ts) \<le> Suc max_templates" and "distinct (map fst ts)"
    and "list_all (\<lambda>x. snd (snd x) \<le> now) ts" and "length ts \<le> max_templates"
  shows "map_of (evict_if_needed now (AList.update key (fds, now) ts)) key = Some (fds, now)"
proof (cases "length (AList.update key (fds, now) ts) \<le> max_templates")
  case True
  then show ?thesis by (simp add: evict_if_needed_def update_conv')
next
  case False
  have new: "key \<notin> fst ` set ts"
  proof
    assume "key \<in> fst ` set ts"
    then have "length (AList.update key (fds, now) ts) = length ts" by (induction ts) auto
    with False assms(4) show False by simp
  qed
  define us where "us = filter (\<lambda>(k, f, t). \<not> now - t > template_ttl) ts"
  have us: "filter (\<lambda>(k, f, t). \<not> now - t > template_ttl) (AList.update key (fds, now) ts) = us @ [(key, fds, now)]"
    using new by (simp add: update_new us_def template_ttl_def)
  have notin: "key \<notin> fst ` set us" using new by (auto simp: us_def)
  have found: "map_of (us @ [(key, fds, now)]) key = Some (fds, now)"
    using notin by (simp add: map_add_def map_of_eq_None_iff [THEN iffD2])
  have "length us \<le> max_templates" using assms(4) length_filter_le order_trans unfolding us_def by blast
  have "map_of (evict_oldest (us @ [(key, fds, now)])) key = Some (fds, now)"
  proof (cases "length (us @ [(key, fds, now)]) > max_templates")
    case small: False
    then show ?thesis using found by (subst evict_oldest.simps) simp
  next
    case True
    then obtain b es where be: "us = b # es"
      by (cases us) (auto simp: max_templates_def)
    have "snd (snd b) \<le> now" using assms(3) be by (auto simp: us_def list_all_iff dest: sym [THEN Cons_eq_filterD])
    then have old: "oldest_entry b (es @ [(key, fds, now)]) = oldest_entry b es"
      by (rule oldest_entry_newest)
    have mem: "oldest_entry b es \<in> fst ` set us" using oldest_entry_mem [of b es] by (simp add: be)
    have drop: "drop_oldest (us @ [(key, fds, now)]) = AList.delete (oldest_entry b es) (us @ [(key, fds, now)])"
      by (simp add: drop_oldest_def be old)
    have "length (drop_oldest (us @ [(key, fds, now)])) \<le> max_templates"
      using length_drop_oldest [of "us @ [(key, fds, now)]"] \<open>length us \<le> max_templates\<close> by simp
    then have "evict_oldest (us @ [(key, fds, now)]) = AList.delete (oldest_entry b es) (us @ [(key, fds, now)])"
      using True by (subst evict_oldest.simps, subst evict_oldest.simps) (simp add: drop)
    moreover have "oldest_entry b es \<noteq> key" using mem notin by auto
    ultimately show ?thesis using found by (simp add: delete_notin)
  qed
  then show ?thesis using False by (simp add: evict_if_needed_def us)
qed

lemma length_update_le: "length (AList.update k v ts) \<le> Suc (length ts)"
  by (induction ts) auto

lemma stored_template_found:
  assumes "nf_settled st" and "nf_clock now st"
  shows "map_of (nf_templates (store_template now key fds st)) key = Some (fds, now)"
proof -
  have ok: "length (nf_templates st) \<le> max_templates" "distinct (map fst (nf_templates st))"
    using assms(1) by (auto simp: nf_settled_def nf_ok_def)
  have "length (AList.update key (fds, now) (nf_templates st)) \<le> Suc max_templates"
    using length_update_le [of key "(fds, now)" "nf_templates st"] ok(1) by simp
  from evict_keeps_newest [OF this ok(2) _ ok(1)] assms(2) show ?thesis
    by (simp add: store_template_def drop_pending_def nf_clock_def Let_def)
qed

section \<open>Announcing a template and sending data\<close>

abbreviation announce :: "nat \<Rightarrow> nat \<Rightarrow> nat \<times> (nat \<times> nat) list \<Rightarrow> bytes" where
  "announce secs source t \<equiv> v9_message secs source [(0, template_bytes t)]"

abbreviation data_message :: "nat \<Rightarrow> nat \<Rightarrow> nat \<Rightarrow> bytes \<Rightarrow> bytes" where
  "data_message secs source tid payload \<equiv> v9_message secs source [(tid, payload)]"

lemma template_set_fits: "template_fits t \<Longrightarrow> set_fits (0, template_bytes t)"
  by (auto simp: template_fits_def set_fits_def template_bytes_def length_concat comp_def case_prod_beta sum_list_triv)

lemma parse_announce:
  assumes "template_fits t" and "secs < 2 ^ 32" and "source < 2 ^ 32"
  shows "netflow_parse now (announce secs source t) e st
    = drain_decoded (store_template now (e, source, fst t) (as_fields (snd t)) st, [])"
  using assms template_set_fits [OF assms(1)]
  by (simp add: v9_parse_message process_set_def parse_template_bytes)

lemma store_template_decoded:
  "nf_decoded (store_template now key fds st) = nf_decoded st
     @ concat (map (\<lambda>(payload, exporter, export_ts). decode_data payload fds exporter export_ts)
         (case map_of (nf_pending st) key of None \<Rightarrow> [] | Some ws \<Rightarrow> ws))"
  by (simp add: store_template_def drop_pending_def Let_def)

lemma parse_known_data:
  assumes "set_fits (tid, payload)" and "255 < tid" and "secs < 2 ^ 32" and "source < 2 ^ 32"
    and "map_of (nf_templates st) (e, source, tid) = Some (fds, ts)" and "now - ts \<le> template_ttl" and "fds \<noteq> []"
  shows "netflow_parse now (data_message secs source tid payload) e st
    = drain_decoded (st, decode_data payload fds e secs)"
  using assms by (simp add: v9_parse_message process_set_def get_template_def Let_def)

lemma parse_unknown_data:
  assumes "set_fits (tid, payload)" and "255 < tid" and "secs < 2 ^ 32" and "source < 2 ^ 32"
    and "map_of (nf_templates st) (e, source, tid) = None"
  shows "netflow_parse now (data_message secs source tid payload) e st
    = drain_decoded (buffer_pending (e, source, tid) payload e secs st, [])"
  using assms by (simp add: v9_parse_message process_set_def get_template_def Let_def)

lemma store_template_settled:
  "nf_settled st \<Longrightarrow> fds \<noteq> [] \<Longrightarrow> nf_settled (fst (drain_decoded (store_template now (e, source, tid) fds st, [])))"
  using store_template_ok [OF nf_settled_for, of st "(e, source, tid)" e fds now]
  by (auto simp: drain_decoded_def nf_settled_def nf_ok_for_def nf_ok_def pending_total_def)

text \<open>The layout of the common flow record: addresses, protocol, destination port, bytes and packets.\<close>

record xflow =
  xf_src :: u32
  xf_dst :: u32
  xf_proto :: "8 word"
  xf_dport :: "16 word"
  xf_bytes :: u32
  xf_packets :: u32

definition std_layout :: "(nat \<times> nat) list" where
  "std_layout = [(8, 4), (12, 4), (4, 1), (11, 2), (1, 4), (2, 4)]"

definition xflow_values :: "xflow \<Rightarrow> bytes list" where
  "xflow_values f = [be_bytes 4 (unat (xf_src f)), be_bytes 4 (unat (xf_dst f)), be_bytes 1 (unat (xf_proto f)),
     be_bytes 2 (unat (xf_dport f)), be_bytes 4 (unat (xf_bytes f)), be_bytes 4 (unat (xf_packets f))]"

definition xflow_record :: "nat \<Rightarrow> string \<Rightarrow> xflow \<Rightarrow> flow_rec" where
  "xflow_record secs e f = mk_record (int_to_ip (xf_src f)) (int_to_ip (xf_dst f))
     (nonzero (unat (xf_proto f))) (nonzero (unat (xf_dport f))) (unat (xf_bytes f)) (unat (xf_packets f)) secs e"

lemma unat_less_8: "unat (w :: 8 word) < 256" and unat_less_16: "unat (v :: 16 word) < 65536"
  and unat_less_32: "unat (u :: u32) < 4294967296"
  using unsigned_less [of w] unsigned_less [of v] unsigned_less [of u] by simp_all

lemma normalize_xflow: "normalize_rec (record_of std_layout (xflow_values f)) e secs = Some (xflow_record secs e f)"
  by (simp add: record_of_def std_layout_def xflow_values_def normalize_rec_def rec_addr_def rec_uint_def
      xflow_record_def ipv4_text_def unat_less_8 unat_less_16 unat_less_32 del: be_bytes.simps)

lemma std_layout_facts:
  "distinct (map fst std_layout)" "list_all (\<lambda>(ie, l). ie < 65536 \<and> l < 65535) std_layout"
  "fields_length std_layout = 19" "as_fields std_layout \<noteq> []"
  by (simp_all add: std_layout_def fields_length_def as_fields_def)

lemma decode_xflows:
  assumes "length pad < 19"
  shows "decode_data (concat (map (concat \<circ> xflow_values) flows) @ pad) (as_fields std_layout) e secs
    = map (xflow_record secs e) flows"
proof -
  have "list_all (sized std_layout) (map xflow_values flows)"
    by (simp add: list_all_iff sized_def std_layout_def xflow_values_def del: be_bytes.simps)
  from decode_data_records [OF this std_layout_facts(1,2), of pad e secs] assms show ?thesis
    by (simp add: std_layout_facts comp_def List.map_filter_def normalize_xflow filter_True)
qed

text \<open>
  C14: what an exporter sends with the common NetFlow v9 layout is what is recorded: from a template
  and a data set of any flows, with any padding shorter than a record, the decoder returns
  exactly those flows, in order, with the addresses in dotted form, absent ports and protocols for
  zero, and the export time of the header, in any state it can be in.
\<close>

theorem netflow_roundtrip:
  assumes "nf_settled st" and "nf_clock now st" and "map_of (nf_pending st) (e, source, tid) = None"
    and "255 < tid" and "tid < 65536" and "secs < 2 ^ 32" and "source < 2 ^ 32"
    and "length pad < 19" and "19 * length flows + length pad < 65532"
  shows "snd (netflow_parse now (v9_message secs source
      [(0, template_bytes (tid, std_layout)), (tid, concat (map (concat \<circ> xflow_values) flows) @ pad)]) e st)
    = map (xflow_record secs e) flows"
proof -
  let ?p = "concat (map (concat \<circ> xflow_values) flows) @ pad"
  have t: "template_fits (tid, std_layout)"
    using assms std_layout_facts by (simp add: template_fits_def) (simp add: std_layout_def)
  have "length (concat (map (concat \<circ> xflow_values) flows)) = 19 * length flows"
    by (induction flows) (simp_all add: xflow_values_def del: be_bytes.simps)
  then have "list_all set_fits [(0, template_bytes (tid, std_layout)), (tid, ?p)]"
    using assms template_set_fits [OF t] by (simp add: set_fits_def)
  moreover let ?st = "store_template now (e, source, tid) (as_fields std_layout) st"
  have "map_of (nf_templates ?st) (e, source, tid) = Some (as_fields std_layout, now)"
    using assms by (simp add: stored_template_found)
  moreover have "nf_decoded ?st = []"
    using assms by (simp add: store_template_decoded nf_settled_def)
  ultimately show ?thesis
    using assms by (simp add: v9_parse_message process_set_def parse_template_bytes [OF t] get_template_def
        Let_def template_ttl_def drain_decoded_def std_layout_facts decode_xflows)
qed

definition sample_xflow :: xflow where
  "sample_xflow = \<lparr>xf_src = 0xC0000201, xf_dst = 0xC6336407, xf_proto = 6, xf_dport = 443, xf_bytes = 1500, xf_packets = 3\<rparr>"

theorem netflow_roundtrip_witness:
  "snd (netflow_parse 10 (v9_message 1700000000 1
      [(0, template_bytes (256, std_layout)), (256, concat (map (concat \<circ> xflow_values) [sample_xflow]) @ [0])]) ''192.0.2.9'' nf_init)
   = [xflow_record 1700000000 ''192.0.2.9'' sample_xflow]"
  using netflow_roundtrip [of nf_init 10 "''192.0.2.9''" 1 256 1700000000 "[0]" "[sample_xflow]"]
  by simp

section \<open>Data before its template\<close>

lemma buffered:
  assumes "pending_total st < max_pending_sets" and "map_of (nf_pending st) key = None" and "nf_decoded st = []"
  shows "drain_decoded (buffer_pending key payload e secs st, [])
      = (st\<lparr>nf_pending := AList.update key [(payload, e, secs)] (nf_pending st)\<rparr>, [])"
  using assms by (simp add: buffer_pending_def drain_decoded_def)

lemma run_Cons: "nf_run ((now, data, e) # ds) st =
    (fst (nf_run ds (fst (netflow_parse now data e st))),
     snd (netflow_parse now data e st) # snd (nf_run ds (fst (netflow_parse now data e st))))"
  by (simp add: Let_def split: prod.splits)

declare nf_run.simps(2) [simp del]

lemma early_order:
  assumes "nf_settled st"
    and "map_of (nf_templates st) (e, source, tid) = None" and "map_of (nf_pending st) (e, source, tid) = None"
    and "pending_total st < max_pending_sets"
    and "template_fits (tid, fl)" and "set_fits (tid, payload)"
    and "s1 < 2 ^ 32" and "s2 < 2 ^ 32" and "source < 2 ^ 32"
  shows "snd (nf_run [(t1, data_message s2 source tid payload, e), (t2, announce s1 source (tid, fl), e)] st)
      = [[], decode_data payload (as_fields fl) e s2]"
proof -
  let ?key = "(e, source, tid)"
  have dec: "nf_decoded st = []" using assms(1) by (simp add: nf_settled_def)
  have tid: "255 < tid" using assms(5) by (simp add: template_fits_def)
  let ?st1 = "st\<lparr>nf_pending := AList.update ?key [(payload, e, s2)] (nf_pending st)\<rparr>"
  have one: "netflow_parse t1 (data_message s2 source tid payload) e st = (?st1, [])"
    by (simp add: parse_unknown_data [OF assms(6) tid assms(8,9,2)] buffered [OF assms(4,3) dec])
  have "nf_decoded (store_template t2 ?key (as_fields fl) ?st1) = decode_data payload (as_fields fl) e s2"
    by (simp add: store_template_decoded dec update_conv')
  then have "snd (netflow_parse t2 (announce s1 source (tid, fl)) e ?st1) = decode_data payload (as_fields fl) e s2"
    by (simp add: parse_announce [OF assms(5,7,9)] drain_decoded_def)
  with one show ?thesis by (simp add: run_Cons)
qed

lemma usual_order:
  assumes "nf_settled st" and "nf_clock t1 st" and "t2 - t1 \<le> template_ttl"
    and "map_of (nf_pending st) (e, source, tid) = None"
    and "template_fits (tid, fl)" and "set_fits (tid, payload)"
    and "s1 < 2 ^ 32" and "s2 < 2 ^ 32" and "source < 2 ^ 32"
  shows "snd (nf_run [(t1, announce s1 source (tid, fl), e), (t2, data_message s2 source tid payload, e)] st)
      = [[], decode_data payload (as_fields fl) e s2]"
proof -
  let ?key = "(e, source, tid)"
  let ?st1 = "(store_template t1 ?key (as_fields fl) st)\<lparr>nf_decoded := []\<rparr>"
  have dec: "nf_decoded st = []" using assms(1) by (simp add: nf_settled_def)
  have tid: "255 < tid" and ne: "as_fields fl \<noteq> []" using assms(5) by (auto simp: template_fits_def as_fields_def)
  have one: "netflow_parse t1 (announce s1 source (tid, fl)) e st = (?st1, [])"
    using assms(4) by (simp add: parse_announce [OF assms(5,7,9)] drain_decoded_def store_template_decoded dec)
  have known: "map_of (nf_templates ?st1) ?key = Some (as_fields fl, t1)"
    using stored_template_found [OF assms(1,2)] by simp
  have "snd (netflow_parse t2 (data_message s2 source tid payload) e ?st1) = decode_data payload (as_fields fl) e s2"
    using parse_known_data [OF assms(6) tid assms(8,9) known assms(3) ne] by (simp add: drain_decoded_def)
  with one show ?thesis by (simp add: run_Cons)
qed

text \<open>
  C15: data may arrive before its template. A data set of an unknown template, with room in the
  buffer, yields nothing yet; the announcement of the template then yields exactly the records that
  the other order yields, in which the data follows the announcement within the life of a template.
\<close>

theorem early_data_decoded:
  assumes "nf_settled st" and "nf_clock t1 st" and "t2 - t1 \<le> template_ttl"
    and "map_of (nf_templates st) (e, source, tid) = None" and "map_of (nf_pending st) (e, source, tid) = None"
    and "pending_total st < max_pending_sets"
    and "template_fits (tid, fl)" and "set_fits (tid, payload)"
    and "s1 < 2 ^ 32" and "s2 < 2 ^ 32" and "source < 2 ^ 32"
  shows "snd (nf_run [(t1, data_message s2 source tid payload, e), (t2, announce s1 source (tid, fl), e)] st)
      = [[], decode_data payload (as_fields fl) e s2]
    \<and> snd (nf_run [(t1, announce s1 source (tid, fl), e), (t2, data_message s2 source tid payload, e)] st)
      = [[], decode_data payload (as_fields fl) e s2]"
  using early_order [OF assms(1,4-11)] usual_order [OF assms(1-3,5,7-11)] by blast

lemma sample_payload_fits: "set_fits (256, concat (xflow_values sample_xflow))"
  by (simp add: set_fits_def xflow_values_def del: be_bytes.simps)

lemma short_payload_fits: "set_fits (300, [1, 2, 3, 4])"
  by (simp add: set_fits_def)

lemma std_template_fits: "template_fits (256, std_layout)"
  using std_layout_facts by (simp add: template_fits_def) (simp add: std_layout_def)

theorem early_data_decoded_witness:
  "snd (nf_run [(10, data_message 1700000000 1 256 (concat (xflow_values sample_xflow)), ''192.0.2.9''),
       (20, announce 1700000005 1 (256, std_layout), ''192.0.2.9'')] nf_init)
   = [[], [xflow_record 1700000000 ''192.0.2.9'' sample_xflow]]"
  using early_data_decoded [of nf_init 10 20 "''192.0.2.9''" 1 256 std_layout "concat (xflow_values sample_xflow)"
      1700000005 1700000000] std_template_fits sample_payload_fits
    decode_xflows [of "[]" "[sample_xflow]" "''192.0.2.9''" 1700000000]
  by (simp add: template_ttl_def pending_total_def max_pending_sets_def)

section \<open>A full buffer\<close>

lemma run_append: "nf_run (xs @ ys) st =
    (fst (nf_run ys (fst (nf_run xs st))), snd (nf_run xs st) @ snd (nf_run ys (fst (nf_run xs st))))"
proof (induction xs arbitrary: st)
  case (Cons d xs)
  obtain now data e where "d = (now, data, e)" by (cases d)
  with Cons show ?case by (simp add: run_Cons)
qed simp

text \<open>What a state looks like in which only data sets of one unannounced template arrived.\<close>

definition flooded :: "tkey \<Rightarrow> waiting \<Rightarrow> nat \<Rightarrow> nf_state \<Rightarrow> bool" where
  "flooded key w n st \<longleftrightarrow> nf_templates st = [] \<and> nf_decoded st = []
     \<and> nf_pending st = (if n = 0 then [] else [(key, replicate n w)])"

lemma flood_step:
  assumes "flooded (a, source, tid) (payload, a, secs) n st" and "n < max_pending_sets"
    and "set_fits (tid, payload)" and "255 < tid" and "secs < 2 ^ 32" and "source < 2 ^ 32"
  shows "flooded (a, source, tid) (payload, a, secs) (Suc n)
      (fst (netflow_parse t (data_message secs source tid payload) a st))
    \<and> snd (netflow_parse t (data_message secs source tid payload) a st) = []"
proof -
  have none: "map_of (nf_templates st) (a, source, tid) = None" using assms(1) by (simp add: flooded_def)
  from assms(1,2) show ?thesis
    by (cases "n = 0")
       (auto simp: parse_unknown_data [OF assms(3-6) none] flooded_def buffer_pending_def pending_total_def
         max_pending_sets_def drain_decoded_def replicate_append_same)
qed

lemma flood:
  assumes "set_fits (tid, payload)" and "255 < tid" and "secs < 2 ^ 32" and "source < 2 ^ 32"
  shows "flooded (a, source, tid) (payload, a, secs) n st \<Longrightarrow> n + m \<le> max_pending_sets
    \<Longrightarrow> flooded (a, source, tid) (payload, a, secs) (n + m)
        (fst (nf_run (replicate m (t, data_message secs source tid payload, a)) st))
      \<and> snd (nf_run (replicate m (t, data_message secs source tid payload, a)) st) = replicate m []"
proof (induction m arbitrary: n st)
  case (Suc m)
  from flood_step [OF Suc.prems(1) _ assms, where t = t] Suc.prems(2) Suc.IH [of "Suc n"] show ?case
    by (simp add: run_Cons)
qed simp

text \<open>
  The buffer of early data has no expiry and is shared by all exporters. After one exporter
  has sent 256 data sets whose template it never announces, at any time later a data set of another
  exporter that precedes its template is lost: the announcement yields none of its records.
\<close>

theorem full_buffer_loses_early_data:
  assumes "set_fits (tid, payload)" and "255 < tid" and "secs < 2 ^ 32" and "source < 2 ^ 32"
    and "template_fits (tid', fl)" and "set_fits (tid', payload')" and "source' < 2 ^ 32" and "secs' < 2 ^ 32"
    and "(b, source', tid') \<noteq> (a, source, tid)"
  shows "snd (nf_run (replicate 256 (t0, data_message secs source tid payload, a)
       @ [(t1, data_message secs' source' tid' payload', b), (t2, announce secs' source' (tid', fl), b)]) nf_init)
    = replicate 258 []"
proof -
  have "flooded (a, source, tid) (payload, a, secs) 0 nf_init" by (simp add: flooded_def)
  from flood [OF assms(1-4) this, of 256 t0] obtain st where
    run: "nf_run (replicate 256 (t0, data_message secs source tid payload, a)) nf_init = (st, replicate 256 [])"
    and st: "flooded (a, source, tid) (payload, a, secs) 256 st"
    by (metis max_pending_sets_def add_0 order_refl prod.collapse)
  have none: "map_of (nf_templates st) (b, source', tid') = None" using st by (simp add: flooded_def)
  have tid': "255 < tid'" using assms(5) by (simp add: template_fits_def)
  have one: "netflow_parse t1 (data_message secs' source' tid' payload') b st
    = (nf_count ''data_before_template_dropped'' [] st, [])"
    using st by (simp add: parse_unknown_data [OF assms(6) tid' assms(8,7) none] buffer_pending_def pending_total_def
        flooded_def max_pending_sets_def drain_decoded_def nf_count_def)
  have "snd (netflow_parse t2 (announce secs' source' (tid', fl)) b (nf_count ''data_before_template_dropped'' [] st)) = []"
    using st assms(9) by (simp add: parse_announce [OF assms(5,8,7)] drain_decoded_def store_template_decoded
        flooded_def nf_count_def) auto
  with one show ?thesis by (simp add: run_append run run_Cons) (simp add: numeral_eq_Suc)
qed

theorem full_buffer_loses_early_data_witness:
  "snd (nf_run (replicate 256 (0, data_message 1700000000 7 300 [1, 2, 3, 4], ''198.51.100.7'')
       @ [(31536000, data_message 1731536000 1 256 (concat (xflow_values sample_xflow)), ''192.0.2.9''),
          (31536001, announce 1731536000 1 (256, std_layout), ''192.0.2.9'')]) nf_init)
    = replicate 258 []"
  by (rule full_buffer_loses_early_data [of 300 "[1, 2, 3, 4]" 1700000000 7 256 std_layout
        "concat (xflow_values sample_xflow)" 1 1731536000 "''192.0.2.9''" "''198.51.100.7''" 0 31536000 31536001])
     (simp_all add: std_template_fits sample_payload_fits short_payload_fits del: One_nat_def)

end
