(* ===== verification/Sflow.thy ===== *)
theory Sflow
  imports Netflow_Sound
begin

text \<open>
  \<open>observability/ingesters/sflow.py\<close>: the decoder of sFlow v5 datagrams. One packet in
  \<open>sampling_rate\<close> is sampled, so a record estimates bytes as the frame length times the rate and
  packets as the rate. \<open>None\<close> stands for \<open>struct.error\<close>; metrics are the only state. Shown here: the
  estimates and the number of records keep their bounds, whatever the datagram, and a sampled
  Ethernet frame that carries an IPv4 packet yields its addresses, protocol and port.
\<close>

definition raw_header :: "bytes \<Rightarrow> nat \<Rightarrow> string \<Rightarrow> nat \<Rightarrow> flow_rec option" where
  "raw_header body rate exporter now =
     (if length body < 16 then None
      else if field body 0 4 \<noteq> 1 then None
      else let frame_len = field body 4 4; hdr_len = field body 12 4;
               frame = slice body 16 (16 + hdr_len) in
        if length frame < 14 then None
        else let tagged = (field frame 12 2 = 0x8100 \<and> length frame \<ge> 18);
                 ethertype = (if tagged then field frame 16 2 else field frame 12 2);
                 off = (if tagged then 18 else 14) in
          if ethertype \<noteq> 0x0800 \<or> length frame < off + 20 then None
          else let ihl = field frame off 1 mod 16 * 4;
                   proto = field frame (off + 9) 1;
                   l4 = off + ihl;
                   dport = (if proto \<in> {6, 17} \<and> length frame \<ge> l4 + 4 then Some (field frame (l4 + 2) 2) else None) in
            Some (mk_record (ipv4_text (slice frame (off + 12) (off + 16)))
                    (ipv4_text (slice frame (off + 16) (off + 20))) (Some proto) dport
                    (frame_len * rate) rate now exporter))"

fun flow_records :: "bytes \<Rightarrow> nat \<Rightarrow> nat \<Rightarrow> nat \<Rightarrow> string \<Rightarrow> nat \<Rightarrow> flow_rec list" where
  "flow_records p 0 off rate exporter now = []"
| "flow_records p (Suc n) off rate exporter now =
     (if off + 8 > length p then []
      else let rec_type = field p off 4; rec_len = field p (off + 4) 4;
               body = slice p (off + 8) (off + 8 + rec_len);
               rest = flow_records p n (off + 8 + rec_len) rate exporter now in
        if rec_type mod 4096 = 1 then
          (case raw_header body rate exporter now of Some r \<Rightarrow> r # rest | None \<Rightarrow> rest)
        else rest)"

definition flow_sample :: "bytes \<Rightarrow> string \<Rightarrow> nat \<Rightarrow> flow_rec list" where
  "flow_sample p exporter now =
     (if length p < 32 then []
      else let rate = (if field p 8 4 = 0 then 1 else field p 8 4) in
        flow_records p (min (field p 28 4) 16) 32 rate exporter now)"

fun sflow_samples :: "bytes \<Rightarrow> nat \<Rightarrow> nat \<Rightarrow> string \<Rightarrow> nat \<Rightarrow> metrics \<Rightarrow> metrics \<times> flow_rec list" where
  "sflow_samples data 0 off exporter now m = (m, [])"
| "sflow_samples data (Suc n) off exporter now m =
     (if off + 8 > length data then (m, [])
      else let sample_type = field data off 4; sample_len = field data (off + 4) 4;
               payload = slice data (off + 8) (off + 8 + sample_len); fmt = sample_type mod 4096;
               recs = (if fmt = 1 then flow_sample payload exporter now else []);
               m' = (if fmt = 2 \<or> fmt = 4 then metric_inc ''counter_samples_skipped'' 1 [] m else m);
               (m'', rest) = sflow_samples data n (off + 8 + sample_len) exporter now m' in
        (m'', recs @ rest))"

definition sflow_error :: "metrics \<Rightarrow> metrics \<times> flow_rec list" where
  "sflow_error m = (metric_inc ''parse_errors'' 1 [(''proto'', ''sflow'')] m, [])"

definition sflow_body :: "nat \<Rightarrow> bytes \<Rightarrow> string \<Rightarrow> metrics \<Rightarrow> (metrics \<times> flow_rec list) option" where
  "sflow_body now data exporter m =
     (if length data < 28 \<or> field data 0 4 \<noteq> 5 then Some (sflow_error m)
      else let off = 8 + (if field data 4 4 = 1 then 4 else 16) + 12 in
        case unpack 4 data off of
          None \<Rightarrow> None
        | Some n \<Rightarrow> Some (sflow_samples data (min n 64) (off + 4) exporter now m))"

definition sflow_parse :: "nat \<Rightarrow> bytes \<Rightarrow> string \<Rightarrow> metrics \<Rightarrow> metrics \<times> flow_rec list" where
  "sflow_parse now data exporter m =
     (case sflow_body now data exporter m of None \<Rightarrow> sflow_error m | Some r \<Rightarrow> r)"

section \<open>Bounds\<close>

definition estimate_ok :: "nat \<Rightarrow> string \<Rightarrow> flow_rec \<Rightarrow> bool" where
  "estimate_ok now e r \<longleftrightarrow> 1 \<le> fr_packets r \<and> fr_packets r < 2 ^ 32 \<and> fr_packets r dvd fr_bytes r
     \<and> fr_bytes r < 2 ^ 32 * fr_packets r \<and> fr_end r = now \<and> fr_exporter r = e
     \<and> (case fr_proto r of None \<Rightarrow> False | Some p \<Rightarrow> p < 256)
     \<and> (case fr_dport r of None \<Rightarrow> True | Some p \<Rightarrow> p < 65536)"

lemma raw_header_estimate:
  assumes "raw_header body rate e now = Some r" and "1 \<le> rate" and "rate < 2 ^ 32"
  shows "estimate_ok now e r"
proof -
  have f: "field b i 1 < 256" "field b i 2 < 65536" "field b i 4 < 2 ^ 32" for b i
    using field_bound [of b i 1] field_bound [of b i 2] field_bound [of b i 4] by simp_all
  from assms show ?thesis
    using f by (auto simp: raw_header_def Let_def mk_record_def estimate_ok_def split: if_splits)
qed

lemma flow_records_estimates:
  assumes "1 \<le> rate" and "rate < 2 ^ 32"
  shows "list_all (estimate_ok now e) (flow_records p n off rate e now) \<and> length (flow_records p n off rate e now) \<le> n"
proof (induction n arbitrary: off)
  case (Suc n)
  let ?off = "off + 8 + field p (off + 4) 4"
  from Suc [of ?off] raw_header_estimate [OF _ assms, of "slice p (off + 8) ?off" e now] show ?case
    by (auto simp: Let_def split: option.splits)
qed simp

lemma flow_sample_estimates:
  "list_all (estimate_ok now e) (flow_sample p e now) \<and> length (flow_sample p e now) \<le> 16"
proof -
  have "(if field p 8 4 = 0 then 1 else field p 8 4) < 2 ^ 32" "1 \<le> (if field p 8 4 = 0 then 1 else field p 8 4)"
    using field_bound [of p 8 4] by auto
  from flow_records_estimates [OF this(2,1), where now = now and e = e and p = p and n = "min (field p 28 4) 16" and off = 32]
  show ?thesis by (auto simp: flow_sample_def Let_def)
qed

lemma sflow_samples_estimates:
  "list_all (estimate_ok now e) (snd (sflow_samples data n off e now m))
   \<and> length (snd (sflow_samples data n off e now m)) \<le> 16 * n"
proof (induction n arbitrary: off m)
  case (Suc n)
  show ?case
    using Suc flow_sample_estimates [where now = now and e = e]
    by (auto simp: Let_def case_prod_beta intro!: add_mono intro: trans_le_add2)
qed simp

text \<open>
  Whatever the datagram, the sFlow decoder returns at most 1024 records, each of them an
  estimate for at least one packet: the bytes are a frame length below 2^32 times the number of
  packets, the protocol and the port keep their ranges, and the exporter is the sender.
\<close>

theorem sflow_estimates:
  "list_all (estimate_ok now e) (snd (sflow_parse now data e m)) \<and> length (snd (sflow_parse now data e m)) \<le> 1024"
proof -
  have "list_all (estimate_ok now e) recs \<and> length recs \<le> 1024"
    if "sflow_samples data (min n 64) off e now m = (m', recs)" for n off m' recs
    using sflow_samples_estimates [of now e data "min n 64" off m] that by auto
  then show ?thesis
    by (simp add: sflow_parse_def sflow_body_def sflow_error_def Let_def split: option.split)
qed

section \<open>A sampled frame\<close>

text \<open>An Ethernet frame with an IPv4 packet without options: header fields as bytes, then the transport part.\<close>

definition ipv4_frame :: "bytes \<Rightarrow> bytes \<Rightarrow> nat \<Rightarrow> nat \<Rightarrow> u32 \<Rightarrow> u32 \<Rightarrow> bytes \<Rightarrow> bytes" where
  "ipv4_frame macs flags_frag tos proto src dst pl =
     macs @ be_bytes 2 0x0800 @ be_bytes 1 0x45 @ be_bytes 1 tos @ be_bytes 2 (20 + length pl) @ be_bytes 2 0
       @ flags_frag @ be_bytes 1 64 @ be_bytes 1 proto @ be_bytes 2 0
       @ be_bytes 4 (unat src) @ be_bytes 4 (unat dst) @ pl"

definition header_record :: "nat \<Rightarrow> bytes \<Rightarrow> bytes" where
  "header_record frame_len frame = be_bytes 4 1 @ be_bytes 4 frame_len @ be_bytes 4 0 @ be_bytes 4 (length frame) @ frame"

lemma field_skip: "length xs = k \<Longrightarrow> k \<le> i \<Longrightarrow> field (xs @ ys) i n = field ys (i - k) n"
  by (simp add: field_append_right)

lemma slice_skip: "length xs = k \<Longrightarrow> k \<le> i \<Longrightarrow> slice (xs @ ys) i j = slice ys (i - k) (j - k)"
  by (simp add: slice_def)

text \<open>
  A sampled Ethernet frame that holds an IPv4 packet without options yields one record with
  the packet's addresses and protocol; for TCP and UDP the port is read from the third and fourth
  bytes after the IP header, whatever the fragment offset in that header says.
\<close>

theorem sampled_frame_decoded:
  assumes "length macs = 12" and "length frag = 2" and "proto < 256"
    and "frame_len < 2 ^ 32" and "length pl < 2 ^ 16"
  shows "raw_header (header_record frame_len (ipv4_frame macs frag tos proto src dst pl)) rate e now
    = Some (mk_record (int_to_ip src) (int_to_ip dst) (Some proto)
        (if proto \<in> {6, 17} \<and> 4 \<le> length pl then Some (field pl 2 2) else None) (frame_len * rate) rate now e)"
proof -
  let ?f = "ipv4_frame macs frag tos proto src dst pl"
  let ?b = "header_record frame_len ?f"
  have len: "length ?f = 34 + length pl" using assms by (simp add: ipv4_frame_def del: be_bytes.simps)
  have b: "length ?b = 50 + length pl" "field ?b 0 4 = 1" "field ?b 4 4 = frame_len" "field ?b 12 4 = length ?f"
    "slice ?b 16 (16 + length ?f) = ?f"
    using assms len by (simp_all add: header_record_def field_skip slice_skip field_be_bytes slice_def del: be_bytes.simps)
  have f: "field ?f 12 2 = 0x0800" "field ?f 14 1 = 0x45" "field ?f 23 1 = proto"
    using assms by (simp_all add: ipv4_frame_def field_skip field_be_bytes del: be_bytes.simps)
  have a: "ipv4_text (slice ?f 26 30) = int_to_ip src" "ipv4_text (slice ?f 30 34) = int_to_ip dst"
    using assms by (simp_all add: ipv4_frame_def slice_skip slice_def ipv4_text_def unat_less_32 del: be_bytes.simps)
  have p: "field ?f 36 2 = field pl 2 2"
    using assms by (simp add: ipv4_frame_def field_skip del: be_bytes.simps)
  show ?thesis
    using b(2-5) by (simp add: raw_header_def b(1) len f a p Let_def del: One_nat_def)
qed

theorem sampled_frame_decoded_witness:
  "raw_header (header_record 1518 (ipv4_frame (replicate 12 2) [0x00, 0xB9] 0 17 0xC0000201 0xC6336407 [1, 2, 3, 4])) 512 ''192.0.2.9'' 9
    = Some (mk_record (int_to_ip 0xC0000201) (int_to_ip 0xC6336407) (Some 17) (Some (field [1, 2, 3, 4] 2 2)) 777216 512 9 ''192.0.2.9'')"
  using sampled_frame_decoded [where macs = "replicate 12 2" and frag = "[0x00, 0xB9]" and proto = 17 and tos = 0
      and frame_len = 1518 and pl = "[1, 2, 3, 4]" and src = "0xC0000201" and dst = "0xC6336407" and rate = 512
      and e = "''192.0.2.9''" and now = 9]
  by simp

end
