(* ===== verification/Fieldmap.thy ===== *)
theory Fieldmap
  imports Corr_Rules
begin

text \<open>
  \<open>observability/fieldmap.py\<close>: the fields of a syslog message. The two regular expressions are
  scanned by hand: a key of the list after a word boundary, an equals sign and a quoted or an unquoted value; and four
  groups of one to three digits between word boundaries. The lemmas here bound what is left after a
  match, which makes the two scans end.
\<close>

definition is_word :: "char \<Rightarrow> bool" where
  "is_word c \<longleftrightarrow> is_digit c \<or> (let n = code c in 65 \<le> n \<and> n \<le> 90 \<or> 97 \<le> n \<and> n \<le> 122) \<or> c = CHR ''_''"

definition kv_keys :: "string list" where
  "kv_keys = [''srcip'', ''dstip'', ''srcport'', ''dstport'', ''proto'', ''service'', ''utmaction'', ''action'',
     ''policyid'', ''subtype'', ''eventtype'', ''sentbyte'', ''rcvdbyte'', ''hostname'', ''dstname'', ''qname'']"

text \<open>The value after the equals sign and what follows it; the quotes need a closing one.\<close>

definition kv_value :: "string \<Rightarrow> (string \<times> string) option" where
  "kv_value s =
     (let word = takeWhile (\<lambda>c. \<not> py_isspace c) s;
          bare = (if word = [] then None else Some (word, drop (length word) s)) in
      case s of
        [] \<Rightarrow> None
      | c # cs \<Rightarrow>
          if c = CHR 0x22 \<and> CHR 0x22 \<in> set cs
          then let q = takeWhile ((\<noteq>) (CHR 0x22)) cs in Some (q, drop (length q + 1) cs)
          else bare)"

text \<open>One match at the start of the text: key, value, rest.\<close>

definition kv_match :: "string \<Rightarrow> (string \<times> string \<times> string) option" where
  "kv_match s =
     (case find (\<lambda>k. starts_with (k @ ''='') s) kv_keys of
        None \<Rightarrow> None
      | Some k \<Rightarrow> map_option (\<lambda>(v, rest). (k, v, rest)) (kv_value (drop (length k + 1) s)))"

lemma kv_value_rest: "kv_value s = Some (v, rest) \<Longrightarrow> length rest \<le> length s"
  by (auto simp: kv_value_def Let_def split: list.splits if_splits)

lemma kv_match_rest: "kv_match s = Some (k, v, rest) \<Longrightarrow> length rest < length s"
proof -
  assume "kv_match s = Some (k, v, rest)"
  then have v: "kv_value (drop (length k + 1) s) = Some (v, rest)" and s: "starts_with (k @ ''='') s"
    by (auto simp: kv_match_def find_Some_iff split: option.splits)
  from s have "length k + 1 \<le> length s"
    by (metis (no_types) One_nat_def length_append list.size(3,4) starts_with_def add_0 length_take min.cobounded1)
  with kv_value_rest [OF v] show ?thesis by simp
qed

text \<open>\<open>re.findall\<close>; the first argument is whether the previous character is a word character.\<close>

function kv_scan :: "bool \<Rightarrow> string \<Rightarrow> (string \<times> string) list" where
  "kv_scan prev [] = []"
| "kv_scan prev (c # cs) =
     (case (if prev then None else kv_match (c # cs)) of
        Some (k, v, rest) \<Rightarrow> (k, v) # kv_scan (is_word (last (take (length (c # cs) - length rest) (c # cs)))) rest
      | None \<Rightarrow> kv_scan (is_word c) cs)"
  by pat_completeness auto
termination
  by (relation "measure (\<lambda>(prev, s). length s)")
     (auto split: if_splits dest!: kv_match_rest)

definition kv :: "string \<Rightarrow> string dict" where
  "kv msg = fold (\<lambda>(k, v) d. dict_set k v d) (kv_scan False msg) []"

definition int_or_none :: "string option \<Rightarrow> int option" where
  "int_or_none v = (case v of None \<Rightarrow> None | Some s \<Rightarrow> py_int s)"

text \<open>Four dotted groups of one to three digits at the start of the text, and what follows.\<close>

definition digit_group :: "string \<Rightarrow> (string \<times> string) option" where
  "digit_group s = (let w = takeWhile is_digit s in
     if 1 \<le> length w \<and> length w \<le> 3 then Some (w, drop (length w) s) else None)"

fun dotted_groups :: "nat \<Rightarrow> string \<Rightarrow> (string \<times> string) option" where
  "dotted_groups 0 s = (case digit_group s of
      None \<Rightarrow> None
    | Some (w, rest) \<Rightarrow> if rest \<noteq> [] \<and> is_word (hd rest) then None else Some (w, rest))"
| "dotted_groups (Suc n) s = (case digit_group s of
      None \<Rightarrow> None
    | Some (w, rest) \<Rightarrow>
        (case rest of
           c # cs \<Rightarrow> if c = CHR ''.'' then map_option (\<lambda>(v, r). (w @ ''.'' @ v, r)) (dotted_groups n cs) else None
         | [] \<Rightarrow> None))"

lemma digit_group_rest: "digit_group s = Some (w, rest) \<Longrightarrow> length rest < length s"
  by (auto simp: digit_group_def Let_def split: if_splits)
     (metis One_nat_def Suc_le_lessD diff_less length_takeWhile_le less_le_trans)

lemma dotted_groups_rest: "dotted_groups n s = Some (w, rest) \<Longrightarrow> length rest < length s"
proof (induction n arbitrary: s w)
  case (Suc n)
  then show ?case
    by (auto split: option.splits list.splits if_splits dest!: digit_group_rest)
       (metis length_Cons less_SucI less_trans_Suc order_less_trans)
qed (auto split: option.splits if_splits dest: digit_group_rest)

function ip_scan :: "bool \<Rightarrow> string \<Rightarrow> string list" where
  "ip_scan prev [] = []"
| "ip_scan prev (c # cs) =
     (case (if prev then None else dotted_groups 3 (c # cs)) of
        Some (ip, rest) \<Rightarrow> ip # ip_scan True rest
      | None \<Rightarrow> ip_scan (is_word c) cs)"
  by pat_completeness auto
termination
  by (relation "measure (\<lambda>(prev, s). length s)")
     (auto split: if_splits dest!: dotted_groups_rest)

text \<open>The addresses of a message: the pair of keys when both have a value, else the first two distinct addresses.\<close>

fun remdups_first :: "string list \<Rightarrow> string list" where
  "remdups_first [] = []"
| "remdups_first (x # xs) = x # filter ((\<noteq>) x) (remdups_first xs)"

definition endpoints :: "string \<Rightarrow> string dict \<Rightarrow> string option \<times> string option" where
  "endpoints msg pairs =
     (case (dict_get pairs ''srcip'', dict_get pairs ''dstip'') of
        (Some (a # as), Some (b # bs)) \<Rightarrow> (Some (a # as), Some (b # bs))
      | _ \<Rightarrow> (case remdups_first (ip_scan False msg) of
              x # y # _ \<Rightarrow> (Some x, Some y)
            | _ \<Rightarrow> (None, None)))"

definition proto_num :: "string dict" where
  "proto_num = [(''6'', ''TCP''), (''17'', ''UDP''), (''1'', ''ICMP'')]"

text \<open>\<open>a or b\<close> on values that may be missing: the empty text counts as missing for a left operand.\<close>

definition text_or :: "string option \<Rightarrow> string option \<Rightarrow> string option" where
  "text_or a b = (case a of Some (c # cs) \<Rightarrow> a | _ \<Rightarrow> b)"

record msg_fields =
  mf_src_ip :: "string option"
  mf_dst_ip :: "string option"
  mf_src_port :: "int option"
  mf_dst_port :: "int option"
  mf_protocol :: "string option"
  mf_action :: "string option"
  mf_policy_id :: "string option"
  mf_subtype :: "string option"
  mf_bytes :: "int option"
  mf_hostname :: "string option"
  mf_dstname :: "string option"
  mf_qname :: "string option"

definition int_or_zero :: "int option \<Rightarrow> int" where
  "int_or_zero v = (case v of None \<Rightarrow> 0 | Some i \<Rightarrow> i)"

definition extract_fields :: "string \<Rightarrow> msg_fields" where
  "extract_fields msg =
     (let pairs = kv msg; (src, dst) = endpoints msg pairs;
          sent = int_or_zero (int_or_none (dict_get pairs ''sentbyte''));
          rcvd = int_or_zero (int_or_none (dict_get pairs ''rcvdbyte''));
          prot = text_or (dict_get pairs ''proto'') (dict_get pairs ''service'') in
      \<lparr>mf_src_ip = src, mf_dst_ip = dst, mf_src_port = int_or_none (dict_get pairs ''srcport''),
       mf_dst_port = int_or_none (dict_get pairs ''dstport''),
       mf_protocol = (case prot of None \<Rightarrow> None | Some p \<Rightarrow> if p = [] then None
          else Some (case dict_get proto_num p of Some q \<Rightarrow> q | None \<Rightarrow> py_upper p)),
       mf_action = text_or (dict_get pairs ''action'') (dict_get pairs ''utmaction''),
       mf_policy_id = dict_get pairs ''policyid'',
       mf_subtype = text_or (dict_get pairs ''subtype'') (dict_get pairs ''eventtype''),
       mf_bytes = (if sent + rcvd = 0 then None else Some (sent + rcvd)),
       mf_hostname = dict_get pairs ''hostname'', mf_dstname = dict_get pairs ''dstname'',
       mf_qname = dict_get pairs ''qname''\<rparr>)"

definition security_actions :: "string list" where
  "security_actions = [''deny'', ''denied'', ''blocked'', ''block'', ''drop'', ''dropped'', ''reset'', ''reset-both'',
     ''reset-client'', ''reset-server'', ''clear_session'', ''redirect'', ''sinkhole'']"

definition is_security_action :: "string option \<Rightarrow> bool" where
  "is_security_action action = (py_lower (py_strip (case action of None \<Rightarrow> [] | Some a \<Rightarrow> a)) \<in> set security_actions)"

end
