(* ===== verification/Flow_Ingest.thy ===== *)
theory Flow_Ingest
  imports Netflow
begin

text \<open>
  From decoded records to rows: \<open>observability/ingesters/udp_server.py\<close> (attribution of a record to
  a tenant through the inventory, quarantine of unknown exporters), the address cache of
  \<open>services/inventory_manager.py\<close>, and the write path of \<open>core/db.py\<close> (bounded queue, minute buckets, the
  batches of the writer thread and its supervisor). Queues are lists, oldest first; a batch is taken
  and executed in one step. A text that goes to the log is not modelled, an audit line is kept as the exporter it names.
  Integers of SQLite are unbounded here except where Python's binding refuses them; whether the
  database accepts a statement (disk, locks) is the argument \<open>fails\<close>.
\<close>

section \<open>The inventory by address\<close>

record device_entry =
  de_ip :: string
  de_hostname :: string
  de_tenant :: string
  de_probe :: string

definition text_or_else :: "string option \<Rightarrow> string \<Rightarrow> string" where
  "text_or_else v d = (case v of None \<Rightarrow> d | Some s \<Rightarrow> if s = [] then d else s)"

definition entry_of_row :: "string dict \<Rightarrow> device_entry" where
  "entry_of_row d = \<lparr>de_ip = text_or_else (dict_get d ''IP'') [], de_hostname = text_or_else (dict_get d ''Hostname'') [],
     de_tenant = text_or_else (dict_get d ''Group'') [], de_probe = text_or_else (dict_get d ''Probe'') ''central''\<rparr>"

text \<open>The cache: \<open>None\<close> is the sentinel \<open>{"collision": True}\<close>.\<close>

definition cache_device :: "string dict \<Rightarrow> device_entry option dict \<Rightarrow> device_entry option dict" where
  "cache_device d cache =
     (let key = text_or_else (dict_get d ''IP'') [] in
      if key = [] then cache
      else if dict_has cache key then dict_set key None cache
      else dict_set key (Some (entry_of_row d)) cache)"

definition get_device_by_ip :: "string dict list \<Rightarrow> string \<Rightarrow> device_entry option option" where
  "get_device_by_ip devices ip = dict_get (fold cache_device devices []) ip"

text \<open>With a tenant the address is looked up inside it, where a later row replaces an earlier one.\<close>

definition tenant_device_cache :: "string dict list \<Rightarrow> ((string \<times> string) \<times> device_entry) list" where
  "tenant_device_cache devices = fold (\<lambda>d cache.
     let key = text_or_else (dict_get d ''IP'') [] in
     if key = [] then cache else AList.update (de_tenant (entry_of_row d), key) (entry_of_row d) cache) devices []"

definition get_device_in_tenant :: "string dict list \<Rightarrow> string \<Rightarrow> string \<Rightarrow> device_entry option" where
  "get_device_in_tenant devices tenant ip = map_of (tenant_device_cache devices) (tenant, ip)"

section \<open>Writes\<close>

record flow_row =
  fa_window :: int
  fa_tenant :: string
  fa_src :: string
  fa_dst :: string
  fa_proto :: "nat option"
  fa_dport :: "nat option"
  fa_bytes :: nat
  fa_packets :: nat
  fa_count :: nat
  fa_exporter :: string
  fa_source :: "string option"

record syslog_row =
  sy_ts :: int
  sy_tenant :: string
  sy_device :: string
  sy_severity :: "int option"
  sy_action :: "string option"
  sy_message :: string
  sy_exporter :: string

datatype obs_write = Flow_upsert flow_row | Syslog_insert syslog_row | Quarantine_upsert string int int

record ingest =
  ig_metrics :: metrics
  ig_audited :: "rat dict"
  ig_audit :: "string list"
  ig_queue :: "obs_write list"
  ig_drop_log :: rat
  ig_full :: nat
  ig_skew :: nat
  ig_ok :: nat
  ig_error :: nat
  ig_restarts :: nat
  ig_dead :: bool

definition queue_max :: nat where "queue_max = 10000"
definition batch_size :: nat where "batch_size = 500"
definition max_writer_restarts :: nat where "max_writer_restarts = 5"

definition ingest_init :: ingest where
  "ingest_init = \<lparr>ig_metrics = metrics_empty, ig_audited = [], ig_audit = [], ig_queue = [], ig_drop_log = 0,
     ig_full = 0, ig_skew = 0, ig_ok = 0, ig_error = 0, ig_restarts = 0, ig_dead = False\<rparr>"

text \<open>The announcement of a loss, at most once a minute.\<close>

definition log_queue_full :: "rat \<Rightarrow> ingest \<Rightarrow> ingest \<times> bool" where
  "log_queue_full now st =
     (if now - ig_drop_log st \<ge> 60 then (st\<lparr>ig_drop_log := now\<rparr>, True) else (st, False))"

definition enqueue_write :: "rat \<Rightarrow> obs_write \<Rightarrow> ingest \<Rightarrow> ingest \<times> bool" where
  "enqueue_write now w st =
     (if length (ig_queue st) < queue_max then (st\<lparr>ig_queue := ig_queue st @ [w]\<rparr>, True)
      else (fst (log_queue_full now (st\<lparr>ig_full := ig_full st + 1\<rparr>)), False))"

definition flow_window_start :: "int option \<Rightarrow> rat \<Rightarrow> ingest \<Rightarrow> ingest \<times> int" where
  "flow_window_start export_ts recv st =
     (let now = trunc recv in
      case export_ts of
        None \<Rightarrow> (st, now - now mod 60)
      | Some ts \<Rightarrow> if abs (ts - now) > 300 then (st\<lparr>ig_skew := ig_skew st + 1\<rparr>, now - now mod 60)
                  else (st, ts - ts mod 60))"

definition enqueue_flow :: "rat \<Rightarrow> string \<Rightarrow> flow_rec \<Rightarrow> rat \<Rightarrow> string option \<Rightarrow> ingest \<Rightarrow> ingest \<times> bool" where
  "enqueue_flow now tenant r recv source st =
     (case flow_window_start (Some (int (fr_end r))) recv st of
        (st1, w) \<Rightarrow> enqueue_write now (Flow_upsert
          \<lparr>fa_window = w, fa_tenant = tenant, fa_src = fr_src r, fa_dst = fr_dst r, fa_proto = fr_proto r,
           fa_dport = fr_dport r, fa_bytes = fr_bytes r, fa_packets = fr_packets r, fa_count = 1,
           fa_exporter = fr_exporter r, fa_source = source\<rparr>) st1)"

section \<open>Attribution\<close>

definition resolve_tenant :: "string dict list \<Rightarrow> rat \<Rightarrow> string \<Rightarrow> rat \<Rightarrow> ingest \<Rightarrow> ingest \<times> string option" where
  "resolve_tenant devices now exporter recv st =
     (case get_device_by_ip devices exporter of
        Some (Some d) \<Rightarrow> (st, Some (de_tenant d))
      | _ \<Rightarrow>
          let st1 = st\<lparr>ig_metrics := metric_inc ''dropped_unknown_exporter'' 1 [] (ig_metrics st)\<rparr>;
              st2 = fst (enqueue_write now (Quarantine_upsert exporter (trunc recv) (trunc recv)) st1);
              last = (case dict_get (ig_audited st2) exporter of None \<Rightarrow> 0 | Some t \<Rightarrow> t) in
          (if now - last \<ge> 3600
           then st2\<lparr>ig_audited := dict_set exporter now (ig_audited st2), ig_audit := ig_audit st2 @ [exporter]\<rparr>
           else st2, None))"

record syslog_rec =
  sl_ts :: int
  sl_device :: string
  sl_severity :: "int option"
  sl_action :: "string option"
  sl_message :: string
  sl_exporter :: string

datatype ingest_rec = Flow_rec flow_rec | Syslog_rec syslog_rec

fun rec_exporter :: "ingest_rec \<Rightarrow> string" where
  "rec_exporter (Flow_rec r) = fr_exporter r"
| "rec_exporter (Syslog_rec r) = sl_exporter r"

definition handle_record ::
    "string dict list \<Rightarrow> rat \<Rightarrow> rat \<Rightarrow> string option \<Rightarrow> ingest_rec \<Rightarrow> ingest \<Rightarrow> ingest" where
  "handle_record devices now recv name r st =
     (case resolve_tenant devices now (rec_exporter r) recv st of
        (st1, None) \<Rightarrow> st1
      | (st1, Some tenant) \<Rightarrow>
          (case r of
             Syslog_rec s \<Rightarrow> fst (enqueue_write now (Syslog_insert
               \<lparr>sy_ts = sl_ts s, sy_tenant = tenant, sy_device = sl_device s, sy_severity = sl_severity s,
                sy_action = sl_action s, sy_message = sl_message s, sy_exporter = sl_exporter s\<rparr>) st1)
           | Flow_rec f \<Rightarrow> fst (enqueue_flow now tenant f recv name st1)))"

definition handle_records ::
    "string dict list \<Rightarrow> rat \<Rightarrow> rat \<Rightarrow> string option \<Rightarrow> ingest_rec list \<Rightarrow> ingest \<Rightarrow> ingest" where
  "handle_records devices now recv name recs st = fold (handle_record devices now recv name) recs st"

section \<open>The listener\<close>

definition ingest_queue_max :: nat where "ingest_queue_max = 20000"

text \<open>A datagram waits with its source address and the instant of its arrival.\<close>

definition datagram_received ::
    "string \<Rightarrow> bytes \<times> string \<times> rat \<Rightarrow> (bytes \<times> string \<times> rat) list \<times> metrics \<Rightarrow> (bytes \<times> string \<times> rat) list \<times> metrics" where
  "datagram_received name item qm =
     (case qm of (q, m) \<Rightarrow>
        let m1 = metric_inc ''datagrams_received'' 1 [(''listener'', name)] m in
        if length q < ingest_queue_max then (q @ [item], m1)
        else (q, metric_inc ''dropped_queue_full'' 1 [(''listener'', name)] m1))"

text \<open>One turn of the consumer of a NetFlow listener.\<close>

definition consume_netflow ::
    "string dict list \<Rightarrow> rat \<Rightarrow> string \<Rightarrow> bytes \<times> string \<times> rat \<Rightarrow> nf_state \<times> ingest \<Rightarrow> nf_state \<times> ingest" where
  "consume_netflow devices now name item st =
     (case item of (data, src, recv) \<Rightarrow>
      case netflow_parse now data src (fst st) of
        (nf, recs) \<Rightarrow> (nf, handle_records devices now recv (Some name) (map Flow_rec recs) (snd st)))"

section \<open>The writer\<close>

record raw_db =
  rd_flows :: "flow_row list"
  rd_syslog :: "(int \<times> syslog_row) list"
  rd_quarantine :: "(string \<times> (int \<times> int \<times> nat)) list"

definition raw_empty :: raw_db where
  "raw_empty = \<lparr>rd_flows = [], rd_syslog = [], rd_quarantine = []\<rparr>"

text \<open>
  The constraint \<open>UNIQUE(window_start, tenant, src_ip, dst_ip, protocol, dst_port)\<close>: SQL holds a \<open>NULL\<close>
  different from every value, so a row without protocol or port conflicts with none.
\<close>

definition same_flow :: "flow_row \<Rightarrow> flow_row \<Rightarrow> bool" where
  "same_flow a b \<longleftrightarrow> fa_window a = fa_window b \<and> fa_tenant a = fa_tenant b \<and> fa_src a = fa_src b \<and> fa_dst a = fa_dst b
     \<and> fa_proto a \<noteq> None \<and> fa_dport a \<noteq> None \<and> fa_proto a = fa_proto b \<and> fa_dport a = fa_dport b"

definition add_flow :: "flow_row \<Rightarrow> flow_row \<Rightarrow> flow_row" where
  "add_flow new old = old\<lparr>fa_bytes := fa_bytes old + fa_bytes new, fa_packets := fa_packets old + fa_packets new,
     fa_count := fa_count old + 1, fa_exporter := fa_exporter new, fa_source := fa_source new\<rparr>"

definition flow_upsert :: "flow_row \<Rightarrow> flow_row list \<Rightarrow> flow_row list" where
  "flow_upsert new rows =
     (if list_ex (same_flow new) rows then update_where (same_flow new) (add_flow new) rows else rows @ [new])"

definition quarantine_upsert ::
    "string \<Rightarrow> int \<Rightarrow> int \<Rightarrow> (string \<times> (int \<times> int \<times> nat)) list \<Rightarrow> (string \<times> (int \<times> int \<times> nat)) list" where
  "quarantine_upsert ip first seen rows =
     (case map_of rows ip of
        None \<Rightarrow> rows @ [(ip, first, seen, 1)]
      | Some (f, l, n) \<Rightarrow> AList.update ip (f, seen, n + 1) rows)"

fun apply_write :: "obs_write \<Rightarrow> raw_db \<Rightarrow> raw_db" where
  "apply_write (Flow_upsert r) db = db\<lparr>rd_flows := flow_upsert r (rd_flows db)\<rparr>"
| "apply_write (Syslog_insert r) db = db\<lparr>rd_syslog := rd_syslog db @ [(next_id (map fst (rd_syslog db)), r)]\<rparr>"
| "apply_write (Quarantine_upsert ip f l) db = db\<lparr>rd_quarantine := quarantine_upsert ip f l (rd_quarantine db)\<rparr>"

text \<open>
  Binding an integer outside 64 bits raises \<open>OverflowError\<close>, which is not an \<open>sqlite3.Error\<close>.
\<close>

definition fits_int64 :: "int \<Rightarrow> bool" where
  "fits_int64 i \<longleftrightarrow> - (2 ^ 63) \<le> i \<and> i < 2 ^ 63"

fun write_ints :: "obs_write \<Rightarrow> int list" where
  "write_ints (Flow_upsert r) = [fa_window r, int (fa_bytes r), int (fa_packets r)]
     @ (case fa_proto r of None \<Rightarrow> [] | Some p \<Rightarrow> [int p]) @ (case fa_dport r of None \<Rightarrow> [] | Some p \<Rightarrow> [int p])"
| "write_ints (Syslog_insert r) = sy_ts r # (case sy_severity r of None \<Rightarrow> [] | Some s \<Rightarrow> [s])"
| "write_ints (Quarantine_upsert ip f l) = [f, l]"

datatype exec = Done raw_db | Sql_error | Overflow_error

definition exec_write :: "(obs_write \<Rightarrow> bool) \<Rightarrow> obs_write \<Rightarrow> raw_db \<Rightarrow> exec" where
  "exec_write fails w db =
     (if \<not> list_all fits_int64 (write_ints w) then Overflow_error
      else if fails w then Sql_error else Done (apply_write w db))"

text \<open>The batch as one transaction, and, after an \<open>sqlite3.Error\<close>, statement by statement.\<close>

fun exec_batch :: "(obs_write \<Rightarrow> bool) \<Rightarrow> obs_write list \<Rightarrow> raw_db \<Rightarrow> exec" where
  "exec_batch fails [] db = Done db"
| "exec_batch fails (w # ws) db =
     (case exec_write fails w db of Done db' \<Rightarrow> exec_batch fails ws db' | e \<Rightarrow> e)"

text \<open>The result: the tables, the writes done and dropped, and whether the loop crashed.\<close>

fun exec_each :: "(obs_write \<Rightarrow> bool) \<Rightarrow> obs_write list \<Rightarrow> raw_db \<Rightarrow> nat \<Rightarrow> nat \<Rightarrow> raw_db \<times> nat \<times> nat \<times> bool" where
  "exec_each fails [] db ok err = (db, ok, err, False)"
| "exec_each fails (w # ws) db ok err =
     (case exec_write fails w db of
        Done db' \<Rightarrow> exec_each fails ws db' (ok + 1) err
      | Sql_error \<Rightarrow> exec_each fails ws db ok (err + 1)
      | Overflow_error \<Rightarrow> (db, ok, err, True))"

text \<open>
  The supervisor after a crash: the statements of the batch are gone, the loop restarts at most five
  times, then the writer is dead.
\<close>

definition writer_crash :: "ingest \<Rightarrow> ingest" where
  "writer_crash st = st\<lparr>ig_restarts := ig_restarts st + 1, ig_dead := (ig_restarts st + 1 > max_writer_restarts)\<rparr>"

definition writer_step :: "(obs_write \<Rightarrow> bool) \<Rightarrow> ingest \<times> raw_db \<Rightarrow> ingest \<times> raw_db" where
  "writer_step fails sd =
     (case sd of (st, db) \<Rightarrow>
      if ig_dead st \<or> ig_queue st = [] then (st, db)
      else let batch = take batch_size (ig_queue st); st1 = st\<lparr>ig_queue := drop batch_size (ig_queue st)\<rparr> in
        case exec_batch fails batch db of
          Done db' \<Rightarrow> (st1\<lparr>ig_ok := ig_ok st1 + length batch\<rparr>, db')
        | Overflow_error \<Rightarrow> (writer_crash st1, db)
        | Sql_error \<Rightarrow>
            (case exec_each fails batch db 0 0 of
               (db', ok, err, crashed) \<Rightarrow>
                 let st2 = st1\<lparr>ig_ok := ig_ok st1 + ok, ig_error := ig_error st1 + err\<rparr> in
                 (if crashed then writer_crash st2 else st2, db')))"

text \<open>What the health endpoint reports: dead, lost for a full queue, lost for an error, restarts, queued, degraded.\<close>

definition health_state :: "ingest \<Rightarrow> bool \<times> nat \<times> nat \<times> nat \<times> nat \<times> bool" where
  "health_state st = (ig_dead st, ig_full st, ig_error st, ig_restarts st, length (ig_queue st),
     ig_dead st \<or> ig_full st > 0)"

end
