(* ===== verification/Normalize.thy ===== *)
theory Normalize
  imports Fieldmap Flow_Ingest
begin

text \<open>
  \<open>observability/normalize.py\<close>: the projection of the raw tables into the table of events that the
  correlation reads. A source keeps its position in \<open>normalize_cursors\<close>; an event is inserted under its
  \<open>dedup_key\<close>, and on a conflict only its metrics change. Rows of one minute are read in the order of
  their insertion, as the index gives them; the baseline is an argument of the cycle. A snapshot that is
  not readable as JSON is \<open>None\<close>.
\<close>

record norm_event = event +
  ne_source_id :: "int option"
  ne_dedup :: string

record api_row =
  ap_id :: int
  ap_ts :: int
  ap_tenant :: string
  ap_device :: string
  ap_kind :: string
  ap_summary :: "json option"

record norm_db =
  nd_raw :: raw_db
  nd_api :: "api_row list"
  nd_events :: "norm_event list"
  nd_cursors :: "(int \<times> int) dict"

definition lookback_s :: int where "lookback_s = 3600"
definition max_rows_per_source :: nat where "max_rows_per_source = 2000"
definition max_changes_per_snapshot :: nat where "max_changes_per_snapshot = 20"
definition platform_tenant :: string where "platform_tenant = ''__platform__''"
definition quarantine_bucket_s :: int where "quarantine_bucket_s = 600"

definition cursor :: "norm_db \<Rightarrow> string \<Rightarrow> int \<times> int" where
  "cursor db source = (case dict_get (nd_cursors db) source of None \<Rightarrow> (0, 0) | Some c \<Rightarrow> c)"

definition save_cursor :: "string \<Rightarrow> int \<Rightarrow> int \<Rightarrow> norm_db \<Rightarrow> norm_db" where
  "save_cursor source last_id last_ts db = db\<lparr>nd_cursors := dict_set source (last_id, last_ts) (nd_cursors db)\<rparr>"

text \<open>\<open>INSERT \<dots> ON CONFLICT(dedup_key) DO UPDATE SET metrics_json\<close>.\<close>

definition emit_event :: "norm_event \<Rightarrow> norm_event list \<Rightarrow> norm_event list" where
  "emit_event e es =
     (if list_ex (\<lambda>x. ne_dedup x = ne_dedup e) es
      then update_where (\<lambda>x. ne_dedup x = ne_dedup e) (\<lambda>x. x\<lparr>e_metrics := e_metrics e\<rparr>) es
      else es @ [e\<lparr>e_id := next_id (map e_id es)\<rparr>])"

definition emit :: "norm_event \<Rightarrow> norm_db \<Rightarrow> norm_db" where
  "emit e db = db\<lparr>nd_events := emit_event e (nd_events db)\<rparr>"

definition blank_event :: norm_event where
  "blank_event = \<lparr>e_id = 0, e_ts = 0, e_ingested = 0, e_tenant = [], e_source = [], e_type = [], e_entity_type = [],
     e_entity_id = [], e_severity = None, e_device_ip = None, e_interface = None, e_src_ip = None, e_dst_ip = None,
     e_dst_port = None, e_protocol = None, e_metrics = [], e_attrs = [], ne_source_id = None, ne_dedup = []\<rparr>"

definition str_opt_nat :: "nat option \<Rightarrow> string" where
  "str_opt_nat v = (case v of None \<Rightarrow> ''None'' | Some n \<Rightarrow> str_nat n)"

section \<open>Flows\<close>

definition flow_protocol :: "nat option \<Rightarrow> string option" where
  "flow_protocol v = (case v of None \<Rightarrow> None
     | Some n \<Rightarrow> Some (case dict_get proto_num (str_nat n) of Some q \<Rightarrow> q | None \<Rightarrow> str_nat n))"

definition flow_dedup :: "flow_row \<Rightarrow> string" where
  "flow_dedup r = str_join '':'' [''flow'', str_int (fa_window r), fa_tenant r, fa_src r, fa_dst r,
     str_opt_nat (fa_proto r), str_opt_nat (fa_dport r)]"

definition flow_event :: "int \<Rightarrow> flow_row \<Rightarrow> norm_event" where
  "flow_event now r = blank_event
     \<lparr>e_ts := fa_window r, e_ingested := now, e_tenant := fa_tenant r,
      e_source := text_or_else (fa_source r) ''netflow'', e_type := ''flow.aggregate'', e_entity_type := ''flow'',
      e_entity_id := fa_src r @ ''>'' @ fa_dst r, e_src_ip := Some (fa_src r), e_dst_ip := Some (fa_dst r),
      e_dst_port := map_option int (fa_dport r), e_protocol := flow_protocol (fa_proto r),
      e_device_ip := Some (fa_exporter r),
      e_metrics := [(''bytes'', JInt (int (fa_bytes r))), (''packets'', JInt (int (fa_packets r))),
                    (''flows'', JInt (int (fa_count r)))],
      ne_dedup := flow_dedup r\<rparr>"

definition flow_rows :: "int \<Rightarrow> flow_row list \<Rightarrow> flow_row list" where
  "flow_rows start rows = take max_rows_per_source (sort_key fa_window (filter (\<lambda>r. fa_window r \<ge> start) rows))"

definition from_flows :: "int \<Rightarrow> norm_db \<Rightarrow> norm_db \<times> nat" where
  "from_flows now db =
     (let (last_id, last_ts) = cursor db ''flow'';
          start = (if last_ts \<noteq> 0 then last_ts else now - lookback_s);
          rows = flow_rows start (rd_flows (nd_raw db));
          db1 = fold (\<lambda>r. emit (flow_event now r)) rows db;
          db2 = (if rows = [] then db1 else save_cursor ''flow'' 0 (fold (\<lambda>r m. max m (fa_window r)) rows last_ts) db1) in
      (db2, length rows))"

section \<open>Syslog\<close>

definition jstr :: "string option \<Rightarrow> json" where
  "jstr v = (case v of None \<Rightarrow> JNull | Some s \<Rightarrow> JStr s)"

definition jint :: "int option \<Rightarrow> json" where
  "jint v = (case v of None \<Rightarrow> JNull | Some i \<Rightarrow> JInt i)"

definition syslog_attrs :: "syslog_row \<Rightarrow> msg_fields \<Rightarrow> string option \<Rightarrow> json dict" where
  "syslog_attrs r fs action =
     (let base = [(''action'', jstr action), (''message'', JStr (take 1024 (sy_message r))),
            (''src_port'', jint (mf_src_port fs)), (''policy_id'', jstr (mf_policy_id fs)),
            (''subtype'', jstr (mf_subtype fs)), (''exporter_ip'', JStr (sy_exporter r))];
          name = text_or (mf_dstname fs) (mf_hostname fs);
          b1 = (case name of Some (c # cs) \<Rightarrow> dict_set ''dst_name'' (JStr (c # cs)) base | _ \<Rightarrow> base) in
      (case mf_qname fs of Some (c # cs) \<Rightarrow> dict_set ''qname'' (JStr (c # cs)) b1 | _ \<Rightarrow> b1))"

definition syslog_event :: "int \<Rightarrow> int \<times> syslog_row \<Rightarrow> norm_event" where
  "syslog_event now row =
     (case row of (rid, r) \<Rightarrow>
        let fs = extract_fields (sy_message r); action = text_or (sy_action r) (mf_action fs) in
        blank_event
          \<lparr>e_ts := sy_ts r, e_ingested := now, e_tenant := sy_tenant r, e_source := ''syslog'',
           ne_source_id := Some rid,
           e_type := (if is_security_action action then ''log.security'' else ''log.event''),
           e_entity_type := ''device'',
           e_entity_id := (if sy_device r \<noteq> [] then sy_device r else text_or_else (mf_src_ip fs) ''sconosciuto''),
           e_severity := sy_severity r, e_device_ip := Some (sy_device r), e_src_ip := mf_src_ip fs,
           e_dst_ip := mf_dst_ip fs, e_dst_port := mf_dst_port fs, e_protocol := mf_protocol fs,
           e_metrics := (case mf_bytes fs of None \<Rightarrow> [] | Some b \<Rightarrow> [(''bytes'', JInt b)]),
           e_attrs := syslog_attrs r fs action,
           ne_dedup := ''syslog:'' @ str_int rid\<rparr>)"

definition from_syslog :: "int \<Rightarrow> norm_db \<Rightarrow> norm_db \<times> nat" where
  "from_syslog now db =
     (let (last_id, last_ts) = cursor db ''syslog'';
          min_ts = (if last_id = 0 then now - lookback_s else 0);
          rows = take max_rows_per_source (sort_key fst
            (filter (\<lambda>(rid, r). rid > last_id \<and> sy_ts r \<ge> min_ts) (rd_syslog (nd_raw db))));
          db1 = fold (\<lambda>r. emit (syslog_event now r)) rows db;
          db2 = (if rows = [] then db1 else save_cursor ''syslog'' (fold (\<lambda>r m. max m (fst r)) rows last_id) now db1) in
      (db2, length rows))"

section \<open>Snapshots\<close>

text \<open>
  \<open>_flatten\<close>: paths to the scalar values, in the order of the walk. The first argument counts the
  levels that are left: a depth above 4 ends the walk, so it starts at 5.
\<close>

primrec flatten_json :: "nat \<Rightarrow> string \<Rightarrow> json \<Rightarrow> json dict \<Rightarrow> json dict" where
  "flatten_json 0 pre j out = out"
| "flatten_json (Suc levels) pre j out =
     (if length out > 400 then out
      else case j of
        JObj d \<Rightarrow> fold (\<lambda>(k, v). flatten_json levels (if pre = [] then k else pre @ ''.'' @ k) v) d out
      | JList xs \<Rightarrow> fold (\<lambda>(i, x). flatten_json levels (pre @ ''['' @ str_nat i @ '']'') x) (enumerate 0 (take 50 xs)) out
      | _ \<Rightarrow> dict_set pre j out)"

definition volatile_hints :: "string list" where
  "volatile_hints = [''byte'', ''octet'', ''packet'', ''uptime'', ''time'', ''count'', ''session'', ''error'', ''drop'',
     ''discard'', ''collision'', ''rate'', ''usage'', ''seconds'', ''timestamp'', ''last_'', ''current_'']"

definition stable_fields :: "json option \<Rightarrow> json dict" where
  "stable_fields payload =
     (case payload of None \<Rightarrow> []
      | Some j \<Rightarrow> filter (\<lambda>(k, v). \<not> starts_with ''metrics.'' k
            \<and> \<not> list_ex (\<lambda>h. str_contains h (py_lower k)) volatile_hints) (flatten_json 5 [] j []))"

definition iface_kinds :: "string list" where
  "iface_kinds = [''interfaces'', ''interface'', ''snmp_interfaces'']"

definition interface_of :: "string \<Rightarrow> string \<Rightarrow> string option" where
  "interface_of path kind =
     (if kind \<notin> set iface_kinds then None
      else case split_on (CHR ''.'') path of
        r # i # _ # _ \<Rightarrow> if r = ''results'' \<and> \<not> starts_with ''['' i then Some i else None
      | _ \<Rightarrow> None)"

definition path_tail :: "string \<Rightarrow> string" where
  "path_tail path = str_join ''.'' (drop 2 (split_on (CHR ''.'') path))"

definition interfaces_of :: "json option \<Rightarrow> string \<Rightarrow> json dict dict" where
  "interfaces_of payload kind =
     (if kind \<notin> set iface_kinds then []
      else fold (\<lambda>(path, value) groups.
          case interface_of path kind of
            Some (c # cs) \<Rightarrow> dict_set (c # cs)
              (dict_set (path_tail path) value (case dict_get groups (c # cs) of None \<Rightarrow> [] | Some g \<Rightarrow> g)) groups
          | _ \<Rightarrow> groups) (stable_fields payload) [])"

fun is_measure :: "json \<Rightarrow> bool" where
  "is_measure (JInt i) = True"
| "is_measure (JFloat r) = True"
| "is_measure (JBool b) = True"
| "is_measure _ = False"

definition measured :: "json option \<Rightarrow> json dict" where
  "measured payload =
     (case payload of
        Some (JObj d) \<Rightarrow> (case dict_get d ''metrics'' of
            Some (JObj m) \<Rightarrow> filter (\<lambda>(k, v). is_measure v) m
          | _ \<Rightarrow> [])
      | _ \<Rightarrow> [])"

definition source_of :: "string \<Rightarrow> string" where
  "source_of kind =
     (if starts_with ''snmp_'' kind then ''snmp'' else if starts_with ''linux_'' kind then ''linux''
      else if starts_with ''windows_'' kind then ''windows'' else ''fortigate_api'')"

text \<open>\<open>!=\<close> on scalars: numbers and truth values are compared by value.\<close>

definition scalar_eq :: "json \<Rightarrow> json \<Rightarrow> bool" where
  "scalar_eq a b = (if is_measure a \<and> is_measure b then num_of a = num_of b else a = b)"

definition previous_snapshot :: "api_row \<Rightarrow> api_row list \<Rightarrow> api_row option" where
  "previous_snapshot r rows =
     (case filter (\<lambda>p. ap_device p = ap_device r \<and> ap_kind p = ap_kind r \<and> ap_id p < ap_id r) rows of
        [] \<Rightarrow> None
      | p # ps \<Rightarrow> Some (fold (\<lambda>x m. if ap_id x > ap_id m then x else m) ps p))"

definition state_event :: "int \<Rightarrow> api_row \<Rightarrow> norm_event" where
  "state_event now r =
     (let silent = (ap_kind r = ''snmp_silent'') in
      blank_event
        \<lparr>e_ts := ap_ts r, e_ingested := now, e_tenant := ap_tenant r, e_source := source_of (ap_kind r),
         ne_source_id := Some (ap_id r),
         e_type := (if silent then ''device.unreachable'' else ''device.state''), e_entity_type := ''device'',
         e_entity_id := ap_device r, e_device_ip := Some (ap_device r), e_attrs := [(''kind'', JStr (ap_kind r))],
         e_metrics := (if silent \<or> ap_kind r \<in> set iface_kinds then [] else measured (ap_summary r)),
         ne_dedup := ''api:'' @ str_int (ap_id r)\<rparr>)"

definition change_event :: "int \<Rightarrow> api_row \<Rightarrow> string \<Rightarrow> json \<Rightarrow> json \<Rightarrow> norm_event" where
  "change_event now r path before after =
     (let iface = (case interface_of path (ap_kind r) of Some (c # cs) \<Rightarrow> Some (c # cs) | _ \<Rightarrow> None) in
      blank_event
        \<lparr>e_ts := ap_ts r, e_ingested := now, e_tenant := ap_tenant r, e_source := source_of (ap_kind r),
         ne_source_id := Some (ap_id r),
         e_type := (if iface \<noteq> None then ''interface.change'' else ''device.change''),
         e_entity_type := (if iface \<noteq> None then ''interface'' else ''device''),
         e_entity_id := (case iface of Some i \<Rightarrow> ap_device r @ '':'' @ i | None \<Rightarrow> ap_device r),
         e_device_ip := Some (ap_device r), e_interface := interface_of path (ap_kind r), e_severity := Some 5,
         e_attrs := [(''kind'', JStr (ap_kind r)), (''field'', JStr path), (''before'', before), (''after'', after)],
         ne_dedup := str_join '':'' [''api-change'', str_int (ap_id r), path]\<rparr>)"

definition changes :: "json dict \<Rightarrow> json dict \<Rightarrow> (string \<times> json \<times> json) list" where
  "changes before after = take max_changes_per_snapshot
     (List.map_filter (\<lambda>(k, v). case dict_get before k of
        Some b \<Rightarrow> if scalar_eq b v then None else Some (k, b, v) | None \<Rightarrow> None) after)"

definition iface_event :: "int \<Rightarrow> api_row \<Rightarrow> json dict \<Rightarrow> string \<times> json dict \<Rightarrow> norm_event" where
  "iface_event now r ms g =
     (case g of (iface, fs) \<Rightarrow>
        blank_event
          \<lparr>e_ts := ap_ts r, e_ingested := now, e_tenant := ap_tenant r, e_source := source_of (ap_kind r),
           ne_source_id := Some (ap_id r), e_type := ''interface.state'', e_entity_type := ''interface'',
           e_entity_id := ap_device r @ '':'' @ iface, e_device_ip := Some (ap_device r), e_interface := Some iface,
           e_attrs := fs,
           e_metrics := map (\<lambda>(k, v). (drop (length iface + 1) k, v))
             (filter (\<lambda>(k, v). starts_with (iface @ ''.'') k) ms),
           ne_dedup := str_join '':'' [''api-iface'', str_int (ap_id r), iface]\<rparr>)"

definition project_snapshot :: "int \<Rightarrow> api_row list \<Rightarrow> api_row \<Rightarrow> norm_db \<Rightarrow> norm_db" where
  "project_snapshot now all r db =
     (let db1 = emit (state_event now r) db in
      if ap_kind r = ''snmp_silent'' then db1
      else let
        db2 = (case previous_snapshot r all of
            None \<Rightarrow> db1
          | Some p \<Rightarrow> fold (\<lambda>(k, b, a). emit (change_event now r k b a))
              (changes (stable_fields (ap_summary p)) (stable_fields (ap_summary r))) db1) in
        fold (\<lambda>g. emit (iface_event now r (measured (ap_summary r)) g)) (interfaces_of (ap_summary r) (ap_kind r)) db2)"

definition from_api_observations :: "int \<Rightarrow> norm_db \<Rightarrow> norm_db \<times> nat" where
  "from_api_observations now db =
     (let (last_id, last_ts) = cursor db ''api'';
          rows = take max_rows_per_source (sort_key ap_id (filter (\<lambda>r. ap_id r > last_id) (nd_api db)));
          db1 = fold (project_snapshot now (nd_api db)) rows db;
          db2 = (if rows = [] then db1 else save_cursor ''api'' (fold (\<lambda>r m. max m (ap_id r)) rows last_id) now db1) in
      (db2, length rows))"

section \<open>Quarantine and the cycle\<close>

definition quarantine_event :: "int \<Rightarrow> string \<times> (int \<times> int \<times> nat) \<Rightarrow> norm_event" where
  "quarantine_event now row =
     (case row of (ip, first, seen, n) \<Rightarrow>
        let bucket = seen div quarantine_bucket_s * quarantine_bucket_s in
        blank_event
          \<lparr>e_ts := bucket, e_ingested := now, e_tenant := platform_tenant, e_source := ''platform'',
           e_type := ''platform.exporter_unknown'', e_entity_type := ''exporter'', e_entity_id := ip,
           e_severity := Some 5, e_device_ip := Some ip, e_src_ip := Some ip,
           e_metrics := [(''packets'', JInt (int n)), (''persisted_s'', JInt (max 0 (seen - first)))],
           e_attrs := [(''first_seen'', JInt first), (''last_seen'', JInt seen), (''status'', JStr ''quarantined'')],
           ne_dedup := str_join '':'' [''quarantine'', ip, str_int bucket]\<rparr>)"

definition from_quarantine :: "int \<Rightarrow> norm_db \<Rightarrow> norm_db \<times> nat" where
  "from_quarantine now db =
     (let rows = take max_rows_per_source (sort_key (\<lambda>(ip, f, s, n). s)
            (filter (\<lambda>(ip, f, s, n). s \<ge> now - lookback_s) (rd_quarantine (nd_raw db)))) in
      (fold (\<lambda>r. emit (quarantine_event now r)) rows db, length rows))"

definition normalize_once :: "(int \<Rightarrow> norm_db \<Rightarrow> norm_db \<times> nat) \<Rightarrow> int \<Rightarrow> norm_db \<Rightarrow> norm_db \<times> nat list" where
  "normalize_once baseline now db =
     (let (db1, a) = from_flows now db; (db2, b) = from_syslog now db1; (db3, c) = from_api_observations now db2;
          (db4, d) = from_quarantine now db3; (db5, e) = baseline now db4 in
      (db5, [a, b, c, d, e]))"

end
