(* ===== verification/Normalize_Sound.thy ===== *)
theory Normalize_Sound
  imports Normalize
begin

text \<open>
  What the projection keeps and where it fails. It only adds events: whatever is stored keeps its
  identity, its dates and its attributes, and a key occurs once. But the flow cursor stops at a
  minute with as many rows as a turn reads, flows without a port hide each other, and a snapshot is
  compared with that of another tenant's device of the same address.
\<close>

section \<open>The projection only adds\<close>

definition stripped :: "norm_event \<Rightarrow> norm_event" where
  "stripped e = e\<lparr>e_metrics := []\<rparr>"

definition extends :: "norm_event list \<Rightarrow> norm_event list \<Rightarrow> bool" where
  "extends es es' \<longleftrightarrow> (\<exists>new. map stripped es' = map stripped es @ new)"

definition events_ok :: "norm_event list \<Rightarrow> bool" where
  "events_ok es \<longleftrightarrow> distinct (map ne_dedup es) \<and> distinct (map e_id es)"

lemma extends_refl [simp]: "extends es es"
  by (simp add: extends_def)

lemma extends_trans: "extends a b \<Longrightarrow> extends b c \<Longrightarrow> extends a c"
  by (auto simp: extends_def)

lemma emit_event_extends: "extends es (emit_event e es)"
proof -
  have "map stripped (update_where P (\<lambda>x. x\<lparr>e_metrics := m\<rparr>) es) = map stripped es" for P m
    by (simp add: update_where_def stripped_def)
  then show ?thesis by (auto simp: extends_def emit_event_def)
qed

lemma emit_event_ok: "events_ok es \<Longrightarrow> events_ok (emit_event e es)"
proof (cases "list_ex (\<lambda>x. ne_dedup x = ne_dedup e) es")
  case False
  moreover assume "events_ok es"
  ultimately show ?thesis
    using next_id_notin [of "map e_id es"] by (auto simp: events_ok_def emit_event_def list_ex_iff)
qed (auto simp: events_ok_def emit_event_def map_update_where)

definition adds_to :: "norm_db \<Rightarrow> norm_db \<Rightarrow> bool" where
  "adds_to db db' \<longleftrightarrow> nd_raw db' = nd_raw db \<and> nd_api db' = nd_api db
     \<and> extends (nd_events db) (nd_events db') \<and> (events_ok (nd_events db) \<longrightarrow> events_ok (nd_events db'))"

named_theorems adds \<open>steps that only add events\<close>

lemma adds_refl [adds]: "adds_to db db"
  by (simp add: adds_to_def)

lemma adds_trans: "adds_to a b \<Longrightarrow> adds_to b c \<Longrightarrow> adds_to a c"
  by (auto simp: adds_to_def intro: extends_trans)

lemma adds_emit [adds]: "adds_to db (emit e db)"
  by (simp add: adds_to_def emit_def emit_event_extends emit_event_ok)

lemma adds_save_cursor [adds]: "adds_to db (save_cursor s i t db)"
  by (simp add: adds_to_def save_cursor_def)

lemma adds_fold: "(\<And>x db. adds_to db (f x db)) \<Longrightarrow> adds_to db (fold f xs db)"
  by (induction xs arbitrary: db) (auto intro: adds_refl adds_trans)

lemma adds_fold_emit [adds]: "adds_to db (fold (\<lambda>r. emit (f r)) xs db)"
  by (rule adds_fold) (rule adds_emit)

lemma adds_fold_changes [adds]: "adds_to db (fold (\<lambda>(k, b, a). emit (f k b a)) xs db)"
  by (rule adds_fold) (auto intro: adds_emit)

lemma adds_if_cursor [adds]:
  "adds_to db db' \<Longrightarrow> adds_to db (if c then db' else save_cursor s i t db')"
  by (auto intro: adds_trans adds_save_cursor)

lemma adds_project_snapshot [adds]: "adds_to db (project_snapshot now all r db)"
proof -
  have "adds_to d (case previous_snapshot r all of None \<Rightarrow> d
      | Some p \<Rightarrow> fold (\<lambda>(k, b, a). emit (change_event now r k b a)) (chs p) d)" for d chs
    by (cases "previous_snapshot r all") (simp_all add: adds)
  note compared = this [where chs = "\<lambda>p. changes (stable_fields (ap_summary p)) (stable_fields (ap_summary r))"]
  show ?thesis
    unfolding project_snapshot_def Let_def
    by (simp only: adds_emit if_split simp_thms, rule impI,
        rule adds_trans [OF adds_trans [OF adds_emit compared] adds_fold_emit])
qed

lemma adds_from_flows: "adds_to db (fst (from_flows now db))"
  by (simp add: from_flows_def Let_def case_prod_beta adds_if_cursor adds_fold_emit del: split_paired_All)

lemma adds_from_syslog: "adds_to db (fst (from_syslog now db))"
  by (simp add: from_syslog_def Let_def case_prod_beta adds_if_cursor adds_fold_emit)

lemma adds_from_api: "adds_to db (fst (from_api_observations now db))"
  using adds_fold [of "project_snapshot now (nd_api db)", OF adds_project_snapshot]
  by (simp add: from_api_observations_def Let_def case_prod_beta adds_if_cursor)

lemma adds_from_quarantine: "adds_to db (fst (from_quarantine now db))"
  by (simp add: from_quarantine_def Let_def adds_fold_emit)

text \<open>
  C18: a cycle of normalization only adds events: every stored event keeps its number, its dates,
  its tenant, its attributes and its place, only its metrics may be measured again; no key and no
  number occurs twice. The baseline is any step that only adds events.
\<close>

theorem normalization_only_adds:
  assumes "\<And>db. adds_to db (fst (baseline now db))" and "events_ok (nd_events db)"
  shows "extends (nd_events db) (nd_events (fst (normalize_once baseline now db)))
    \<and> events_ok (nd_events (fst (normalize_once baseline now db)))"
proof -
  have "adds_to db (fst (normalize_once baseline now db))"
    unfolding normalize_once_def Let_def case_prod_beta fst_conv
    by (rule adds_trans [OF adds_trans [OF adds_trans [OF adds_trans [OF adds_from_flows adds_from_syslog]
        adds_from_api] adds_from_quarantine] assms(1)])
  with assms(2) show ?thesis by (simp add: adds_to_def)
qed

definition sample_norm :: norm_db where
  "sample_norm = \<lparr>nd_raw = raw_empty\<lparr>rd_quarantine := [(''203.0.113.5'', 1000, 1500, 4)]\<rparr>, nd_api = [], nd_events = [], nd_cursors = []\<rparr>"

theorem normalization_only_adds_witness:
  "extends [] (nd_events (fst (normalize_once (\<lambda>now db. (db, 0)) 2000 sample_norm)))
    \<and> events_ok (nd_events (fst (normalize_once (\<lambda>now db. (db, 0)) 2000 sample_norm)))"
  using normalization_only_adds [of "\<lambda>now db. (db, 0)" 2000 sample_norm]
  by (simp add: adds_refl sample_norm_def events_ok_def)

section \<open>Where the flow cursor stops\<close>

lemma length_filter_sort: "length (filter P (sort_key f xs)) = length (filter P xs)"
proof -
  have "length (filter P (insort_key f x ys)) = (if P x then Suc else id) (length (filter P ys))" for x ys
    by (induction ys) auto
  then show ?thesis unfolding sort_key_def by (induction xs) auto
qed

lemma sorted_take_least:
  fixes f :: "'a \<Rightarrow> int"
  shows "sorted (map f xs) \<Longrightarrow> \<forall>x \<in> set xs. c \<le> f x \<Longrightarrow> n \<le> length (filter (\<lambda>x. f x = c) xs)
    \<Longrightarrow> \<forall>x \<in> set (take n xs). f x = c"
proof (induction xs arbitrary: n)
  case (Cons x xs)
  show ?case
  proof (cases n)
    case (Suc m)
    have x: "f x = c"
    proof (rule ccontr)
      assume ne: "f x \<noteq> c"
      have "\<forall>y \<in> set xs. f x \<le> f y" and "c \<le> f x" using Cons.prems(1,2) by simp_all
      with ne have "filter (\<lambda>x. f x = c) xs = []" by (auto simp: filter_empty_conv)
      with Cons.prems(3) Suc ne show False by simp
    qed
    have "\<forall>y \<in> set (take m xs). f y = c"
      using Cons.prems Suc x by (intro Cons.IH) simp_all
    with x Suc show ?thesis by simp
  qed simp
qed simp

lemma flow_rows_stuck:
  assumes "max_rows_per_source \<le> length (filter (\<lambda>r. fa_window r = c) rows)"
  shows "\<forall>r \<in> set (flow_rows c rows). fa_window r = c" and "flow_rows c rows \<noteq> []"
proof -
  let ?s = "sort_key fa_window (filter (\<lambda>r. fa_window r \<ge> c) rows)"
  have "filter (\<lambda>r. fa_window r = c) (filter (\<lambda>r. fa_window r \<ge> c) rows) = filter (\<lambda>r. fa_window r = c) rows"
    by (induction rows) auto
  then have n: "length (filter (\<lambda>r. fa_window r = c) ?s) = length (filter (\<lambda>r. fa_window r = c) rows)"
    by (simp only: length_filter_sort)
  show "\<forall>r \<in> set (flow_rows c rows). fa_window r = c"
    unfolding flow_rows_def by (rule sorted_take_least) (use assms n in simp_all)
  have "length (filter (\<lambda>r. fa_window r = c) ?s) \<le> length ?s" by (rule length_filter_le)
  then have "max_rows_per_source \<le> length ?s" using assms n by linarith
  then have "length (flow_rows c rows) = max_rows_per_source" by (simp only: flow_rows_def length_take min_absorb2)
  then show "flow_rows c rows \<noteq> []" by (auto simp: max_rows_per_source_def)
qed

lemma emitted_ts: "e_ts ` set (emit_event e es) \<subseteq> insert (e_ts e) (e_ts ` set es)"
  by (auto simp: emit_event_def set_update_where split: if_splits)

lemma emitted_all_ts:
  "\<forall>r \<in> set rows. e_ts (f r) = c \<Longrightarrow>
   e_ts ` set (nd_events (fold (\<lambda>r. emit (f r)) rows db)) \<subseteq> insert c (e_ts ` set (nd_events db))"
proof (induction rows arbitrary: db)
  case Nil
  then show ?case by auto
next
  case (Cons r rows)
  have "e_ts ` set (nd_events (fold (\<lambda>r. emit (f r)) rows (emit (f r) db)))
      \<subseteq> insert c (e_ts ` set (nd_events (emit (f r) db)))"
    using Cons by simp
  also have "\<dots> \<subseteq> insert c (e_ts ` set (nd_events db))"
    using emitted_ts [of "f r" "nd_events db"] Cons.prems by (auto simp: emit_def)
  finally show ?case by simp
qed

lemma fold_max_const: "\<forall>r \<in> set rows. g r = (c :: int) \<Longrightarrow> fold (\<lambda>r m. max m (g r)) rows c = c"
  by (induction rows) auto

text \<open>
  The flow cursor does not get past a minute with as many rows as a turn reads. When 2000 or
  more rows have the minute of the cursor, a turn reads only rows of that minute, writes events of that minute
  only and leaves the cursor where it was; the rows of the later minutes are never projected, whatever is
  added to the table.
\<close>

theorem flow_cursor_stuck:
  assumes "cursor db ''flow'' = (i, c)" and "c \<noteq> 0"
    and "max_rows_per_source \<le> length (filter (\<lambda>r. fa_window r = c) (rd_flows (nd_raw db)))"
  shows "snd (cursor (fst (from_flows now db)) ''flow'') = c
    \<and> e_ts ` set (nd_events (fst (from_flows now db))) \<subseteq> insert c (e_ts ` set (nd_events db))"
proof -
  let ?rows = "flow_rows c (rd_flows (nd_raw db))"
  note rows = flow_rows_stuck [OF assms(3)]
  have ts: "\<forall>r \<in> set ?rows. e_ts (flow_event now r) = c" using rows(1) by (simp add: flow_event_def)
  have "fst (from_flows now db) = save_cursor ''flow'' 0 c (fold (\<lambda>r. emit (flow_event now r)) ?rows db)"
    using assms(1,2) rows(2) fold_max_const [OF rows(1)] by (simp add: from_flows_def Let_def)
  with emitted_all_ts [OF ts, of db] show ?thesis by (simp add: save_cursor_def cursor_def)
qed

definition crowded_minute :: norm_db where
  "crowded_minute = \<lparr>nd_raw = raw_empty\<lparr>rd_flows := replicate 2000
       \<lparr>fa_window = 60, fa_tenant = ''acme'', fa_src = ''192.0.2.1'', fa_dst = ''198.51.100.7'', fa_proto = Some 1,
        fa_dport = None, fa_bytes = 84, fa_packets = 1, fa_count = 1, fa_exporter = ''192.0.2.9'', fa_source = None\<rparr>\<rparr>,
     nd_api = [], nd_events = [], nd_cursors = [(''flow'', 0, 60)]\<rparr>"

theorem flow_cursor_stuck_witness:
  "snd (cursor (fst (from_flows 4000 crowded_minute)) ''flow'') = 60
    \<and> e_ts ` set (nd_events (fst (from_flows 4000 crowded_minute))) \<subseteq> {60}"
  using flow_cursor_stuck [of crowded_minute 0 60 4000]
  by (simp add: crowded_minute_def cursor_def raw_empty_def max_rows_per_source_def filter_replicate)

section \<open>Flows without a port\<close>

definition fresh_norm :: "flow_row list \<Rightarrow> norm_db" where
  "fresh_norm rows = \<lparr>nd_raw = raw_empty\<lparr>rd_flows := rows\<rparr>, nd_api = [], nd_events = [], nd_cursors = []\<rparr>"

definition flow_metrics :: "flow_row \<Rightarrow> json dict" where
  "flow_metrics r = [(''bytes'', JInt (int (fa_bytes r))), (''packets'', JInt (int (fa_packets r))), (''flows'', JInt (int (fa_count r)))]"

text \<open>
  Two flows of a minute between the same hosts with the same protocol and no port (ICMP, or a port 0)
  become two rows, because the database holds two missing ports different, but one event, because the text of
  their keys is the same: the event has the bytes of the later row only. With a port they are one row and the event has the sum.
\<close>

theorem portless_flows_undercount:
  assumes "flow_dedup r1 = flow_dedup r2" and "fa_window r1 = fa_window r2" and "fa_dport r1 = None"
    and "now - lookback_s \<le> fa_window r1"
  shows "map e_metrics (nd_events (fst (from_flows now (fresh_norm (flow_upsert r2 (flow_upsert r1 []))))))
    = [flow_metrics r2]"
proof -
  have "flow_upsert r2 (flow_upsert r1 []) = [r1, r2]"
    using assms(3) by (auto simp: flow_upsert_def same_flow_def)
  moreover have "flow_rows (now - lookback_s) [r1, r2] = [r1, r2]"
    using assms(2,4) by (simp add: flow_rows_def max_rows_per_source_def)
  ultimately show ?thesis
    using assms(1) by (simp add: from_flows_def fresh_norm_def raw_empty_def cursor_def save_cursor_def emit_def
        emit_event_def flow_event_def flow_metrics_def update_where_def)
qed

definition icmp_row :: "nat option \<Rightarrow> nat \<Rightarrow> flow_row" where
  "icmp_row port n = \<lparr>fa_window = 6000, fa_tenant = ''acme'', fa_src = ''192.0.2.1'', fa_dst = ''198.51.100.7'',
     fa_proto = Some 1, fa_dport = port, fa_bytes = n, fa_packets = 1, fa_count = 1, fa_exporter = ''192.0.2.9'', fa_source = None\<rparr>"

theorem portless_flows_undercount_witness:
  "map e_metrics (nd_events (fst (from_flows 6100
      (fresh_norm (flow_upsert (icmp_row None 40) (flow_upsert (icmp_row None 1000) [])))))) = [flow_metrics (icmp_row None 40)]
   \<and> map e_metrics (nd_events (fst (from_flows 6100
      (fresh_norm (flow_upsert (icmp_row (Some 8) 40) (flow_upsert (icmp_row (Some 8) 1000) []))))))
     = [[(''bytes'', JInt 1040), (''packets'', JInt 2), (''flows'', JInt 2)]]"
proof
  show "map e_metrics (nd_events (fst (from_flows 6100
      (fresh_norm (flow_upsert (icmp_row None 40) (flow_upsert (icmp_row None 1000) [])))))) = [flow_metrics (icmp_row None 40)]"
    by (rule portless_flows_undercount) (simp_all add: icmp_row_def flow_dedup_def lookback_s_def)
qed code_simp

section \<open>Snapshots of another tenant\<close>

definition says_before :: "string \<Rightarrow> string \<Rightarrow> json \<Rightarrow> norm_event \<Rightarrow> bool" where
  "says_before key tenant b e \<longleftrightarrow> (ne_dedup e = key \<longrightarrow> e_tenant e = tenant \<and> dict_get (e_attrs e) ''before'' = Some b)"

lemma emitted_keys: "ne_dedup ` set (emit_event e es) = insert (ne_dedup e) (ne_dedup ` set es)"
proof (cases "list_ex (\<lambda>x. ne_dedup x = ne_dedup e) es")
  case True
  have "map ne_dedup (update_where P (\<lambda>x. x\<lparr>e_metrics := m\<rparr>) es) = map ne_dedup es" for P m
    by (rule map_update_where) simp
  then have "ne_dedup ` set (update_where P (\<lambda>x. x\<lparr>e_metrics := m\<rparr>) es) = ne_dedup ` set es" for P m
    by (metis set_map)
  moreover have "ne_dedup e \<in> ne_dedup ` set es"
    using True unfolding list_ex_iff by (metis image_eqI)
  ultimately show ?thesis using True by (simp add: emit_event_def insert_absorb)
qed (auto simp: emit_event_def)

lemma emitted_says:
  "list_all (says_before key t b) es \<Longrightarrow> says_before key t b e \<Longrightarrow> list_all (says_before key t b) (emit_event e es)"
  by (auto simp: emit_event_def list_all_iff set_update_where says_before_def)

lemma folded_says:
  assumes "list_all (says_before key t b) (nd_events db)" and "\<forall>x \<in> set xs. says_before key t b (f x)"
  shows "list_all (says_before key t b) (nd_events (fold (\<lambda>x. emit (f x)) xs db))
    \<and> ne_dedup ` set (nd_events (fold (\<lambda>x. emit (f x)) xs db)) = (ne_dedup \<circ> f) ` set xs \<union> ne_dedup ` set (nd_events db)"
  using assms
proof (induction xs arbitrary: db)
  case (Cons x xs)
  from Cons.IH [of "emit (f x) db"] Cons.prems show ?case
    by (auto simp: emit_def emitted_says emitted_keys)
qed simp

lemma previous_of_pair:
  assumes "ap_device p = ap_device r" and "ap_kind p = ap_kind r" and "ap_id p < ap_id r"
  shows "previous_snapshot r [p, r] = Some p"
  using assms by (simp add: previous_snapshot_def)

lemma changed_listed:
  assumes "dict_get before k = Some b" and "dict_get after k = Some a" and "\<not> scalar_eq b a"
    and "length after \<le> max_changes_per_snapshot"
  shows "(k, b, a) \<in> set (changes before after)"
proof -
  have "length (List.map_filter f xs) \<le> length xs" for f :: "string \<times> json \<Rightarrow> (string \<times> json \<times> json) option" and xs
    by (simp add: List.map_filter_def)
  with assms(4) have "changes before after = List.map_filter (\<lambda>(k, v). case dict_get before k of
      Some b \<Rightarrow> if scalar_eq b v then None else Some (k, b, v) | None \<Rightarrow> None) after"
    unfolding changes_def by (metis (no_types, lifting) order_trans take_all)
  with assms(1-3) map_of_SomeD [OF assms(2)] show ?thesis
    by (force simp: List.map_filter_def)
qed

lemma changes_from: "(k, b, a) \<in> set (changes before after) \<Longrightarrow> dict_get before k = Some b"
  by (auto simp: changes_def List.map_filter_def dest!: in_set_takeD split: option.splits if_splits)

text \<open>
  A snapshot is compared with the latest earlier one of the same address and kind, of whatever
  tenant. Two tenants may have devices of the same address; then a difference between their two devices is
  recorded as a change of the second tenant's device, and the event shows the first tenant's value.
\<close>

theorem change_crosses_tenants:
  assumes "ap_device p = ap_device r" and "ap_kind p = ap_kind r" and "ap_id p < ap_id r" and "ap_kind r \<noteq> ''snmp_silent''"
    and "dict_get (stable_fields (ap_summary p)) k = Some b" and "dict_get (stable_fields (ap_summary r)) k = Some a"
    and "\<not> scalar_eq b a" and "length (stable_fields (ap_summary r)) \<le> max_changes_per_snapshot"
    and "nd_events db = []"
  shows "list_ex (\<lambda>e. e_tenant e = ap_tenant r \<and> dict_get (e_attrs e) ''before'' = Some b)
    (nd_events (project_snapshot now [p, r] r db))"
proof -
  let ?cs = "changes (stable_fields (ap_summary p)) (stable_fields (ap_summary r))"
  let ?f = "\<lambda>(k, b, a). change_event now r k b a"
  let ?key = "ne_dedup (change_event now r k b a)"
  let ?gs = "interfaces_of (ap_summary r) (ap_kind r)"
  let ?g = "iface_event now r (measured (ap_summary r))"
  have mem: "(k, b, a) \<in> set ?cs" by (rule changed_listed [OF assms(5-8)])
  have keys: "ne_dedup (change_event now r k' b' a') = ?key \<Longrightarrow> k' = k" for k' b' a'
    by (simp add: change_event_def Let_def)
  have says: "says_before ?key (ap_tenant r) b (change_event now r k' b' a')" if "(k', b', a') \<in> set ?cs" for k' b' a'
  proof -
    have "b' = b" if "k' = k" using changes_from [OF \<open>(k', b', a') \<in> set ?cs\<close>] assms(5) that by simp
    with keys [of k' b' a'] show ?thesis
      by (simp only: says_before_def) (simp add: change_event_def Let_def)
  qed
  let ?d0 = "emit (state_event now r) db"
  let ?d1 = "fold (\<lambda>x. emit (?f x)) ?cs ?d0"
  let ?d2 = "fold (\<lambda>x. emit (?g x)) ?gs ?d1"
  have "says_before ?key (ap_tenant r) b (state_event now r)"
    by (simp add: says_before_def state_event_def change_event_def Let_def)
  then have start: "list_all (says_before ?key (ap_tenant r) b) (nd_events ?d0)"
    by (simp add: assms(9) emit_def emitted_says)
  have mid: "list_all (says_before ?key (ap_tenant r) b) (nd_events ?d1) \<and> ?key \<in> ne_dedup ` set (nd_events ?d1)"
  proof -
    have "\<forall>x \<in> set ?cs. says_before ?key (ap_tenant r) b (?f x)" using says by auto
    moreover have "?key \<in> (ne_dedup \<circ> ?f) ` set ?cs" using imageI [OF mem, of "ne_dedup \<circ> ?f"] by simp
    ultimately show ?thesis using folded_says [OF start, of ?cs ?f] by blast
  qed
  have "says_before ?key (ap_tenant r) b (?g x)" for x
    by (simp add: says_before_def iface_event_def change_event_def case_prod_beta Let_def)
  with folded_says [of ?key "ap_tenant r" b ?d1 ?gs ?g] mid
  have fin: "list_all (says_before ?key (ap_tenant r) b) (nd_events ?d2) \<and> ?key \<in> ne_dedup ` set (nd_events ?d2)"
    by blast
  have "(\<lambda>(k, b, a). emit (change_event now r k b a)) = (\<lambda>x. emit (?f x))" by (simp add: fun_eq_iff)
  then have "project_snapshot now [p, r] r db = fold (\<lambda>x. emit (?g x)) ?gs (fold (\<lambda>x. emit (?f x)) ?cs (emit (state_event now r) db))"
    using assms(4) by (simp add: project_snapshot_def previous_of_pair [OF assms(1-3)] Let_def)
  with fin show ?thesis by (auto simp: list_all_iff list_ex_iff says_before_def)
qed

definition status_row :: "int \<Rightarrow> string \<Rightarrow> string \<Rightarrow> api_row" where
  "status_row n tenant name = \<lparr>ap_id = n, ap_ts = 1000 + n, ap_tenant = tenant, ap_device = ''192.168.1.1'',
     ap_kind = ''system_status'', ap_summary = Some (JObj [(''hostname'', JStr name)])\<rparr>"

theorem change_crosses_tenants_witness:
  "list_ex (\<lambda>e. e_tenant e = ''beta'' \<and> dict_get (e_attrs e) ''before'' = Some (JStr ''acme-core''))
     (nd_events (project_snapshot 2000 [status_row 1 ''acme'' ''acme-core'', status_row 2 ''beta'' ''beta-edge'']
       (status_row 2 ''beta'' ''beta-edge'') (fresh_norm [])))"
proof -
  have "dict_get (stable_fields (ap_summary (status_row 1 ''acme'' ''acme-core''))) ''hostname'' = Some (JStr ''acme-core'')"
    "dict_get (stable_fields (ap_summary (status_row 2 ''beta'' ''beta-edge''))) ''hostname'' = Some (JStr ''beta-edge'')"
    "length (stable_fields (ap_summary (status_row 2 ''beta'' ''beta-edge''))) \<le> max_changes_per_snapshot"
    by code_simp+
  from change_crosses_tenants [OF _ _ _ _ this(1,2) _ this(3), of "fresh_norm []" 2000] show ?thesis
    by (simp add: status_row_def fresh_norm_def scalar_eq_def)
qed

text \<open>
  A dot in an interface name shifts the path: the fields of the subinterface \<open>Gi0/1.10\<close> of a snapshot are read as
  fields of the port \<open>Gi0/1\<close>.
\<close>

lemma dotted_interface_shifted:
  "interface_of ''results.Gi0/1.10.link'' ''snmp_interfaces'' = Some ''Gi0/1''
   \<and> map fst (interfaces_of (Some (JObj [(''results'', JObj [(''Gi0/1.10'', JObj [(''link'', JBool True)])])])) ''snmp_interfaces'') = [''Gi0/1'']"
  by code_simp

end
