(* ===== verification/Flow_Ingest_Sound.thy ===== *)
theory Flow_Ingest_Sound
  imports Flow_Ingest Netflow_Sound
begin

text \<open>
  What the write path guarantees: every row queued for a tenant comes from the one device of that
  tenant that owns the sender's address, and the writer keeps the totals of the flows it stores. And
  where it fails: a counter beyond 64 bits stops the writer for good.
\<close>

section \<open>Attribution\<close>







lemma resolve_tenant_known:
  "get_device_by_ip devices e = Some (Some d) \<Longrightarrow> resolve_tenant devices now e recv st = (st, Some (de_tenant d))"
  by (simp add: resolve_tenant_def)






section \<open>Totals\<close>




lemma same_flow_add [simp]: "same_flow (add_flow n a) b = same_flow a b" "same_flow a (add_flow n b) = same_flow a b"
  by (auto simp: same_flow_def add_flow_def)










section \<open>A counter beyond 64 bits\<close>

definition write_round ::
    "(obs_write \<Rightarrow> bool) \<Rightarrow> string dict list \<Rightarrow> rat \<Rightarrow> rat \<Rightarrow> string option \<Rightarrow> flow_rec \<Rightarrow> ingest \<times> raw_db \<Rightarrow> ingest \<times> raw_db" where
  "write_round fails devices now recv name r sd =
     (case sd of (st, db) \<Rightarrow> writer_step fails (handle_record devices now recv name (Flow_rec r) st, db))"

lemma dead_writer: "ig_dead st \<Longrightarrow> writer_step fails (st, db) = (st, db)"
  by (simp add: writer_step_def)

lemma handle_record_dead [simp]: "ig_dead (handle_record devices now recv name r st) = ig_dead st"
  and handle_record_restarts [simp]: "ig_restarts (handle_record devices now recv name r st) = ig_restarts st"
  by (auto simp: handle_record_def resolve_tenant_def enqueue_flow_def flow_window_start_def enqueue_write_def
      log_queue_full_def Let_def split: option.splits ingest_rec.splits prod.splits if_splits)

lemma dead_round: "ig_dead st \<Longrightarrow> snd (write_round fails devices now recv name r (st, db)) = db
    \<and> ig_dead (fst (write_round fails devices now recv name r (st, db)))"
  by (simp add: write_round_def dead_writer)

lemma dead_rounds: "ig_dead (fst sd) \<Longrightarrow> snd (fold (write_round fails devices now recv name) rs sd) = snd sd"
proof (induction rs arbitrary: sd)
  case (Cons r rs)
  from dead_round [OF Cons.prems, of fails devices now recv name r "snd sd"] Cons.IH
    [of "write_round fails devices now recv name r sd"] show ?case by simp
qed simp

lemma crash_round:
  assumes "get_device_by_ip devices (fr_exporter r) = Some (Some d)" and "2 ^ 63 \<le> fr_bytes r"
    and "ig_queue st = []" and "\<not> ig_dead st"
  shows "\<exists>st'. write_round fails devices now recv name r (st, db) = (st', db) \<and> ig_queue st' = []
    \<and> ig_restarts st' = ig_restarts st + 1 \<and> ig_dead st' = (ig_restarts st + 1 > max_writer_restarts)"
proof -
  obtain st1 w where w: "flow_window_start (Some (int (fr_end r))) recv st = (st1, w)" by fastforce
  then have st1: "ig_queue st1 = []" "\<not> ig_dead st1" "ig_restarts st1 = ig_restarts st"
    using assms(3,4) by (auto simp: flow_window_start_def Let_def split: if_splits)
  have big: "\<not> fits_int64 (int (fr_bytes r))" using assms(2) by (simp add: fits_int64_def)
  have "handle_record devices now recv name (Flow_rec r) st
    = st1\<lparr>ig_queue := [Flow_upsert \<lparr>fa_window = w, fa_tenant = de_tenant d, fa_src = fr_src r, fa_dst = fr_dst r,
        fa_proto = fr_proto r, fa_dport = fr_dport r, fa_bytes = fr_bytes r, fa_packets = fr_packets r,
        fa_count = 1, fa_exporter = fr_exporter r, fa_source = name\<rparr>]\<rparr>"
    using assms(1) st1 by (simp add: handle_record_def resolve_tenant_known enqueue_flow_def w enqueue_write_def queue_max_def)
  then show ?thesis
    using st1 big assms(4) by (simp add: write_round_def writer_step_def batch_size_def exec_write_def writer_crash_def Let_def)
qed

lemma crash_rounds:
  assumes "get_device_by_ip devices (fr_exporter r) = Some (Some d)" and "2 ^ 63 \<le> fr_bytes r"
  shows "ig_queue st = [] \<Longrightarrow> \<not> ig_dead st \<Longrightarrow> ig_restarts st + n = max_writer_restarts
    \<Longrightarrow> \<exists>st'. fold (write_round fails devices now recv name) (replicate (Suc n) r) (st, db) = (st', db) \<and> ig_dead st'"
proof (induction n arbitrary: st)
  case 0
  with crash_round [OF assms, of st fails now recv name db] show ?case by auto
next
  case (Suc n)
  from crash_round [OF assms Suc.prems(1,2), of fails now recv name db] Suc.prems(3) obtain st1 where
    one: "write_round fails devices now recv name r (st, db) = (st1, db)"
    and st1: "ig_queue st1 = []" "\<not> ig_dead st1" "ig_restarts st1 + n = max_writer_restarts" by auto
  from Suc.IH [OF st1] one show ?case by simp
qed

text \<open>
  A flow record of a known device whose byte counter does not fit in a signed 64-bit integer
  (NetFlow v9 and IPFIX let the exporter choose the length of a counter) crashes the writer thread
  when it is bound, and after six of them the writer is dead: no row of any later record, of any
  tenant, is ever stored.
\<close>

theorem oversized_counter_kills_writer:
  assumes "get_device_by_ip devices (fr_exporter r) = Some (Some d)" and "2 ^ 63 \<le> fr_bytes r"
    and "ig_queue st = []" and "\<not> ig_dead st" and "ig_restarts st = 0"
  shows "snd (fold (write_round fails devices now recv name) (replicate 6 r @ rs) (st, db)) = db
    \<and> ig_dead (fst (fold (write_round fails devices now recv name) (replicate 6 r) (st, db)))"
proof -
  have five: "ig_restarts st + 5 = max_writer_restarts" using assms(5) by (simp add: max_writer_restarts_def)
  from crash_rounds [OF assms(1-4) five] obtain st' where
    st': "fold (write_round fails devices now recv name) (replicate (Suc 5) r) (st, db) = (st', db)" "ig_dead st'"
    by blast
  have six: "(6 :: nat) = Suc 5" by simp
  show ?thesis
    using dead_rounds [of "(st', db)" fails devices now recv name rs] st'(2)
    by (simp only: six fold_append comp_apply st'(1) fst_conv snd_conv)
qed

text \<open>A datagram that does it: the byte counter on eight bytes, its highest bit set.\<close>

definition wide_layout :: "(nat \<times> nat) list" where "wide_layout = [(8, 4), (12, 4), (1, 8)]"

lemma wide_datagram:
  "netflow_parse 10 (v9_message 1700000000 1
      [(0, template_bytes (256, wide_layout)),
       (256, be_bytes 4 1 @ be_bytes 4 2 @ be_bytes 8 (2 ^ 63))]) ''192.0.2.9'' nf_init
   = (fst (netflow_parse 10 (v9_message 1700000000 1
      [(0, template_bytes (256, wide_layout)),
       (256, be_bytes 4 1 @ be_bytes 4 2 @ be_bytes 8 (2 ^ 63))]) ''192.0.2.9'' nf_init),
      [mk_record ''0.0.0.1'' ''0.0.0.2'' None None (2 ^ 63) 0 1700000000 ''192.0.2.9''])"
  by code_simp

definition acme_device :: "string dict" where
  "acme_device = [(''IP'', ''192.0.2.9''), (''Hostname'', ''edge''), (''Group'', ''acme'')]"

theorem oversized_counter_kills_writer_witness:
  "snd (fold (write_round (\<lambda>w. False) [acme_device] 100 1700000000 None)
      (replicate 6 (mk_record ''0.0.0.1'' ''0.0.0.2'' None None (2 ^ 63) 0 1700000000 ''192.0.2.9'')
        @ [mk_record ''192.0.2.1'' ''198.51.100.7'' (Some 6) (Some 443) 1500 3 1700000001 ''192.0.2.9''])
      (ingest_init, raw_empty)) = raw_empty"
proof -
  have "get_device_by_ip [acme_device] ''192.0.2.9'' = Some (Some (entry_of_row acme_device))" by code_simp
  then show ?thesis
    by (intro oversized_counter_kills_writer [where d = "entry_of_row acme_device", THEN conjunct1])
       (simp_all add: mk_record_def ingest_init_def)
qed

end
