(* ===== verification/Py_Ipaddress.thy ===== *)
theory Py_Ipaddress
  imports Wire
begin

text \<open>
  The part of Python's \<open>ipaddress\<close> module that the services use: addresses and networks of both
  versions, read with \<open>strict=False\<close> and printed. A network is its version, its first address and
  its prefix length. Scope identifiers of IPv6 (\<open>%eth0\<close>) are not modelled: such a text is refused.
  Shown here: the tests on networks are those on the sets of their addresses, and an IPv4 network is printed and
  read back.
\<close>

datatype ip_addr = V4 nat | V6 nat

fun ip_is6 :: "ip_addr \<Rightarrow> bool" where
  "ip_is6 (V4 n) = False"
| "ip_is6 (V6 n) = True"

fun ip_value :: "ip_addr \<Rightarrow> nat" where
  "ip_value (V4 n) = n"
| "ip_value (V6 n) = n"

section \<open>Addresses\<close>

definition is_hex :: "char \<Rightarrow> bool" where
  "is_hex c \<longleftrightarrow> is_digit c \<or> (let n = code c in 65 \<le> n \<and> n \<le> 70 \<or> 97 \<le> n \<and> n \<le> 102)"

definition hex_val :: "char \<Rightarrow> nat" where
  "hex_val c = (if is_digit c then code c - 48 else if code c \<ge> 97 then code c - 87 else code c - 55)"

definition hextet_val :: "string \<Rightarrow> nat option" where
  "hextet_val s =
     (if s = [] \<or> length s > 4 \<or> \<not> list_all is_hex s then None
      else Some (foldl (\<lambda>a c. 16 * a + hex_val c) 0 s))"

fun option_list :: "'a option list \<Rightarrow> 'a list option" where
  "option_list [] = Some []"
| "option_list (x # xs) = (case x of None \<Rightarrow> None | Some y \<Rightarrow> map_option ((#) y) (option_list xs))"

definition hextets_val :: "nat list \<Rightarrow> nat" where
  "hextets_val hs = foldl (\<lambda>a h. 65536 * a + h) 0 hs"

text \<open>The last part may be an IPv4 address.\<close>

definition v6_parts :: "string \<Rightarrow> string list option" where
  "v6_parts s =
     (let ps = split_on (CHR '':'') s in
      if length ps < 3 then None
      else if CHR ''.'' \<in> set (last ps) then
        (case ipv4_address (last ps) of
           None \<Rightarrow> None
         | Some w \<Rightarrow> Some (butlast ps @ [hex_text (unat w div 65536), hex_text (unat w mod 65536)]))
      else Some ps)"

text \<open>The positions of the inner empty parts.\<close>

definition inner_gaps :: "string list \<Rightarrow> nat list" where
  "inner_gaps ps = filter (\<lambda>i. ps ! i = []) [1..<length ps - 1]"

definition ipv6_address :: "string \<Rightarrow> nat option" where
  "ipv6_address s =
     (case v6_parts s of
        None \<Rightarrow> None
      | Some ps \<Rightarrow>
          if length ps > 9 then None
          else case inner_gaps ps of
            [] \<Rightarrow> if length ps \<noteq> 8 \<or> hd ps = [] \<or> last ps = [] then None
                 else map_option hextets_val (option_list (map hextet_val ps))
          | [i] \<Rightarrow>
              (let hi = (if hd ps = [] then i - 1 else i);
                   lo = (if last ps = [] then length ps - i - 2 else length ps - i - 1) in
               if hd ps = [] \<and> hi \<noteq> 0 \<or> last ps = [] \<and> lo \<noteq> 0 \<or> hi + lo > 7 then None
               else case (option_list (map hextet_val (take hi ps)),
                          option_list (map hextet_val (drop (length ps - lo) ps))) of
                 (Some hs, Some ls) \<Rightarrow> Some (hextets_val (hs @ replicate (8 - (hi + lo)) 0 @ ls))
               | _ \<Rightarrow> None)
          | _ \<Rightarrow> None)"

definition ip_address :: "string \<Rightarrow> ip_addr option" where
  "ip_address s =
     (case ipv4_address s of
        Some w \<Rightarrow> Some (V4 (unat w))
      | None \<Rightarrow> map_option V6 (ipv6_address s))"

definition str_ip :: "ip_addr \<Rightarrow> string" where
  "str_ip a = (case a of V4 n \<Rightarrow> int_to_ip (word_of_nat n) | V6 n \<Rightarrow> str_ipv6 n)"

lemma ipv6_address_examples:
  "map ipv6_address [''::1'', ''::'', ''2001:db8::1'', ''1::'', ''1:2:3:4:5:6:7:8'', ''::ffff:1.2.3.4'', '':1'', ''1::2::3'', ''1:2:3:4:5:6:7::'']
   = [Some 1, Some 0, Some (0x20010db8 * 2 ^ 96 + 1), Some (2 ^ 112), Some 0x00010002000300040005000600070008,
      Some 0xffff01020304, None, None, Some 0x00010002000300040005000600070000]"
  by code_simp

section \<open>Networks\<close>

record ip_net =
  net_is6 :: bool
  net_base :: nat
  net_plen :: nat

definition ip_width :: "bool \<Rightarrow> nat" where
  "ip_width is6 = (if is6 then 128 else 32)"

definition net_size :: "ip_net \<Rightarrow> nat" where
  "net_size n = 2 ^ (ip_width (net_is6 n) - net_plen n)"

definition net_last :: "ip_net \<Rightarrow> nat" where
  "net_last n = net_base n + (net_size n - 1)"

definition prefix_digits :: "nat \<Rightarrow> string \<Rightarrow> nat option" where
  "prefix_digits w s = (if py_isdigit s \<and> digits_val s \<le> w then Some (digits_val s) else None)"

definition mask_plen :: "nat \<Rightarrow> nat option" where
  "mask_plen v = find (\<lambda>p. v = 2 ^ 32 - 2 ^ (32 - p)) [0..<33]"

text \<open>A prefix length, a netmask, or a hostmask.\<close>

definition v4_plen :: "string \<Rightarrow> nat option" where
  "v4_plen s =
     (case prefix_digits 32 s of
        Some p \<Rightarrow> Some p
      | None \<Rightarrow> (case ipv4_address s of
           None \<Rightarrow> None
         | Some w \<Rightarrow> (case mask_plen (unat w) of
              Some p \<Rightarrow> Some p | None \<Rightarrow> mask_plen (2 ^ 32 - 1 - unat w))))"

definition make_net :: "bool \<Rightarrow> nat \<Rightarrow> nat \<Rightarrow> ip_net" where
  "make_net is6 v p = (let size = 2 ^ (ip_width is6 - p) in \<lparr>net_is6 = is6, net_base = v div size * size, net_plen = p\<rparr>)"

definition ip_network :: "string \<Rightarrow> ip_net option" where
  "ip_network s =
     (let ps = split_on (CHR ''/'') s;
          v4 = (case ps of
              [a] \<Rightarrow> map_option (\<lambda>w. make_net False (unat w) 32) (ipv4_address a)
            | [a, m] \<Rightarrow> (case (ipv4_address a, v4_plen m) of
                 (Some w, Some p) \<Rightarrow> Some (make_net False (unat w) p) | _ \<Rightarrow> None)
            | _ \<Rightarrow> None) in
      case v4 of
        Some n \<Rightarrow> Some n
      | None \<Rightarrow> (case ps of
            [a] \<Rightarrow> map_option (\<lambda>v. make_net True v 128) (ipv6_address a)
          | [a, m] \<Rightarrow> (case (ipv6_address a, prefix_digits 128 m) of
               (Some v, Some p) \<Rightarrow> Some (make_net True v p) | _ \<Rightarrow> None)
          | _ \<Rightarrow> None))"

definition net_address :: "ip_net \<Rightarrow> ip_addr" where
  "net_address n = (if net_is6 n then V6 (net_base n) else V4 (net_base n))"

definition str_net :: "ip_net \<Rightarrow> string" where
  "str_net n = str_ip (net_address n) @ ''/'' @ str_nat (net_plen n)"

text \<open>\<open>a in n\<close>, \<open>n.overlaps(m)\<close>, and \<open>n.subnet_of(m)\<close> for networks of one version.\<close>

definition in_net :: "ip_addr \<Rightarrow> ip_net \<Rightarrow> bool" where
  "in_net a n \<longleftrightarrow> ip_is6 a = net_is6 n \<and> ip_value a div net_size n * net_size n = net_base n"

definition net_overlaps :: "ip_net \<Rightarrow> ip_net \<Rightarrow> bool" where
  "net_overlaps n m \<longleftrightarrow> in_net (net_address m) n
     \<or> in_net (if net_is6 m then V6 (net_last m) else V4 (net_last m)) n
     \<or> in_net (net_address n) m
     \<or> in_net (if net_is6 n then V6 (net_last n) else V4 (net_last n)) m"

definition subnet_of :: "ip_net \<Rightarrow> ip_net \<Rightarrow> bool" where
  "subnet_of n m \<longleftrightarrow> net_base m \<le> net_base n \<and> net_last n \<le> net_last m"

section \<open>The sets of addresses\<close>

definition net_ok :: "ip_net \<Rightarrow> bool" where
  "net_ok n \<longleftrightarrow> net_plen n \<le> ip_width (net_is6 n) \<and> net_size n dvd net_base n"

definition net_set :: "ip_net \<Rightarrow> nat set" where
  "net_set n = {net_base n..net_last n}"

lemma net_size_pos [simp]: "0 < net_size n"
  by (simp add: net_size_def)

lemma make_net_ok [simp]: "p \<le> ip_width is6 \<Longrightarrow> net_ok (make_net is6 v p)"
  by (simp add: net_ok_def make_net_def net_size_def Let_def)

lemma in_net_set: "net_ok n \<Longrightarrow> in_net a n \<longleftrightarrow> ip_is6 a = net_is6 n \<and> ip_value a \<in> net_set n"
proof -
  assume ok: "net_ok n"
  let ?s = "net_size n" and ?v = "ip_value a" and ?b = "net_base n"
  from ok obtain q where b: "?b = ?s * q" by (auto simp: net_ok_def)
  have "?v div ?s * ?s = ?b \<longleftrightarrow> ?b \<le> ?v \<and> ?v \<le> ?b + (?s - 1)"
  proof
    assume eq: "?v div ?s * ?s = ?b"
    have "?v = ?v div ?s * ?s + ?v mod ?s" by simp
    moreover have "?v mod ?s < ?s" by simp
    ultimately show "?b \<le> ?v \<and> ?v \<le> ?b + (?s - 1)" using eq by linarith
  next
    assume r: "?b \<le> ?v \<and> ?v \<le> ?b + (?s - 1)"
    then obtain d where d: "?v = ?s * q + d" "d < ?s"
      by (metis Suc_pred' add_diff_inverse_nat b le_simps(2) less_diff_conv2 linorder_not_less nat_add_left_cancel_le net_size_pos)
    then show "?v div ?s * ?s = ?b" by (simp add: b)
  qed
  then show ?thesis by (simp add: in_net_def net_set_def net_last_def)
qed

lemma net_base_in: "net_base n \<in> net_set n"
  and net_last_in: "net_last n \<in> net_set n"
  by (simp_all add: net_set_def net_last_def)

text \<open>
  Networks of one version overlap exactly when they share an address. One network of two is the
  larger; they share an address exactly when an end of the smaller lies in it.
\<close>

lemma net_overlaps_set:
  assumes "net_ok n" and "net_ok m"
  shows "net_overlaps n m \<longleftrightarrow> net_is6 n = net_is6 m \<and> net_set n \<inter> net_set m \<noteq> {}"
proof (cases "net_is6 n = net_is6 m")
  case True
  have "net_overlaps n m \<longleftrightarrow> net_base m \<in> net_set n \<or> net_last m \<in> net_set n \<or> net_base n \<in> net_set m \<or> net_last n \<in> net_set m"
    using True assms by (auto simp: net_overlaps_def in_net_set net_address_def)
  also have "\<dots> \<longleftrightarrow> net_set n \<inter> net_set m \<noteq> {}"
    by (auto simp: net_set_def net_last_def)
  finally show ?thesis using True by simp
qed (use assms in \<open>auto simp: net_overlaps_def in_net_set net_address_def\<close>)

lemma subnet_of_set: "subnet_of n m \<longleftrightarrow> net_set n \<subseteq> net_set m"
  by (auto simp: subnet_of_def net_set_def net_last_def)

lemma mask_plen_le: "mask_plen v = Some p \<Longrightarrow> p \<le> 32"
  by (auto simp: mask_plen_def find_Some_iff)

lemma v4_plen_le: "v4_plen s = Some p \<Longrightarrow> p \<le> 32"
  by (auto simp: v4_plen_def prefix_digits_def dest: mask_plen_le split: option.splits if_splits)

lemma ip_network_ok: "ip_network s = Some n \<Longrightarrow> net_ok n"
  by (auto simp: ip_network_def Let_def prefix_digits_def ip_width_def dest: v4_plen_le
      split: list.splits option.splits if_splits intro!: make_net_ok)

section \<open>Printing and reading an IPv4 network\<close>

lemma slash_notin_dotted: "CHR ''/'' \<notin> set (int_to_ip w)"
proof
  assume "CHR ''/'' \<in> set (int_to_ip w)"
  then have "is_digit (CHR ''/'') \<or> CHR ''/'' = CHR ''.''"
    by (auto simp: int_to_ip_def Let_def dest: str_nat_chars)
  then show False by (simp add: is_digit_def code_def)
qed

lemma ipv4_address_int_to_ip: "ipv4_address (int_to_ip w) = Some w"
proof -
  have "py_strip (int_to_ip w) = int_to_ip w"
    by (simp only: int_to_ip_def Let_def list.map strip_dotted)
  with ip_to_int_int_to_ip [of w] show ?thesis
    unfolding ip_to_int_def by (simp split: option.splits)
qed

lemma slash_notin_str_nat: "CHR ''/'' \<notin> set (str_nat n)"
proof
  assume "CHR ''/'' \<in> set (str_nat n)"
  then have "is_digit (CHR ''/'')" by (rule str_nat_chars)
  then show False by (simp add: is_digit_def code_def)
qed

lemma ip_network_str_net:
  assumes "net_ok n" and "\<not> net_is6 n" and "net_base n < 2 ^ 32"
  shows "ip_network (str_net n) = Some n"
proof -
  obtain v p where n: "n = \<lparr>net_is6 = False, net_base = v, net_plen = p\<rparr>" using assms(2) by (cases n) simp
  have ok: "p \<le> 32" "2 ^ (32 - p) dvd v" "v < 2 ^ 32" using assms by (simp_all add: n net_ok_def ip_width_def net_size_def)
  have "split_on (CHR ''/'') (str_net n) = [int_to_ip (word_of_nat v), str_nat p]"
    by (simp add: n str_net_def net_address_def str_ip_def split_on_sep [OF slash_notin_dotted, simplified] split_on_no_sep slash_notin_str_nat)
  moreover have "v4_plen (str_nat p) = Some p"
    using ok(1) by (simp add: v4_plen_def prefix_digits_def str_nat_digits)
  ultimately show ?thesis
    using ok by (simp add: ip_network_def ipv4_address_int_to_ip make_net_def ip_width_def n unat_of_nat)
qed

end
