(* ===== verification/Blueprint_Model.thy ===== *)
theory Blueprint_Model
  imports Py_Ipaddress Obs_Store
begin

text \<open>
  \<open>services/blueprint_model.py\<close>: the pure logic of the network blueprint, that is the operations of a draft
  applied to the tables of locations and links, the views, differences, restores and
  presets; with \<open>_clean_subnets\<close> of \<open>location_manager.py\<close> and \<open>_slugify\<close> of \<open>probe_manager.py\<close>. An operation is the JSON
  value the client sent; what the code compares, hashes or iterates of the wrong type is the branch
  \<open>Malformed\<close>. The text of \<open>str\<close> of a float, a list or an object is the argument \<open>repr\<close>.
\<close>

section \<open>Tables\<close>

record bp_loc =
  lo_org :: string
  lo_name :: string
  lo_role :: string
  lo_subnets :: "string list"
  lo_probe :: string
  lo_gateway :: string

record bp_link =
  lk_org :: string
  lk_a :: string
  lk_b :: string
  lk_kind :: string
  lk_note :: string

record bp_tables =
  bt_locs :: "bp_loc dict"
  bt_links :: "bp_link dict"
  bt_refs :: "string dict"

definition bp_roles :: "string list" where
  "bp_roles = [''hq'', ''branch'', ''datacenter'', ''warehouse'', ''other'']"

definition bp_kinds :: "string list" where
  "bp_kinds = [''vpn'', ''wan'', ''mpls'', ''lan'']"

definition max_preset :: nat where "max_preset = 50"
definition max_draft_ops :: nat where "max_draft_ops = 2000"
definition max_name :: nat where "max_name = 100"
definition max_note :: nat where "max_note = 500"

text \<open>The reasons of an \<open>OpError\<close>, by the text that the code raises.\<close>

datatype op_reason = Malformed | Unknown_field | Name_missing | Name_too_long | Bad_role | Bad_subnet string
  | Bad_probe | Bad_gateway | Bad_ref | Bad_id | No_fields | Unknown_location | Same_location | Bad_kind
  | Link_exists | Unknown_link | Unknown_op

datatype draft_error = Op_error nat op_reason | Draft_too_big

definition bind_e :: "'e + 'a \<Rightarrow> ('a \<Rightarrow> 'e + 'b) \<Rightarrow> 'e + 'b" where
  "bind_e r f = (case r of Inl e \<Rightarrow> Inl e | Inr a \<Rightarrow> f a)"

lemma bind_e_simps [simp]: "bind_e (Inl e) f = Inl e" "bind_e (Inr a) f = f a"
  by (simp_all add: bind_e_def)

named_theorems bp_ok \<open>successful results of the steps\<close>

lemma bind_e_eq_Inr [bp_ok]: "bind_e r f = Inr b \<longleftrightarrow> (\<exists>a. r = Inr a \<and> f a = Inr b)"
  by (cases r) auto

section \<open>Values\<close>

definition op_get :: "json dict \<Rightarrow> string \<Rightarrow> json" where
  "op_get d k = (case dict_get d k of None \<Rightarrow> JNull | Some j \<Rightarrow> j)"

definition json_or :: "json \<Rightarrow> json \<Rightarrow> json" where
  "json_or a b = (if json_true a then a else b)"

fun py_str :: "(json \<Rightarrow> string) \<Rightarrow> json \<Rightarrow> string" where
  "py_str repr (JStr s) = s"
| "py_str repr (JInt i) = str_int i"
| "py_str repr (JBool b) = (if b then ''True'' else ''False'')"
| "py_str repr JNull = ''None''"
| "py_str repr j = repr j"

definition str_or_empty :: "(json \<Rightarrow> string) \<Rightarrow> json \<Rightarrow> string" where
  "str_or_empty repr j = (if json_true j then py_str repr j else [])"

text \<open>\<open>re.sub(r"[^a-z0-9]+", "-", \<dots>).strip("-")\<close>.\<close>

definition slug_char :: "char \<Rightarrow> bool" where
  "slug_char c \<longleftrightarrow> is_digit c \<or> (let n = code c in 97 \<le> n \<and> n \<le> 122)"

fun slug_runs :: "bool \<Rightarrow> string \<Rightarrow> string" where
  "slug_runs in_run [] = []"
| "slug_runs in_run (c # cs) =
     (if slug_char c then c # slug_runs False cs
      else if in_run then slug_runs True cs else CHR ''-'' # slug_runs True cs)"

definition slugify :: "string \<Rightarrow> string" where
  "slugify name =
     (let slug = strip_char (CHR ''-'') (slug_runs False (py_lower (py_strip name))) in
      if slug = [] then ''probe'' else slug)"

text \<open>\<open>_clean_subnets\<close>: a text is iterated by characters and an object by keys.\<close>

definition json_items :: "json \<Rightarrow> op_reason + json list" where
  "json_items j =
     (if \<not> json_true j then Inr []
      else case j of
        JList xs \<Rightarrow> Inr xs
      | JStr s \<Rightarrow> Inr (map (\<lambda>c. JStr [c]) s)
      | JObj d \<Rightarrow> Inr (map (\<lambda>(k, v). JStr k) d)
      | _ \<Rightarrow> Inl Malformed)"

fun clean_each :: "(json \<Rightarrow> string) \<Rightarrow> json list \<Rightarrow> op_reason + string list" where
  "clean_each repr [] = Inr []"
| "clean_each repr (x # xs) =
     (let raw = py_strip (py_str repr x) in
      if raw = [] then clean_each repr xs
      else case ip_network raw of
        None \<Rightarrow> Inl (Bad_subnet raw)
      | Some n \<Rightarrow> bind_e (clean_each repr xs) (\<lambda>out. Inr (str_net n # out)))"

definition clean_subnets :: "(json \<Rightarrow> string) \<Rightarrow> json \<Rightarrow> op_reason + string list" where
  "clean_subnets repr v = bind_e (json_items v) (\<lambda>xs. bind_e (clean_each repr xs) (\<lambda>out. Inr (sorted_texts out)))"

section \<open>Fields\<close>

datatype loc_field = F_name string | F_role string | F_subnets "string list" | F_probe string | F_gateway string

fun is_container :: "json \<Rightarrow> bool" where
  "is_container (JList xs) = True"
| "is_container (JObj d) = True"
| "is_container _ = False"

definition clean_field :: "(json \<Rightarrow> string) \<Rightarrow> string list \<Rightarrow> string \<times> json \<Rightarrow> op_reason + loc_field" where
  "clean_field repr probes kv =
     (case kv of (k, v) \<Rightarrow>
        if k = ''name'' then
          (let s = py_strip (str_or_empty repr v) in
           if s = [] then Inl Name_missing else if length s > max_name then Inl Name_too_long else Inr (F_name s))
        else if k = ''role'' then
          (case v of JStr r \<Rightarrow> if r \<in> set bp_roles then Inr (F_role r) else Inl Bad_role | _ \<Rightarrow> Inl Bad_role)
        else if k = ''subnets'' then bind_e (clean_subnets repr v) (\<lambda>s. Inr (F_subnets s))
        else if k = ''probe'' then
          (case v of JStr p \<Rightarrow> if p \<in> set probes then Inr (F_probe p) else Inl Bad_probe
           | _ \<Rightarrow> Inl (if is_container v then Malformed else Bad_probe))
        else if k = ''gateway'' then
          (let s = py_strip (str_or_empty repr v) in
           if s \<noteq> [] \<and> ip_address s = None then Inl Bad_gateway else Inr (F_gateway s))
        else Inl Unknown_field)"

fun clean_fields :: "(json \<Rightarrow> string) \<Rightarrow> string list \<Rightarrow> json dict \<Rightarrow> op_reason + loc_field list" where
  "clean_fields repr probes [] = Inr []"
| "clean_fields repr probes (kv # d) =
     bind_e (clean_field repr probes kv) (\<lambda>f. bind_e (clean_fields repr probes d) (\<lambda>fs. Inr (f # fs)))"

fun set_field :: "loc_field \<Rightarrow> bp_loc \<Rightarrow> bp_loc" where
  "set_field (F_name s) l = l\<lparr>lo_name := s\<rparr>"
| "set_field (F_role s) l = l\<lparr>lo_role := s\<rparr>"
| "set_field (F_subnets s) l = l\<lparr>lo_subnets := s\<rparr>"
| "set_field (F_probe s) l = l\<lparr>lo_probe := s\<rparr>"
| "set_field (F_gateway s) l = l\<lparr>lo_gateway := s\<rparr>"

definition blank_loc :: "string \<Rightarrow> bp_loc" where
  "blank_loc org = \<lparr>lo_org = org, lo_name = [], lo_role = [], lo_subnets = [], lo_probe = [], lo_gateway = []\<rparr>"

section \<open>Operations\<close>

definition link_id :: "string \<Rightarrow> string \<Rightarrow> string \<Rightarrow> string" where
  "link_id a b kind = (if text_le a b then a @ ''--'' @ b @ ''--'' @ kind else b @ ''--'' @ a @ ''--'' @ kind)"

text \<open>\<open>_free_id\<close>: among one more candidates than there are ids taken, one is free.\<close>

definition free_id :: "string \<Rightarrow> string list \<Rightarrow> string" where
  "free_id base taken =
     (case find (\<lambda>lid. lid \<notin> set taken) (base # map (\<lambda>n. base @ ''-'' @ str_nat n) [2..<length taken + 3]) of
        Some lid \<Rightarrow> lid | None \<Rightarrow> base)"

definition resolve_loc :: "string \<Rightarrow> bp_tables \<Rightarrow> json \<Rightarrow> op_reason + string" where
  "resolve_loc org t x =
     (if is_container x then Inl Malformed
      else case x of
        JStr s \<Rightarrow>
          (let lid = (case dict_get (bt_refs t) s of None \<Rightarrow> s | Some l \<Rightarrow> l) in
           case dict_get (bt_locs t) lid of
             Some l \<Rightarrow> if lo_org l = org then Inr lid else Inl Unknown_location
           | None \<Rightarrow> Inl Unknown_location)
      | _ \<Rightarrow> Inl Unknown_location)"

definition set_fields :: "string \<Rightarrow> loc_field list \<Rightarrow> bp_tables \<Rightarrow> bp_tables" where
  "set_fields lid fs t =
     (case dict_get (bt_locs t) lid of
        None \<Rightarrow> t
      | Some l \<Rightarrow> t\<lparr>bt_locs := dict_set lid (fold set_field fs l) (bt_locs t)\<rparr>)"

definition check_ref :: "bp_tables \<Rightarrow> json \<Rightarrow> op_reason + string option" where
  "check_ref t ref =
     (case ref of
        JNull \<Rightarrow> Inr None
      | JStr r \<Rightarrow> if starts_with ''+'' r \<and> \<not> dict_has (bt_refs t) r then Inr (Some r) else Inl Bad_ref
      | _ \<Rightarrow> Inl Bad_ref)"

definition check_wanted :: "json \<Rightarrow> op_reason + string option" where
  "check_wanted w =
     (if \<not> json_true w then Inr None
      else case w of
        JStr s \<Rightarrow> if s = slugify s then Inr (Some s) else Inl Bad_id
      | _ \<Rightarrow> Inl Malformed)"

definition create_location_op ::
    "(json \<Rightarrow> string) \<Rightarrow> string list \<Rightarrow> string \<Rightarrow> json dict \<Rightarrow> bp_tables \<Rightarrow> op_reason + bp_tables" where
  "create_location_op repr probes org op t =
     bind_e (clean_fields repr probes
        [(''name'', op_get op ''name''), (''role'', json_or (op_get op ''role'') (JStr ''branch'')),
         (''subnets'', json_or (op_get op ''subnets'') (JList [])),
         (''probe'', json_or (op_get op ''probe'') (JStr ''central'')),
         (''gateway'', json_or (op_get op ''gateway'') (JStr []))]) (\<lambda>fs.
     bind_e (check_ref t (op_get op ''ref'')) (\<lambda>ref.
     bind_e (check_wanted (op_get op ''id'')) (\<lambda>wanted.
       let taken = map fst (bt_locs t); l = fold set_field fs (blank_loc org);
           lid = (case wanted of
               Some w \<Rightarrow> if w \<notin> set taken then w else free_id w taken
             | None \<Rightarrow> free_id (slugify (lo_name l)) taken) in
       Inr (t\<lparr>bt_locs := dict_set lid l (bt_locs t),
              bt_refs := (case ref of None \<Rightarrow> bt_refs t | Some r \<Rightarrow> dict_set r lid (bt_refs t))\<rparr>))))"

definition update_location_op ::
    "(json \<Rightarrow> string) \<Rightarrow> string list \<Rightarrow> string \<Rightarrow> string \<Rightarrow> json dict \<Rightarrow> bp_tables \<Rightarrow> op_reason + bp_tables" where
  "update_location_op repr probes org kind op t =
     bind_e (resolve_loc org t (op_get op ''id'')) (\<lambda>lid.
     bind_e (if kind = ''update_location'' then
               (case op_get op ''fields'' of JObj (x # d) \<Rightarrow> Inr (x # d) | _ \<Rightarrow> Inl No_fields)
             else if kind = ''set_gateway'' then Inr [(''gateway'', op_get op ''ip'')]
             else Inr [(''subnets'', JList (map JStr (case dict_get (bt_locs t) lid of
                     None \<Rightarrow> [] | Some l \<Rightarrow> lo_subnets l) @ [op_get op ''subnet'']))]) (\<lambda>fields.
     bind_e (clean_fields repr probes fields) (\<lambda>fs. Inr (set_fields lid fs t))))"

definition delete_location_op :: "string \<Rightarrow> json dict \<Rightarrow> bp_tables \<Rightarrow> op_reason + bp_tables" where
  "delete_location_op org op t =
     bind_e (resolve_loc org t (op_get op ''id'')) (\<lambda>lid.
       Inr (t\<lparr>bt_locs := AList.delete lid (bt_locs t),
              bt_links := filter (\<lambda>(k, v). lid \<noteq> lk_a v \<and> lid \<noteq> lk_b v) (bt_links t)\<rparr>))"

definition add_link_op :: "(json \<Rightarrow> string) \<Rightarrow> string \<Rightarrow> json dict \<Rightarrow> bp_tables \<Rightarrow> op_reason + bp_tables" where
  "add_link_op repr org op t =
     bind_e (resolve_loc org t (op_get op ''a'')) (\<lambda>a.
     bind_e (resolve_loc org t (op_get op ''b'')) (\<lambda>b.
       if a = b then Inl Same_location
       else case op_get op ''kind'' of
         JStr kind \<Rightarrow>
           if kind \<notin> set bp_kinds then Inl Bad_kind
           else (let k = link_id a b kind in
             if dict_has (bt_links t) k then Inl Link_exists
             else Inr (t\<lparr>bt_links := dict_set k
               \<lparr>lk_org = org, lk_a = (if text_le a b then a else b), lk_b = (if text_le a b then b else a),
                lk_kind = kind, lk_note = take max_note (str_or_empty repr (op_get op ''note''))\<rparr> (bt_links t)\<rparr>))
       | _ \<Rightarrow> Inl Bad_kind))"

definition remove_link_op :: "string \<Rightarrow> json dict \<Rightarrow> bp_tables \<Rightarrow> op_reason + bp_tables" where
  "remove_link_op org op t =
     (if is_container (op_get op ''id'') then Inl Malformed
      else case op_get op ''id'' of
        JStr k \<Rightarrow>
          (case dict_get (bt_links t) k of
             Some v \<Rightarrow> if lk_org v = org then Inr (t\<lparr>bt_links := AList.delete k (bt_links t)\<rparr>) else Inl Unknown_link
           | None \<Rightarrow> Inl Unknown_link)
      | _ \<Rightarrow> Inl Unknown_link)"

definition apply_op :: "(json \<Rightarrow> string) \<Rightarrow> string list \<Rightarrow> string \<Rightarrow> json \<Rightarrow> bp_tables \<Rightarrow> op_reason + bp_tables" where
  "apply_op repr probes org j t =
     (case j of
        JObj op \<Rightarrow>
          (case op_get op ''op'' of
             JStr kind \<Rightarrow>
               if kind = ''create_location'' then create_location_op repr probes org op t
               else if kind \<in> {''update_location'', ''set_gateway'', ''add_subnet''} then update_location_op repr probes org kind op t
               else if kind = ''delete_location'' then delete_location_op org op t
               else if kind = ''add_link'' then add_link_op repr org op t
               else if kind = ''remove_link'' then remove_link_op org op t
               else Inl Unknown_op
           | _ \<Rightarrow> Inl Unknown_op)
      | _ \<Rightarrow> Inl Malformed)"

fun run_ops :: "(json \<Rightarrow> string) \<Rightarrow> string list \<Rightarrow> string \<Rightarrow> nat \<Rightarrow> json list \<Rightarrow> bp_tables \<Rightarrow> draft_error + bp_tables" where
  "run_ops repr probes org i [] t = Inr t"
| "run_ops repr probes org i (op # ops) t =
     (case apply_op repr probes org op t of
        Inl e \<Rightarrow> Inl (Op_error i e)
      | Inr t' \<Rightarrow> run_ops repr probes org (i + 1) ops t')"

definition apply_ops ::
    "(json \<Rightarrow> string) \<Rightarrow> string list \<Rightarrow> string \<Rightarrow> bp_loc dict \<Rightarrow> bp_link dict \<Rightarrow> json list \<Rightarrow> draft_error + bp_tables" where
  "apply_ops repr probes org locs links ops =
     (if length ops > max_draft_ops then Inl Draft_too_big
      else run_ops repr probes org 0 ops \<lparr>bt_locs = locs, bt_links = links, bt_refs = []\<rparr>)"

end
