(* ===== verification/Blueprint_Plan.thy ===== *)
theory Blueprint_Plan
  imports Blueprint_Model
begin

text \<open>
  \<open>services/blueprint_model.py\<close>, the second half: the view of one organization, the difference of two
  views, the operations that restore a view and the operations of a preset topology.
\<close>

record bp_view =
  bv_locs :: "bp_loc dict"
  bv_links :: "bp_link dict"

definition org_view :: "bp_loc dict \<Rightarrow> bp_link dict \<Rightarrow> string \<Rightarrow> bp_view" where
  "org_view locs links org = \<lparr>bv_locs = filter (\<lambda>(k, v). lo_org v = org) locs,
     bv_links = filter (\<lambda>(k, v). lk_org v = org) links\<rparr>"

section \<open>Difference\<close>

definition loc_row :: "bp_loc \<Rightarrow> json dict" where
  "loc_row l = [(''org'', JStr (lo_org l)), (''name'', JStr (lo_name l)), (''role'', JStr (lo_role l)),
     (''subnets'', JList (map JStr (lo_subnets l))), (''probe'', JStr (lo_probe l)), (''gateway'', JStr (lo_gateway l))]"

definition link_row :: "bp_link \<Rightarrow> json dict" where
  "link_row k = [(''org'', JStr (lk_org k)), (''a'', JStr (lk_a k)), (''b'', JStr (lk_b k)),
     (''kind'', JStr (lk_kind k)), (''note'', JStr (lk_note k))]"

record part_diff =
  pd_added :: "json dict list"
  pd_removed :: "json dict list"
  pd_changed :: "(string \<times> json \<times> (string \<times> json \<times> json) list) list"

definition changed_fields :: "json dict \<Rightarrow> json dict \<Rightarrow> (string \<times> json \<times> json) list" where
  "changed_fields old new =
     map (\<lambda>f. (f, op_get old f, op_get new f))
       (filter (\<lambda>f. f \<noteq> ''org'' \<and> op_get old f \<noteq> op_get new f) (sorted_texts (map fst old @ map fst new)))"

definition diff_part :: "json dict dict \<Rightarrow> json dict dict \<Rightarrow> string \<Rightarrow> part_diff" where
  "diff_part a b label =
     (let row = (\<lambda>d k. case dict_get d k of None \<Rightarrow> [] | Some r \<Rightarrow> r);
          common = sorted_texts (filter (dict_has b) (map fst a));
          with_id = (\<lambda>d k. dict_set ''id'' (JStr k) (row d k)) in
      \<lparr>pd_added = map (with_id b) (sorted_texts (filter (\<lambda>k. \<not> dict_has a k) (map fst b))),
       pd_removed = map (with_id a) (sorted_texts (filter (\<lambda>k. \<not> dict_has b k) (map fst a))),
       pd_changed = map (\<lambda>k. (k, json_or (op_get (row b k) label) (JStr k), changed_fields (row a k) (row b k)))
         (filter (\<lambda>k. changed_fields (row a k) (row b k) \<noteq> []) common)\<rparr>)"

definition diff_views :: "bp_view \<Rightarrow> bp_view \<Rightarrow> part_diff \<times> part_diff" where
  "diff_views old new =
     (diff_part (map (map_prod id loc_row) (bv_locs old)) (map (map_prod id loc_row) (bv_locs new)) ''name'',
      diff_part (map (map_prod id link_row) (bv_links old)) (map (map_prod id link_row) (bv_links new)) ''kind'')"

section \<open>Restore\<close>

definition loc_fields :: "bp_loc \<Rightarrow> json dict" where
  "loc_fields l = [(''name'', JStr (lo_name l)), (''role'', JStr (lo_role l)),
     (''subnets'', JList (map JStr (lo_subnets l))), (''probe'', JStr (lo_probe l)), (''gateway'', JStr (lo_gateway l))]"

definition remove_link_json :: "string \<Rightarrow> json" where
  "remove_link_json k = JObj [(''op'', JStr ''remove_link''), (''id'', JStr k)]"

definition delete_location_json :: "string \<Rightarrow> json" where
  "delete_location_json lid = JObj [(''op'', JStr ''delete_location''), (''id'', JStr lid)]"

definition create_location_json :: "string \<Rightarrow> bp_loc \<Rightarrow> json" where
  "create_location_json lid l = JObj (loc_fields l @
     [(''op'', JStr ''create_location''), (''ref'', JStr (''+'' @ lid)), (''id'', JStr lid)])"

definition update_location_json :: "string \<Rightarrow> json dict \<Rightarrow> json" where
  "update_location_json lid fs = JObj [(''op'', JStr ''update_location''), (''id'', JStr lid), (''fields'', JObj fs)]"

definition add_link_json :: "string \<Rightarrow> string \<Rightarrow> string \<Rightarrow> string \<Rightarrow> json" where
  "add_link_json a b kind note = JObj [(''op'', JStr ''add_link''), (''a'', JStr a), (''b'', JStr b),
     (''kind'', JStr kind), (''note'', JStr note)]"

definition differing_fields :: "bp_loc \<Rightarrow> bp_loc \<Rightarrow> json dict" where
  "differing_fields cur tgt = filter (\<lambda>(f, v). op_get (loc_fields cur) f \<noteq> v) (loc_fields tgt)"

definition restore_created :: "bp_view \<Rightarrow> bp_view \<Rightarrow> string list" where
  "restore_created current target =
     sorted_texts (filter (\<lambda>k. \<not> dict_has (bv_locs current) k) (map fst (bv_locs target)))"

definition restore_ref :: "bp_view \<Rightarrow> bp_view \<Rightarrow> string \<Rightarrow> string" where
  "restore_ref current target x = (if x \<in> set (restore_created current target) then ''+'' @ x else x)"

definition restore_ops :: "bp_view \<Rightarrow> bp_view \<Rightarrow> json list" where
  "restore_ops current target =
     (let cur_l = bv_locs current; tgt_l = bv_locs target; cur_k = bv_links current; tgt_k = bv_links target in
      map remove_link_json (filter (\<lambda>k. dict_get cur_k k \<noteq> dict_get tgt_k k) (sorted_texts (map fst cur_k)))
      @ map delete_location_json (sorted_texts (filter (\<lambda>k. \<not> dict_has tgt_l k) (map fst cur_l)))
      @ List.map_filter (\<lambda>lid. map_option (create_location_json lid) (dict_get tgt_l lid)) (restore_created current target)
      @ List.map_filter (\<lambda>lid. case (dict_get cur_l lid, dict_get tgt_l lid) of
            (Some c, Some t) \<Rightarrow>
              if differing_fields c t = [] then None else Some (update_location_json lid (differing_fields c t))
          | _ \<Rightarrow> None) (sorted_texts (filter (dict_has tgt_l) (map fst cur_l)))
      @ List.map_filter (\<lambda>k. case dict_get tgt_k k of
            None \<Rightarrow> None
          | Some t \<Rightarrow>
              if dict_get cur_k k = Some t then None
              else Some (add_link_json (restore_ref current target (lk_a t)) (restore_ref current target (lk_b t))
                (lk_kind t) (lk_note t)))
          (sorted_texts (map fst tgt_k)))"

section \<open>Presets\<close>

datatype preset_error = Unknown_preset | Bad_count

definition presets :: "string list" where
  "presets = [''single'', ''hub_spoke'', ''hub_spoke_dc'', ''full_mesh'']"

definition first_of_role :: "string \<Rightarrow> bp_loc dict \<Rightarrow> string option" where
  "first_of_role role locs = find (\<lambda>k. case dict_get locs k of None \<Rightarrow> False | Some l \<Rightarrow> lo_role l = role)
     (sorted_texts (map fst locs))"

text \<open>A plan: the operations so far, with the number of locations they create.\<close>

definition new_ref :: "nat \<Rightarrow> string" where "new_ref n = ''+'' @ str_nat n"

definition preset_location :: "string \<Rightarrow> string \<Rightarrow> json list \<times> nat \<Rightarrow> (json list \<times> nat) \<times> string" where
  "preset_location name role plan =
     (case plan of (ops, n) \<Rightarrow>
       ((ops @ [JObj [(''op'', JStr ''create_location''), (''ref'', JStr (new_ref (n + 1))), (''name'', JStr name),
          (''role'', JStr role), (''subnets'', JList []), (''probe'', JStr ''central'')]], n + 1), new_ref (n + 1)))"

definition preset_link :: "bp_link dict \<Rightarrow> string \<Rightarrow> string \<times> string \<Rightarrow> json list \<times> nat \<Rightarrow> json list \<times> nat" where
  "preset_link links kind ab plan =
     (case (ab, plan) of ((a, b), (ops, n)) \<Rightarrow>
        if \<not> (starts_with ''+'' a \<or> starts_with ''+'' b) \<and> dict_has links (link_id a b kind) then (ops, n)
        else (ops @ [add_link_json a b kind []], n))"

fun pairs_of :: "'a list \<Rightarrow> ('a \<times> 'a) list" where
  "pairs_of [] = []"
| "pairs_of (x # xs) = map (Pair x) xs @ pairs_of xs"

fun mesh_members :: "nat \<Rightarrow> nat \<Rightarrow> bool \<Rightarrow> json list \<times> nat \<Rightarrow> (json list \<times> nat) \<times> string list" where
  "mesh_members base 0 hq plan = (plan, [])"
| "mesh_members base (Suc n) hq plan =
     (case preset_location (''Sede '' @ str_nat (base + 1)) (if hq then ''hq'' else ''branch'') plan of
        (plan1, r) \<Rightarrow> case mesh_members (base + 1) n False plan1 of (plan2, rs) \<Rightarrow> (plan2, r # rs))"

fun spoke_branches :: "bp_link dict \<Rightarrow> string \<Rightarrow> string option \<Rightarrow> nat \<Rightarrow> nat \<Rightarrow> json list \<times> nat \<Rightarrow> json list \<times> nat" where
  "spoke_branches links hub dc start 0 plan = plan"
| "spoke_branches links hub dc start (Suc n) plan =
     (case preset_location (''Filiale '' @ str_nat (start + 1)) ''branch'' plan of
        (plan1, b) \<Rightarrow>
          let plan2 = preset_link links ''vpn'' (hub, b) plan1;
              plan3 = (case dc of None \<Rightarrow> plan2 | Some d \<Rightarrow> preset_link links ''vpn'' (d, b) plan2) in
          spoke_branches links hub dc (start + 1) n plan3)"

definition role_or_new :: "string \<Rightarrow> string \<Rightarrow> bp_loc dict \<Rightarrow> json list \<times> nat \<Rightarrow> (json list \<times> nat) \<times> string" where
  "role_or_new role name locs plan =
     (case first_of_role role locs of Some lid \<Rightarrow> (plan, lid) | None \<Rightarrow> preset_location name role plan)"

definition preset_ops :: "string \<Rightarrow> nat \<Rightarrow> bp_view \<Rightarrow> preset_error + json list" where
  "preset_ops kind n view =
     (let locs = bv_locs view; links = bv_links view in
      if kind \<notin> set presets then Inl Unknown_preset
      else if kind \<noteq> ''single'' \<and> \<not> (1 \<le> n \<and> n \<le> max_preset) then Inl Bad_count
      else if kind = ''single'' then
        Inr (if locs = [] then fst (fst (preset_location ''Sede principale'' ''hq'' ([], 0))) else [])
      else if kind = ''full_mesh'' then
        (case mesh_members (length locs) n (first_of_role ''hq'' locs = None) ([], 0) of
           (plan, rs) \<Rightarrow> Inr (fst (fold (preset_link links ''vpn'') (pairs_of (sorted_texts (map fst locs) @ rs)) plan)))
      else
        (case role_or_new ''hq'' ''Sede centrale'' locs ([], 0) of
           (plan1, hub) \<Rightarrow>
             (let (plan2, dc) =
                (if kind = ''hub_spoke_dc'' then
                   (case role_or_new ''datacenter'' ''Datacenter'' locs plan1 of
                      (plan, d) \<Rightarrow> (preset_link links ''wan'' (hub, d) plan, Some d))
                 else (plan1, None)) in
              Inr (fst (spoke_branches links hub dc (length (filter (\<lambda>(k, l). lo_role l = ''branch'') locs)) n plan2)))))"

end
