(* ===== verification/Blueprint_Service.thy ===== *)
theory Blueprint_Service
  imports Blueprint_Plan
begin

text \<open>
  \<open>services/blueprint_store.py\<close>, \<open>services/blueprint.py\<close> and the writes of \<open>services/location_manager.py\<close>: the tables
  with their revisions, one open draft per organization, and the operations on both. An operation reads
  the tables, computes and writes in one transaction under the lock of the locations, so it is one step
  here. Arguments: the probes that exist, the number of devices of a location, the text of \<open>str\<close> of a
  container. Left out: the instants of writing, and what \<open>state\<close> returns beside the tables.
\<close>

section \<open>State\<close>

record bp_draft =
  dr_base :: nat
  dr_source :: string
  dr_ops :: "json list"
  dr_by :: string

record bp_rev =
  rv_org :: string
  rv_rev :: nat
  rv_by :: string
  rv_source :: string
  rv_note :: string
  rv_snap :: bp_view

record bp_store =
  bs_orgs :: "string list"
  bs_locs :: "bp_loc dict"
  bs_links :: "bp_link dict"
  bs_revs :: "bp_rev list"
  bs_drafts :: "bp_draft dict"

definition store_view :: "bp_store \<Rightarrow> string \<Rightarrow> bp_view" where
  "store_view st org = org_view (bs_locs st) (bs_links st) org"

section \<open>Revisions\<close>

definition latest_rev :: "bp_store \<Rightarrow> string \<Rightarrow> nat" where
  "latest_rev st org = fold max (map rv_rev (filter (\<lambda>r. rv_org r = org) (bs_revs st))) 0"

definition revision :: "bp_store \<Rightarrow> string \<Rightarrow> nat \<Rightarrow> bp_rev option" where
  "revision st org n = find (\<lambda>r. rv_org r = org \<and> rv_rev r = n) (bs_revs st)"

text \<open>Equality of two dictionaries, whatever the order of their keys.\<close>

definition dict_eq :: "'v dict \<Rightarrow> 'v dict \<Rightarrow> bool" where
  "dict_eq d e \<longleftrightarrow> list_all (\<lambda>k. dict_get d k = dict_get e k) (map fst d @ map fst e)"

definition view_eq :: "bp_view \<Rightarrow> bp_view \<Rightarrow> bool" where
  "view_eq a b \<longleftrightarrow> dict_eq (bv_locs a) (bv_locs b) \<and> dict_eq (bv_links a) (bv_links b)"

definition record_revision :: "string \<Rightarrow> string \<Rightarrow> string \<Rightarrow> string \<Rightarrow> bp_store \<Rightarrow> bp_store" where
  "record_revision by source note org st =
     (let snap = store_view st org; rev = latest_rev st org in
      if rev \<noteq> 0 \<and> (case revision st org rev of None \<Rightarrow> False | Some r \<Rightarrow> view_eq (rv_snap r) snap) then st
      else st\<lparr>bs_revs := bs_revs st @ [\<lparr>rv_org = org, rv_rev = rev + 1, rv_by = by, rv_source = source,
             rv_note = note, rv_snap = snap\<rparr>]\<rparr>)"

definition record_revisions :: "string \<Rightarrow> string \<Rightarrow> string \<Rightarrow> bp_store \<Rightarrow> bp_store" where
  "record_revisions by source note st = fold (record_revision by source note) (sorted_texts (bs_orgs st)) st"

section \<open>Tables\<close>

text \<open>Rows that are not kept go, and a link goes with either of its locations.\<close>

definition stored_locs :: "bp_loc dict \<Rightarrow> bp_loc dict" where
  "stored_locs locs = map (\<lambda>(k, l). (k, l\<lparr>lo_probe := if lo_probe l = [] then ''central'' else lo_probe l\<rparr>)) locs"

definition put_locations :: "bp_loc dict \<Rightarrow> bp_store \<Rightarrow> bp_store" where
  "put_locations locs st = st\<lparr>
     bs_locs := stored_locs locs,
     bs_links := filter (\<lambda>(k, v). dict_has locs (lk_a v) \<and> dict_has locs (lk_b v)) (bs_links st)\<rparr>"

definition put_links :: "bp_link dict \<Rightarrow> bp_store \<Rightarrow> bp_store" where
  "put_links links st = st\<lparr>bs_links := links\<rparr>"

definition put_draft :: "string \<Rightarrow> bp_draft \<Rightarrow> bp_store \<Rightarrow> bp_store" where
  "put_draft org d st = st\<lparr>bs_drafts := dict_set org d (bs_drafts st)\<rparr>"

definition delete_draft :: "string \<Rightarrow> bp_store \<Rightarrow> bp_store" where
  "delete_draft org st = st\<lparr>bs_drafts := AList.delete org (bs_drafts st)\<rparr>"

section \<open>Locations\<close>

datatype loc_error = Loc_name_missing | Loc_no_org | Loc_bad_role | Loc_no_probe | Loc_subnets op_reason
  | Loc_unknown string | Loc_has_devices nat

definition save_locations :: "string \<Rightarrow> bp_loc dict \<Rightarrow> bp_store \<Rightarrow> bp_store" where
  "save_locations by locs st = record_revisions by ''locations'' [] (put_locations locs st)"

definition check_location :: "string list \<Rightarrow> bp_store \<Rightarrow> string option \<Rightarrow> string option \<Rightarrow> string option \<Rightarrow> loc_error + unit" where
  "check_location probes st org role probe =
     (if (case org of None \<Rightarrow> False | Some x \<Rightarrow> x \<notin> set (bs_orgs st)) then Inl Loc_no_org
      else if (case role of None \<Rightarrow> False | Some x \<Rightarrow> x \<notin> set bp_roles) then Inl Loc_bad_role
      else if (case probe of None \<Rightarrow> False | Some x \<Rightarrow> x \<notin> set probes) then Inl Loc_no_probe
      else Inr ())"

definition clean_loc_subnets :: "(json \<Rightarrow> string) \<Rightarrow> json \<Rightarrow> loc_error + string list" where
  "clean_loc_subnets repr v = (case clean_subnets repr v of Inl e \<Rightarrow> Inl (Loc_subnets e) | Inr s \<Rightarrow> Inr s)"

definition create_location ::
    "(json \<Rightarrow> string) \<Rightarrow> string list \<Rightarrow> string \<Rightarrow> string \<Rightarrow> string \<Rightarrow> string \<Rightarrow> json \<Rightarrow> string \<Rightarrow> bp_store \<Rightarrow> loc_error + bp_store" where
  "create_location repr probes by org name role subnets probe st =
     (let nm = py_strip name in
      if nm = [] then Inl Loc_name_missing
      else bind_e (check_location probes st (Some org) (Some role) (Some probe)) (\<lambda>_.
        bind_e (clean_loc_subnets repr subnets) (\<lambda>clean.
          let lid = free_id (slugify nm) (map fst (bs_locs st)) in
          Inr (save_locations by (dict_set lid \<lparr>lo_org = org, lo_name = nm, lo_role = role, lo_subnets = clean,
                 lo_probe = probe, lo_gateway = []\<rparr> (bs_locs st)) st))))"

definition edit_loc :: "string option \<Rightarrow> string option \<Rightarrow> string list option \<Rightarrow> string option \<Rightarrow> bp_loc \<Rightarrow> bp_loc" where
  "edit_loc name role clean probe l =
     (let l1 = (case name of None \<Rightarrow> l | Some n \<Rightarrow> l\<lparr>lo_name := py_strip n\<rparr>);
          l2 = (case role of None \<Rightarrow> l1 | Some r \<Rightarrow> l1\<lparr>lo_role := r\<rparr>);
          l3 = (case clean of None \<Rightarrow> l2 | Some s \<Rightarrow> l2\<lparr>lo_subnets := s\<rparr>) in
      case probe of None \<Rightarrow> l3 | Some p \<Rightarrow> l3\<lparr>lo_probe := p\<rparr>)"

definition update_location ::
    "(json \<Rightarrow> string) \<Rightarrow> string list \<Rightarrow> string \<Rightarrow> string \<Rightarrow> string option \<Rightarrow> string option \<Rightarrow> json option \<Rightarrow> string option \<Rightarrow>
     bp_store \<Rightarrow> loc_error + bp_store" where
  "update_location repr probes by lid name role subnets probe st =
     bind_e (check_location probes st None role probe) (\<lambda>_.
     bind_e (case subnets of None \<Rightarrow> Inr None | Some v \<Rightarrow> bind_e (clean_loc_subnets repr v) (\<lambda>s. Inr (Some s))) (\<lambda>clean.
       case dict_get (bs_locs st) lid of
         None \<Rightarrow> Inl (Loc_unknown lid)
       | Some l \<Rightarrow>
           if (case name of None \<Rightarrow> False | Some n \<Rightarrow> py_strip n = []) then Inl Loc_name_missing
           else Inr (save_locations by (dict_set lid (edit_loc name role clean probe l) (bs_locs st)) st)))"

definition delete_location :: "(string \<Rightarrow> nat) \<Rightarrow> string \<Rightarrow> string \<Rightarrow> bp_store \<Rightarrow> loc_error + bp_store" where
  "delete_location devices_in by lid st =
     (if devices_in lid \<noteq> 0 then Inl (Loc_has_devices (devices_in lid))
      else Inr (save_locations by (AList.delete lid (bs_locs st)) st))"

text \<open>Organizations come without a revision and go when no device and no location is left.\<close>

definition add_group :: "string \<Rightarrow> bp_store \<Rightarrow> bp_store \<times> bool" where
  "add_group name st =
     (let g = py_strip name in
      if g = [] \<or> g \<in> set (bs_orgs st) then (st, False) else (st\<lparr>bs_orgs := bs_orgs st @ [g]\<rparr>, True))"

datatype group_error = Has_locations nat

definition delete_group :: "(string \<Rightarrow> bool) \<Rightarrow> string \<Rightarrow> bp_store \<Rightarrow> group_error + (bp_store \<times> bool)" where
  "delete_group has_devices name st =
     (let g = py_strip name; locs = filter (\<lambda>(k, l). lo_org l = g) (bs_locs st) in
      if g = [] \<or> g \<notin> set (bs_orgs st) \<or> has_devices g then Inr (st, False)
      else if locs \<noteq> [] then Inl (Has_locations (length locs))
      else Inr (st\<lparr>bs_orgs := filter (\<lambda>x. x \<noteq> g) (bs_orgs st), bs_drafts := AList.delete g (bs_drafts st)\<rparr>, True))"

section \<open>Drafts\<close>

datatype bp_error = No_draft | Nothing_to_add | Bad_draft draft_error | Conflict nat nat | Devices_left string nat
  | Draft_open | No_revision nat | Already_equal nat | Bad_preset preset_error | Preset_adds_nothing | Type_error

definition put_source :: "string \<Rightarrow> json \<Rightarrow> json" where
  "put_source source j = (case j of JObj d \<Rightarrow> JObj (dict_set ''source'' (JStr source) d) | _ \<Rightarrow> j)"

definition op_field :: "json \<Rightarrow> string \<Rightarrow> json" where
  "op_field j k = (case j of JObj d \<Rightarrow> op_get d k | _ \<Rightarrow> JNull)"

text \<open>\<open>_with_unique_refs\<close>: a reference in use gets the first free number; a reference that cannot be hashed raises.\<close>

definition fresh_ref :: "string \<Rightarrow> json list \<Rightarrow> string" where
  "fresh_ref r used =
     (case find (\<lambda>x. JStr x \<notin> set used) (r # map (\<lambda>n. r @ ''.'' @ str_nat n) [2..<length used + 3]) of
        Some x \<Rightarrow> x | None \<Rightarrow> r)"

fun ref_mapping :: "json list \<Rightarrow> json list \<Rightarrow> string dict \<Rightarrow> string dict" where
  "ref_mapping used [] mapping = mapping"
| "ref_mapping used (o1 # os) mapping =
     (case op_field o1 ''ref'' of
        JStr r \<Rightarrow>
          if r = [] then ref_mapping used os mapping
          else (let fresh = fresh_ref r used in ref_mapping (JStr fresh # used) os (dict_set r fresh mapping))
      | _ \<Rightarrow> ref_mapping used os mapping)"

definition rename_refs :: "string dict \<Rightarrow> json \<Rightarrow> json" where
  "rename_refs mapping j =
     (case j of
        JObj d \<Rightarrow> JObj (fold (\<lambda>k d'. case op_get d k of
            JStr s \<Rightarrow> dict_set k (JStr (case dict_get mapping s of None \<Rightarrow> s | Some t \<Rightarrow> t)) d'
          | _ \<Rightarrow> d') [''ref'', ''id'', ''a'', ''b''] d)
      | _ \<Rightarrow> j)"

definition with_unique_refs :: "json list \<Rightarrow> json list \<Rightarrow> bp_error + json list" where
  "with_unique_refs existing new =
     (let used = filter json_true (map (\<lambda>j. op_field j ''ref'') existing) in
      if list_ex is_container used then Inl Type_error
      else Inr (map (rename_refs (ref_mapping used new [])) new))"

definition check_draft ::
    "(json \<Rightarrow> string) \<Rightarrow> string list \<Rightarrow> string \<Rightarrow> bp_store \<Rightarrow> json list \<Rightarrow> bp_error + bp_tables" where
  "check_draft repr probes org st ops =
     (case apply_ops repr probes org (bs_locs st) (bs_links st) ops of Inl e \<Rightarrow> Inl (Bad_draft e) | Inr t \<Rightarrow> Inr t)"

definition add_ops ::
    "(json \<Rightarrow> string) \<Rightarrow> string list \<Rightarrow> string \<Rightarrow> json list \<Rightarrow> string \<Rightarrow> string \<Rightarrow> bp_store \<Rightarrow> bp_error + bp_store" where
  "add_ops repr probes org ops source by st =
     (let draft = dict_get (bs_drafts st) org; old = (case draft of None \<Rightarrow> [] | Some d \<Rightarrow> dr_ops d) in
      bind_e (with_unique_refs old (map (put_source source) ops)) (\<lambda>new.
        if new = [] then Inl Nothing_to_add
        else bind_e (check_draft repr probes org st (old @ new)) (\<lambda>_.
          Inr (put_draft org (case draft of
              None \<Rightarrow> \<lparr>dr_base = latest_rev st org, dr_source = source, dr_ops = old @ new, dr_by = by\<rparr>
            | Some d \<Rightarrow> d\<lparr>dr_ops := old @ new, dr_by := by\<rparr>) st))))"

definition replace_ops ::
    "(json \<Rightarrow> string) \<Rightarrow> string list \<Rightarrow> string \<Rightarrow> json list \<Rightarrow> string \<Rightarrow> bp_store \<Rightarrow> bp_error + bp_store" where
  "replace_ops repr probes org ops by st =
     (case dict_get (bs_drafts st) org of
        None \<Rightarrow> Inl No_draft
      | Some d \<Rightarrow> bind_e (check_draft repr probes org st ops) (\<lambda>_.
          Inr (if ops \<noteq> [] then put_draft org (d\<lparr>dr_ops := ops, dr_by := by\<rparr>) st else delete_draft org st)))"

definition align_draft :: "string \<Rightarrow> string \<Rightarrow> bp_store \<Rightarrow> bp_error + bp_store" where
  "align_draft org by st =
     (case dict_get (bs_drafts st) org of
        None \<Rightarrow> Inl No_draft
      | Some d \<Rightarrow> Inr (put_draft org (d\<lparr>dr_base := latest_rev st org, dr_by := by\<rparr>) st))"

text \<open>The locations that asked for an identifier, by reference.\<close>

definition wanted_ids :: "json list \<Rightarrow> json dict" where
  "wanted_ids ops = fold (\<lambda>j d.
     case op_field j ''ref'' of
       JStr r \<Rightarrow>
         if op_field j ''op'' = JStr ''create_location'' \<and> r \<noteq> [] \<and> json_true (op_field j ''id'')
         then dict_set r (op_field j ''id'') d else d
     | _ \<Rightarrow> d) ops []"

definition renamed_ids :: "json list \<Rightarrow> string dict \<Rightarrow> (json \<times> string) list" where
  "renamed_ids ops refs = List.map_filter (\<lambda>(r, lid). case dict_get (wanted_ids ops) r of
       Some w \<Rightarrow> if w \<noteq> JStr lid then Some (w, lid) else None | None \<Rightarrow> None) refs"

definition apply_draft ::
    "(json \<Rightarrow> string) \<Rightarrow> string list \<Rightarrow> (string \<Rightarrow> nat) \<Rightarrow> string \<Rightarrow> string \<Rightarrow> string \<Rightarrow> bp_store \<Rightarrow>
     bp_error + bp_store \<times> nat \<times> (json \<times> string) list" where
  "apply_draft repr probes devices_in org by nt st =
     (case dict_get (bs_drafts st) org of
        None \<Rightarrow> Inl No_draft
      | Some d \<Rightarrow>
          if dr_base d \<noteq> latest_rev st org then Inl (Conflict (dr_base d) (latest_rev st org))
          else bind_e (check_draft repr probes org st (dr_ops d)) (\<lambda>t.
            case find (\<lambda>lid. devices_in lid \<noteq> 0)
                (sorted_texts (filter (\<lambda>lid. \<not> dict_has (bt_locs t) lid) (map fst (bs_locs st)))) of
              Some lid \<Rightarrow> Inl (Devices_left lid (devices_in lid))
            | None \<Rightarrow>
                let source = (if dr_source d = ''restore'' then ''restore'' else ''blueprint'');
                    st' = delete_draft org (record_revisions by source nt
                      (put_links (bt_links t) (put_locations (bt_locs t) st))) in
                Inr (st', latest_rev st' org, if source = ''restore'' then renamed_ids (dr_ops d) (bt_refs t) else [])))"

definition restore_draft ::
    "(json \<Rightarrow> string) \<Rightarrow> string list \<Rightarrow> string \<Rightarrow> nat \<Rightarrow> string \<Rightarrow> bp_store \<Rightarrow> bp_error + bp_store" where
  "restore_draft repr probes org n by st =
     (if dict_get (bs_drafts st) org \<noteq> None then Inl Draft_open
      else case revision st org n of
        None \<Rightarrow> Inl (No_revision n)
      | Some r \<Rightarrow>
          let ops = restore_ops (store_view st org) (rv_snap r) in
          if ops = [] then Inl (Already_equal n)
          else (let ops' = map (put_source ''restore'') ops in
            bind_e (check_draft repr probes org st ops') (\<lambda>_.
              Inr (put_draft org \<lparr>dr_base = latest_rev st org, dr_source = ''restore'', dr_ops = ops', dr_by = by\<rparr> st))))"

definition draft_preview ::
    "(json \<Rightarrow> string) \<Rightarrow> string list \<Rightarrow> string \<Rightarrow> bp_store \<Rightarrow> bp_view option \<times> draft_error option" where
  "draft_preview repr probes org st =
     (case dict_get (bs_drafts st) org of
        None \<Rightarrow> (None, None)
      | Some d \<Rightarrow> (case apply_ops repr probes org (bs_locs st) (bs_links st) (dr_ops d) of
            Inl e \<Rightarrow> (None, Some e) | Inr t \<Rightarrow> (Some (org_view (bt_locs t) (bt_links t) org), None)))"

definition preset_draft ::
    "(json \<Rightarrow> string) \<Rightarrow> string list \<Rightarrow> string \<Rightarrow> string \<Rightarrow> nat \<Rightarrow> string \<Rightarrow> bp_store \<Rightarrow> bp_error + bp_store" where
  "preset_draft repr probes org kind n by st =
     (let view = (case fst (draft_preview repr probes org st) of None \<Rightarrow> store_view st org | Some v \<Rightarrow> v) in
      case preset_ops kind n view of
        Inl e \<Rightarrow> Inl (Bad_preset e)
      | Inr ops \<Rightarrow> if ops = [] then Inl Preset_adds_nothing else add_ops repr probes org ops ''preset'' by st)"

definition diff_revisions :: "string \<Rightarrow> nat \<Rightarrow> nat \<Rightarrow> bp_store \<Rightarrow> (part_diff \<times> part_diff) option" where
  "diff_revisions org a b st =
     (case (revision st org a, revision st org b) of
        (Some ra, Some rb) \<Rightarrow> Some (diff_views (rv_snap ra) (rv_snap rb)) | _ \<Rightarrow> None)"

end
