(* ===== verification/Blueprint_Sound.thy ===== *)
theory Blueprint_Sound
  imports Blueprint_Plan
begin

text \<open>
  What the operations of a draft keep: identifiers are slugs, a link joins two different locations of
  its organization under the identifier made of them, and the rows of every other organization stay as
  they are. The identifiers are handled through \<open>slug_ok\<close>, the fixed points of \<open>slugify\<close>.
\<close>

section \<open>Slugs\<close>

definition slug_text :: "char \<Rightarrow> bool" where
  "slug_text c \<longleftrightarrow> slug_char c \<or> c = CHR ''-''"

abbreviation no_dash_pair :: "string \<Rightarrow> bool" where
  "no_dash_pair s \<equiv> successively (\<lambda>a b. \<not> (a = CHR ''-'' \<and> b = CHR ''-'')) s"

definition slug_ok :: "string \<Rightarrow> bool" where
  "slug_ok s \<longleftrightarrow> s \<noteq> [] \<and> hd s \<noteq> CHR ''-'' \<and> last s \<noteq> CHR ''-'' \<and> list_all slug_text s \<and> no_dash_pair s"

lemma slug_char_lower: "slug_char c \<Longrightarrow> lower_char c = c"
  by (auto simp: slug_char_def lower_char_def is_digit_def Let_def)

lemma slug_char_space: "slug_char c \<Longrightarrow> \<not> py_isspace c"
  by (auto simp: slug_char_def py_isspace_def is_digit_def code_def Let_def)

lemma slug_char_dash [simp]: "\<not> slug_char (CHR ''-'')"
  by (simp add: slug_char_def is_digit_def code_def)

lemma slug_text_lower: "slug_text c \<Longrightarrow> lower_char c = c"
  by (auto simp: slug_text_def slug_char_lower) (simp add: lower_char_def code_def)

lemma slug_text_space: "slug_text c \<Longrightarrow> \<not> py_isspace c"
  by (auto simp: slug_text_def slug_char_space) (simp add: py_isspace_def code_def)

lemma slug_runs_id:
  "list_all slug_text s \<Longrightarrow> no_dash_pair s \<Longrightarrow> (in_run \<Longrightarrow> s = [] \<or> hd s \<noteq> CHR ''-'') \<Longrightarrow> slug_runs in_run s = s"
proof (induction s arbitrary: in_run)
  case (Cons c s)
  show ?case
  proof (cases "slug_char c")
    case True
    then show ?thesis using Cons by (auto simp: successively_Cons)
  next
    case False
    then have "c = CHR ''-''" using Cons.prems by (simp add: slug_text_def)
    then show ?thesis using Cons by (auto simp: successively_Cons)
  qed
qed simp

lemma strip_char_id: "s \<noteq> [] \<Longrightarrow> hd s \<noteq> c \<Longrightarrow> last s \<noteq> c \<Longrightarrow> strip_char c s = s"
proof -
  assume a: "s \<noteq> []" "hd s \<noteq> c" "last s \<noteq> c"
  have id: "dropWhile ((=) c) t = t" if "t \<noteq> []" "hd t \<noteq> c" for t using that by (cases t) auto
  from a show ?thesis by (simp add: strip_char_def id hd_rev)
qed

lemma slugify_id: "slug_ok s \<Longrightarrow> slugify s = s"
proof -
  assume ok: "slug_ok s"
  have "py_lower s = s" using ok by (auto simp: slug_ok_def py_lower_def list_all_iff slug_text_lower intro: map_idI)
  moreover have "py_strip s = s" using ok by (auto simp: slug_ok_def list_all_iff slug_text_space)
  moreover have "slug_runs False s = s" using ok by (simp add: slug_ok_def slug_runs_id)
  ultimately show ?thesis using ok by (simp add: slugify_def slug_ok_def strip_char_id)
qed

lemma slug_runs_shape:
  "list_all slug_text (slug_runs r s) \<and> no_dash_pair (slug_runs r s)
    \<and> (r \<longrightarrow> slug_runs r s = [] \<or> hd (slug_runs r s) \<noteq> CHR ''-'')"
proof (induction r s rule: slug_runs.induct)
  case (2 r c s)
  have "slug_char c \<Longrightarrow> c \<noteq> CHR ''-''" by auto
  with 2 show ?case by (auto simp: slug_text_def successively_Cons)
qed simp

lemma successively_suffix: "successively P (xs @ ys) \<Longrightarrow> successively P ys"
  by (simp add: successively_append_iff)

lemma successively_prefix: "successively P (xs @ ys) \<Longrightarrow> successively P xs"
  by (simp add: successively_append_iff)

lemma slug_ok_slugify: "slug_ok (slugify name)"
proof -
  let ?r = "slug_runs False (py_lower (py_strip name))"
  obtain a where a: "?r = a @ dropWhile ((=) (CHR ''-'')) ?r"
    using takeWhile_dropWhile_id [symmetric] by metis
  let ?d = "dropWhile ((=) (CHR ''-'')) ?r"
  obtain b where b: "rev ?d = b @ dropWhile ((=) (CHR ''-'')) (rev ?d)"
    using takeWhile_dropWhile_id [symmetric] by metis
  let ?s = "strip_char (CHR ''-'') ?r"
  have s: "?s = rev (dropWhile ((=) (CHR ''-'')) (rev ?d))" by (simp add: strip_char_def)
  then have d: "?d = ?s @ rev b" by (metis b rev_append rev_rev_ident)
  have "list_all slug_text ?r" "no_dash_pair ?r" using slug_runs_shape by blast+
  then have shape: "list_all slug_text ?s" "no_dash_pair ?s"
    by (metis a d list_all_append, metis a d successively_prefix successively_suffix)
  have ends: "?s \<noteq> [] \<Longrightarrow> hd ?s \<noteq> CHR ''-'' \<and> last ?s \<noteq> CHR ''-''"
  proof -
    assume ne: "?s \<noteq> []"
    then have "hd ?s = hd ?d" using d by (metis hd_append2)
    moreover have "hd ?d \<noteq> CHR ''-''" using ne d by (metis append_is_Nil_conv hd_dropWhile)
    moreover have "last ?s = hd (dropWhile ((=) (CHR ''-'')) (rev ?d))" using ne s by (simp add: last_rev)
    moreover have "hd (dropWhile ((=) (CHR ''-'')) (rev ?d)) \<noteq> CHR ''-''" using ne s by (metis hd_dropWhile rev.simps(1))
    ultimately show ?thesis by simp
  qed
  have "slug_ok ''probe''" by (simp add: slug_ok_def slug_text_def slug_char_def is_digit_def code_def)
  then show ?thesis using shape ends by (auto simp: slugify_def slug_ok_def Let_def)
qed

lemma slug_ok_iff: "slug_ok s \<longleftrightarrow> slugify s = s"
  using slugify_id slug_ok_slugify by metis

lemma slug_ok_not_ref: "slug_ok s \<Longrightarrow> \<not> starts_with ''+'' s"
  by (cases s) (auto simp: slug_ok_def starts_with_def slug_text_def slug_char_def is_digit_def code_def)

lemma slug_ok_numbered: "slug_ok s \<Longrightarrow> slug_ok (s @ ''-'' @ str_nat n)"
proof -
  assume ok: "slug_ok s"
  have digits: "list_all slug_char (str_nat n)" by (auto simp: list_all_iff slug_char_def dest: str_nat_chars)
  then have no: "\<And>c. c \<in> set (str_nat n) \<Longrightarrow> c \<noteq> CHR ''-''" by (auto simp: list_all_iff)
  have "no_dash_pair (str_nat n)"
    by (rule successively_mono [of "\<lambda>a b. True"]) (use no in \<open>auto intro: successively_if_sorted_wrt\<close>)
  moreover have "hd (str_nat n) \<noteq> CHR ''-''" "last (str_nat n) \<noteq> CHR ''-''" using no by simp_all
  moreover have "list_all slug_text (str_nat n)" using digits by (auto simp: list_all_iff slug_text_def)
  ultimately show ?thesis using ok
    by (auto simp: slug_ok_def successively_append_iff successively_Cons slug_text_def)
qed


section \<open>Dictionaries\<close>

lemma dict_get_filter_key: "dict_get (filter (\<lambda>(k, v). P k) d) x = (if P x then dict_get d x else None)"
  by (induction d) auto

lemma filter_set_hidden:
  assumes "\<And>v0. (k, v0) \<in> set d \<Longrightarrow> \<not> P (k, v0)" and "\<not> P (k, v)"
  shows "filter P (dict_set k v d) = filter P d"
  using assms(1) by (induction d) (auto simp: assms(2))

lemma filter_delete_hidden:
  assumes "\<And>v0. (k, v0) \<in> set d \<Longrightarrow> \<not> P (k, v0)"
  shows "filter P (AList.delete k d) = filter P d"
  using assms by (induction d) auto

lemma update_new_key: "k \<notin> set (map fst d) \<Longrightarrow> dict_set k v d = d @ [(k, v)]"
  by (induction d) auto

lemma set_dict_set: "p \<in> set (dict_set k v d) \<Longrightarrow> p = (k, v) \<or> p \<in> set d"
  by (induction d) (auto split: if_splits)

lemma in_delete: "p \<in> set (AList.delete k d) \<Longrightarrow> p \<in> set d"
  by (induction d) (auto split: if_splits)

lemma dict_get_key: "dict_get d k = Some v \<Longrightarrow> k \<in> fst ` set d"
  by (drule map_of_SomeD) force

section \<open>Well-formed tables\<close>

definition link_wf :: "bp_loc dict \<Rightarrow> string \<Rightarrow> bp_link \<Rightarrow> bool" where
  "link_wf locs k v \<longleftrightarrow> lk_a v \<noteq> lk_b v \<and> text_le (lk_a v) (lk_b v) \<and> k = link_id (lk_a v) (lk_b v) (lk_kind v)
     \<and> lk_kind v \<in> set bp_kinds \<and> length (lk_note v) \<le> max_note
     \<and> map_option lo_org (dict_get locs (lk_a v)) = Some (lk_org v)
     \<and> map_option lo_org (dict_get locs (lk_b v)) = Some (lk_org v)"

definition bp_wf :: "bp_loc dict \<Rightarrow> bp_link dict \<Rightarrow> bool" where
  "bp_wf locs links \<longleftrightarrow> distinct (map fst locs) \<and> distinct (map fst links)
     \<and> list_all (\<lambda>(k, v). slug_ok k) locs \<and> list_all (\<lambda>(k, v). link_wf locs k v) links"

definition refs_wf :: "string dict \<Rightarrow> bool" where
  "refs_wf refs \<longleftrightarrow> list_all (\<lambda>(r, lid). starts_with ''+'' r \<and> slug_ok lid) refs"

abbreviation tables_wf :: "bp_tables \<Rightarrow> bool" where
  "tables_wf t \<equiv> bp_wf (bt_locs t) (bt_links t) \<and> refs_wf (bt_refs t)"

text \<open>The rows of the other organizations, in the order of the tables.\<close>

definition others :: "string \<Rightarrow> bp_tables \<Rightarrow> bp_loc dict \<times> bp_link dict" where
  "others org t = (filter (\<lambda>(k, v). lo_org v \<noteq> org) (bt_locs t), filter (\<lambda>(k, v). lk_org v \<noteq> org) (bt_links t))"

lemma bp_wf_link: "bp_wf locs links \<Longrightarrow> (k, v) \<in> set links \<Longrightarrow> link_wf locs k v"
  by (auto simp: bp_wf_def list_all_iff)

lemma bp_wf_loc: "bp_wf locs links \<Longrightarrow> (k, v) \<in> set locs \<Longrightarrow> slug_ok k"
  by (auto simp: bp_wf_def list_all_iff)

lemma bp_wf_get:
  "bp_wf locs links \<Longrightarrow> (k, v) \<in> set locs \<Longrightarrow> dict_get locs k = Some v"
  "bp_wf locs links \<Longrightarrow> (x, w) \<in> set links \<Longrightarrow> dict_get links x = Some w"
  by (simp_all add: bp_wf_def)

lemma text_le_total: "text_le a b \<or> text_le b a"
  by (induction a b rule: text_le.induct) auto

lemma text_le_refl: "text_le a a"
  by (induction a) auto

lemma fold_set_field_org [simp]: "lo_org (fold set_field fs l) = lo_org l"
proof (induction fs arbitrary: l)
  case (Cons f fs)
  then show ?case by (cases f) auto
qed simp

lemma pigeonhole_list: "distinct c \<Longrightarrow> length taken < length c \<Longrightarrow> \<exists>x \<in> set c. x \<notin> set taken"
proof (rule ccontr)
  assume a: "distinct c" "length taken < length c" "\<not> (\<exists>x \<in> set c. x \<notin> set taken)"
  then have "card (set c) \<le> card (set taken)" by (intro card_mono) auto
  with a(1,2) card_length [of taken] show False by (simp add: distinct_card)
qed

lemma free_id_fresh: "free_id base taken \<notin> set taken"
proof -
  let ?c = "base # map (\<lambda>n. base @ ''-'' @ str_nat n) [2..<length taken + 3]"
  have inj: "inj (\<lambda>n. base @ ''-'' @ str_nat n)" by (rule injI) (simp, metis digits_val_str_nat)
  have "distinct (map (\<lambda>n. base @ ''-'' @ str_nat n) [2..<length taken + 3])"
    by (simp only: distinct_map distinct_upt) (use inj in \<open>auto intro: inj_on_subset\<close>)
  moreover have "base \<notin> set (map (\<lambda>n. base @ ''-'' @ str_nat n) [2..<length taken + 3])" by auto
  ultimately have dc: "distinct ?c" by (simp only: distinct.simps simp_thms)
  have "length taken < length ?c" by (simp only: length_map list.size length_upt)
  then obtain x where "x \<in> set ?c" "x \<notin> set taken" using pigeonhole_list [OF dc] by blast
  then have "find (\<lambda>lid. lid \<notin> set taken) ?c \<noteq> None" unfolding find_None_iff by blast
  then obtain y where y: "find (\<lambda>lid. lid \<notin> set taken) ?c = Some y" by blast
  from find_SomeD [OF this] have "y \<notin> set taken" ..
  then show ?thesis unfolding free_id_def y by simp
qed

lemma slug_ok_free_id: "slug_ok base \<Longrightarrow> slug_ok (free_id base taken)"
proof -
  assume ok: "slug_ok base"
  let ?c = "base # map (\<lambda>n. base @ ''-'' @ str_nat n) [2..<length taken + 3]"
  have all: "list_all slug_ok ?c" using slug_ok_numbered [OF ok] ok by (auto simp: list_all_iff)
  have "find (\<lambda>lid. lid \<notin> set taken) ?c = Some y \<Longrightarrow> slug_ok y" for y
    using find_SomeD all by (fastforce simp only: list_all_iff)
  then show ?thesis unfolding free_id_def using ok by (auto split: option.splits simp del: find.simps)
qed

section \<open>Each operation keeps them\<close>

lemma resolve_loc_ok [bp_ok]:
  "resolve_loc org t x = Inr lid \<longleftrightarrow>
     (\<exists>s l. x = JStr s \<and> lid = (case dict_get (bt_refs t) s of None \<Rightarrow> s | Some l \<Rightarrow> l)
       \<and> dict_get (bt_locs t) lid = Some l \<and> lo_org l = org)"
  by (cases x) (auto simp: resolve_loc_def Let_def split: option.splits if_splits)

lemma link_wf_extend:
  "link_wf locs k v \<Longrightarrow> (\<And>x l. dict_get locs x = Some l \<Longrightarrow> \<exists>l'. dict_get locs' x = Some l' \<and> lo_org l' = lo_org l) \<Longrightarrow> link_wf locs' k v"
  by (fastforce simp: link_wf_def)

lemma create_location_keeps:
  assumes "create_location_op repr probes org op t = Inr t'" and "tables_wf t"
  shows "tables_wf t' \<and> others org t' = others org t"
proof -
  obtain fs ref wanted where
    ref: "check_ref t (op_get op ''ref'') = Inr ref" and
    w: "check_wanted (op_get op ''id'') = Inr wanted" and
    t': "t' = (let taken = map fst (bt_locs t); l = fold set_field fs (blank_loc org);
           lid = (case wanted of
               Some w \<Rightarrow> if w \<notin> set taken then w else free_id w taken
             | None \<Rightarrow> free_id (slugify (lo_name l)) taken) in
       t\<lparr>bt_locs := dict_set lid l (bt_locs t),
              bt_refs := (case ref of None \<Rightarrow> bt_refs t | Some r \<Rightarrow> dict_set r lid (bt_refs t))\<rparr>)"
    using assms(1) by (auto simp: create_location_op_def bp_ok Let_def)
  define lid where "lid = (case wanted of
               Some w \<Rightarrow> if w \<notin> set (map fst (bt_locs t)) then w else free_id w (map fst (bt_locs t))
             | None \<Rightarrow> free_id (slugify (lo_name (fold set_field fs (blank_loc org)))) (map fst (bt_locs t)))"
  define l where "l = fold set_field fs (blank_loc org)"
  have org: "lo_org l = org" by (simp add: l_def blank_loc_def)
  have wok: "wanted = Some x \<Longrightarrow> slug_ok x" for x
    using w by (auto simp: check_wanted_def slug_ok_iff split: if_splits json.splits)
  have slug: "slug_ok lid" by (auto simp: lid_def wok slug_ok_free_id slug_ok_slugify split: option.split)
  have fresh: "lid \<notin> set (map fst (bt_locs t))"
    unfolding lid_def using free_id_fresh [of _ "map fst (bt_locs t)"] by (auto split: option.split simp del: set_map)
  have rok: "ref = Some r \<Longrightarrow> starts_with ''+'' r" for r
    using ref by (auto simp: check_ref_def split: json.splits if_splits)
  have t'': "t' = t\<lparr>bt_locs := dict_set lid l (bt_locs t),
              bt_refs := (case ref of None \<Rightarrow> bt_refs t | Some r \<Rightarrow> dict_set r lid (bt_refs t))\<rparr>"
    unfolding t' Let_def lid_def l_def by (rule refl)
  have app: "dict_set lid l (bt_locs t) = bt_locs t @ [(lid, l)]"
    using fresh by (rule update_new_key)
  have none: "dict_get (bt_locs t) lid = None" using fresh by (simp add: map_of_eq_None_iff)
  have links: "link_wf (bt_locs t @ [(lid, l)]) k v" if "(k, v) \<in> set (bt_links t)" for k v
    using bp_wf_link [OF conjunct1 [OF assms(2)] that] by (rule link_wf_extend) (auto simp: map_add_def)
  have "bp_wf (bt_locs t') (bt_links t')"
    using assms(2) slug fresh links by (auto simp: t'' bp_wf_def app list_all_iff)
  moreover have "refs_wf (bt_refs t')"
    using assms(2) slug rok by (auto simp: t'' refs_wf_def list_all_iff split: option.split dest: set_dict_set)
  moreover have "others org t' = others org t" by (simp add: t'' others_def app org)
  ultimately show ?thesis by simp
qed

lemma update_location_keeps:
  assumes "update_location_op repr probes org kind op t = Inr t'" and "tables_wf t"
  shows "tables_wf t' \<and> others org t' = others org t"
proof -
  from assms(1) obtain lid fs where res: "resolve_loc org t (op_get op ''id'') = Inr lid" and t': "t' = set_fields lid fs t"
    by (auto simp: update_location_op_def bind_e_eq_Inr)
  from res obtain l where l: "dict_get (bt_locs t) lid = Some l" "lo_org l = org" by (auto simp: bp_ok)
  let ?l = "fold set_field fs l"
  let ?locs = "dict_set lid ?l (bt_locs t)"
  have t'': "t' = t\<lparr>bt_locs := ?locs\<rparr>" by (simp add: t' set_fields_def l)
  have keys: "map fst ?locs = map fst (bt_locs t)"
    using l by (auto simp: update_keys dest: dict_get_key)
  have "list_all (\<lambda>(k, v). slug_ok k) ?locs"
    using assms(2) map_of_SomeD [OF l(1)] by (auto simp: bp_wf_def list_all_iff dest!: set_dict_set)
  moreover have "link_wf ?locs k v" if "(k, v) \<in> set (bt_links t)" for k v
    using bp_wf_link [OF conjunct1 [OF assms(2)] that] by (rule link_wf_extend) (auto simp: l)
  ultimately have "tables_wf t'" using assms(2) keys by (auto simp: t'' bp_wf_def list_all_iff)
  moreover have "filter (\<lambda>(k, v). lo_org v \<noteq> org) ?locs = filter (\<lambda>(k, v). lo_org v \<noteq> org) (bt_locs t)"
    by (rule filter_set_hidden) (use assms(2) l in \<open>auto dest: bp_wf_get(1)\<close>)
  ultimately show ?thesis by (simp add: t'' others_def)
qed

lemma delete_location_keeps:
  assumes "delete_location_op org op t = Inr t'" and "tables_wf t"
  shows "tables_wf t' \<and> others org t' = others org t"
proof -
  from assms(1) obtain lid where res: "resolve_loc org t (op_get op ''id'') = Inr lid"
    and t': "t' = t\<lparr>bt_locs := AList.delete lid (bt_locs t),
              bt_links := filter (\<lambda>(k, v). lid \<noteq> lk_a v \<and> lid \<noteq> lk_b v) (bt_links t)\<rparr>"
    by (auto simp: delete_location_op_def bind_e_eq_Inr)
  from res obtain l where l: "dict_get (bt_locs t) lid = Some l" "lo_org l = org" by (auto simp: bp_ok)
  have locs: "(k, v) \<in> set (AList.delete lid (bt_locs t)) \<Longrightarrow> slug_ok k" for k v
    using assms(2) by (auto dest: in_delete bp_wf_loc)
  have links: "link_wf (AList.delete lid (bt_locs t)) k v"
    if "(k, v) \<in> set (bt_links t)" "lid \<noteq> lk_a v" "lid \<noteq> lk_b v" for k v
    using bp_wf_link [OF conjunct1 [OF assms(2)] that(1)] that(2,3) by (simp add: link_wf_def delete_conv')
  have "distinct (map fst (filter (\<lambda>(k, v). lid \<noteq> lk_a v \<and> lid \<noteq> lk_b v) (bt_links t)))"
    using assms(2) by (simp add: bp_wf_def distinct_map_filter)
  then have "tables_wf t'"
    using assms(2) locs links by (auto simp: t' bp_wf_def list_all_iff distinct_delete)
  moreover have "filter (\<lambda>(k, v). lo_org v \<noteq> org) (AList.delete lid (bt_locs t)) = filter (\<lambda>(k, v). lo_org v \<noteq> org) (bt_locs t)"
    by (rule filter_delete_hidden) (use assms(2) l in \<open>auto dest: bp_wf_get(1)\<close>)
  moreover have "filter (\<lambda>(k, v). lk_org v \<noteq> org) (filter (\<lambda>(k, v). lid \<noteq> lk_a v \<and> lid \<noteq> lk_b v) (bt_links t))
      = filter (\<lambda>(k, v). lk_org v \<noteq> org) (bt_links t)"
    unfolding filter_filter using assms(2) l
    by (intro filter_cong refl) (auto simp: link_wf_def dest!: bp_wf_link)
  ultimately show ?thesis by (simp add: t' others_def)
qed

lemma add_link_keeps:
  assumes "add_link_op repr org op t = Inr t'" and "tables_wf t"
  shows "tables_wf t' \<and> others org t' = others org t"
proof -
  from assms(1) obtain a b kind where a: "resolve_loc org t (op_get op ''a'') = Inr a"
    and b: "resolve_loc org t (op_get op ''b'') = Inr b" and ab: "a \<noteq> b" and kind: "kind \<in> set bp_kinds"
    and new: "\<not> dict_has (bt_links t) (link_id a b kind)"
    and t': "t' = t\<lparr>bt_links := dict_set (link_id a b kind)
               \<lparr>lk_org = org, lk_a = (if text_le a b then a else b), lk_b = (if text_le a b then b else a),
                lk_kind = kind, lk_note = take max_note (str_or_empty repr (op_get op ''note''))\<rparr> (bt_links t)\<rparr>"
    by (auto simp: add_link_op_def bind_e_eq_Inr Let_def split: if_splits json.splits)
  let ?k = "link_id a b kind"
  define v where "v = \<lparr>lk_org = org, lk_a = (if text_le a b then a else b), lk_b = (if text_le a b then b else a),
                lk_kind = kind, lk_note = take max_note (str_or_empty repr (op_get op ''note''))\<rparr>"
  have fresh: "?k \<notin> set (map fst (bt_links t))" using new by (simp add: dict_has_def map_of_eq_None_iff)
  have app: "dict_set ?k v (bt_links t) = bt_links t @ [(?k, v)]" using fresh by (rule update_new_key)
  have "link_wf (bt_locs t) ?k v"
    using a b ab kind text_le_total [of a b] by (auto simp: link_wf_def v_def link_id_def text_le_refl bp_ok)
  then have "bp_wf (bt_locs t) (bt_links t @ [(?k, v)])"
    using assms(2) fresh by (auto simp: bp_wf_def)
  then show ?thesis using assms(2) by (simp add: t' v_def [symmetric] app others_def) (simp add: v_def)
qed

lemma remove_link_keeps:
  assumes "remove_link_op org op t = Inr t'" and "tables_wf t"
  shows "tables_wf t' \<and> others org t' = others org t"
proof -
  from assms(1) obtain k v where v: "dict_get (bt_links t) k = Some v" "lk_org v = org"
    and t': "t' = t\<lparr>bt_links := AList.delete k (bt_links t)\<rparr>"
    by (auto simp: remove_link_op_def split: if_splits json.splits option.splits)
  have "list_all (\<lambda>(k, v). link_wf (bt_locs t) k v) (AList.delete k (bt_links t))"
    using assms(2) by (auto simp: bp_wf_def list_all_iff dest: in_delete)
  then have "tables_wf t'" using assms(2) by (auto simp: t' bp_wf_def distinct_delete)
  moreover have "filter (\<lambda>(k, v). lk_org v \<noteq> org) (AList.delete k (bt_links t)) = filter (\<lambda>(k, v). lk_org v \<noteq> org) (bt_links t)"
    by (rule filter_delete_hidden) (use assms(2) v in \<open>auto dest: bp_wf_get(2)\<close>)
  ultimately show ?thesis by (simp add: t' others_def)
qed

lemma apply_op_keeps:
  "apply_op repr probes org j t = Inr t' \<Longrightarrow> tables_wf t \<Longrightarrow> tables_wf t' \<and> others org t' = others org t"
  by (auto simp: apply_op_def simp del: bind_e_simps split: json.splits if_splits
      dest: create_location_keeps update_location_keeps delete_location_keeps add_link_keeps remove_link_keeps)

lemma run_ops_keeps:
  "run_ops repr probes org i ops t = Inr t' \<Longrightarrow> tables_wf t \<Longrightarrow> tables_wf t' \<and> others org t' = others org t"
proof (induction repr probes org i ops t rule: run_ops.induct)
  case (2 repr probes org i op ops t)
  then obtain u where u: "apply_op repr probes org op t = Inr u" "run_ops repr probes org (i + 1) ops u = Inr t'"
    by (auto split: sum.splits)
  from apply_op_keeps [OF u(1) 2(3)] 2(1) [OF u(1) u(2)] show ?case by simp
qed simp

lemma applied_ops_keep:
  assumes "apply_ops repr probes org locs links ops = Inr t" and "bp_wf locs links"
  shows "bp_wf (bt_locs t) (bt_links t)
    \<and> filter (\<lambda>(k, v). lo_org v \<noteq> org) (bt_locs t) = filter (\<lambda>(k, v). lo_org v \<noteq> org) locs
    \<and> filter (\<lambda>(k, v). lk_org v \<noteq> org) (bt_links t) = filter (\<lambda>(k, v). lk_org v \<noteq> org) links"
proof -
  have "tables_wf \<lparr>bt_locs = locs, bt_links = links, bt_refs = []\<rparr>" using assms(2) by (simp add: refs_wf_def)
  from run_ops_keeps [OF _ this] assms(1) show ?thesis
    by (auto simp: apply_ops_def others_def split: if_splits)
qed

text \<open>
  C19: a draft that applies keeps the model well formed (identifiers are unique slugs, and a link joins two
  different existing locations of its organization, under the identifier and in the order the code gives
  them) and leaves every row of every other organization as it was.
\<close>

theorem draft_keeps_model:
  assumes "apply_ops repr probes org locs links ops = Inr t" and "bp_wf locs links"
  shows "bp_wf (bt_locs t) (bt_links t)
    \<and> filter (\<lambda>(k, v). lo_org v \<noteq> org) (bt_locs t) = filter (\<lambda>(k, v). lo_org v \<noteq> org) locs
    \<and> filter (\<lambda>(k, v). lk_org v \<noteq> org) (bt_links t) = filter (\<lambda>(k, v). lk_org v \<noteq> org) links"
  using assms by (rule applied_ops_keep)

definition ex_loc :: "string \<Rightarrow> string \<Rightarrow> string \<Rightarrow> string list \<Rightarrow> bp_loc" where
  "ex_loc org name role subnets = \<lparr>lo_org = org, lo_name = name, lo_role = role, lo_subnets = subnets,
     lo_probe = ''central'', lo_gateway = []\<rparr>"

definition ex_link :: "string \<Rightarrow> string \<Rightarrow> string \<Rightarrow> bp_link" where
  "ex_link org a b = \<lparr>lk_org = org, lk_a = a, lk_b = b, lk_kind = ''vpn'', lk_note = []\<rparr>"

definition ex_draft :: "json list" where
  "ex_draft = [create_location_json ''lab'' (ex_loc ''acme'' ''Lab'' ''other'' []), delete_location_json ''shop'',
     add_link_json ''hub'' ''+lab'' ''wan'' []]"

lemma draft_keeps_model_witness:
  "(let locs = [(''hub'', ex_loc ''acme'' ''Hub'' ''hq'' []), (''shop'', ex_loc ''acme'' ''Shop'' ''branch'' []), (''x'', ex_loc ''umbra'' ''X'' ''hq'' [])];
        links = [(''hub--shop--vpn'', ex_link ''acme'' ''hub'' ''shop'')];
        t = projr (apply_ops (\<lambda>j. []) [''central''] ''acme'' locs links ex_draft) in
    map fst (bt_locs t) = [''hub'', ''x'', ''lab''] \<and> bp_wf (bt_locs t) (bt_links t)
    \<and> filter (\<lambda>(k, v). lo_org v \<noteq> ''acme'') (bt_locs t) = filter (\<lambda>(k, v). lo_org v \<noteq> ''acme'') locs
    \<and> filter (\<lambda>(k, v). lk_org v \<noteq> ''acme'') (bt_links t) = filter (\<lambda>(k, v). lk_org v \<noteq> ''acme'') links)"
  unfolding Let_def by (rule conjI, code_simp, rule draft_keeps_model [where repr = "\<lambda>j. []" and probes = "[''central'']" and ops = ex_draft]; code_simp)

end
