(* ===== verification/Blueprint_Restore.thy ===== *)
theory Blueprint_Restore
  imports Blueprint_Sound
begin

text \<open>
  Restoring a revision: the operations of \<open>restore_ops\<close>, applied as a draft, give the target view back
  and touch nothing else. The five groups of operations are run one after the other; each lemma says
  what its group does to the lookups of the tables.
\<close>

section \<open>Running a list of operations\<close>

fun runs :: "(json \<Rightarrow> string) \<Rightarrow> string list \<Rightarrow> string \<Rightarrow> json list \<Rightarrow> bp_tables \<Rightarrow> bp_tables option" where
  "runs repr probes org [] t = Some t"
| "runs repr probes org (op # ops) t =
     (case apply_op repr probes org op t of Inl e \<Rightarrow> None | Inr u \<Rightarrow> runs repr probes org ops u)"

lemma run_ops_runs: "run_ops repr probes org i ops t = Inr t' \<longleftrightarrow> runs repr probes org ops t = Some t'"
  by (induction ops arbitrary: i t) (auto split: sum.splits)

lemma runs_append: "runs repr probes org (xs @ ys) t = Option.bind (runs repr probes org xs t) (runs repr probes org ys)"
  by (induction xs arbitrary: t) (auto split: sum.splits)

lemma runs_keeps: "runs repr probes org ops t = Some t' \<Longrightarrow> tables_wf t \<Longrightarrow> tables_wf t' \<and> others org t' = others org t"
  using run_ops_keeps run_ops_runs by metis

section \<open>The five groups\<close>

lemma apply_remove_link:
  "dict_get (bt_links t) k = Some v \<Longrightarrow> lk_org v = org \<Longrightarrow>
   apply_op repr probes org (remove_link_json k) t = Inr (t\<lparr>bt_links := AList.delete k (bt_links t)\<rparr>)"
  by (simp add: apply_op_def remove_link_json_def remove_link_op_def op_get_def)

lemma runs_remove_links:
  assumes "distinct ks" and "\<forall>k \<in> set ks. \<exists>v. dict_get (bt_links t) k = Some v \<and> lk_org v = org"
  shows "\<exists>t'. runs repr probes org (map remove_link_json ks) t = Some t' \<and> bt_locs t' = bt_locs t \<and> bt_refs t' = bt_refs t
    \<and> (\<forall>k. dict_get (bt_links t') k = (if k \<in> set ks then None else dict_get (bt_links t) k))"
  using assms
proof (induction ks arbitrary: t)
  case (Cons k ks)
  let ?u = "t\<lparr>bt_links := AList.delete k (bt_links t)\<rparr>"
  have step: "apply_op repr probes org (remove_link_json k) t = Inr ?u"
    using Cons.prems(2) by (auto simp: apply_remove_link)
  have "\<forall>x \<in> set ks. \<exists>v. dict_get (bt_links ?u) x = Some v \<and> lk_org v = org"
    using Cons.prems by (auto simp: delete_conv')
  from Cons.IH [OF _ this] Cons.prems(1) obtain t' where
    "runs repr probes org (map remove_link_json ks) ?u = Some t'" "bt_locs t' = bt_locs t" "bt_refs t' = bt_refs t"
    "\<forall>x. dict_get (bt_links t') x = (if x \<in> set ks then None else dict_get (bt_links ?u) x)" by auto
  then show ?case using step by (auto simp: delete_conv' intro!: exI [of _ t'])
qed simp

text \<open>A location named by its identifier, which is no reference of the draft.\<close>

definition names_loc :: "string \<Rightarrow> bp_tables \<Rightarrow> string \<Rightarrow> bool" where
  "names_loc org t lid \<longleftrightarrow> dict_get (bt_refs t) lid = None \<and> map_option lo_org (dict_get (bt_locs t) lid) = Some org"

lemma resolve_names_loc: "names_loc org t lid \<Longrightarrow> resolve_loc org t (JStr lid) = Inr lid"
  by (auto simp: names_loc_def resolve_loc_ok)

lemma apply_delete_location:
  "names_loc org t lid \<Longrightarrow> apply_op repr probes org (delete_location_json lid) t =
     Inr (t\<lparr>bt_locs := AList.delete lid (bt_locs t),
            bt_links := filter (\<lambda>(k, v). lid \<noteq> lk_a v \<and> lid \<noteq> lk_b v) (bt_links t)\<rparr>)"
  by (simp add: apply_op_def delete_location_json_def delete_location_op_def op_get_def resolve_names_loc)

lemma runs_delete_locations:
  assumes "distinct ls" and "\<forall>lid \<in> set ls. names_loc org t lid"
    and "\<forall>(k, v) \<in> set (bt_links t). lk_a v \<notin> set ls \<and> lk_b v \<notin> set ls"
  shows "\<exists>t'. runs repr probes org (map delete_location_json ls) t = Some t' \<and> bt_links t' = bt_links t \<and> bt_refs t' = bt_refs t
    \<and> (\<forall>x. dict_get (bt_locs t') x = (if x \<in> set ls then None else dict_get (bt_locs t) x))"
  using assms
proof (induction ls arbitrary: t)
  case (Cons lid ls)
  have links: "filter (\<lambda>(k, v). lid \<noteq> lk_a v \<and> lid \<noteq> lk_b v) (bt_links t) = bt_links t"
    using Cons.prems(3) by (auto simp: filter_id_conv)
  let ?u = "t\<lparr>bt_locs := AList.delete lid (bt_locs t)\<rparr>"
  have step: "apply_op repr probes org (delete_location_json lid) t = Inr ?u"
    using Cons.prems(2) by (simp add: apply_delete_location links)
  have "\<forall>x \<in> set ls. names_loc org ?u x" using Cons.prems by (auto simp: names_loc_def delete_conv')
  moreover have "\<forall>(k, v) \<in> set (bt_links ?u). lk_a v \<notin> set ls \<and> lk_b v \<notin> set ls" using Cons.prems(3) by auto
  ultimately obtain t' where
    "runs repr probes org (map delete_location_json ls) ?u = Some t'" "bt_links t' = bt_links t" "bt_refs t' = bt_refs t"
    "\<forall>x. dict_get (bt_locs t') x = (if x \<in> set ls then None else dict_get (bt_locs ?u) x)"
    using Cons.IH [of ?u] Cons.prems(1) by auto
  then show ?case using step by (auto simp: delete_conv' intro!: exI [of _ t'])
qed simp

text \<open>A location whose fields the code takes over as they are.\<close>

definition loc_fixed :: "(json \<Rightarrow> string) \<Rightarrow> string list \<Rightarrow> bp_loc \<Rightarrow> bool" where
  "loc_fixed repr probes l \<longleftrightarrow> lo_probe l \<noteq> [] \<and>
     map (clean_field repr probes) (loc_fields l)
       = map Inr [F_name (lo_name l), F_role (lo_role l), F_subnets (lo_subnets l), F_probe (lo_probe l), F_gateway (lo_gateway l)]"

lemma loc_fixed_fields:
  "loc_fixed repr probes l \<Longrightarrow> clean_field repr probes (''name'', JStr (lo_name l)) = Inr (F_name (lo_name l))"
  "loc_fixed repr probes l \<Longrightarrow> clean_field repr probes (''role'', JStr (lo_role l)) = Inr (F_role (lo_role l))"
  "loc_fixed repr probes l \<Longrightarrow> clean_field repr probes (''subnets'', JList (map JStr (lo_subnets l))) = Inr (F_subnets (lo_subnets l))"
  "loc_fixed repr probes l \<Longrightarrow> clean_field repr probes (''probe'', JStr (lo_probe l)) = Inr (F_probe (lo_probe l))"
  "loc_fixed repr probes l \<Longrightarrow> clean_field repr probes (''gateway'', JStr (lo_gateway l)) = Inr (F_gateway (lo_gateway l))"
  by (simp_all add: loc_fixed_def loc_fields_def)

lemma loc_fixed_role: "loc_fixed repr probes l \<Longrightarrow> lo_role l \<noteq> []"
  by (drule loc_fixed_fields(2)) (auto simp: clean_field_def bp_roles_def split: if_splits)

lemma apply_create_location:
  assumes "lid \<notin> set (map fst (bt_locs t))" and "slug_ok lid" and "\<not> dict_has (bt_refs t) (''+'' @ lid)"
    and "lo_org l = org" and "loc_fixed repr probes l"
  shows "apply_op repr probes org (create_location_json lid l) t =
    Inr (t\<lparr>bt_locs := dict_set lid l (bt_locs t), bt_refs := dict_set (''+'' @ lid) lid (bt_refs t)\<rparr>)"
proof -
  have or_list: "json_or (JList xs) (JList []) = JList xs" for xs by (simp add: json_or_def)
  have or_text: "json_or (JStr s) (JStr []) = JStr s" for s by (simp add: json_or_def)
  have or_full: "s \<noteq> [] \<Longrightarrow> json_or (JStr s) j = JStr s" for s j by (simp add: json_or_def)
  have l: "blank_loc org\<lparr>lo_name := lo_name l, lo_role := lo_role l, lo_subnets := lo_subnets l,
      lo_probe := lo_probe l, lo_gateway := lo_gateway l\<rparr> = l"
    using assms(4) by (simp add: blank_loc_def)
  have ne: "lid \<noteq> []" using assms(2) by (simp add: slug_ok_def)
  have fs: "clean_fields repr probes [(''name'', JStr (lo_name l)), (''role'', JStr (lo_role l)),
     (''subnets'', JList (map JStr (lo_subnets l))), (''probe'', JStr (lo_probe l)), (''gateway'', JStr (lo_gateway l))]
    = Inr [F_name (lo_name l), F_role (lo_role l), F_subnets (lo_subnets l), F_probe (lo_probe l), F_gateway (lo_gateway l)]"
    using assms(5) by (simp add: loc_fixed_fields)
  have "create_location_op repr probes org (loc_fields l @
     [(''op'', JStr ''create_location''), (''ref'', JStr (''+'' @ lid)), (''id'', JStr lid)]) t
    = Inr (t\<lparr>bt_locs := dict_set lid l (bt_locs t), bt_refs := dict_set (''+'' @ lid) lid (bt_refs t)\<rparr>)"
    using assms fs l ne loc_fixed_role [OF assms(5)]
    by (simp add: create_location_op_def loc_fields_def op_get_def or_list or_text or_full check_ref_def check_wanted_def
        slugify_id loc_fixed_def starts_with_def del: clean_fields.simps)
  then show ?thesis by (simp add: apply_op_def create_location_json_def op_get_def loc_fields_def)
qed

lemma runs_create_locations:
  assumes "distinct ids" and "\<forall>lid \<in> set ids. lid \<notin> set (map fst (bt_locs t)) \<and> slug_ok lid
      \<and> \<not> dict_has (bt_refs t) (''+'' @ lid) \<and> lo_org (f lid) = org \<and> loc_fixed repr probes (f lid)"
  shows "\<exists>t'. runs repr probes org (map (\<lambda>lid. create_location_json lid (f lid)) ids) t = Some t' \<and> bt_links t' = bt_links t
    \<and> (\<forall>x. dict_get (bt_locs t') x = (if x \<in> set ids then Some (f x) else dict_get (bt_locs t) x))
    \<and> (\<forall>x \<in> set ids. dict_get (bt_refs t') (''+'' @ x) = Some x)
    \<and> (\<forall>r. r \<notin> (\<lambda>x. ''+'' @ x) ` set ids \<longrightarrow> dict_get (bt_refs t') r = dict_get (bt_refs t) r)"
  using assms
proof (induction ids arbitrary: t)
  case (Cons lid ids)
  let ?u = "t\<lparr>bt_locs := dict_set lid (f lid) (bt_locs t), bt_refs := dict_set (''+'' @ lid) lid (bt_refs t)\<rparr>"
  have step: "apply_op repr probes org (create_location_json lid (f lid)) t = Inr ?u"
    using Cons.prems(2) by (intro apply_create_location) auto
  have "\<forall>x \<in> set ids. x \<notin> set (map fst (bt_locs ?u)) \<and> slug_ok x \<and> \<not> dict_has (bt_refs ?u) (''+'' @ x)
      \<and> lo_org (f x) = org \<and> loc_fixed repr probes (f x)"
    using Cons.prems by (auto simp: dom_update)
  with Cons.IH [of ?u] Cons.prems(1) obtain t' where
    "runs repr probes org (map (\<lambda>lid. create_location_json lid (f lid)) ids) ?u = Some t'" "bt_links t' = bt_links t"
    "\<forall>x. dict_get (bt_locs t') x = (if x \<in> set ids then Some (f x) else dict_get (bt_locs ?u) x)"
    "\<forall>x \<in> set ids. dict_get (bt_refs t') (''+'' @ x) = Some x"
    and other: "\<forall>r. r \<notin> (\<lambda>x. ''+'' @ x) ` set ids \<longrightarrow> dict_get (bt_refs t') r = dict_get (bt_refs ?u) r" by auto
  moreover have "dict_get (bt_refs t') (''+'' @ lid) = Some lid" using spec [OF other, of "''+'' @ lid"] Cons.prems(1) by (auto simp: image_iff)
  ultimately show ?case using step Cons.prems(1) by (auto simp: image_iff intro!: exI [of _ t'])
qed simp

lemma map_JStr_eq: "map JStr xs = map JStr ys \<longleftrightarrow> xs = ys"
  by (rule inj_map_eq_map) (simp add: inj_def)

lemma clean_differing_fields:
  assumes "loc_fixed repr probes tgt" and "lo_org cur = lo_org tgt"
  shows "\<exists>fs. clean_fields repr probes (differing_fields cur tgt) = Inr fs \<and> fold set_field fs cur = tgt"
  using loc_fixed_fields [OF assms(1)] assms(2) unfolding differing_fields_def loc_fields_def
  by (cases cur; cases tgt) (auto simp: op_get_def map_JStr_eq)

lemma apply_update_location:
  assumes "names_loc org t lid" and "dict_get (bt_locs t) lid = Some c" and "loc_fixed repr probes l" and "lo_org l = org"
    and "differing_fields c l \<noteq> []"
  shows "apply_op repr probes org (update_location_json lid (differing_fields c l)) t = Inr (t\<lparr>bt_locs := dict_set lid l (bt_locs t)\<rparr>)"
proof -
  have "lo_org c = lo_org l" using assms(1,2,4) by (simp add: names_loc_def)
  then obtain fs where fs: "clean_fields repr probes (differing_fields c l) = Inr fs" "fold set_field fs c = l"
    using clean_differing_fields [OF assms(3)] by blast
  show ?thesis using assms(1,2,5) fs
    by (cases "differing_fields c l")
      (auto simp: apply_op_def update_location_json_def update_location_op_def op_get_def resolve_names_loc set_fields_def
        simp del: clean_fields.simps)
qed

lemma runs_update_locations:
  assumes "distinct ids" and "\<forall>lid \<in> set ids. names_loc org t lid \<and> lo_org (f lid) = org \<and> loc_fixed repr probes (f lid)
      \<and> dict_get (bt_locs t) lid = Some (c lid) \<and> differing_fields (c lid) (f lid) \<noteq> []"
  shows "\<exists>t'. runs repr probes org (map (\<lambda>lid. update_location_json lid (differing_fields (c lid) (f lid))) ids) t = Some t'
    \<and> bt_links t' = bt_links t \<and> bt_refs t' = bt_refs t
    \<and> (\<forall>x. dict_get (bt_locs t') x = (if x \<in> set ids then Some (f x) else dict_get (bt_locs t) x))"
  using assms
proof (induction ids arbitrary: t)
  case (Cons lid ids)
  let ?u = "t\<lparr>bt_locs := dict_set lid (f lid) (bt_locs t)\<rparr>"
  have step: "apply_op repr probes org (update_location_json lid (differing_fields (c lid) (f lid))) t = Inr ?u"
    using Cons.prems(2) by (intro apply_update_location) auto
  have "\<forall>x \<in> set ids. names_loc org ?u x \<and> lo_org (f x) = org \<and> loc_fixed repr probes (f x)
      \<and> dict_get (bt_locs ?u) x = Some (c x) \<and> differing_fields (c x) (f x) \<noteq> []"
    using Cons.prems by (auto simp: names_loc_def)
  with Cons.IH [of ?u] Cons.prems(1) obtain t' where
    "runs repr probes org (map (\<lambda>lid. update_location_json lid (differing_fields (c lid) (f lid))) ids) ?u = Some t'"
    "bt_links t' = bt_links t" "bt_refs t' = bt_refs t"
    "\<forall>x. dict_get (bt_locs t') x = (if x \<in> set ids then Some (f x) else dict_get (bt_locs ?u) x)" by auto
  then show ?case using step Cons.prems(1) by (auto intro!: exI [of _ t'])
qed simp

lemma apply_add_link:
  assumes "link_wf locs k v" and "lk_org v = org" and "resolve_loc org t (JStr a) = Inr (lk_a v)"
    and "resolve_loc org t (JStr b) = Inr (lk_b v)" and "dict_get (bt_links t) k = None"
  shows "apply_op repr probes org (add_link_json a b (lk_kind v) (lk_note v)) t = Inr (t\<lparr>bt_links := dict_set k v (bt_links t)\<rparr>)"
proof -
  have kept: "take max_note (str_or_empty repr (JStr s)) = s" if "length s \<le> max_note" for s
    using that by (simp add: str_or_empty_def)
  have v: "\<lparr>lk_org = org, lk_a = lk_a v, lk_b = lk_b v, lk_kind = lk_kind v, lk_note = lk_note v\<rparr> = v"
    using assms(2) by simp
  from assms show ?thesis
    by (simp add: v apply_op_def add_link_json_def add_link_op_def op_get_def link_wf_def kept dict_has_def Let_def)
qed

lemma runs_add_links:
  assumes "distinct ks" and "\<forall>k \<in> set ks. (\<exists>locs. link_wf locs k (f k)) \<and> lk_org (f k) = org \<and> dict_get (bt_links t) k = None
      \<and> resolve_loc org t (JStr (r (lk_a (f k)))) = Inr (lk_a (f k)) \<and> resolve_loc org t (JStr (r (lk_b (f k)))) = Inr (lk_b (f k))"
  shows "\<exists>t'. runs repr probes org (map (\<lambda>k. add_link_json (r (lk_a (f k))) (r (lk_b (f k))) (lk_kind (f k)) (lk_note (f k))) ks) t = Some t'
    \<and> bt_locs t' = bt_locs t \<and> (\<forall>k. dict_get (bt_links t') k = (if k \<in> set ks then Some (f k) else dict_get (bt_links t) k))"
  using assms
proof (induction ks arbitrary: t)
  case (Cons k ks)
  let ?u = "t\<lparr>bt_links := dict_set k (f k) (bt_links t)\<rparr>"
  have res: "resolve_loc org ?u x = resolve_loc org t x" for x by (cases x) (simp_all add: resolve_loc_def Let_def)
  have step: "apply_op repr probes org (add_link_json (r (lk_a (f k))) (r (lk_b (f k))) (lk_kind (f k)) (lk_note (f k))) t = Inr ?u"
    using Cons.prems(2) by (auto intro: apply_add_link)
  have "\<forall>x \<in> set ks. (\<exists>locs. link_wf locs x (f x)) \<and> lk_org (f x) = org \<and> dict_get (bt_links ?u) x = None
      \<and> resolve_loc org ?u (JStr (r (lk_a (f x)))) = Inr (lk_a (f x)) \<and> resolve_loc org ?u (JStr (r (lk_b (f x)))) = Inr (lk_b (f x))"
    using Cons.prems by (auto simp: res)
  with Cons.IH [of ?u] Cons.prems(1) obtain t' where
    "runs repr probes org (map (\<lambda>k. add_link_json (r (lk_a (f k))) (r (lk_b (f k))) (lk_kind (f k)) (lk_note (f k))) ks) ?u = Some t'"
    "bt_locs t' = bt_locs t"
    "\<forall>x. dict_get (bt_links t') x = (if x \<in> set ks then Some (f x) else dict_get (bt_links ?u) x)" by auto
  then show ?case using step Cons.prems(1) by (auto intro!: exI [of _ t'])
qed simp

section \<open>The round trip\<close>

text \<open>A snapshot that the code takes back: well formed, of the organization, with fields that pass the checks.\<close>

definition snapshot_ok :: "(json \<Rightarrow> string) \<Rightarrow> string list \<Rightarrow> string \<Rightarrow> bp_view \<Rightarrow> bool" where
  "snapshot_ok repr probes org s \<longleftrightarrow> bp_wf (bv_locs s) (bv_links s)
     \<and> list_all (\<lambda>(k, l). lo_org l = org \<and> loc_fixed repr probes l) (bv_locs s)
     \<and> list_all (\<lambda>(k, v). lk_org v = org) (bv_links s)"

definition same_view :: "bp_view \<Rightarrow> bp_view \<Rightarrow> bool" where
  "same_view a b \<longleftrightarrow> (\<forall>k. dict_get (bv_locs a) k = dict_get (bv_locs b) k) \<and> (\<forall>k. dict_get (bv_links a) k = dict_get (bv_links b) k)"

lemma map_filter_the: "List.map_filter g xs = map (\<lambda>x. the (g x)) (filter (\<lambda>x. g x \<noteq> None) xs)"
  by (simp add: map_filter_def comp_def)

lemma dict_get_filter_val:
  "distinct (map fst d) \<Longrightarrow> dict_get (filter (\<lambda>(k, v). P v) d) k = (case dict_get d k of None \<Rightarrow> None | Some v \<Rightarrow> if P v then Some v else None)"
proof (induction d)
  case (Cons x d)
  have "fst x \<notin> fst ` set d \<Longrightarrow> dict_get (filter (\<lambda>(k, v). P v) d) (fst x) = None"
    by (auto simp: map_of_eq_None_iff)
  with Cons show ?case by (cases x) (auto simp: map_of_eq_None_iff split: option.splits)
qed simp

lemma snapshot_ok_get:
  assumes "snapshot_ok repr probes org s"
  shows "dict_get (bv_locs s) k = Some l \<Longrightarrow> slug_ok k \<and> lo_org l = org \<and> loc_fixed repr probes l"
    and "dict_get (bv_links s) k = Some v \<Longrightarrow> link_wf (bv_locs s) k v \<and> lk_org v = org"
  using assms by (auto simp: snapshot_ok_def bp_wf_def list_all_iff dest!: map_of_SomeD)

lemma same_fields_same_loc: "lo_org c = lo_org l \<Longrightarrow> differing_fields c l = [] \<longleftrightarrow> c = l"
  unfolding differing_fields_def loc_fields_def
  by (cases c; cases l) (auto simp: op_get_def map_JStr_eq)

text \<open>
  The setting of a restore: the tables, the organization, the target; \<open>cur\<close> is the view of the organization.
\<close>

definition restore_setting :: "(json \<Rightarrow> string) \<Rightarrow> string list \<Rightarrow> string \<Rightarrow> bp_loc dict \<Rightarrow> bp_link dict \<Rightarrow> bp_view \<Rightarrow> bool" where
  "restore_setting repr probes org locs links tgt \<longleftrightarrow> bp_wf locs links \<and> snapshot_ok repr probes org tgt
     \<and> list_all (\<lambda>(k, l). dict_has (bv_locs tgt) k \<longrightarrow> lo_org l = org) locs"

lemma org_view_get:
  assumes "bp_wf locs links"
  shows "dict_get (bv_locs (org_view locs links org)) k
      = (case dict_get locs k of None \<Rightarrow> None | Some l \<Rightarrow> if lo_org l = org then Some l else None)"
    and "dict_get (bv_links (org_view locs links org)) k
      = (case dict_get links k of None \<Rightarrow> None | Some v \<Rightarrow> if lk_org v = org then Some v else None)"
  using assms by (simp_all add: org_view_def bp_wf_def dict_get_filter_val)

text \<open>The view of one organization is well formed by itself.\<close>

lemma org_view_wf:
  assumes "bp_wf locs links"
  shows "bp_wf (bv_locs (org_view locs links org)) (bv_links (org_view locs links org))"
proof -
  have "link_wf (bv_locs (org_view locs links org)) k v" if "(k, v) \<in> set links" "lk_org v = org" for k v
    using bp_wf_link [OF assms that(1)] that(2) by (auto simp: link_wf_def org_view_get [OF assms] split: option.splits)
  then show ?thesis
    using assms by (auto simp: bp_wf_def org_view_def list_all_iff distinct_map_filter)
qed

lemma dict_has_iff: "dict_has d k \<longleftrightarrow> k \<in> fst ` set d"
  by (simp add: dict_has_def dom_map_of_conv_image_fst [symmetric] domIff)

lemma dict_has_get: "dict_has d k \<longleftrightarrow> dict_get d k \<noteq> None"
  by (simp add: dict_has_def)

lemma bp_wf_ends:
  assumes "bp_wf locs links" and "dict_get links k = Some v"
  shows "\<exists>la lb. dict_get locs (lk_a v) = Some la \<and> lo_org la = lk_org v \<and> dict_get locs (lk_b v) = Some lb \<and> lo_org lb = lk_org v"
  using bp_wf_link [OF assms(1) map_of_SomeD [OF assms(2)]] by (auto simp: link_wf_def)

text \<open>Slugs hold no two dashes in a row, so a link identifier determines its ends.\<close>

lemma slug_prefix_eq:
  assumes "slug_ok a" and "slug_ok b" and "a @ ''--'' @ s = b @ ''--'' @ t"
  shows "a = b"
proof -
  have no: False if "slug_ok x" "x = y @ us" "us @ ''--'' @ p = ''--'' @ q" "us \<noteq> []" for x y us p q
  proof (cases us)
    case (Cons c vs)
    show False
    proof (cases vs)
      case Nil
      with Cons that show False by (simp add: slug_ok_def)
    next
      case (Cons d ws)
      with \<open>us = c # vs\<close> that show False by (auto simp: slug_ok_def successively_append_iff)
    qed
  qed (use that in simp)
  from assms(3) have "\<exists>us. a = b @ us \<and> us @ ''--'' @ s = ''--'' @ t \<or> a @ us = b \<and> ''--'' @ s = us @ ''--'' @ t"
    unfolding append_eq_append_conv2 by blast
  then obtain us where "a = b @ us \<and> us @ ''--'' @ s = ''--'' @ t \<or> b = a @ us \<and> us @ ''--'' @ t = ''--'' @ s" by metis
  with no assms(1,2) show ?thesis by (metis append_Nil2)
qed

lemma link_wf_same_end:
  assumes "link_wf locs k v" and "link_wf locs' k w" and "slug_ok (lk_a v)" and "slug_ok (lk_a w)"
  shows "lk_a v = lk_a w"
  using slug_prefix_eq [OF assms(3,4), of "lk_b v @ ''--'' @ lk_kind v" "lk_b w @ ''--'' @ lk_kind w"] assms(1,2)
  by (auto simp: link_wf_def link_id_def)

lemma runs_restore:
  assumes setting: "restore_setting repr probes org locs links tgt"
  shows "\<exists>t. runs repr probes org (restore_ops (org_view locs links org) tgt)
        \<lparr>bt_locs = locs, bt_links = links, bt_refs = []\<rparr> = Some t
      \<and> (\<forall>x. dict_get (bt_locs t) x = (case dict_get (bv_locs tgt) x of Some l \<Rightarrow> Some l
            | None \<Rightarrow> (case dict_get locs x of None \<Rightarrow> None | Some l \<Rightarrow> if lo_org l = org then None else Some l)))
      \<and> (\<forall>k. dict_get (bt_links t) k = (case dict_get (bv_links tgt) k of Some v \<Rightarrow> Some v
            | None \<Rightarrow> (case dict_get links k of None \<Rightarrow> None | Some v \<Rightarrow> if lk_org v = org then None else Some v)))"
proof -
  let ?cur = "org_view locs links org"
  let ?t0 = "\<lparr>bt_locs = locs, bt_links = links, bt_refs = []\<rparr>"
  have wf: "bp_wf locs links" and tgt: "snapshot_ok repr probes org tgt"
    and mine: "\<And>k l. dict_get locs k = Some l \<Longrightarrow> dict_has (bv_locs tgt) k \<Longrightarrow> lo_org l = org"
    using setting by (auto simp: restore_setting_def list_all_iff dest!: map_of_SomeD)
  note cur = org_view_get [OF wf, of org]
  note get = snapshot_ok_get [OF tgt]
  have wf0: "tables_wf ?t0" using wf by (simp add: refs_wf_def)
  have ends: "dict_has (bv_locs tgt) (lk_a v) \<and> dict_has (bv_locs tgt) (lk_b v)" if "dict_get (bv_links tgt) k = Some v" for k v
    using get(2) [OF that] by (auto simp: link_wf_def dict_has_get)

  define ks where "ks = filter (\<lambda>k. dict_get (bv_links ?cur) k \<noteq> dict_get (bv_links tgt) k) (sorted_texts (map fst (bv_links ?cur)))"
  have ks: "k \<in> set ks \<longleftrightarrow> dict_get (bv_links ?cur) k \<noteq> None \<and> dict_get (bv_links ?cur) k \<noteq> dict_get (bv_links tgt) k" for k
    by (auto simp: ks_def dict_has_iff [symmetric] dict_has_get)
  have "\<forall>k \<in> set ks. \<exists>v. dict_get (bt_links ?t0) k = Some v \<and> lk_org v = org"
    by (auto simp: ks cur split: option.splits if_splits)
  with runs_remove_links [of ks ?t0 org repr probes] obtain t1 where
    t1: "runs repr probes org (map remove_link_json ks) ?t0 = Some t1" "bt_locs t1 = locs" "bt_refs t1 = []"
      "\<And>k. dict_get (bt_links t1) k = (if k \<in> set ks then None else dict_get links k)"
    by (auto simp: ks_def)
  have wf1: "tables_wf t1" using runs_keeps [OF t1(1) wf0] by simp

  define ls where "ls = sorted_texts (filter (\<lambda>k. \<not> dict_has (bv_locs tgt) k) (map fst (bv_locs ?cur)))"
  have lsd: "distinct ls" by (simp add: ls_def)
  have ls: "x \<in> set ls \<longleftrightarrow> dict_get (bv_locs ?cur) x \<noteq> None \<and> dict_get (bv_locs tgt) x = None" for x
    by (auto simp: ls_def dict_has_iff [symmetric] dict_has_get)
  have untouched: "lk_a v \<notin> set ls \<and> lk_b v \<notin> set ls" if "(k, v) \<in> set (bt_links t1)" for k v
  proof -
    have kv: "dict_get links k = Some v" "k \<notin> set ks"
      using bp_wf_get(2) [OF conjunct1 [OF wf1] that] by (auto simp: t1(4) split: if_splits)
    show ?thesis
    proof (cases "lk_org v = org")
      case True
      then have "dict_get (bv_links tgt) k = Some v" using kv by (auto simp: ks cur)
      from ends [OF this] show ?thesis by (auto simp: ls dict_has_get)
    next
      case False
      with bp_wf_ends [OF wf kv(1)] show ?thesis by (auto simp: ls cur)
    qed
  qed
  have lsn: "\<forall>lid \<in> set ls. names_loc org t1 lid"
    by (auto simp: ls cur names_loc_def t1(2,3) split: option.splits if_splits)
  have untouched_all: "\<forall>(k, v) \<in> set (bt_links t1). lk_a v \<notin> set ls \<and> lk_b v \<notin> set ls" using untouched by blast
  obtain t2 where
    t2: "runs repr probes org (map delete_location_json ls) t1 = Some t2" "bt_links t2 = bt_links t1" "bt_refs t2 = []"
      "\<And>x. dict_get (bt_locs t2) x = (if x \<in> set ls then None else dict_get locs x)"
    using runs_delete_locations [OF lsd lsn untouched_all, of repr probes] by (auto simp: t1(2,3))

  define f where "f = (\<lambda>x. the (dict_get (bv_locs tgt) x))"
  define cr where "cr = restore_created ?cur tgt"
  have cr: "x \<in> set cr \<longleftrightarrow> dict_get (bv_locs ?cur) x = None \<and> dict_get (bv_locs tgt) x \<noteq> None" for x
    by (auto simp: cr_def restore_created_def dict_has_iff [symmetric] dict_has_get)
  have crd: "distinct cr" by (simp add: cr_def restore_created_def)
  have tl: "dict_get locs x = None" if "x \<in> set cr" for x
    using that mine [of x] by (auto simp: cr cur dict_has_get split: option.splits if_splits)
  have "\<forall>lid \<in> set cr. lid \<notin> set (map fst (bt_locs t2)) \<and> slug_ok lid
      \<and> \<not> dict_has (bt_refs t2) (''+'' @ lid) \<and> lo_org (f lid) = org \<and> loc_fixed repr probes (f lid)"
    using tl get(1) by (auto simp: cr f_def t2(3,4) dict_has_def map_of_eq_None_iff [symmetric] simp del: map_of_eq_None_iff)
  then obtain t3 where
    t3: "runs repr probes org (map (\<lambda>lid. create_location_json lid (f lid)) cr) t2 = Some t3" "bt_links t3 = bt_links t1"
      "\<And>x. dict_get (bt_locs t3) x = (if x \<in> set cr then Some (f x) else dict_get (bt_locs t2) x)"
      "\<And>x. x \<in> set cr \<Longrightarrow> dict_get (bt_refs t3) (''+'' @ x) = Some x"
      "\<And>r. r \<notin> (\<lambda>x. ''+'' @ x) ` set cr \<Longrightarrow> dict_get (bt_refs t3) r = None"
    using runs_create_locations [OF crd, of t2 f org repr probes] by (auto simp: t2(2,3))
  have refs3: "dict_get (bt_refs t3) x = None" if "slug_ok x" for x
    using slug_ok_not_ref [OF that] by (intro t3(5)) (auto simp: starts_with_def)

  define c where "c = (\<lambda>x. the (dict_get (bv_locs ?cur) x))"
  define up where "up = filter (\<lambda>x. differing_fields (c x) (f x) \<noteq> []) (sorted_texts (filter (dict_has (bv_locs tgt)) (map fst (bv_locs ?cur))))"
  have upd: "distinct up" by (simp add: up_def)
  have up: "x \<in> set up \<longleftrightarrow> dict_get (bv_locs ?cur) x \<noteq> None \<and> dict_get (bv_locs tgt) x \<noteq> None \<and> differing_fields (c x) (f x) \<noteq> []" for x
    by (auto simp: up_def dict_has_iff [symmetric] dict_has_get)
  have "\<forall>lid \<in> set up. names_loc org t3 lid \<and> lo_org (f lid) = org \<and> loc_fixed repr probes (f lid)
      \<and> dict_get (bt_locs t3) lid = Some (c lid) \<and> differing_fields (c lid) (f lid) \<noteq> []"
    using get(1) by (auto simp: up cr ls cur c_def f_def names_loc_def t3(3) t2(4) refs3 split: option.splits if_splits)
  from runs_update_locations [OF upd this] obtain t4 where
    t4: "runs repr probes org (map (\<lambda>lid. update_location_json lid (differing_fields (c lid) (f lid))) up) t3 = Some t4"
      "bt_links t4 = bt_links t1" "bt_refs t4 = bt_refs t3"
      "\<And>x. dict_get (bt_locs t4) x = (if x \<in> set up then Some (f x) else dict_get (bt_locs t3) x)"
    by (auto simp: t3(2))
  have locs4: "dict_get (bt_locs t4) x = (case dict_get (bv_locs tgt) x of Some l \<Rightarrow> Some l
      | None \<Rightarrow> (case dict_get locs x of None \<Rightarrow> None | Some l \<Rightarrow> if lo_org l = org then None else Some l))" for x
  proof (cases "dict_get (bv_locs tgt) x")
    case None
    then show ?thesis by (auto simp: t4(4) t3(3) t2(4) up cr ls cur split: option.split)
  next
    case (Some l)
    then have "lo_org l = org" using get(1) by blast
    with Some mine [of x] same_fields_same_loc [of "c x" l] show ?thesis
      by (auto simp: t4(4) t3(3) t2(4) up cr ls cur c_def f_def dict_has_get split: option.splits if_splits)
  qed

  define g where "g = (\<lambda>k. the (dict_get (bv_links tgt) k))"
  define ad where "ad = filter (\<lambda>k. dict_get (bv_links ?cur) k \<noteq> Some (g k)) (sorted_texts (map fst (bv_links tgt)))"
  have add: "distinct ad" by (simp add: ad_def)
  have ad: "k \<in> set ad \<longleftrightarrow> dict_get (bv_links tgt) k \<noteq> None \<and> dict_get (bv_links ?cur) k \<noteq> dict_get (bv_links tgt) k" for k
    by (auto simp: ad_def g_def dict_has_iff [symmetric] dict_has_get)
  let ?r = "restore_ref ?cur tgt"
  have res: "resolve_loc org t4 (JStr (?r x)) = Inr x" if x: "dict_get (bv_locs tgt) x = Some l" for x l
  proof (cases "x \<in> set cr")
    case True
    then have "?r x = ''+'' @ x" by (simp add: restore_ref_def cr_def)
    with t3(4) [OF True] x get(1) [OF x] show ?thesis by (simp add: resolve_loc_ok t4(3) locs4)
  next
    case False
    then have "?r x = x" by (simp add: restore_ref_def cr_def)
    with x get(1) [OF x] show ?thesis by (simp add: resolve_loc_ok t4(3) refs3 locs4)
  qed
  have new: "dict_get (bt_links t4) k = None" if "k \<in> set ad" for k
  proof (rule ccontr)
    assume "dict_get (bt_links t4) k \<noteq> None"
    then obtain w where w: "dict_get links k = Some w" "k \<notin> set ks" by (auto simp: t4(2) t1(4) split: if_splits)
    obtain v where v: "dict_get (bv_links tgt) k = Some v" using \<open>k \<in> set ad\<close> by (auto simp: ad)
    from that w have other: "lk_org w \<noteq> org" by (auto simp: ad ks cur)
    from get(2) [OF v] have vw: "link_wf (bv_locs tgt) k v" by simp
    have ww: "link_wf locs k w" using bp_wf_link [OF wf map_of_SomeD [OF w(1)]] .
    from ends [OF v] obtain la where la: "dict_get (bv_locs tgt) (lk_a v) = Some la" by (auto simp: dict_has_get)
    obtain lw where lw: "dict_get locs (lk_a w) = Some lw" "lo_org lw = lk_org w" using bp_wf_ends [OF wf w(1)] by blast
    have "lk_a v = lk_a w"
      using link_wf_same_end [OF vw ww] get(1) [OF la] bp_wf_loc [OF wf map_of_SomeD [OF lw(1)]] by blast
    with la lw mine [of "lk_a w" lw] other show False by (simp add: dict_has_get)
  qed
  have "\<forall>k \<in> set ad. (\<exists>locs. link_wf locs k (g k)) \<and> lk_org (g k) = org \<and> dict_get (bt_links t4) k = None
      \<and> resolve_loc org t4 (JStr (?r (lk_a (g k)))) = Inr (lk_a (g k)) \<and> resolve_loc org t4 (JStr (?r (lk_b (g k)))) = Inr (lk_b (g k))"
  proof
    fix k assume k: "k \<in> set ad"
    then obtain v where v: "dict_get (bv_links tgt) k = Some v" by (auto simp: ad)
    from ends [OF v] obtain la lb where ab: "dict_get (bv_locs tgt) (lk_a v) = Some la" "dict_get (bv_locs tgt) (lk_b v) = Some lb"
      by (auto simp: dict_has_get)
    have "\<exists>locs. link_wf locs k v" "lk_org v = org" using get(2) [OF v] by blast+
    with new [OF k] v res [OF ab(1)] res [OF ab(2)]
    show "(\<exists>locs. link_wf locs k (g k)) \<and> lk_org (g k) = org \<and> dict_get (bt_links t4) k = None
      \<and> resolve_loc org t4 (JStr (?r (lk_a (g k)))) = Inr (lk_a (g k)) \<and> resolve_loc org t4 (JStr (?r (lk_b (g k)))) = Inr (lk_b (g k))"
      by (simp add: g_def)
  qed
  from runs_add_links [OF add this] obtain t5 where
    t5: "runs repr probes org (map (\<lambda>k. add_link_json (?r (lk_a (g k))) (?r (lk_b (g k))) (lk_kind (g k)) (lk_note (g k))) ad) t4 = Some t5"
      "bt_locs t5 = bt_locs t4" "\<And>k. dict_get (bt_links t5) k = (if k \<in> set ad then Some (g k) else dict_get (bt_links t1) k)"
    unfolding t4(2) by blast
  have links5: "dict_get (bt_links t5) k = (case dict_get (bv_links tgt) k of Some v \<Rightarrow> Some v
      | None \<Rightarrow> (case dict_get links k of None \<Rightarrow> None | Some v \<Rightarrow> if lk_org v = org then None else Some v))" for k
    by (auto simp: t5(3) t1(4) ad ks cur g_def split: option.splits if_splits)

  have created: "List.map_filter (\<lambda>lid. map_option (create_location_json lid) (dict_get (bv_locs tgt) lid)) cr
      = map (\<lambda>lid. create_location_json lid (f lid)) cr"
    by (auto simp: map_filter_the cr f_def intro!: filter_True map_cong)
  have updated: "List.map_filter (\<lambda>lid. case (dict_get (bv_locs ?cur) lid, dict_get (bv_locs tgt) lid) of
            (Some c, Some t) \<Rightarrow> if differing_fields c t = [] then None else Some (update_location_json lid (differing_fields c t))
          | _ \<Rightarrow> None) (sorted_texts (filter (dict_has (bv_locs tgt)) (map fst (bv_locs ?cur))))
      = map (\<lambda>lid. update_location_json lid (differing_fields (c lid) (f lid))) up"
    unfolding map_filter_the up_def
    by (intro map_cong filter_cong refl) (auto simp: c_def f_def dict_has_iff [symmetric] dict_has_get)
  have added: "List.map_filter (\<lambda>k. case dict_get (bv_links tgt) k of
            None \<Rightarrow> None
          | Some t \<Rightarrow> if dict_get (bv_links ?cur) k = Some t then None
              else Some (add_link_json (?r (lk_a t)) (?r (lk_b t)) (lk_kind t) (lk_note t)))
          (sorted_texts (map fst (bv_links tgt)))
      = map (\<lambda>k. add_link_json (?r (lk_a (g k))) (?r (lk_b (g k))) (lk_kind (g k)) (lk_note (g k))) ad"
    unfolding map_filter_the ad_def
    by (intro map_cong filter_cong refl) (auto simp: g_def dict_has_iff [symmetric] dict_has_get)
  have "restore_ops ?cur tgt = map remove_link_json ks @ map delete_location_json ls
      @ map (\<lambda>lid. create_location_json lid (f lid)) cr
      @ map (\<lambda>lid. update_location_json lid (differing_fields (c lid) (f lid))) up
      @ map (\<lambda>k. add_link_json (?r (lk_a (g k))) (?r (lk_b (g k))) (lk_kind (g k)) (lk_note (g k))) ad"
    unfolding restore_ops_def Let_def cr_def [symmetric] created updated added ks_def ls_def by (rule refl)
  then have "runs repr probes org (restore_ops ?cur tgt) ?t0 = Some t5"
    by (simp add: runs_append t1(1) t2(1) t3(1) t4(1) t5(1))
  then show ?thesis using locs4 links5 by (auto simp: t5(2))
qed

lemma restore_gives_back:
  assumes "restore_setting repr probes org locs links tgt"
    and "length (restore_ops (org_view locs links org) tgt) \<le> max_draft_ops"
  shows "\<exists>t. apply_ops repr probes org locs links (restore_ops (org_view locs links org) tgt) = Inr t
    \<and> same_view (org_view (bt_locs t) (bt_links t) org) tgt
    \<and> filter (\<lambda>(k, v). lo_org v \<noteq> org) (bt_locs t) = filter (\<lambda>(k, v). lo_org v \<noteq> org) locs
    \<and> filter (\<lambda>(k, v). lk_org v \<noteq> org) (bt_links t) = filter (\<lambda>(k, v). lk_org v \<noteq> org) links"
proof -
  have wf: "bp_wf locs links" and tgt: "snapshot_ok repr probes org tgt"
    using assms(1) by (simp_all add: restore_setting_def)
  from runs_restore [OF assms(1)] obtain t where t:
    "runs repr probes org (restore_ops (org_view locs links org) tgt) \<lparr>bt_locs = locs, bt_links = links, bt_refs = []\<rparr> = Some t"
    "\<And>x. dict_get (bt_locs t) x = (case dict_get (bv_locs tgt) x of Some l \<Rightarrow> Some l
            | None \<Rightarrow> (case dict_get locs x of None \<Rightarrow> None | Some l \<Rightarrow> if lo_org l = org then None else Some l))"
    "\<And>k. dict_get (bt_links t) k = (case dict_get (bv_links tgt) k of Some v \<Rightarrow> Some v
            | None \<Rightarrow> (case dict_get links k of None \<Rightarrow> None | Some v \<Rightarrow> if lk_org v = org then None else Some v))"
    by blast
  have applied: "apply_ops repr probes org locs links (restore_ops (org_view locs links org) tgt) = Inr t"
    using assms(2) t(1) by (simp add: apply_ops_def run_ops_runs)
  from applied_ops_keep [OF applied wf] have keeps: "bp_wf (bt_locs t) (bt_links t)"
    "filter (\<lambda>(k, v). lo_org v \<noteq> org) (bt_locs t) = filter (\<lambda>(k, v). lo_org v \<noteq> org) locs"
    "filter (\<lambda>(k, v). lk_org v \<noteq> org) (bt_links t) = filter (\<lambda>(k, v). lk_org v \<noteq> org) links" by simp_all
  have "same_view (org_view (bt_locs t) (bt_links t) org) tgt"
    using snapshot_ok_get [OF tgt] unfolding same_view_def org_view_get [OF keeps(1)] t(2,3)
    by (auto split: option.splits)
  with applied keeps show ?thesis by blast
qed

text \<open>
  A restore gives the revision back. When the identifiers of the revision are not taken by another
  organization, the fields of its rows still pass the checks and the draft is not too long, the operations that
  \<open>restore_ops\<close> computes apply, the view of the organization becomes the one of the revision (no matter
  what was created, renamed, rewired or deleted since) and the other organizations keep their rows.
\<close>

theorem restore_roundtrip:
  assumes "restore_setting repr probes org locs links tgt"
    and "length (restore_ops (org_view locs links org) tgt) \<le> max_draft_ops"
  shows "\<exists>t. apply_ops repr probes org locs links (restore_ops (org_view locs links org) tgt) = Inr t
    \<and> same_view (org_view (bt_locs t) (bt_links t) org) tgt
    \<and> filter (\<lambda>(k, v). lo_org v \<noteq> org) (bt_locs t) = filter (\<lambda>(k, v). lo_org v \<noteq> org) locs
    \<and> filter (\<lambda>(k, v). lk_org v \<noteq> org) (bt_links t) = filter (\<lambda>(k, v). lk_org v \<noteq> org) links"
  using assms by (rule restore_gives_back)

lemma restore_roundtrip_witness:
  "(let locs = [(''hub'', ex_loc ''acme'' ''Hub'' ''hq'' []), (''shop'', ex_loc ''acme'' ''Shop'' ''branch'' []), (''x'', ex_loc ''umbra'' ''X'' ''hq'' [])];
        links = [(''hub--shop--vpn'', ex_link ''acme'' ''hub'' ''shop'')];
        tgt = \<lparr>bv_locs = [(''hub'', ex_loc ''acme'' ''Sede'' ''hq'' [''10.0.0.0/8'']), (''lab'', ex_loc ''acme'' ''Lab'' ''other'' [])],
               bv_links = [(''hub--lab--vpn'', ex_link ''acme'' ''hub'' ''lab'')]\<rparr> in
    \<exists>t. apply_ops (\<lambda>j. []) [''central''] ''acme'' locs links (restore_ops (org_view locs links ''acme'') tgt) = Inr t
    \<and> same_view (org_view (bt_locs t) (bt_links t) ''acme'') tgt
    \<and> filter (\<lambda>(k, v). lo_org v \<noteq> ''acme'') (bt_locs t) = filter (\<lambda>(k, v). lo_org v \<noteq> ''acme'') locs
    \<and> filter (\<lambda>(k, v). lk_org v \<noteq> ''acme'') (bt_links t) = filter (\<lambda>(k, v). lk_org v \<noteq> ''acme'') links)"
  unfolding Let_def by (rule restore_roundtrip; code_simp)

end
