(* ===== verification/Blueprint_History.thy ===== *)
theory Blueprint_History
  imports Blueprint_Service Blueprint_Restore
begin

text \<open>
  The store of the blueprint as a state machine: every operation of the service and of the locations is a
  step. In every reachable state the model is well formed, the revisions of an organization are numbered
  without gaps and the last one is its current view; so a draft that applies is applied to the model it was made
  from, and a restored revision is the model again.
\<close>

section \<open>Steps\<close>

definition bp_start :: "string list \<Rightarrow> bp_store" where
  "bp_start orgs = \<lparr>bs_orgs = orgs, bs_locs = [], bs_links = [], bs_revs = [], bs_drafts = []\<rparr>"

text \<open>The router lets a draft be opened only for an organization that exists.\<close>

inductive bp_step :: "(json \<Rightarrow> string) \<Rightarrow> bp_store \<Rightarrow> bp_store \<Rightarrow> bool" for repr where
  step_migrate: "bp_step repr st (record_revisions [] ''migration'' [] st)"
| step_add_group: "bp_step repr st (fst (add_group name st))"
| step_delete_group: "delete_group has_devices name st = Inr (st', done) \<Longrightarrow> bp_step repr st st'"
| step_create: "create_location repr probes by org name role subnets probe st = Inr st' \<Longrightarrow> bp_step repr st st'"
| step_update: "update_location repr probes by lid name role subnets probe st = Inr st' \<Longrightarrow> bp_step repr st st'"
| step_delete: "delete_location devices_in by lid st = Inr st' \<Longrightarrow> bp_step repr st st'"
| step_add_ops: "org \<in> set (bs_orgs st) \<Longrightarrow> add_ops repr probes org ops source by st = Inr st' \<Longrightarrow> bp_step repr st st'"
| step_preset: "org \<in> set (bs_orgs st) \<Longrightarrow> preset_draft repr probes org kind n by st = Inr st' \<Longrightarrow> bp_step repr st st'"
| step_restore: "org \<in> set (bs_orgs st) \<Longrightarrow> restore_draft repr probes org n by st = Inr st' \<Longrightarrow> bp_step repr st st'"
| step_replace: "replace_ops repr probes org ops by st = Inr st' \<Longrightarrow> bp_step repr st st'"
| step_align: "align_draft org by st = Inr st' \<Longrightarrow> bp_step repr st st'"
| step_discard: "bp_step repr st (delete_draft org st)"
| step_apply: "apply_draft repr probes devices_in org by nt st = Inr (st', n, renamed) \<Longrightarrow> bp_step repr st st'"

inductive bp_reach :: "(json \<Rightarrow> string) \<Rightarrow> bp_store \<Rightarrow> bool" for repr where
  reach_start: "bp_reach repr (bp_start orgs)"
| reach_step: "bp_reach repr st \<Longrightarrow> bp_step repr st st' \<Longrightarrow> bp_reach repr st'"

section \<open>Recording revisions\<close>

definition revs_of :: "bp_store \<Rightarrow> string \<Rightarrow> bp_rev list" where
  "revs_of st org = filter (\<lambda>r. rv_org r = org) (bs_revs st)"

definition numbered :: "bp_store \<Rightarrow> bool" where
  "numbered st \<longleftrightarrow> (\<forall>org. map rv_rev (revs_of st org) = [1..<Suc (length (revs_of st org))])"

definition aligned :: "bp_store \<Rightarrow> string \<Rightarrow> bool" where
  "aligned st org \<longleftrightarrow> revs_of st org = [] \<or> same_view (rv_snap (last (revs_of st org))) (store_view st org)"

lemma dict_eq_iff: "dict_eq d e \<longleftrightarrow> (\<forall>k. dict_get d k = dict_get e k)"
proof
  assume eq: "dict_eq d e"
  show "\<forall>k. dict_get d k = dict_get e k"
  proof
    fix k
    show "dict_get d k = dict_get e k"
    proof (cases "k \<in> set (map fst d @ map fst e)")
      case True
      with eq show ?thesis unfolding dict_eq_def list_all_iff by blast
    next
      case False
      then have "dict_get d k = None" "dict_get e k = None" by (auto simp: map_of_eq_None_iff)
      then show ?thesis by simp
    qed
  qed
qed (simp add: dict_eq_def list_all_iff)

lemma view_eq_iff: "view_eq a b \<longleftrightarrow> same_view a b"
  by (simp add: view_eq_def same_view_def dict_eq_iff)

lemma same_view_refl [simp]: "same_view a a"
  by (simp add: same_view_def)

lemma fold_max_upt: "fold max [1..<Suc n] (0 :: nat) = n"
  by (induction n) simp_all

lemma latest_rev_numbered: "numbered st \<Longrightarrow> latest_rev st org = length (revs_of st org)"
  unfolding latest_rev_def revs_of_def [symmetric] numbered_def by (simp only: fold_max_upt)

lemma find_filter: "find P (filter Q xs) = find (\<lambda>x. Q x \<and> P x) xs"
  by (induction xs) auto

lemma revision_numbered:
  assumes "numbered st" and "revs_of st org \<noteq> []"
  shows "revision st org (latest_rev st org) = Some (last (revs_of st org))"
proof -
  let ?rs = "revs_of st org"
  have eq: "revision st org n = find (\<lambda>r. rv_rev r = n) ?rs" for n
    unfolding revision_def revs_of_def find_filter ..
  have nums: "map rv_rev ?rs = [1..<Suc (length ?rs)]" using assms(1) by (simp add: numbered_def del: upt_Suc)
  obtain init l where rs: "?rs = init @ [l]" using assms(2) by (cases ?rs rule: rev_cases) auto
  have nums1: "map rv_rev init = [1..<Suc (length init)]" and "rv_rev l = Suc (length init)" using nums by (simp_all add: rs)
  have "rv_rev r \<noteq> length ?rs" if "r \<in> set init" for r
  proof -
    from that have "rv_rev r \<in> set (map rv_rev init)" by simp
    then have "rv_rev r < Suc (length init)" unfolding nums1 by (simp del: upt_Suc)
    then show ?thesis by (simp add: rs)
  qed
  then have "find (\<lambda>r. rv_rev r = length ?rs) init = None" unfolding find_None_iff by blast
  with \<open>rv_rev l = _\<close> show ?thesis by (simp add: eq latest_rev_numbered [OF assms(1)] rs find_append)
qed

lemma record_revision_frame [simp]:
  "bs_orgs (record_revision by source nt org st) = bs_orgs st"
  "bs_locs (record_revision by source nt org st) = bs_locs st"
  "bs_links (record_revision by source nt org st) = bs_links st"
  "bs_drafts (record_revision by source nt org st) = bs_drafts st"
  "store_view (record_revision by source nt org st) x = store_view st x"
  by (simp_all add: record_revision_def Let_def store_view_def)

lemma record_revision_other: "x \<noteq> org \<Longrightarrow> revs_of (record_revision by source nt org st) x = revs_of st x"
  by (simp add: record_revision_def Let_def revs_of_def)

lemma record_revision_same:
  assumes "numbered st"
  shows "revs_of (record_revision by source nt org st) org = revs_of st org \<and> revs_of st org \<noteq> [] \<and> aligned st org
    \<or> revs_of (record_revision by source nt org st) org = revs_of st org @
        [\<lparr>rv_org = org, rv_rev = Suc (length (revs_of st org)), rv_by = by, rv_source = source, rv_note = nt, rv_snap = store_view st org\<rparr>]"
proof -
  let ?r = "\<lparr>rv_org = org, rv_rev = Suc (length (revs_of st org)), rv_by = by, rv_source = source, rv_note = nt, rv_snap = store_view st org\<rparr>"
  have grown: "revs_of (st\<lparr>bs_revs := bs_revs st @ [?r]\<rparr>) org = revs_of st org @ [?r]" by (simp add: revs_of_def)
  show ?thesis
  proof (cases "revs_of st org = []")
    case True
    with grown show ?thesis by (simp add: record_revision_def latest_rev_numbered [OF assms])
  next
    case False
    with grown show ?thesis
      by (simp add: record_revision_def latest_rev_numbered [OF assms] revision_numbered [OF assms False, unfolded latest_rev_numbered [OF assms]]
          aligned_def view_eq_iff Let_def)
  qed
qed

lemma record_revision_numbered:
  assumes num: "numbered st"
  shows "numbered (record_revision by source nt org st)"
proof -
  show ?thesis unfolding numbered_def
  proof
    fix x
    show "map rv_rev (revs_of (record_revision by source nt org st) x) = [1..<Suc (length (revs_of (record_revision by source nt org st) x))]"
  proof (cases "x = org")
    case True
    from num have "map rv_rev (revs_of st org) = [1..<Suc (length (revs_of st org))]" unfolding numbered_def by blast
    with record_revision_same [OF num, of "by" source nt org] True show ?thesis by auto
  next
    case False
    with num show ?thesis unfolding record_revision_other [OF False] numbered_def by blast
  qed
  qed
qed

lemma record_revision_aligned:
  assumes "numbered st"
  shows "aligned (record_revision by source nt org st) org" and "aligned st x \<Longrightarrow> aligned (record_revision by source nt org st) x"
    and "revs_of (record_revision by source nt org st) org \<noteq> []"
proof -
  show own: "aligned (record_revision by source nt org st) org" and "revs_of (record_revision by source nt org st) org \<noteq> []"
    using record_revision_same [OF assms, of "by" source nt org] by (auto simp: aligned_def)
  show "aligned st x \<Longrightarrow> aligned (record_revision by source nt org st) x"
    using own by (cases "x = org") (simp_all add: aligned_def record_revision_other)
qed

text \<open>Recording for every organization aligns each of them and disturbs no other.\<close>

lemma record_fold:
  assumes "numbered st"
  shows "numbered (fold (record_revision by source nt) os st)
    \<and> (\<forall>x. x \<in> set os \<or> aligned st x \<longrightarrow> aligned (fold (record_revision by source nt) os st) x)
    \<and> (\<forall>x. x \<in> set os \<or> revs_of st x \<noteq> [] \<longrightarrow> revs_of (fold (record_revision by source nt) os st) x \<noteq> [])
    \<and> bs_orgs (fold (record_revision by source nt) os st) = bs_orgs st \<and> bs_locs (fold (record_revision by source nt) os st) = bs_locs st
    \<and> bs_links (fold (record_revision by source nt) os st) = bs_links st \<and> bs_drafts (fold (record_revision by source nt) os st) = bs_drafts st
    \<and> (\<forall>x. length (revs_of st x) \<le> length (revs_of (fold (record_revision by source nt) os st) x))
    \<and> set (bs_revs st) \<subseteq> set (bs_revs (fold (record_revision by source nt) os st))
    \<and> (\<forall>r \<in> set (bs_revs (fold (record_revision by source nt) os st)). r \<in> set (bs_revs st) \<or> rv_snap r = store_view st (rv_org r))"
  using assms
proof (induction os arbitrary: st)
  case (Cons x os)
  let ?u = "record_revision by source nt x st"
  have len: "length (revs_of st y) \<le> length (revs_of ?u y)" for y
    using record_revision_same [OF Cons.prems, of "by" source nt x] by (cases "y = x") (auto simp: record_revision_other)
  have grows: "set (bs_revs st) \<subseteq> set (bs_revs ?u)" "\<forall>r \<in> set (bs_revs ?u). r \<in> set (bs_revs st) \<or> rv_snap r = store_view st (rv_org r)"
    by (auto simp: record_revision_def Let_def)
  have views: "store_view ?u y = store_view st y" for y by simp
  have more: "revs_of st y \<noteq> [] \<Longrightarrow> revs_of ?u y \<noteq> []" for y using len [of y] by auto
  note ih = Cons.IH [OF record_revision_numbered [OF Cons.prems], of "by" source nt x]
  note al = record_revision_aligned [OF Cons.prems]
  show ?case unfolding fold_simps comp_apply
  proof (intro conjI allI impI ballI)
    fix y assume "y \<in> set (x # os) \<or> aligned st y"
    with ih al show "aligned (fold (record_revision by source nt) os ?u) y" by auto
  next
    fix y assume "y \<in> set (x # os) \<or> revs_of st y \<noteq> []"
    with ih al(3) more show "revs_of (fold (record_revision by source nt) os ?u) y \<noteq> []" by auto
  next
    fix y show "length (revs_of st y) \<le> length (revs_of (fold (record_revision by source nt) os ?u) y)"
      using ih len [of y] le_trans by blast
  next
    fix r assume "r \<in> set (bs_revs (fold (record_revision by source nt) os ?u))"
    with ih grows(2) show "r \<in> set (bs_revs st) \<or> rv_snap r = store_view st (rv_org r)" by fastforce
  qed (use ih grows(1) in auto)
qed auto

section \<open>The invariant\<close>

definition rev_ok :: "bp_rev \<Rightarrow> bool" where
  "rev_ok r \<longleftrightarrow> bp_wf (bv_locs (rv_snap r)) (bv_links (rv_snap r))
     \<and> list_all (\<lambda>(k, l). lo_org l = rv_org r \<and> lo_probe l \<noteq> []) (bv_locs (rv_snap r)) \<and> list_all (\<lambda>(k, v). lk_org v = rv_org r) (bv_links (rv_snap r))"

definition tables_ok :: "bp_store \<Rightarrow> bool" where
  "tables_ok st \<longleftrightarrow> bp_wf (bs_locs st) (bs_links st)
     \<and> list_all (\<lambda>(k, l). lo_org l \<in> set (bs_orgs st) \<and> lo_probe l \<noteq> []) (bs_locs st)"

definition history_ok :: "bp_store \<Rightarrow> bool" where
  "history_ok st \<longleftrightarrow> numbered st \<and> (\<forall>org. aligned st org) \<and> (\<forall>r \<in> set (bs_revs st). rev_ok r)"

definition drafts_ok :: "bp_store \<Rightarrow> bool" where
  "drafts_ok st \<longleftrightarrow> (\<forall>org d. (org, d) \<in> set (bs_drafts st) \<longrightarrow> org \<in> set (bs_orgs st) \<and> dr_base d \<le> length (revs_of st org))"

abbreviation bp_inv :: "bp_store \<Rightarrow> bool" where
  "bp_inv st \<equiv> tables_ok st \<and> history_ok st \<and> drafts_ok st"

lemma view_without_rows:
  assumes "tables_ok st" and "org \<notin> set (bs_orgs st)"
  shows "store_view st org = \<lparr>bv_locs = [], bv_links = []\<rparr>"
proof -
  have "lo_org l \<noteq> org" if "(k, l) \<in> set (bs_locs st)" for k l
    using assms that by (auto simp: tables_ok_def list_all_iff)
  moreover have "lk_org v \<noteq> org" if "(k, v) \<in> set (bs_links st)" for k v
  proof -
    have "link_wf (bs_locs st) k v" using assms(1) that by (auto simp: tables_ok_def dest: bp_wf_link)
    then obtain l where "dict_get (bs_locs st) (lk_a v) = Some l" "lo_org l = lk_org v" by (auto simp: link_wf_def)
    with calculation show ?thesis by (metis map_of_SomeD)
  qed
  ultimately show ?thesis by (auto simp: store_view_def org_view_def filter_empty_conv)
qed

lemma rev_ok_view: "tables_ok st \<Longrightarrow> rv_snap r = store_view st (rv_org r) \<Longrightarrow> rev_ok r"
  using org_view_wf [of "bs_locs st" "bs_links st" "rv_org r"]
  by (auto simp: rev_ok_def tables_ok_def store_view_def) (auto simp: org_view_def list_all_iff)

text \<open>A write of the tables followed by the recording of revisions.\<close>

lemma revs_of_cong: "bs_revs a = bs_revs b \<Longrightarrow> revs_of a = revs_of b"
  by (simp add: revs_of_def fun_eq_iff)

lemma record_revisions_inv:
  assumes "bp_inv st" and "tables_ok u" and "bs_orgs u = bs_orgs st" and "bs_revs u = bs_revs st" and "bs_drafts u = bs_drafts st"
  shows "bp_inv (record_revisions by source nt u)"
proof -
  let ?w = "record_revisions by source nt u"
  have revs: "revs_of u = revs_of st" using assms(4) by (rule revs_of_cong)
  have num: "numbered u" using assms(1) by (simp add: history_ok_def numbered_def revs)
  note f = record_fold [OF num, of "by" source nt "sorted_texts (bs_orgs u)", folded record_revisions_def]
  have "aligned ?w x" for x
  proof (cases "x \<in> set (bs_orgs u)")
    case True
    with f show ?thesis by auto
  next
    case False
    have "store_view u x = store_view st x"
      using view_without_rows [OF assms(2) False] view_without_rows [of st x] assms(1,3) False by simp
    with assms(1) have "aligned u x" by (simp add: history_ok_def aligned_def revs)
    with f show ?thesis by auto
  qed
  moreover have "rev_ok r" if "r \<in> set (bs_revs ?w)" for r
  proof -
    from f that have "r \<in> set (bs_revs u) \<or> rv_snap r = store_view u (rv_org r)" by blast
    with assms(1,2,4) rev_ok_view show ?thesis by (auto simp: history_ok_def)
  qed
  moreover have "drafts_ok ?w"
  proof -
    have len: "length (revs_of st x) \<le> length (revs_of ?w x)" for x using f by (simp add: revs)
    have same: "bs_orgs ?w = bs_orgs st" "bs_drafts ?w = bs_drafts st" using f assms(3,5) by simp_all
    show ?thesis using assms(1) unfolding drafts_ok_def same by (blast intro: le_trans [OF _ len])
  qed
  moreover have "tables_ok ?w" using f assms(2) by (simp add: tables_ok_def)
  ultimately show ?thesis using f by (simp add: history_ok_def)
qed

section \<open>Each step keeps the invariant\<close>

lemma stored_locs_get: "dict_get (stored_locs locs) k = map_option (\<lambda>l. l\<lparr>lo_probe := if lo_probe l = [] then ''central'' else lo_probe l\<rparr>) (dict_get locs k)"
  by (induction locs) (auto simp: stored_locs_def)

lemma stored_locs_keys [simp]: "map fst (stored_locs locs) = map fst locs"
  by (induction locs) (auto simp: stored_locs_def)

lemma stored_locs_set: "(k, l') \<in> set (stored_locs locs) \<Longrightarrow> \<exists>l. (k, l) \<in> set locs \<and> lo_org l' = lo_org l \<and> lo_probe l' \<noteq> []"
  by (auto simp: stored_locs_def)

lemma bp_wf_stored: "bp_wf locs links \<Longrightarrow> bp_wf (stored_locs locs) links"
proof -
  assume wf: "bp_wf locs links"
  have "link_wf (stored_locs locs) k v" if "(k, v) \<in> set links" for k v
    using bp_wf_link [OF wf that] by (rule link_wf_extend) (auto simp: stored_locs_get)
  moreover have "slug_ok k" if "(k, l) \<in> set (stored_locs locs)" for k l
    using stored_locs_set [OF that] wf by (auto dest: bp_wf_loc)
  ultimately show ?thesis using wf by (auto simp: bp_wf_def list_all_iff)
qed

lemma put_locations_ok:
  assumes "tables_ok st" and "distinct (map fst locs)"
    and "\<And>k l. (k, l) \<in> set locs \<Longrightarrow> slug_ok k \<and> lo_org l \<in> set (bs_orgs st)"
    and "\<And>k l l'. (k, l) \<in> set locs \<Longrightarrow> dict_get (bs_locs st) k = Some l' \<Longrightarrow> lo_org l = lo_org l'"
  shows "tables_ok (put_locations locs st)"
proof -
  let ?links = "filter (\<lambda>(k, v). dict_has locs (lk_a v) \<and> dict_has locs (lk_b v)) (bs_links st)"
  have "link_wf locs k v" if v: "(k, v) \<in> set ?links" for k v
  proof -
    have old: "link_wf (bs_locs st) k v" and has: "dict_has locs (lk_a v)" "dict_has locs (lk_b v)"
      using v assms(1) by (auto simp: tables_ok_def dest: bp_wf_link)
    then obtain la lb where "dict_get locs (lk_a v) = Some la" "dict_get locs (lk_b v) = Some lb" by (auto simp: dict_has_get)
    with old assms(4) [OF map_of_SomeD] show ?thesis by (fastforce simp: link_wf_def)
  qed
  moreover have "distinct (map fst ?links)" using assms(1) by (simp add: tables_ok_def bp_wf_def distinct_map_filter)
  ultimately have "bp_wf locs ?links" using assms(2,3) by (auto simp: bp_wf_def list_all_iff)
  then have "bp_wf (stored_locs locs) ?links" by (rule bp_wf_stored)
  moreover have "lo_org l \<in> set (bs_orgs st) \<and> lo_probe l \<noteq> []" if "(k, l) \<in> set (stored_locs locs)" for k l
    using stored_locs_set [OF that] assms(3) by auto
  ultimately show ?thesis by (auto simp: tables_ok_def put_locations_def list_all_iff)
qed

lemma put_locations_frame [simp]:
  "bs_orgs (put_locations locs st) = bs_orgs st" "bs_revs (put_locations locs st) = bs_revs st"
  "bs_drafts (put_locations locs st) = bs_drafts st"
  by (simp_all add: put_locations_def)

lemma save_locations_inv:
  assumes "bp_inv st" and "distinct (map fst locs)"
    and "\<And>k l. (k, l) \<in> set locs \<Longrightarrow> slug_ok k \<and> lo_org l \<in> set (bs_orgs st)"
    and "\<And>k l l'. (k, l) \<in> set locs \<Longrightarrow> dict_get (bs_locs st) k = Some l' \<Longrightarrow> lo_org l = lo_org l'"
  shows "bp_inv (save_locations by locs st)"
  unfolding save_locations_def
  using assms by (intro record_revisions_inv [OF assms(1)] put_locations_ok) auto

lemma tables_ok_row: "tables_ok st \<Longrightarrow> (k, l) \<in> set (bs_locs st) \<Longrightarrow>
   slug_ok k \<and> lo_org l \<in> set (bs_orgs st) \<and> dict_get (bs_locs st) k = Some l"
  by (auto simp: tables_ok_def list_all_iff dest: bp_wf_loc bp_wf_get(1))

lemma tables_ok_distinct: "tables_ok st \<Longrightarrow> distinct (map fst (bs_locs st))"
  by (simp add: tables_ok_def bp_wf_def)

lemma save_row_inv:
  assumes "bp_inv st" and "slug_ok lid" and "lo_org l \<in> set (bs_orgs st)"
    and "\<And>l'. dict_get (bs_locs st) lid = Some l' \<Longrightarrow> lo_org l = lo_org l'"
  shows "bp_inv (save_locations by (dict_set lid l (bs_locs st)) st)"
proof (rule save_locations_inv [OF assms(1)])
  show "distinct (map fst (dict_set lid l (bs_locs st)))" using assms(1) by (intro distinct_update tables_ok_distinct) simp
  fix k x assume kx: "(k, x) \<in> set (dict_set lid l (bs_locs st))"
  note cases = set_dict_set [OF kx]
  show "slug_ok k \<and> lo_org x \<in> set (bs_orgs st)" using cases assms(2,3) tables_ok_row [OF conjunct1 [OF assms(1)]] by auto
  fix l' assume "dict_get (bs_locs st) k = Some l'"
  with cases assms(4) tables_ok_row [OF conjunct1 [OF assms(1)]] show "lo_org x = lo_org l'" by fastforce
qed

lemma create_location_inv: "create_location repr probes by org name role subnets probe st = Inr st' \<Longrightarrow> bp_inv st \<Longrightarrow> bp_inv st'"
proof -
  assume "create_location repr probes by org name role subnets probe st = Inr st'" and inv: "bp_inv st"
  then obtain clean where org: "org \<in> set (bs_orgs st)" and st': "st' = (let lid = free_id (slugify (py_strip name)) (map fst (bs_locs st)) in
      save_locations by (dict_set lid \<lparr>lo_org = org, lo_name = py_strip name, lo_role = role, lo_subnets = clean,
                 lo_probe = probe, lo_gateway = []\<rparr> (bs_locs st)) st)"
    by (auto simp: create_location_def check_location_def bp_ok Let_def split: if_splits)
  have "dict_get (bs_locs st) (free_id (slugify (py_strip name)) (map fst (bs_locs st))) = None"
    using free_id_fresh [of "slugify (py_strip name)" "map fst (bs_locs st)"] by (simp add: map_of_eq_None_iff)
  with org inv show ?thesis
    unfolding st' Let_def by (intro save_row_inv) (simp_all add: slug_ok_free_id slug_ok_slugify)
qed

lemma update_location_inv: "update_location repr probes by lid name role subnets probe st = Inr st' \<Longrightarrow> bp_inv st \<Longrightarrow> bp_inv st'"
proof -
  assume "update_location repr probes by lid name role subnets probe st = Inr st'" and inv: "bp_inv st"
  then obtain l clean where l: "dict_get (bs_locs st) lid = Some l"
    and st': "st' = save_locations by (dict_set lid (edit_loc name role clean probe l) (bs_locs st)) st"
    by (auto simp: update_location_def bp_ok split: option.splits if_splits)
  have l': "lo_org (edit_loc name role clean probe l) = lo_org l" by (simp add: edit_loc_def Let_def split: option.split)
  from tables_ok_row [OF _ map_of_SomeD [OF l]] inv have "slug_ok lid" "lo_org l \<in> set (bs_orgs st)" by auto
  with inv l l' show ?thesis unfolding st' by (intro save_row_inv) simp_all
qed

lemma delete_location_inv: "delete_location devices_in by lid st = Inr st' \<Longrightarrow> bp_inv st \<Longrightarrow> bp_inv st'"
proof -
  assume "delete_location devices_in by lid st = Inr st'" and inv: "bp_inv st"
  then have st': "st' = save_locations by (AList.delete lid (bs_locs st)) st" by (simp add: delete_location_def split: if_splits)
  note row = tables_ok_row [OF conjunct1 [OF inv]]
  show ?thesis unfolding st'
  proof (rule save_locations_inv [OF inv])
    show "distinct (map fst (AList.delete lid (bs_locs st)))" using inv by (intro distinct_delete tables_ok_distinct) simp
    fix k l assume "(k, l) \<in> set (AList.delete lid (bs_locs st))"
    then have kl: "(k, l) \<in> set (bs_locs st)" by (rule in_delete)
    from row [OF kl] show "slug_ok k \<and> lo_org l \<in> set (bs_orgs st)" by blast
    fix l' assume "dict_get (bs_locs st) k = Some l'"
    with row [OF kl] show "lo_org l = lo_org l'" by simp
  qed
qed

lemma check_draft_ok [bp_ok]:
  "check_draft repr probes org st ops = Inr t \<longleftrightarrow> apply_ops repr probes org (bs_locs st) (bs_links st) ops = Inr t"
  by (simp add: check_draft_def split: sum.split)

text \<open>Writing a draft leaves the tables and the history.\<close>

lemma draft_inv:
  assumes "bp_inv st" and "bs_orgs st' = bs_orgs st" and "bs_locs st' = bs_locs st" and "bs_links st' = bs_links st" and "bs_revs st' = bs_revs st"
    and "\<And>o1 d. (o1, d) \<in> set (bs_drafts st') \<Longrightarrow> o1 \<in> set (bs_orgs st) \<and> dr_base d \<le> length (revs_of st o1)"
  shows "bp_inv st'"
proof -
  have revs: "revs_of st' = revs_of st" using assms(5) by (rule revs_of_cong)
  have view: "store_view st' = store_view st" using assms(3,4) by (simp add: store_view_def fun_eq_iff)
  have "numbered st' = numbered st" "aligned st' = aligned st" by (simp_all add: numbered_def aligned_def revs view fun_eq_iff)
  with assms show ?thesis by (simp add: tables_ok_def history_ok_def drafts_ok_def revs)
qed

lemma put_draft_inv:
  "bp_inv st \<Longrightarrow> org \<in> set (bs_orgs st) \<Longrightarrow> dr_base d \<le> length (revs_of st org) \<Longrightarrow> bp_inv (put_draft org d st)"
  by (rule draft_inv [of st]) (auto simp: put_draft_def drafts_ok_def dest!: set_dict_set)

lemma delete_draft_inv: "bp_inv st \<Longrightarrow> bp_inv (delete_draft org st)"
  by (rule draft_inv [of st]) (auto simp: delete_draft_def drafts_ok_def dest!: in_delete)

lemma latest_rev_inv: "bp_inv st \<Longrightarrow> latest_rev st org = length (revs_of st org)"
  by (simp add: history_ok_def latest_rev_numbered)

lemma draft_of_inv: "bp_inv st \<Longrightarrow> dict_get (bs_drafts st) org = Some d \<Longrightarrow>
    org \<in> set (bs_orgs st) \<and> dr_base d \<le> length (revs_of st org)"
  by (auto simp: drafts_ok_def dest!: map_of_SomeD)

lemma add_ops_inv:
  assumes "add_ops repr probes org ops source by st = Inr st'" and "bp_inv st" and "org \<in> set (bs_orgs st)"
  shows "bp_inv st'"
proof -
  obtain d where st': "st' = put_draft org d st" and d: "dr_base d \<le> length (revs_of st org)"
  proof (cases "dict_get (bs_drafts st) org")
    case None
    with assms(1) show ?thesis
      by (auto simp: add_ops_def bp_ok Let_def latest_rev_inv [OF assms(2)] split: if_splits intro!: that)
  next
    case (Some e)
    with assms(1) draft_of_inv [OF assms(2) Some] show ?thesis
      by (auto simp: add_ops_def bp_ok Let_def split: if_splits intro!: that)
  qed
  show ?thesis unfolding st' using assms(2,3) d by (rule put_draft_inv)
qed

lemma replace_ops_inv:
  assumes "replace_ops repr probes org ops by st = Inr st'" and inv: "bp_inv st"
  shows "bp_inv st'"
proof -
  from assms(1) obtain d where d: "dict_get (bs_drafts st) org = Some d"
    and st': "st' = (if ops \<noteq> [] then put_draft org (d\<lparr>dr_ops := ops, dr_by := by\<rparr>) st else delete_draft org st)"
    by (auto simp: replace_ops_def bp_ok split: option.splits)
  show ?thesis
    using put_draft_inv [OF inv, of org "d\<lparr>dr_ops := ops, dr_by := by\<rparr>"] delete_draft_inv [OF inv, of org] draft_of_inv [OF inv d]
    unfolding st' by simp
qed

lemma align_draft_inv:
  assumes "align_draft org by st = Inr st'" and inv: "bp_inv st"
  shows "bp_inv st'"
proof -
  from assms(1) obtain d where d: "dict_get (bs_drafts st) org = Some d"
    and st': "st' = put_draft org (d\<lparr>dr_base := latest_rev st org, dr_by := by\<rparr>) st"
    by (auto simp: align_draft_def split: option.splits)
  show ?thesis
    using put_draft_inv [OF inv, of org "d\<lparr>dr_base := latest_rev st org, dr_by := by\<rparr>"] draft_of_inv [OF inv d] latest_rev_inv [OF inv, of org]
    unfolding st' by simp
qed

lemma restore_draft_ok:
  assumes "restore_draft repr probes org n by st = Inr st'"
  obtains r where "revision st org n = Some r" and "st' = put_draft org \<lparr>dr_base = latest_rev st org, dr_source = ''restore'',
      dr_ops = map (put_source ''restore'') (restore_ops (store_view st org) (rv_snap r)), dr_by = by\<rparr> st"
  using assms by (auto simp: restore_draft_def bp_ok Let_def split: option.splits if_splits)

lemma restore_draft_inv:
  "restore_draft repr probes org n by st = Inr st' \<Longrightarrow> bp_inv st \<Longrightarrow> org \<in> set (bs_orgs st) \<Longrightarrow> bp_inv st'"
  by (erule restore_draft_ok) (simp add: put_draft_inv latest_rev_inv)

lemma apply_draft_ok:
  assumes "apply_draft repr probes devices_in org by nt st = Inr (st', n, renamed)"
  obtains d t source where "dict_get (bs_drafts st) org = Some d" and "dr_base d = latest_rev st org"
    and "apply_ops repr probes org (bs_locs st) (bs_links st) (dr_ops d) = Inr t"
    and "st' = delete_draft org (record_revisions by source nt (put_links (bt_links t) (put_locations (bt_locs t) st)))"
    and "n = latest_rev st' org"
  using assms by (auto simp: apply_draft_def bp_ok Let_def split: option.splits if_splits)

lemma filter_eq_of_others: "filter (\<lambda>(k, v). f v \<noteq> x) xs = filter (\<lambda>(k, v). f v \<noteq> x) ys \<Longrightarrow> y \<noteq> x \<Longrightarrow>
    filter (\<lambda>(k, v). f v = y) xs = filter (\<lambda>(k, v). f v = y) ys"
proof -
  assume eq: "filter (\<lambda>(k, v). f v \<noteq> x) xs = filter (\<lambda>(k, v). f v \<noteq> x) ys" and "y \<noteq> x"
  then have sub: "filter (\<lambda>(k, v). f v = y) zs = filter (\<lambda>(k, v). f v = y) (filter (\<lambda>(k, v). f v \<noteq> x) zs)" for zs
    unfolding filter_filter by (intro filter_cong refl) auto
  show ?thesis unfolding sub [of xs] sub [of ys] eq ..
qed

lemma apply_tables_ok:
  assumes "bp_inv st" and "dict_get (bs_drafts st) org = Some d"
    and ok: "apply_ops repr probes org (bs_locs st) (bs_links st) (dr_ops d) = Inr t"
  shows "tables_ok (put_links (bt_links t) (put_locations (bt_locs t) st))"
proof -
  have wf: "bp_wf (bs_locs st) (bs_links st)" using assms(1) by (simp add: tables_ok_def)
  note keeps = applied_ops_keep [OF ok wf]
  have org: "org \<in> set (bs_orgs st)" using draft_of_inv [OF assms(1,2)] by simp
  have rows: "lo_org l \<in> set (bs_orgs st)" if "(k, l) \<in> set (bt_locs t)" for k l
  proof (cases "lo_org l = org")
    case False
    with that have "(k, l) \<in> set (filter (\<lambda>(k, v). lo_org v \<noteq> org) (bt_locs t))" by simp
    then have "(k, l) \<in> set (bs_locs st)" using keeps by simp
    with assms(1) show ?thesis using tables_ok_row by blast
  qed (use org in simp)
  have "bp_wf (stored_locs (bt_locs t)) (bt_links t)" using keeps bp_wf_stored by blast
  moreover have "lo_org l \<in> set (bs_orgs st) \<and> lo_probe l \<noteq> []" if "(k, l) \<in> set (stored_locs (bt_locs t))" for k l
    using stored_locs_set [OF that] rows by auto
  ultimately show ?thesis by (auto simp: tables_ok_def put_links_def put_locations_def list_all_iff)
qed

lemma apply_draft_inv:
  assumes "apply_draft repr probes devices_in org by nt st = Inr (st', n, renamed)" and "bp_inv st"
  shows "bp_inv st'"
proof -
  from assms(1) obtain d t source where d: "dict_get (bs_drafts st) org = Some d"
    and ok: "apply_ops repr probes org (bs_locs st) (bs_links st) (dr_ops d) = Inr t"
    and st': "st' = delete_draft org (record_revisions by source nt (put_links (bt_links t) (put_locations (bt_locs t) st)))"
    by (rule apply_draft_ok)
  from apply_tables_ok [OF assms(2) d ok] show ?thesis
    unfolding st' by (intro delete_draft_inv record_revisions_inv [OF assms(2)]) (simp_all add: put_links_def)
qed

lemma bp_start_inv: "bp_inv (bp_start orgs)"
  by (simp add: bp_start_def tables_ok_def bp_wf_def history_ok_def numbered_def aligned_def revs_of_def drafts_ok_def)

lemma group_inv:
  assumes inv: "bp_inv st" and "bs_locs st' = bs_locs st" and "bs_links st' = bs_links st" and "bs_revs st' = bs_revs st"
    and "set (bs_drafts st') \<subseteq> set (bs_drafts st)"
    and "\<And>g. g \<in> set (bs_orgs st) \<Longrightarrow> g \<in> set (bs_orgs st') \<or> (\<forall>(k, l) \<in> set (bs_locs st). lo_org l \<noteq> g) \<and> g \<notin> fst ` set (bs_drafts st')"
  shows "bp_inv st'"
proof -
  have revs: "revs_of st' = revs_of st" using assms(4) by (rule revs_of_cong)
  have view: "store_view st' = store_view st" using assms(2,3) by (simp add: store_view_def fun_eq_iff)
  have "tables_ok st'" using inv assms(2,3,6) by (fastforce simp: tables_ok_def list_all_iff)
  moreover have "history_ok st'" using inv assms(4) by (simp add: history_ok_def numbered_def aligned_def revs view)
  moreover have "drafts_ok st'"
    unfolding drafts_ok_def revs
  proof (intro allI impI)
    fix g d assume gd: "(g, d) \<in> set (bs_drafts st')"
    then have "g \<in> set (bs_orgs st) \<and> dr_base d \<le> length (revs_of st g)" using inv assms(5) by (auto simp: drafts_ok_def)
    moreover have "g \<in> fst ` set (bs_drafts st')" using gd by force
    ultimately show "g \<in> set (bs_orgs st') \<and> dr_base d \<le> length (revs_of st g)" using assms(6) by blast
  qed
  ultimately show ?thesis by simp
qed

lemma not_in_deleted: "(k, v) \<in> set (AList.delete k d) \<Longrightarrow> False"
  by (induction d) (auto split: if_splits)

lemma delete_group_inv:
  assumes "delete_group has_devices name st = Inr (st', done)" and inv: "bp_inv st"
  shows "bp_inv st'"
proof (cases "st' = st")
  case False
  with assms(1) have none: "filter (\<lambda>(k, l). lo_org l = py_strip name) (bs_locs st) = []"
    and st': "st' = st\<lparr>bs_orgs := filter (\<lambda>x. x \<noteq> py_strip name) (bs_orgs st), bs_drafts := AList.delete (py_strip name) (bs_drafts st)\<rparr>"
    by (auto simp: delete_group_def Let_def split: if_splits)
  show ?thesis
  proof (rule group_inv [OF inv])
    fix g assume "g \<in> set (bs_orgs st)"
    then show "g \<in> set (bs_orgs st') \<or> (\<forall>(k, l) \<in> set (bs_locs st). lo_org l \<noteq> g) \<and> g \<notin> fst ` set (bs_drafts st')"
      using none by (cases "g = py_strip name") (auto simp: st' filter_empty_conv dest: not_in_deleted)
  qed (auto simp: st' dest: in_delete)
qed (use inv in simp)

lemma add_group_inv: "bp_inv st \<Longrightarrow> bp_inv (fst (add_group name st))"
  by (erule group_inv) (auto simp: add_group_def Let_def)

lemma bp_step_inv:
  assumes "bp_step repr st st'" and inv: "bp_inv st"
  shows "bp_inv st'"
  using assms(1)
proof cases
  case step_migrate
  then show ?thesis using record_revisions_inv [OF inv, of st] inv by simp
next
  case (step_add_group name)
  then show ?thesis using add_group_inv [OF inv] by simp
next
  case (step_discard org)
  then show ?thesis using delete_draft_inv [OF inv] by simp
next
  case (step_preset org probes kind n "by")
  then obtain ops where "add_ops repr probes org ops ''preset'' by st = Inr st'"
    by (auto simp: preset_draft_def Let_def split: sum.splits if_splits)
  with step_preset(1) show ?thesis by (blast intro!: add_ops_inv [OF _ inv])
next
  case (step_restore org probes n "by")
  then show ?thesis using restore_draft_inv inv by metis
next
  case (step_add_ops org probes ops source "by")
  then show ?thesis using add_ops_inv inv by metis
qed (erule delete_group_inv [OF _ inv] create_location_inv [OF _ inv] update_location_inv [OF _ inv] delete_location_inv [OF _ inv]
    replace_ops_inv [OF _ inv] align_draft_inv [OF _ inv] apply_draft_inv [OF _ inv])+

lemma bp_reach_inv: "bp_reach repr st \<Longrightarrow> bp_inv st"
proof (induction rule: bp_reach.induct)
  case (reach_start orgs)
  show ?case by (rule bp_start_inv)
next
  case (reach_step st st')
  then show ?case using bp_step_inv by blast
qed

section \<open>Properties\<close>

text \<open>
  C20: in every state that the service and the location editor reach, identifiers and links are well formed, the
  revisions of every organization are numbered from 1 without gaps, and the last one, if any, holds the current
  rows of the organization.
\<close>

theorem history_is_aligned:
  assumes "bp_reach repr st"
  shows "bp_wf (bs_locs st) (bs_links st) \<and> map rv_rev (revs_of st org) = [1..<Suc (length (revs_of st org))] \<and> aligned st org"
  using bp_reach_inv [OF assms] unfolding tables_ok_def history_ok_def numbered_def by blast

lemma apply_draft_effect:
  assumes "bp_reach repr st" and "apply_draft repr probes devices_in org by nt st = Inr (st', n, renamed)"
  shows "\<exists>d t. dict_get (bs_drafts st) org = Some d \<and> dr_base d = length (revs_of st org) \<and> aligned st org
    \<and> apply_ops repr probes org (bs_locs st) (bs_links st) (dr_ops d) = Inr t
    \<and> bs_locs st' = stored_locs (bt_locs t) \<and> bs_links st' = bt_links t
    \<and> (\<forall>x. x = org \<or> store_view st' x = store_view st x)
    \<and> n = length (revs_of st' org) \<and> revs_of st' org \<noteq> [] \<and> aligned st' org"
proof -
  note inv = bp_reach_inv [OF assms(1)]
  from assms(2) obtain d t source where d: "dict_get (bs_drafts st) org = Some d" and base: "dr_base d = latest_rev st org"
    and ok: "apply_ops repr probes org (bs_locs st) (bs_links st) (dr_ops d) = Inr t"
    and st': "st' = delete_draft org (record_revisions by source nt (put_links (bt_links t) (put_locations (bt_locs t) st)))"
    and n: "n = latest_rev st' org"
    by (rule apply_draft_ok)
  let ?u = "put_links (bt_links t) (put_locations (bt_locs t) st)"
  have wf: "bp_wf (bs_locs st) (bs_links st)" using inv by (simp add: tables_ok_def)
  note keeps = applied_ops_keep [OF ok wf]
  have revs: "revs_of ?u = revs_of st" by (rule revs_of_cong) (simp add: put_links_def)
  then have num: "numbered ?u" using inv by (simp add: history_ok_def numbered_def)
  note f = record_fold [OF num, of "by" source nt "sorted_texts (bs_orgs ?u)", folded record_revisions_def]
  have org: "org \<in> set (bs_orgs ?u)" using draft_of_inv [OF inv d] by (simp add: put_links_def)
  have tables: "bs_locs st' = stored_locs (bt_locs t)" "bs_links st' = bt_links t"
    using f by (simp_all add: st' delete_draft_def put_links_def put_locations_def)
  have "store_view st' x = store_view st x" if "x \<noteq> org" for x
  proof -
    have "filter (\<lambda>(k, l). lo_org l = x) (stored_locs (bt_locs t)) = stored_locs (filter (\<lambda>(k, l). lo_org l = x) (bt_locs t))"
      by (simp add: stored_locs_def filter_map o_def split_def)
    also have "filter (\<lambda>(k, l). lo_org l = x) (bt_locs t) = filter (\<lambda>(k, l). lo_org l = x) (bs_locs st)"
      using keeps that by (intro filter_eq_of_others [of lo_org org]) simp_all
    also have "stored_locs (filter (\<lambda>(k, l). lo_org l = x) (bs_locs st)) = filter (\<lambda>(k, l). lo_org l = x) (bs_locs st)"
      using inv by (auto simp: stored_locs_def tables_ok_def list_all_iff intro!: map_idI)
    finally have locs: "filter (\<lambda>(k, l). lo_org l = x) (stored_locs (bt_locs t)) = filter (\<lambda>(k, l). lo_org l = x) (bs_locs st)" .
    have links: "filter (\<lambda>(k, v). lk_org v = x) (bt_links t) = filter (\<lambda>(k, v). lk_org v = x) (bs_links st)"
      using keeps that by (intro filter_eq_of_others [of lk_org org]) simp_all
    show ?thesis by (simp add: store_view_def org_view_def tables locs links)
  qed
  moreover have "revs_of st' = revs_of (record_revisions by source nt ?u)" by (rule revs_of_cong) (simp add: st' delete_draft_def)
  ultimately show ?thesis
    using d base ok tables n inv apply_draft_inv [OF assms(2) inv] f org latest_rev_inv [OF inv, of org]
      latest_rev_inv [OF apply_draft_inv [OF assms(2) inv], of org]
    by (auto simp: history_ok_def)
qed

text \<open>
  C21: a draft is applied only to the revision it was made from. When \<open>apply\<close> succeeds the base of the draft is the
  last revision and that one holds the current rows; the tables become what the operations of the draft make of them,
  the rows of the other organizations stay, and the last revision afterwards holds the new rows.
\<close>

theorem draft_applied_on_base:
  assumes "bp_reach repr st" and "apply_draft repr probes devices_in org by nt st = Inr (st', n, renamed)"
  shows "\<exists>d t. dict_get (bs_drafts st) org = Some d \<and> dr_base d = length (revs_of st org) \<and> aligned st org
    \<and> apply_ops repr probes org (bs_locs st) (bs_links st) (dr_ops d) = Inr t
    \<and> bs_locs st' = stored_locs (bt_locs t) \<and> bs_links st' = bt_links t
    \<and> (\<forall>x. x = org \<or> store_view st' x = store_view st x)
    \<and> n = length (revs_of st' org) \<and> revs_of st' org \<noteq> [] \<and> aligned st' org"
  using assms by (rule apply_draft_effect)

lemma apply_put_source: "apply_op repr probes org (put_source s j) t = apply_op repr probes org j t"
proof (cases j)
  case (JObj d)
  have get: "k \<noteq> ''source'' \<Longrightarrow> op_get (dict_set ''source'' (JStr s) d) k = op_get d k" for k by (simp add: op_get_def)
  have gets: "op_get (dict_set ''source'' (JStr s) d) ''name'' = op_get d ''name''"
    "op_get (dict_set ''source'' (JStr s) d) ''role'' = op_get d ''role''"
    "op_get (dict_set ''source'' (JStr s) d) ''subnets'' = op_get d ''subnets''"
    "op_get (dict_set ''source'' (JStr s) d) ''probe'' = op_get d ''probe''"
    "op_get (dict_set ''source'' (JStr s) d) ''gateway'' = op_get d ''gateway''"
    "op_get (dict_set ''source'' (JStr s) d) ''ref'' = op_get d ''ref''"
    "op_get (dict_set ''source'' (JStr s) d) ''id'' = op_get d ''id''"
    "op_get (dict_set ''source'' (JStr s) d) ''fields'' = op_get d ''fields''"
    "op_get (dict_set ''source'' (JStr s) d) ''ip'' = op_get d ''ip''"
    "op_get (dict_set ''source'' (JStr s) d) ''subnet'' = op_get d ''subnet''"
    "op_get (dict_set ''source'' (JStr s) d) ''a'' = op_get d ''a''"
    "op_get (dict_set ''source'' (JStr s) d) ''b'' = op_get d ''b''"
    "op_get (dict_set ''source'' (JStr s) d) ''kind'' = op_get d ''kind''"
    "op_get (dict_set ''source'' (JStr s) d) ''note'' = op_get d ''note''"
    by (simp_all add: get)
  have "create_location_op repr probes org (dict_set ''source'' (JStr s) d) t = create_location_op repr probes org d t"
    "update_location_op repr probes org kind (dict_set ''source'' (JStr s) d) t = update_location_op repr probes org kind d t"
    "delete_location_op org (dict_set ''source'' (JStr s) d) t = delete_location_op org d t"
    "add_link_op repr org (dict_set ''source'' (JStr s) d) t = add_link_op repr org d t"
    "remove_link_op org (dict_set ''source'' (JStr s) d) t = remove_link_op org d t" for kind
    unfolding create_location_op_def update_location_op_def delete_location_op_def add_link_op_def remove_link_op_def gets by (rule refl)+
  then show ?thesis by (simp add: JObj put_source_def apply_op_def get split: json.split)
qed (simp_all add: put_source_def)

lemma apply_ops_put_source: "apply_ops repr probes org locs links (map (put_source s) ops) = apply_ops repr probes org locs links ops"
proof -
  have "run_ops repr probes org i (map (put_source s) ops) t = run_ops repr probes org i ops t" for i t
    by (induction ops arbitrary: i t) (simp_all add: apply_put_source split: sum.split)
  then show ?thesis by (simp add: apply_ops_def)
qed

text \<open>What a restore needs of the revision: its fields still pass the checks and nobody else took its identifiers.\<close>

definition restorable :: "(json \<Rightarrow> string) \<Rightarrow> string list \<Rightarrow> string \<Rightarrow> bp_loc dict \<Rightarrow> bp_view \<Rightarrow> bool" where
  "restorable repr probes org locs s \<longleftrightarrow> list_all (\<lambda>(k, l). loc_fixed repr probes l) (bv_locs s)
     \<and> list_all (\<lambda>(k, l). dict_has (bv_locs s) k \<longrightarrow> lo_org l = org) locs"

text \<open>
  C22: restoring a revision and applying the draft that this opens brings the organization back to the rows of that
  revision, in every reachable state, when its fields still pass the checks and its identifiers are not taken.
\<close>

theorem restore_then_apply:
  assumes "bp_reach repr st" and "org \<in> set (bs_orgs st)" and "revision st org n = Some r" and "restorable repr probes org (bs_locs st) (rv_snap r)"
    and "restore_draft repr probes org n by st = Inr st1" and "apply_draft repr probes devices_in org who nt st1 = Inr (st2, m, renamed)"
  shows "same_view (store_view st2 org) (rv_snap r)"
proof -
  note inv = bp_reach_inv [OF assms(1)]
  have reach1: "bp_reach repr st1" using assms(1,2,5) by (blast intro: reach_step step_restore)
  let ?ops = "restore_ops (store_view st org) (rv_snap r)"
  have st1: "st1 = put_draft org \<lparr>dr_base = latest_rev st org, dr_source = ''restore'', dr_ops = map (put_source ''restore'') ?ops, dr_by = by\<rparr> st"
    using assms(5,3) by (auto elim!: restore_draft_ok)
  have r: "r \<in> set (bs_revs st)" "rv_org r = org" using assms(3) by (auto simp: revision_def find_Some_iff)
  from r inv have rok: "rev_ok r" by (auto simp: history_ok_def)
  from apply_draft_effect [OF reach1 assms(6)] obtain t where
    ok: "apply_ops repr probes org (bs_locs st) (bs_links st) ?ops = Inr t"
    and tables: "bs_locs st2 = stored_locs (bt_locs t)" "bs_links st2 = bt_links t"
    by (auto simp: st1 put_draft_def apply_ops_put_source)
  have wf: "bp_wf (bs_locs st) (bs_links st)" using inv by (simp add: tables_ok_def)
  have setting: "restore_setting repr probes org (bs_locs st) (bs_links st) (rv_snap r)"
    using wf rok assms(4) r(2) by (auto simp: restore_setting_def snapshot_ok_def restorable_def rev_ok_def list_all_iff)
  have len: "length ?ops \<le> max_draft_ops" using ok by (auto simp: apply_ops_def split: if_splits)
  from restore_gives_back [OF setting] len ok have same: "same_view (org_view (bt_locs t) (bt_links t) org) (rv_snap r)"
    by (simp add: store_view_def)
  have wft: "bp_wf (bt_locs t) (bt_links t)" using applied_ops_keep [OF ok wf] by simp
  have "dict_get (bv_locs (store_view st2 org)) k = dict_get (bv_locs (rv_snap r)) k" for k
  proof -
    have "dict_get (bv_locs (store_view st2 org)) k = map_option (\<lambda>l. l\<lparr>lo_probe := if lo_probe l = [] then ''central'' else lo_probe l\<rparr>)
        (dict_get (bv_locs (org_view (bt_locs t) (bt_links t) org)) k)"
      using org_view_get(1) [OF bp_wf_stored [OF wft]] org_view_get(1) [OF wft]
      by (auto simp: store_view_def tables stored_locs_get split: option.splits)
    also have "dict_get (bv_locs (org_view (bt_locs t) (bt_links t) org)) k = dict_get (bv_locs (rv_snap r)) k"
      using same by (simp add: same_view_def)
    finally show ?thesis
      using rok by (cases "dict_get (bv_locs (rv_snap r)) k") (auto simp: rev_ok_def list_all_iff dest!: map_of_SomeD)
  qed
  moreover have "bv_links (store_view st2 org) = bv_links (org_view (bt_locs t) (bt_links t) org)"
    by (simp add: store_view_def org_view_def tables)
  ultimately show ?thesis using same by (simp add: same_view_def)
qed

section \<open>A run\<close>

abbreviation no_repr :: "json \<Rightarrow> string" where "no_repr \<equiv> \<lambda>j. []"

text \<open>A location is created, changed, its first revision restored and applied.\<close>

definition run_created :: bp_store where
  "run_created = projr (create_location no_repr [''central''] ''ann'' ''acme'' ''Hub'' ''hq'' (JList []) ''central'' (bp_start [''acme'']))"

definition run_edited :: bp_store where
  "run_edited = projr (update_location no_repr [''central''] ''bob'' ''hub'' (Some ''Sede'') None None None run_created)"

definition run_restoring :: bp_store where
  "run_restoring = projr (restore_draft no_repr [''central''] ''acme'' 1 ''bob'' run_edited)"

definition run_restored :: bp_store where
  "run_restored = fst (projr (apply_draft no_repr [''central''] (\<lambda>_. 0) ''acme'' ''bob'' [] run_restoring))"

lemma run_reach: "bp_reach no_repr run_created" "bp_reach no_repr run_edited" "bp_reach no_repr run_restoring" "bp_reach no_repr run_restored"
proof -
  have c: "create_location no_repr [''central''] ''ann'' ''acme'' ''Hub'' ''hq'' (JList []) ''central'' (bp_start [''acme'']) = Inr run_created"
    unfolding run_created_def by code_simp
  have e: "update_location no_repr [''central''] ''bob'' ''hub'' (Some ''Sede'') None None None run_created = Inr run_edited"
    unfolding run_edited_def by code_simp
  have r: "restore_draft no_repr [''central''] ''acme'' 1 ''bob'' run_edited = Inr run_restoring" unfolding run_restoring_def by code_simp
  have a: "apply_draft no_repr [''central''] (\<lambda>_. 0) ''acme'' ''bob'' [] run_restoring = Inr (run_restored, 3, [])"
    unfolding run_restored_def by code_simp
  have o1: "''acme'' \<in> set (bs_orgs run_edited)" by code_simp
  show "bp_reach no_repr run_created" by (rule reach_step [OF reach_start step_create [OF c]])
  then show "bp_reach no_repr run_edited" by (rule reach_step [OF _ step_update [OF e]])
  then show "bp_reach no_repr run_restoring" by (rule reach_step [OF _ step_restore [OF o1 r]])
  then show "bp_reach no_repr run_restored" by (rule reach_step [OF _ step_apply [OF a]])
qed

lemma history_is_aligned_witness:
  "bp_wf (bs_locs run_restored) (bs_links run_restored)
    \<and> map rv_rev (revs_of run_restored ''acme'') = [1..<Suc (length (revs_of run_restored ''acme''))] \<and> aligned run_restored ''acme''"
  by (rule history_is_aligned [OF run_reach(4)])

lemma draft_applied_on_base_witness:
  "\<exists>d t. dict_get (bs_drafts run_restoring) ''acme'' = Some d \<and> dr_base d = length (revs_of run_restoring ''acme'') \<and> aligned run_restoring ''acme''
    \<and> apply_ops no_repr [''central''] ''acme'' (bs_locs run_restoring) (bs_links run_restoring) (dr_ops d) = Inr t
    \<and> bs_locs run_restored = stored_locs (bt_locs t) \<and> bs_links run_restored = bt_links t
    \<and> (\<forall>x. x = ''acme'' \<or> store_view run_restored x = store_view run_restoring x)
    \<and> 3 = length (revs_of run_restored ''acme'') \<and> revs_of run_restored ''acme'' \<noteq> [] \<and> aligned run_restored ''acme''"
proof (rule draft_applied_on_base [OF run_reach(3), where devices_in = "\<lambda>_. 0" and nt = "[]" and renamed = "[]"])
  show "apply_draft no_repr [''central''] (\<lambda>_. 0) ''acme'' ''bob'' [] run_restoring = Inr (run_restored, 3, [])"
    unfolding run_restored_def by code_simp
qed

lemma restore_then_apply_witness:
  "map lo_name (map snd (bs_locs run_edited)) = [''Sede'']
    \<and> same_view (store_view run_restored ''acme'') (rv_snap (the (revision run_edited ''acme'' 1)))"
proof
  show "map lo_name (map snd (bs_locs run_edited)) = [''Sede'']" by code_simp
  show "same_view (store_view run_restored ''acme'') (rv_snap (the (revision run_edited ''acme'' 1)))"
  proof (rule restore_then_apply [OF run_reach(2), where devices_in = "\<lambda>_. 0" and nt = "[]" and renamed = "[]" and m = 3])
    show "restore_draft no_repr [''central''] ''acme'' 1 ''bob'' run_edited = Inr run_restoring" unfolding run_restoring_def by code_simp
    show "apply_draft no_repr [''central''] (\<lambda>_. 0) ''acme'' ''bob'' [] run_restoring = Inr (run_restored, 3, [])"
      unfolding run_restored_def by code_simp
  qed code_simp+
qed

text \<open>
  An organization has no revision until the first write of a location. A draft opened before has base 0, and a write
  at another organization gives it its first revision, with the same rows: the draft is refused as outdated although
  nothing of the organization changed.
\<close>

lemma untouched_draft_refused:
  "(let st0 = record_revisions [] ''migration'' [] (bp_start [''acme'']);
        st1 = fst (add_group ''umbra'' st0);
        st2 = projr (add_ops no_repr [''central''] ''umbra'' [create_location_json ''lab'' (ex_loc ''umbra'' ''Lab'' ''other'' [])] ''manual'' ''ann'' st1);
        st3 = projr (create_location no_repr [''central''] ''bob'' ''acme'' ''Hub'' ''hq'' (JList []) ''central'' st2) in
    store_view st3 ''umbra'' = store_view st2 ''umbra''
    \<and> apply_draft no_repr [''central''] (\<lambda>_. 0) ''umbra'' ''ann'' [] st3 = Inl (Conflict 0 1)
    \<and> isl (apply_draft no_repr [''central''] (\<lambda>_. 0) ''umbra'' ''ann'' [] st2) = False)"
  by code_simp

end
