(* ===== verification/Blueprint_Checks.thy ===== *)
theory Blueprint_Checks
  imports Blueprint_Plan Worklist
begin

text \<open>
  \<open>services/blueprint_checks.py\<close>: the findings on a view, compared with the devices of the organization, their ARP
  tables, the routes and the tunnels of the gateways. The rows of the inventory and of the collectors are
  records of the fields that the checks read.
\<close>

section \<open>Inputs and findings\<close>

record inv_device =
  dv_ip :: string
  dv_loc :: "string option"
  dv_vendor :: string

record arp_row =
  ar_ip :: string
  ar_source :: string

record route_row =
  rr_network :: string
  rr_iface :: string

record route_entry =
  re_rows :: "route_row list"
  re_backup :: bool

record tunnel =
  tn_name :: string
  tn_remote :: string
  tn_dst :: "string list"
  tn_up :: bool

record tunnel_entry =
  te_tunnels :: "tunnel list"
  te_error :: string

record bp_finding =
  bf_code :: string
  bf_severity :: string
  bf_subject :: "string \<times> string"
  bf_params :: "json dict"
  bf_proposal :: "json list option"

definition severity_order :: "string \<Rightarrow> nat" where
  "severity_order s = (if s = ''error'' then 0 else if s = ''warning'' then 1 else if s = ''unknown'' then 2 else 3)"

definition hub_roles :: "string list" where "hub_roles = [''hq'', ''datacenter'']"
definition spoke_roles :: "string list" where "spoke_roles = [''branch'', ''warehouse'']"
definition gateway_vendors :: "string list" where "gateway_vendors = [''fortinet'', ''cisco'']"

definition bp_f :: "string \<Rightarrow> string \<Rightarrow> string \<times> string \<Rightarrow> json list option \<Rightarrow> json dict \<Rightarrow> bp_finding" where
  "bp_f kind severity subject proposal params =
     \<lparr>bf_code = kind, bf_severity = severity, bf_subject = subject, bf_params = params, bf_proposal = proposal\<rparr>"

section \<open>Addresses\<close>

definition space_to_slash :: "string \<Rightarrow> string" where
  "space_to_slash s = map (\<lambda>c. if c = CHR '' '' then CHR ''/'' else c) s"

definition bp_net :: "string \<Rightarrow> ip_net option" where
  "bp_net text = ip_network (space_to_slash (py_strip text))"

definition bp_nets :: "string list \<Rightarrow> ip_net list" where
  "bp_nets subnets = List.map_filter bp_net subnets"

definition bp_addr :: "string \<Rightarrow> ip_addr option" where
  "bp_addr ip = ip_address (py_strip ip)"

definition covers_addr :: "ip_net list \<Rightarrow> ip_addr \<Rightarrow> bool" where
  "covers_addr nets ip \<longleftrightarrow> list_ex (\<lambda>n. net_is6 n = ip_is6 ip \<and> in_net ip n) nets"

text \<open>\<open>_slash24\<close>; a text that is no address raises \<open>ValueError\<close>.\<close>

definition slash24 :: "string \<Rightarrow> string option" where
  "slash24 ip = map_option str_net (ip_network (ip @ ''/24''))"

definition nets_meet :: "ip_net \<Rightarrow> ip_net \<Rightarrow> bool" where
  "nets_meet a b \<longleftrightarrow> net_is6 a = net_is6 b \<and> net_overlaps a b"

definition lan_nets :: "ip_net list" where
  "lan_nets = bp_nets [''10.0.0.0/8'', ''172.16.0.0/12'', ''192.168.0.0/16'']"

section \<open>The model alone\<close>

text \<open>\<open>sorted(locs.items())\<close>.\<close>

definition sorted_items :: "'v dict \<Rightarrow> (string \<times> 'v) list" where
  "sorted_items d = List.map_filter (\<lambda>k. map_option (Pair k) (dict_get d k)) (sorted_texts (map fst d))"

definition overlap_findings :: "bp_loc dict \<Rightarrow> bp_finding list" where
  "overlap_findings locs = concat (map (\<lambda>((ida, la), (idb, lb)).
     concat (map (\<lambda>na. List.map_filter (\<lambda>nb.
         if nets_meet na nb then Some (bp_f ''subnet_overlap'' ''error'' (''location'', ida) None
           [(''a'', JStr (lo_name la)), (''b'', JStr (lo_name lb)), (''subnet_a'', JStr (str_net na)), (''subnet_b'', JStr (str_net nb))])
         else None) (bp_nets (lo_subnets lb))) (bp_nets (lo_subnets la)))) (pairs_of (sorted_items locs)))"

definition empty_findings :: "bp_loc dict \<Rightarrow> bp_finding list" where
  "empty_findings locs = List.map_filter (\<lambda>(lid, l).
     if lo_subnets l = [] then Some (bp_f ''location_no_subnets'' ''warning'' (''location'', lid) None [(''name'', JStr (lo_name l))])
     else None) (sorted_items locs)"

definition hub_ids :: "bp_loc dict \<Rightarrow> string list" where
  "hub_ids locs = map fst (filter (\<lambda>(lid, l). lo_role l \<in> set hub_roles) (sorted_items locs))"

text \<open>\<open>adj\<close> and the loop over it: a queue, where the code pops a set in any order; the set reached is the same.\<close>

definition link_edges :: "bp_loc dict \<Rightarrow> bp_link dict \<Rightarrow> (string \<times> string list) list" where
  "link_edges locs links = map (\<lambda>(lid, l). (lid, List.map_filter (\<lambda>(k, v).
      if lk_a v = lid then Some (lk_b v) else if lk_b v = lid then Some (lk_a v) else None) links)) locs"

definition linked_to_hub :: "bp_loc dict \<Rightarrow> bp_link dict \<Rightarrow> string list" where
  "linked_to_hub locs links = visit (link_edges locs links) (hub_ids locs) {}"

definition main_hub :: "bp_loc dict \<Rightarrow> string option" where
  "main_hub locs =
     (case find (\<lambda>(lid, l). lo_role l = ''hq'') (sorted_items locs) of
        Some (lid, l) \<Rightarrow> Some lid
      | None \<Rightarrow> (case hub_ids locs of [] \<Rightarrow> None | h # hs \<Rightarrow> Some h))"

definition isolated_findings :: "bp_loc dict \<Rightarrow> bp_link dict \<Rightarrow> bp_finding list" where
  "isolated_findings locs links =
     (let reach = linked_to_hub locs links in
      List.map_filter (\<lambda>(lid, l).
        if lo_role l \<in> set spoke_roles \<and> lid \<notin> set reach
        then Some (bp_f ''location_isolated'' ''warning'' (''location'', lid)
          (map_option (\<lambda>h. [add_link_json h lid ''vpn'' []]) (main_hub locs)) [(''name'', JStr (lo_name l))])
        else None) (sorted_items locs))"

definition set_gateway_json :: "string \<Rightarrow> string \<Rightarrow> json" where
  "set_gateway_json lid ip = JObj [(''op'', JStr ''set_gateway''), (''id'', JStr lid), (''ip'', JStr ip)]"

definition add_subnet_json :: "string \<Rightarrow> string \<Rightarrow> json" where
  "add_subnet_json lid subnet = JObj [(''op'', JStr ''add_subnet''), (''id'', JStr lid), (''subnet'', JStr subnet)]"

definition insort_all :: "string list \<Rightarrow> string list" where
  "insort_all xs = foldr insert_text xs []"

definition gateway_findings :: "bp_loc dict \<Rightarrow> inv_device list \<Rightarrow> bp_finding list" where
  "gateway_findings locs devices = List.map_filter (\<lambda>(lid, l).
     let mine = filter (\<lambda>d. dv_loc d = Some lid) devices in
     if lo_gateway l = [] then
       (let cands = insort_all (map dv_ip (filter (\<lambda>d. py_lower (dv_vendor d) \<in> set gateway_vendors) mine)) in
        Some (bp_f ''location_no_gateway'' ''warning'' (''location'', lid)
          (case cands of [c] \<Rightarrow> Some [set_gateway_json lid c] | _ \<Rightarrow> None)
          [(''name'', JStr (lo_name l)), (''candidates'', JList (map JStr cands))]))
     else if list_ex (\<lambda>d. dv_ip d = lo_gateway l) mine then None
     else Some (bp_f ''gateway_not_in_location'' ''error'' (''location'', lid) None
          [(''name'', JStr (lo_name l)), (''ip'', JStr (lo_gateway l))])) (sorted_items locs)"

definition model_checks :: "bp_loc dict \<Rightarrow> bp_link dict \<Rightarrow> inv_device list \<Rightarrow> bp_finding list" where
  "model_checks locs links devices = overlap_findings locs @ empty_findings locs
     @ isolated_findings locs links @ gateway_findings locs devices"

section \<open>Subnets against addresses\<close>

definition name_of :: "bp_loc dict \<Rightarrow> string \<Rightarrow> string" where
  "name_of locs lid = (case dict_get locs lid of None \<Rightarrow> [] | Some l \<Rightarrow> lo_name l)"

definition loc_nets :: "bp_loc dict \<Rightarrow> string \<Rightarrow> ip_net list" where
  "loc_nets locs lid = (case dict_get locs lid of None \<Rightarrow> [] | Some l \<Rightarrow> bp_nets (lo_subnets l))"

text \<open>\<open>None\<close> is the uncaught \<open>ValueError\<close> of \<open>_slash24\<close> on an address with blanks around it.\<close>

definition device_finding :: "bp_loc dict \<Rightarrow> inv_device \<Rightarrow> bp_finding option option" where
  "device_finding locs d =
     (case (dv_loc d, bp_addr (dv_ip d)) of
        (Some lid, Some ip) \<Rightarrow>
          if \<not> dict_has locs lid \<or> loc_nets locs lid = [] \<or> covers_addr (loc_nets locs lid) ip then Some None
          else
            (let owner = find (\<lambda>k. k \<noteq> lid \<and> covers_addr (loc_nets locs k) ip) (sorted_texts (map fst locs));
                 params = [(''ip'', JStr (dv_ip d)), (''name'', JStr (name_of locs lid)),
                   (''owner'', JStr (case owner of None \<Rightarrow> [] | Some k \<Rightarrow> name_of locs k))];
                 found = (\<lambda>prop. Some (Some (bp_f ''device_outside_subnets'' ''warning'' (''device'', dv_ip d) prop params))) in
             if owner \<noteq> None \<or> ip_is6 ip then found None
             else (case slash24 (dv_ip d) of None \<Rightarrow> None | Some s \<Rightarrow> found (Some [add_subnet_json lid s])))
      | _ \<Rightarrow> Some None)"

fun all_findings :: "'a option option list \<Rightarrow> 'a list option" where
  "all_findings [] = Some []"
| "all_findings (None # xs) = None"
| "all_findings (Some None # xs) = all_findings xs"
| "all_findings (Some (Some f) # xs) = map_option ((#) f) (all_findings xs)"

text \<open>The location whose gateway reported the address: with the same gateway twice, the last of the table.\<close>

definition gateway_loc :: "bp_loc dict \<Rightarrow> string \<Rightarrow> string option" where
  "gateway_loc locs ip = map_option fst (find (\<lambda>(lid, l). lo_gateway l \<noteq> [] \<and> lo_gateway l = ip) (rev locs))"

fun count_key :: "'k \<Rightarrow> ('k \<times> nat) list \<Rightarrow> ('k \<times> nat) list" where
  "count_key k [] = [(k, 1)]"
| "count_key k ((x, n) # xs) = (if x = k then (x, n + 1) # xs else (x, n) # count_key k xs)"

definition arp_seen :: "bp_loc dict \<Rightarrow> arp_row list \<Rightarrow> ((string \<times> string) \<times> nat) list" where
  "arp_seen locs arp = fold (\<lambda>e seen.
     case (gateway_loc locs (ar_source e), bp_addr (ar_ip e)) of
       (Some lid, Some ip) \<Rightarrow>
         if \<not> covers_addr lan_nets ip \<or> covers_addr (concat (map (\<lambda>(k, l). bp_nets (lo_subnets l)) locs)) ip then seen
         else (case slash24 (str_ip ip) of None \<Rightarrow> seen | Some net \<Rightarrow> count_key (lid, net) seen)
     | _ \<Rightarrow> seen) arp []"

fun insert_pair :: "(string \<times> string) \<times> nat \<Rightarrow> ((string \<times> string) \<times> nat) list \<Rightarrow> ((string \<times> string) \<times> nat) list" where
  "insert_pair p [] = [p]"
| "insert_pair p (q # qs) =
     (if fst (fst p) \<noteq> fst (fst q) \<and> text_le (fst (fst p)) (fst (fst q))
         \<or> fst (fst p) = fst (fst q) \<and> text_le (snd (fst p)) (snd (fst q)) then p # q # qs else q # insert_pair p qs)"

definition arp_findings :: "bp_loc dict \<Rightarrow> arp_row list \<Rightarrow> bp_finding list" where
  "arp_findings locs arp = map (\<lambda>((lid, net), n).
     bp_f ''arp_uncovered'' ''warning'' (''location'', lid) (Some [add_subnet_json lid net])
       [(''name'', JStr (name_of locs lid)), (''subnet'', JStr net), (''count'', JInt (int n))])
     (foldr insert_pair (arp_seen locs arp) [])"

definition unused_findings :: "bp_loc dict \<Rightarrow> inv_device list \<Rightarrow> arp_row list \<Rightarrow> bp_finding list" where
  "unused_findings locs devices arp =
     (let used = List.map_filter bp_addr (map dv_ip devices @ map ar_ip arp) in
      concat (map (\<lambda>(lid, l).
        if lo_gateway l = [] \<or> lo_gateway l \<notin> set (map ar_source arp) then []
        else List.map_filter (\<lambda>n. if list_ex (\<lambda>a. ip_is6 a = net_is6 n \<and> in_net a n) used then None
          else Some (bp_f ''subnet_unused'' ''info'' (''location'', lid) None
            [(''name'', JStr (lo_name l)), (''subnet'', JStr (str_net n))])) (bp_nets (lo_subnets l))) (sorted_items locs)))"

definition subnet_checks :: "bp_loc dict \<Rightarrow> inv_device list \<Rightarrow> arp_row list \<Rightarrow> bp_finding list option" where
  "subnet_checks locs devices arp =
     map_option (\<lambda>fs. fs @ arp_findings locs arp @ unused_findings locs devices arp)
       (all_findings (map (device_finding locs) devices))"

section \<open>Routes\<close>

definition route_nets :: "route_entry \<Rightarrow> (ip_net \<times> route_row) list" where
  "route_nets e = List.map_filter (\<lambda>r. map_option (\<lambda>n. (n, r)) (bp_net (rr_network r))) (re_rows e)"

definition loc_gateway :: "bp_loc dict \<Rightarrow> string \<Rightarrow> string" where
  "loc_gateway locs lid = (case dict_get locs lid of None \<Rightarrow> [] | Some l \<Rightarrow> lo_gateway l)"

definition entry_at :: "'v dict \<Rightarrow> string \<Rightarrow> 'v option" where
  "entry_at d gw = (if gw = [] then None else dict_get d gw)"

text \<open>One direction of a link: is every subnet of the far side routed at the gateway of the near one?\<close>

definition subnet_route :: "(ip_net \<times> route_row) list \<Rightarrow> bool \<Rightarrow> ip_net \<Rightarrow> (string \<times> string) option" where
  "subnet_route nets from_backup s =
     (if list_ex (\<lambda>(n, r). net_is6 n = net_is6 s \<and> 0 < net_plen n \<and> subnet_of s n) nets then None
      else if list_ex (\<lambda>(n, r). net_is6 n = net_is6 s \<and> net_plen n = 0) nets then Some (''warning'', ''default'')
      else Some (if from_backup then ''warning'' else ''error'', []))"

definition side_findings :: "bp_loc dict \<Rightarrow> route_entry dict \<Rightarrow> string \<Rightarrow> string \<Rightarrow> string \<Rightarrow> bp_finding list" where
  "side_findings locs routes lkid src dst =
     (let gw = loc_gateway locs src; names = [(''src'', JStr (name_of locs src)), (''dst'', JStr (name_of locs dst))] in
      case entry_at routes gw of
        Some e \<Rightarrow>
          if re_rows e = [] then [bp_f ''link_no_route'' ''unknown'' (''link'', lkid) None ((''reason'', JStr ''no_routes'') # names)]
          else List.map_filter (\<lambda>s. map_option (\<lambda>(sev, via).
            bp_f ''link_no_route'' sev (''link'', lkid) None ([(''subnet'', JStr (str_net s)), (''via'', JStr via),
              (''backup_only'', JBool (re_backup e))] @ names)) (subnet_route (route_nets e) (re_backup e) s)) (loc_nets locs dst)
      | None \<Rightarrow> [bp_f ''link_no_route'' ''unknown'' (''link'', lkid) None
            ((''reason'', JStr (if gw = [] then ''no_gateway'' else ''no_routes'')) # names)])"

text \<open>A pair of locations, whatever their order.\<close>

definition pair_of :: "string \<Rightarrow> string \<Rightarrow> string \<times> string" where
  "pair_of a b = (if text_le a b then (a, b) else (b, a))"

definition linked_pairs :: "bp_link list \<Rightarrow> (string \<times> string) list" where
  "linked_pairs ks = map (\<lambda>k. pair_of (lk_a k) (lk_b k)) ks"

type_synonym proposing = "bp_finding list \<times> (string \<times> string) list"

definition unlinked_route ::
    "(string \<times> string) list \<Rightarrow> (ip_net \<times> route_row) list \<Rightarrow> string list \<Rightarrow> string \<times> bp_loc \<Rightarrow> string \<times> bp_loc \<Rightarrow>
     proposing \<Rightarrow> proposing" where
  "unlinked_route linked nets tnames sl dm acc =
     (case (sl, dm, acc) of ((src, l), (dst, m), (out, proposed)) \<Rightarrow>
        if dst = src \<or> pair_of src dst \<in> set linked \<or> pair_of src dst \<in> set proposed then acc
        else (case find (\<lambda>(n, r). 0 < net_plen n \<and> list_ex (nets_meet n) (bp_nets (lo_subnets m))) nets of
            None \<Rightarrow> acc
          | Some (n, r) \<Rightarrow>
              (out @ [bp_f ''route_without_link'' ''info'' (''location'', src)
                 (Some [add_link_json src dst (if rr_iface r \<in> set tnames then ''vpn'' else ''wan'') []])
                 [(''src'', JStr (lo_name l)), (''dst'', JStr (lo_name m)), (''network'', JStr (rr_network r)),
                  (''interface'', JStr (rr_iface r))]], pair_of src dst # proposed)))"

definition route_proposals ::
    "bp_loc dict \<Rightarrow> bp_link dict \<Rightarrow> route_entry dict \<Rightarrow> tunnel_entry dict \<Rightarrow> bp_finding list" where
  "route_proposals locs links routes tunnels =
     (let linked = linked_pairs (map snd links) in
      fst (fold (\<lambda>(src, l) acc.
        case entry_at routes (lo_gateway l) of
          None \<Rightarrow> acc
        | Some e \<Rightarrow>
            let tnames = (case dict_get tunnels (lo_gateway l) of None \<Rightarrow> [] | Some t \<Rightarrow> map tn_name (te_tunnels t)) in
            fold (unlinked_route linked (route_nets e) tnames (src, l)) (sorted_items locs) acc)
        (sorted_items locs) ([], [])))"

definition routing_checks ::
    "bp_loc dict \<Rightarrow> bp_link dict \<Rightarrow> route_entry dict \<Rightarrow> tunnel_entry dict \<Rightarrow> bp_finding list" where
  "routing_checks locs links routes tunnels =
     concat (map (\<lambda>(lkid, k). side_findings locs routes lkid (lk_a k) (lk_b k) @ side_findings locs routes lkid (lk_b k) (lk_a k))
       (sorted_items links)) @ route_proposals locs links routes tunnels"

section \<open>Tunnels\<close>

definition tunnel_matches :: "tunnel \<Rightarrow> bp_loc \<Rightarrow> bool" where
  "tunnel_matches t l \<longleftrightarrow> (lo_gateway l \<noteq> [] \<and> tn_remote t = lo_gateway l)
     \<or> list_ex (\<lambda>n. list_ex (nets_meet n) (bp_nets (lo_subnets l))) (bp_nets (tn_dst t))"

text \<open>The vendor by address: the last row of an address counts.\<close>

definition vendor_of :: "inv_device list \<Rightarrow> string \<Rightarrow> string" where
  "vendor_of devices ip = (case find (\<lambda>d. dv_ip d = ip) (rev devices) of None \<Rightarrow> [] | Some d \<Rightarrow> py_lower (dv_vendor d))"

definition side_tunnels :: "bp_loc dict \<Rightarrow> tunnel_entry dict \<Rightarrow> inv_device list \<Rightarrow> string \<Rightarrow> tunnel list option" where
  "side_tunnels locs tunnels devices lid =
     (let gw = loc_gateway locs lid in
      if gw = [] \<or> vendor_of devices gw \<noteq> ''fortinet'' then None
      else (case dict_get tunnels gw of
          None \<Rightarrow> None
        | Some t \<Rightarrow> if te_error t \<noteq> [] \<and> te_tunnels t = [] then None else Some (te_tunnels t)))"

definition vpn_side ::
    "bp_loc dict \<Rightarrow> tunnel_entry dict \<Rightarrow> inv_device list \<Rightarrow> string \<Rightarrow> string \<Rightarrow> string \<Rightarrow> bp_finding list option" where
  "vpn_side locs tunnels devices lkid side other =
     map_option (\<lambda>ts.
       let matching = (case dict_get locs other of None \<Rightarrow> [] | Some l \<Rightarrow> filter (\<lambda>t. tunnel_matches t l) ts);
           found = (\<lambda>state tun. [bp_f ''vpn_link_down'' ''error'' (''link'', lkid) None
             [(''state'', JStr state), (''tunnel'', JStr tun), (''side'', JStr (name_of locs side)), (''other'', JStr (name_of locs other))]]) in
       case matching of
         [] \<Rightarrow> found ''missing'' []
       | t # ts' \<Rightarrow> if list_ex tn_up matching then [] else found ''down'' (tn_name t)) (side_tunnels locs tunnels devices side)"

definition vpn_link_findings :: "bp_loc dict \<Rightarrow> tunnel_entry dict \<Rightarrow> inv_device list \<Rightarrow> string \<times> bp_link \<Rightarrow> bp_finding list" where
  "vpn_link_findings locs tunnels devices lk =
     (case lk of (lkid, k) \<Rightarrow>
        if lk_kind k \<noteq> ''vpn'' then []
        else (let x = vpn_side locs tunnels devices lkid (lk_a k) (lk_b k); y = vpn_side locs tunnels devices lkid (lk_b k) (lk_a k) in
          (case x of None \<Rightarrow> [] | Some fs \<Rightarrow> fs) @ (case y of None \<Rightarrow> [] | Some fs \<Rightarrow> fs)
          @ (if x = None \<and> y = None
             then [bp_f ''vpn_link_down'' ''unknown'' (''link'', lkid) None
               [(''state'', JStr ''unknown''), (''tunnel'', JStr []), (''side'', JStr (name_of locs (lk_a k))),
                (''other'', JStr (name_of locs (lk_b k)))]] else [])))"

definition unlinked_tunnel ::
    "(string \<times> string) list \<Rightarrow> string \<times> bp_loc \<Rightarrow> tunnel \<Rightarrow> string \<times> bp_loc \<Rightarrow> proposing \<Rightarrow> proposing" where
  "unlinked_tunnel linked sl t dm acc =
     (case (sl, dm, acc) of ((src, l), (dst, m), (out, proposed)) \<Rightarrow>
        if dst = src \<or> pair_of src dst \<in> set linked \<or> pair_of src dst \<in> set proposed \<or> \<not> tunnel_matches t m then acc
        else (out @ [bp_f ''tunnel_without_link'' ''info'' (''location'', src) (Some [add_link_json src dst ''vpn'' []])
               [(''src'', JStr (lo_name l)), (''dst'', JStr (lo_name m)), (''tunnel'', JStr (tn_name t))]],
              pair_of src dst # proposed))"

definition tunnel_proposals ::
    "bp_loc dict \<Rightarrow> bp_link dict \<Rightarrow> tunnel_entry dict \<Rightarrow> inv_device list \<Rightarrow> bp_finding list" where
  "tunnel_proposals locs links tunnels devices =
     (let linked = linked_pairs (filter (\<lambda>k. lk_kind k = ''vpn'') (map snd links)) in
      fst (fold (\<lambda>(src, l) acc.
        fold (\<lambda>t acc. if \<not> tn_up t then acc else fold (unlinked_tunnel linked (src, l) t) (sorted_items locs) acc)
          (case side_tunnels locs tunnels devices src of None \<Rightarrow> [] | Some ts \<Rightarrow> ts) acc)
        (sorted_items locs) ([], [])))"

definition vpn_checks ::
    "bp_loc dict \<Rightarrow> bp_link dict \<Rightarrow> tunnel_entry dict \<Rightarrow> inv_device list \<Rightarrow> bp_finding list" where
  "vpn_checks locs links tunnels devices =
     concat (map (vpn_link_findings locs tunnels devices) (sorted_items links)) @ tunnel_proposals locs links tunnels devices"

section \<open>All checks\<close>

fun insert_finding_by :: "bp_finding \<Rightarrow> bp_finding list \<Rightarrow> bp_finding list" where
  "insert_finding_by f [] = [f]"
| "insert_finding_by f (g # gs) =
     (if severity_order (bf_severity f) < severity_order (bf_severity g)
         \<or> severity_order (bf_severity f) = severity_order (bf_severity g) \<and> text_le (bf_code f) (bf_code g)
      then f # g # gs else g # insert_finding_by f gs)"

definition run_checks ::
    "bp_view \<Rightarrow> inv_device list \<Rightarrow> arp_row list \<Rightarrow> route_entry dict \<Rightarrow> tunnel_entry dict \<Rightarrow> bp_finding list option" where
  "run_checks view devices arp routes tunnels =
     (let locs = bv_locs view; links = bv_links view in
      map_option (\<lambda>subnet. foldr insert_finding_by
        (model_checks locs links devices @ subnet @ routing_checks locs links routes tunnels
         @ vpn_checks locs links tunnels devices) []) (subnet_checks locs devices arp))"

end
