(* ===== verification/Blueprint_Checks_Sound.thy ===== *)
theory Blueprint_Checks_Sound
  imports Blueprint_Checks Blueprint_Restore
begin

text \<open>
  The checks and the drafts together: a link that a finding proposes can be added. And what two of the
  checks decide: a spoke is reported as isolated exactly when no chain of links joins it to a hub, and two
  subnets exactly when they share an address.
\<close>

section \<open>Helpers\<close>

lemma in_map_filter: "y \<in> set (List.map_filter f xs) \<longleftrightarrow> (\<exists>x \<in> set xs. f x = Some y)"
  by (force simp: map_filter_def)

lemma set_sorted_items [simp]: "(k, v) \<in> set (sorted_items d) \<longleftrightarrow> dict_get d k = Some v"
  using dict_get_key [of d k v] by (auto simp: sorted_items_def in_map_filter)

lemma bex_items: "(\<exists>p \<in> set (sorted_items d). Q p) \<longleftrightarrow> (\<exists>k v. dict_get d k = Some v \<and> Q (k, v))"
  by (metis set_sorted_items surj_pair)

lemma set_insert_finding_by [simp]: "set (insert_finding_by f fs) = insert f (set fs)"
  by (induction fs) auto

lemma set_insert_findings: "set (foldr insert_finding_by fs gs) = set fs \<union> set gs"
  by (induction fs) auto

lemma visit_all: "set (visit edges queue {}) = {y. \<exists>x \<in> set queue. (x, y) \<in> (step_rel edges)\<^sup>*}"
proof (intro equalityI subsetI)
  fix y assume "y \<in> set (visit edges queue {})"
  then show "y \<in> {y. \<exists>x \<in> set queue. (x, y) \<in> (step_rel edges)\<^sup>*}" using visit_reachable by blast
next
  fix y assume "y \<in> {y. \<exists>x \<in> set queue. (x, y) \<in> (step_rel edges)\<^sup>*}"
  then obtain x where x: "x \<in> set queue" "(x, y) \<in> (step_rel edges)\<^sup>*" by blast
  have closed: "\<forall>x \<in> set (visit edges queue {}). set (succs edges x) \<subseteq> set (visit edges queue {})"
    using visit_closed [of "{}" edges queue] by simp
  from x(2) show "y \<in> set (visit edges queue {})"
  proof (induction rule: rtrancl_induct)
    case base
    then show ?case using visit_queue [of queue "{}" edges] x(1) by auto
  next
    case (step y z)
    then show ?case using closed by (auto simp: step_rel_def)
  qed
qed

section \<open>Isolated locations\<close>

definition joined :: "bp_link dict \<Rightarrow> (string \<times> string) set" where
  "joined links = {(x, y). \<exists>k v. (k, v) \<in> set links \<and> (lk_a v = x \<and> lk_b v = y \<or> lk_b v = x \<and> lk_a v = y)}"

lemma step_rel_links:
  assumes "bp_wf locs links"
  shows "step_rel (link_edges locs links) = joined links"
proof -
  have get: "map_of (map (\<lambda>(lid, l). (lid, g lid)) d) x = (if dict_get d x = None then None else Some (g x))" for g and d :: "bp_loc dict" and x
    by (induction d) auto
  have "y \<in> set (succs (link_edges locs links) x) \<longleftrightarrow> (x, y) \<in> joined links" for x y
  proof (cases "dict_get locs x")
    case None
    have "(x, y) \<notin> joined links"
    proof
      assume "(x, y) \<in> joined links"
      then obtain k v where kv: "(k, v) \<in> set links" "lk_a v = x \<or> lk_b v = x" by (auto simp: joined_def)
      from bp_wf_link [OF assms kv(1)] kv(2) None show False by (auto simp: link_wf_def)
    qed
    then show ?thesis by (simp add: succs_def link_edges_def get None)
  next
    case (Some l)
    let ?g = "\<lambda>(k, v). if lk_a v = x then Some (lk_b v) else if lk_b v = x then Some (lk_a v) else None"
    have ne: "lk_a v \<noteq> lk_b v" if "(k, v) \<in> set links" for k v using bp_wf_link [OF assms that] by (simp add: link_wf_def)
    have "y \<in> set (succs (link_edges locs links) x) \<longleftrightarrow> (\<exists>p \<in> set links. ?g p = Some y)"
      by (simp add: succs_def link_edges_def get Some in_map_filter)
    also have "\<dots> \<longleftrightarrow> (\<exists>p \<in> set links. lk_a (snd p) = x \<and> lk_b (snd p) = y \<or> lk_b (snd p) = x \<and> lk_a (snd p) = y)"
      by (rule bex_cong [OF refl]) (use ne in \<open>auto split: if_splits\<close>)
    also have "\<dots> \<longleftrightarrow> (x, y) \<in> joined links" by (force simp: joined_def)
    finally show ?thesis .
  qed
  then show ?thesis by (auto simp: step_rel_def)
qed

lemma linked_to_hub_iff:
  assumes "bp_wf locs links"
  shows "x \<in> set (linked_to_hub locs links) \<longleftrightarrow>
    (\<exists>h l. dict_get locs h = Some l \<and> lo_role l \<in> set hub_roles \<and> (h, x) \<in> (joined links)\<^sup>*)"
  by (auto simp: linked_to_hub_def visit_all step_rel_links [OF assms] hub_ids_def image_iff)

lemma bp_f_simps [simp]: "bf_subject (bp_f k s x p d) = x" "bf_proposal (bp_f k s x p d) = p"
  by (simp_all add: bp_f_def)

lemma in_isolated: "f \<in> set (isolated_findings locs links) \<longleftrightarrow> (\<exists>x l. dict_get locs x = Some l \<and> lo_role l \<in> set spoke_roles
      \<and> x \<notin> set (linked_to_hub locs links) \<and> f = bp_f ''location_isolated'' ''warning'' (''location'', x)
        (map_option (\<lambda>h. [add_link_json h x ''vpn'' []]) (main_hub locs)) [(''name'', JStr (lo_name l))])"
  by (simp add: isolated_findings_def Let_def in_map_filter bex_items) (auto split: if_splits)

text \<open>
  C23: a location is reported as isolated exactly when it is a branch or a warehouse of the model and no chain of
  links joins it to a headquarters or a datacenter.
\<close>

theorem isolated_exact:
  assumes "bp_wf locs links"
  shows "list_ex (\<lambda>f. bf_subject f = (''location'', lid)) (isolated_findings locs links) \<longleftrightarrow>
    (\<exists>l. dict_get locs lid = Some l \<and> lo_role l \<in> set spoke_roles
      \<and> \<not> (\<exists>h l'. dict_get locs h = Some l' \<and> lo_role l' \<in> set hub_roles \<and> (h, lid) \<in> (joined links)\<^sup>*))"
proof -
  have "list_ex (\<lambda>f. bf_subject f = (''location'', lid)) (isolated_findings locs links) \<longleftrightarrow>
      (\<exists>l. dict_get locs lid = Some l \<and> lo_role l \<in> set spoke_roles \<and> lid \<notin> set (linked_to_hub locs links))"
    unfolding list_ex_iff Bex_def in_isolated by fastforce
  then show ?thesis unfolding linked_to_hub_iff [OF assms] .
qed

definition ex_locs :: "bp_loc dict" where
  "ex_locs = [(''hub'', ex_loc ''acme'' ''Hub'' ''hq'' [''10.0.0.0/8'']), (''lab'', ex_loc ''acme'' ''Lab'' ''branch'' [''10.1.0.0/16'']),
     (''shop'', ex_loc ''acme'' ''Shop'' ''branch'' [''192.168.0.0/24''])]"

definition ex_links :: "bp_link dict" where
  "ex_links = [(''hub--shop--vpn'', ex_link ''acme'' ''hub'' ''shop'')]"

lemma isolated_exact_witness:
  "list_ex (\<lambda>f. bf_subject f = (''location'', ''lab'')) (isolated_findings ex_locs ex_links) = True
   \<and> (list_ex (\<lambda>f. bf_subject f = (''location'', ''lab'')) (isolated_findings ex_locs ex_links) \<longleftrightarrow>
    (\<exists>l. dict_get ex_locs ''lab'' = Some l \<and> lo_role l \<in> set spoke_roles
      \<and> \<not> (\<exists>h l'. dict_get ex_locs h = Some l' \<and> lo_role l' \<in> set hub_roles \<and> (h, ''lab'') \<in> (joined ex_links)\<^sup>*)))"
  by (rule conjI, code_simp, rule isolated_exact, code_simp)

section \<open>Proposed links\<close>

definition addable :: "bp_loc dict \<Rightarrow> bp_link dict \<Rightarrow> string \<Rightarrow> string \<Rightarrow> string \<Rightarrow> bool" where
  "addable locs links a b kind \<longleftrightarrow> a \<noteq> b \<and> dict_has locs a \<and> dict_has locs b \<and> kind \<in> set bp_kinds
     \<and> list_all (\<lambda>(k, v). lk_kind v = kind \<longrightarrow> pair_of (lk_a v) (lk_b v) \<noteq> pair_of a b) links"

definition proposals_addable :: "bp_loc dict \<Rightarrow> bp_link dict \<Rightarrow> bp_finding \<Rightarrow> bool" where
  "proposals_addable locs links f \<longleftrightarrow>
     (\<forall>a b kind nt. bf_proposal f = Some [add_link_json a b kind nt] \<longrightarrow> nt = [] \<and> addable locs links a b kind)"

lemma add_link_json_inj [simp]: "add_link_json a b k n = add_link_json a' b' k' n' \<longleftrightarrow> a = a' \<and> b = b' \<and> k = k' \<and> n = n'"
  by (auto simp: add_link_json_def)

lemma no_link_proposal: "bf_proposal f = None \<Longrightarrow> proposals_addable locs links f"
  by (simp add: proposals_addable_def)

lemma code_inj: "code c = code d \<longleftrightarrow> c = d"
  by (simp add: code_def)

lemma text_le_antisym: "text_le a b \<Longrightarrow> text_le b a \<Longrightarrow> a = b"
  by (induction a b rule: text_le.induct) (auto simp: code_inj elim: text_le.elims)

lemma pair_of_eq: "pair_of a b = pair_of c d \<longleftrightarrow> a = c \<and> b = d \<or> a = d \<and> b = c"
  using text_le_total text_le_antisym by (auto simp: pair_of_def)

lemma main_hub_role: "main_hub locs = Some h \<Longrightarrow> \<exists>l. dict_get locs h = Some l \<and> lo_role l \<in> set hub_roles"
proof (cases "find (\<lambda>(lid, l). lo_role l = ''hq'') (sorted_items locs)")
  case None
  assume "main_hub locs = Some h"
  with None have "h \<in> set (hub_ids locs)" by (auto simp: main_hub_def split: list.splits)
  then show ?thesis by (auto simp: hub_ids_def)
next
  case (Some p)
  assume "main_hub locs = Some h"
  with Some find_SomeD [OF Some] show ?thesis by (cases p) (auto simp: main_hub_def hub_roles_def)
qed

lemma isolated_addable:
  assumes "bp_wf locs links" and "f \<in> set (isolated_findings locs links)"
  shows "proposals_addable locs links f"
proof -
  from assms(2) obtain x l where x: "dict_get locs x = Some l" "lo_role l \<in> set spoke_roles" "x \<notin> set (linked_to_hub locs links)"
    and f: "bf_proposal f = map_option (\<lambda>h. [add_link_json h x ''vpn'' []]) (main_hub locs)"
    by (auto simp: in_isolated)
  show ?thesis
  proof (cases "main_hub locs")
    case (Some h)
    then obtain lh where h: "dict_get locs h = Some lh" "lo_role lh \<in> set hub_roles"
      using main_hub_role by blast
    have reach: "h \<in> set (linked_to_hub locs links)" using linked_to_hub_iff [OF assms(1)] h by blast
    have "pair_of (lk_a v) (lk_b v) \<noteq> pair_of h x" if "(k, v) \<in> set links" for k v
    proof
      assume "pair_of (lk_a v) (lk_b v) = pair_of h x"
      with that have "(h, x) \<in> joined links" by (auto simp: pair_of_eq joined_def)
      then have "x \<in> set (linked_to_hub locs links)" using linked_to_hub_iff [OF assms(1)] h by blast
      with x(3) show False by simp
    qed
    moreover have "h \<noteq> x" using reach x(3) by blast
    ultimately have "addable locs links h x ''vpn''" using h x by (auto simp: addable_def dict_has_get bp_kinds_def list_all_iff)
    then show ?thesis by (auto simp: proposals_addable_def f Some)
  qed (simp add: no_link_proposal f)
qed

text \<open>The proposals of the routes and of the tunnels: the pair is in no link of the kinds compared.\<close>

lemma addable_pair:
  assumes "dict_has locs a" and "dict_has locs b" and "b \<noteq> a" and "kind \<in> set bp_kinds" and "pair_of a b \<notin> set (linked_pairs ks)"
    and "\<And>k v. (k, v) \<in> set links \<Longrightarrow> lk_kind v = kind \<Longrightarrow> v \<in> set ks"
  shows "addable locs links a b kind"
  unfolding addable_def list_all_iff
proof (intro conjI ballI)
  fix p assume p: "p \<in> set links"
  obtain k v where kv: "p = (k, v)" by (cases p)
  have "pair_of (lk_a v) (lk_b v) \<noteq> pair_of a b" if "lk_kind v = kind"
  proof
    assume "pair_of (lk_a v) (lk_b v) = pair_of a b"
    moreover have "pair_of (lk_a v) (lk_b v) \<in> set (linked_pairs ks)"
      using assms(6) p that unfolding kv linked_pairs_def set_map by blast
    ultimately show False using assms(5) by simp
  qed
  then show "case p of (k, v) \<Rightarrow> lk_kind v = kind \<longrightarrow> pair_of (lk_a v) (lk_b v) \<noteq> pair_of a b" by (simp add: kv)
qed (use assms in simp_all)

lemma proposes_addable: "addable locs links a b kind \<Longrightarrow> proposals_addable locs links (bp_f c s x (Some [add_link_json a b kind []]) d)"
  by (simp add: proposals_addable_def)

lemma unlinked_route_addable:
  assumes "dict_has locs src" and "dict_has locs dst" and "\<forall>f \<in> set (fst acc). proposals_addable locs links f"
  shows "\<forall>f \<in> set (fst (unlinked_route (linked_pairs (map snd links)) nets tnames (src, l) (dst, m) acc)). proposals_addable locs links f"
proof (cases "dst = src \<or> pair_of src dst \<in> set (linked_pairs (map snd links)) \<or> pair_of src dst \<in> set (snd acc)")
  case True
  then show ?thesis using assms(3) by (cases acc) (auto simp: unlinked_route_def)
next
  case False
  have "addable locs links src dst kind" if "kind \<in> set bp_kinds" for kind
    using False assms(1,2) that by (intro addable_pair [where ks = "map snd links"]) force+
  then have "proposals_addable locs links (bp_f c s x (Some [add_link_json src dst (if q then ''vpn'' else ''wan'') []]) d)" for c s x q d
    by (intro proposes_addable) (simp add: bp_kinds_def)
  with False assms(3) show ?thesis by (cases acc) (auto simp: unlinked_route_def split: option.split)
qed

lemma unlinked_tunnel_addable:
  assumes "dict_has locs src" and "dict_has locs dst" and "\<forall>f \<in> set (fst acc). proposals_addable locs links f"
  shows "\<forall>f \<in> set (fst (unlinked_tunnel (linked_pairs (filter (\<lambda>k. lk_kind k = ''vpn'') (map snd links))) (src, l) t (dst, m) acc)).
     proposals_addable locs links f"
proof (cases "dst = src \<or> pair_of src dst \<in> set (linked_pairs (filter (\<lambda>k. lk_kind k = ''vpn'') (map snd links))) \<or> pair_of src dst \<in> set (snd acc)")
  case True
  then show ?thesis using assms(3) by (cases acc) (auto simp: unlinked_tunnel_def)
next
  case False
  have "addable locs links src dst ''vpn''"
    using False assms(1,2) by (intro addable_pair [where ks = "filter (\<lambda>k. lk_kind k = ''vpn'') (map snd links)"]) (force simp: bp_kinds_def)+
  then have "proposals_addable locs links (bp_f c s x (Some [add_link_json src dst ''vpn'' []]) d)" for c s x d
    by (rule proposes_addable)
  with False assms(3) show ?thesis by (cases acc) (auto simp: unlinked_tunnel_def)
qed

lemma item_of:
  assumes "p \<in> set (sorted_items d)"
  obtains k v where "p = (k, v)" and "dict_has d k"
proof -
  obtain k v where p: "p = (k, v)" by (cases p)
  with assms have "dict_get d k = Some v" unfolding p set_sorted_items by blast
  with p show ?thesis by (intro that [of k v]) (simp_all add: dict_has_get)
qed

lemma fold_holds: "P a \<Longrightarrow> (\<And>x a. x \<in> set xs \<Longrightarrow> P a \<Longrightarrow> P (f x a)) \<Longrightarrow> P (fold f xs a)"
  using fold_invariant [of xs "\<lambda>x. x \<in> set xs" P a f] by blast

lemma route_proposals_addable: "f \<in> set (route_proposals locs links routes tunnels) \<Longrightarrow> proposals_addable locs links f"
proof -
  let ?P = "\<lambda>acc. \<forall>f \<in> set (fst (acc :: proposing)). proposals_addable locs links f"
  have "?P (fold (\<lambda>(src, l) acc.
        case entry_at routes (lo_gateway l) of
          None \<Rightarrow> acc
        | Some e \<Rightarrow>
            let tnames = (case dict_get tunnels (lo_gateway l) of None \<Rightarrow> [] | Some t \<Rightarrow> map tn_name (te_tunnels t)) in
            fold (unlinked_route (linked_pairs (map snd links)) (route_nets e) tnames (src, l)) (sorted_items locs) acc)
        (sorted_items locs) ([], []))"
  proof (rule fold_holds)
    fix p acc assume "p \<in> set (sorted_items locs)" and acc: "?P acc"
    from this(1) obtain src l where p: "p = (src, l)" and has: "dict_has locs src" by (rule item_of)
    have "?P (fold (unlinked_route (linked_pairs (map snd links)) nets tnames (src, l)) (sorted_items locs) acc)" for nets tnames
    proof (rule fold_holds [where P = ?P, OF acc])
      fix q acc' assume "q \<in> set (sorted_items locs)" and acc': "?P acc'"
      from this(1) obtain dst m where q: "q = (dst, m)" and hasq: "dict_has locs dst" by (rule item_of)
      show "?P (unlinked_route (linked_pairs (map snd links)) nets tnames (src, l) q acc')"
        unfolding q by (rule unlinked_route_addable [OF has hasq acc'])
    qed
    with acc show "?P ((case p of (src, l) \<Rightarrow> \<lambda>acc. case entry_at routes (lo_gateway l) of
          None \<Rightarrow> acc
        | Some e \<Rightarrow>
            let tnames = (case dict_get tunnels (lo_gateway l) of None \<Rightarrow> [] | Some t \<Rightarrow> map tn_name (te_tunnels t)) in
            fold (unlinked_route (linked_pairs (map snd links)) (route_nets e) tnames (src, l)) (sorted_items locs) acc) acc)"
      unfolding p by (simp add: Let_def split: option.split)
  qed simp
  then show "f \<in> set (route_proposals locs links routes tunnels) \<Longrightarrow> proposals_addable locs links f"
    by (simp add: route_proposals_def)
qed

lemma tunnel_proposals_addable: "f \<in> set (tunnel_proposals locs links tunnels devices) \<Longrightarrow> proposals_addable locs links f"
proof -
  let ?P = "\<lambda>acc. \<forall>f \<in> set (fst (acc :: proposing)). proposals_addable locs links f"
  have "?P (fold (\<lambda>(src, l) acc.
        fold (\<lambda>t acc. if \<not> tn_up t then acc
            else fold (unlinked_tunnel (linked_pairs (filter (\<lambda>k. lk_kind k = ''vpn'') (map snd links))) (src, l) t) (sorted_items locs) acc)
          (case side_tunnels locs tunnels devices src of None \<Rightarrow> [] | Some ts \<Rightarrow> ts) acc)
        (sorted_items locs) ([], []))"
  proof (rule fold_holds)
    fix p acc assume "p \<in> set (sorted_items locs)" and acc: "?P acc"
    from this(1) obtain src l where p: "p = (src, l)" and has: "dict_has locs src" by (rule item_of)
    have inner: "?P (fold (unlinked_tunnel (linked_pairs (filter (\<lambda>k. lk_kind k = ''vpn'') (map snd links))) (src, l) t) (sorted_items locs) acc')"
      if "?P acc'" for t acc'
    proof (rule fold_holds [where P = ?P, OF that])
      fix q acc'' assume "q \<in> set (sorted_items locs)" and acc'': "?P acc''"
      from this(1) obtain dst m where q: "q = (dst, m)" and hasq: "dict_has locs dst" by (rule item_of)
      show "?P (unlinked_tunnel (linked_pairs (filter (\<lambda>k. lk_kind k = ''vpn'') (map snd links))) (src, l) t q acc'')"
        unfolding q by (rule unlinked_tunnel_addable [OF has hasq acc''])
    qed
    show "?P ((case p of (src, l) \<Rightarrow> \<lambda>acc.
        fold (\<lambda>t acc. if \<not> tn_up t then acc
            else fold (unlinked_tunnel (linked_pairs (filter (\<lambda>k. lk_kind k = ''vpn'') (map snd links))) (src, l) t) (sorted_items locs) acc)
          (case side_tunnels locs tunnels devices src of None \<Rightarrow> [] | Some ts \<Rightarrow> ts) acc) acc)"
      unfolding p case_prod_conv by (rule fold_holds [where P = ?P, OF acc]) (use inner in simp)
  qed simp
  then show "f \<in> set (tunnel_proposals locs links tunnels devices) \<Longrightarrow> proposals_addable locs links f"
    by (simp add: tunnel_proposals_def)
qed

lemma vpn_side_no_link: "vpn_side locs tunnels devices lkid side other = Some fs \<Longrightarrow> f \<in> set fs \<Longrightarrow> bf_proposal f = None"
proof -
  assume fs: "vpn_side locs tunnels devices lkid side other = Some fs" and f: "f \<in> set fs"
  from fs obtain ts where fs': "fs = (let matching = (case dict_get locs other of None \<Rightarrow> [] | Some l \<Rightarrow> filter (\<lambda>t. tunnel_matches t l) ts);
           found = (\<lambda>state tun. [bp_f ''vpn_link_down'' ''error'' (''link'', lkid) None
             [(''state'', JStr state), (''tunnel'', JStr tun), (''side'', JStr (name_of locs side)), (''other'', JStr (name_of locs other))]]) in
       case matching of
         [] \<Rightarrow> found ''missing'' []
       | t # ts' \<Rightarrow> if list_ex tn_up matching then [] else found ''down'' (tn_name t))"
    unfolding vpn_side_def map_option_eq_Some by blast
  show ?thesis
    using f unfolding fs' Let_def
    by (cases "case dict_get locs other of None \<Rightarrow> [] | Some l \<Rightarrow> filter (\<lambda>t. tunnel_matches t l) ts") (simp_all split: if_splits)
qed

lemma other_findings_no_link:
  "f \<in> set (overlap_findings locs) \<Longrightarrow> bf_proposal f = None"
  "f \<in> set (empty_findings locs) \<Longrightarrow> bf_proposal f = None"
  "f \<in> set (unused_findings locs devices arp) \<Longrightarrow> bf_proposal f = None"
  "f \<in> set (side_findings locs routes lkid src dst) \<Longrightarrow> bf_proposal f = None"
  "f \<in> set (vpn_link_findings locs tunnels devices lk) \<Longrightarrow> bf_proposal f = None"
  by (auto simp: overlap_findings_def empty_findings_def unused_findings_def side_findings_def vpn_link_findings_def
      Let_def in_map_filter dest: vpn_side_no_link [OF sym] split: if_splits option.splits)

lemma not_a_link [simp]: "set_gateway_json x ip \<noteq> add_link_json a b k n" "add_subnet_json x s \<noteq> add_link_json a b k n"
  by (simp_all add: set_gateway_json_def add_subnet_json_def add_link_json_def)

lemma gateway_findings_no_link: "f \<in> set (gateway_findings locs devices) \<Longrightarrow> proposals_addable locs links f"
  by (auto simp: gateway_findings_def Let_def in_map_filter proposals_addable_def split: if_splits list.splits)

lemma arp_findings_no_link: "f \<in> set (arp_findings locs arp) \<Longrightarrow> proposals_addable locs links f"
  by (auto simp: arp_findings_def proposals_addable_def)

lemma all_findings_in: "all_findings xs = Some fs \<Longrightarrow> f \<in> set fs \<Longrightarrow> Some (Some f) \<in> set xs"
  by (induction xs arbitrary: fs rule: all_findings.induct) auto

lemma device_findings_no_link:
  assumes "all_findings (map (device_finding locs) devices) = Some fs" and "f \<in> set fs"
  shows "proposals_addable locs links f"
proof -
  from all_findings_in [OF assms] obtain d where "device_finding locs d = Some (Some f)" by auto
  then show ?thesis
    by (auto simp: device_finding_def Let_def proposals_addable_def split: option.splits if_splits)
qed

lemma run_checks_addable:
  assumes "bp_wf (bv_locs view) (bv_links view)" and "run_checks view devices arp routes tunnels = Some fs" and "f \<in> set fs"
  shows "proposals_addable (bv_locs view) (bv_links view) f"
proof -
  from assms(2) obtain sub where sub: "subnet_checks (bv_locs view) devices arp = Some sub"
    and fs: "set fs = set (model_checks (bv_locs view) (bv_links view) devices @ sub
      @ routing_checks (bv_locs view) (bv_links view) routes tunnels @ vpn_checks (bv_locs view) (bv_links view) tunnels devices)"
    by (auto simp: run_checks_def Let_def set_insert_findings simp del: foldr_append)
  from sub obtain ds where "all_findings (map (device_finding (bv_locs view)) devices) = Some ds"
    and "sub = ds @ arp_findings (bv_locs view) arp @ unused_findings (bv_locs view) devices arp"
    by (auto simp: subnet_checks_def)
  moreover have "f \<in> set (model_checks (bv_locs view) (bv_links view) devices) \<or> f \<in> set sub
      \<or> f \<in> set (routing_checks (bv_locs view) (bv_links view) routes tunnels)
      \<or> f \<in> set (vpn_checks (bv_locs view) (bv_links view) tunnels devices)" using assms(3) fs by auto
  ultimately show ?thesis
    unfolding model_checks_def routing_checks_def vpn_checks_def
    using isolated_addable [OF assms(1)]
    by (auto intro: route_proposals_addable tunnel_proposals_addable device_findings_no_link gateway_findings_no_link arp_findings_no_link
        no_link_proposal other_findings_no_link)
qed

lemma apply_add_link_between:
  assumes "link_wf locs k v" and "lk_org v = org" and "resolve_loc org t (JStr a) = Inr a" and "resolve_loc org t (JStr b) = Inr b"
    and "a \<noteq> b" and "pair_of a b = (lk_a v, lk_b v)" and "dict_get (bt_links t) k = None"
  shows "apply_op repr probes org (add_link_json a b (lk_kind v) (lk_note v)) t = Inr (t\<lparr>bt_links := dict_set k v (bt_links t)\<rparr>)"
proof -
  have kept: "take max_note (str_or_empty repr (JStr s)) = s" if "length s \<le> max_note" for s
    using that by (simp add: str_or_empty_def)
  have ends: "(if text_le a b then a else b) = lk_a v" "(if text_le a b then b else a) = lk_b v"
    using assms(6) by (auto simp: pair_of_def split: if_splits)
  have k: "link_id a b (lk_kind v) = k" using assms(1,6) by (auto simp: link_wf_def link_id_def pair_of_def split: if_splits)
  have v: "\<lparr>lk_org = org, lk_a = lk_a v, lk_b = lk_b v, lk_kind = lk_kind v, lk_note = lk_note v\<rparr> = v"
    using assms(2) by simp
  from assms show ?thesis
    by (simp add: ends k v apply_op_def add_link_json_def add_link_op_def op_get_def kept dict_has_def link_wf_def Let_def)
qed

text \<open>
  The link that a finding on the model proposes (for an isolated location, for a route or for a tunnel to a
  location not linked yet) can be added as it is: the draft made of the proposal applies to the tables.
\<close>

theorem proposed_link_applies:
  assumes "bp_wf locs links" and "run_checks (org_view locs links org) devices arp routes tunnels = Some fs"
    and "f \<in> set fs" and "bf_proposal f = Some [add_link_json a b kind nt]"
  shows "\<exists>t. apply_ops repr probes org locs links [add_link_json a b kind nt] = Inr t
    \<and> bt_locs t = locs \<and> dict_has (bt_links t) (link_id a b kind)"
proof -
  let ?view = "org_view locs links org" and ?t = "\<lparr>bt_locs = locs, bt_links = links, bt_refs = []\<rparr>"
  note wfv = org_view_wf [OF assms(1), of org]
  have "proposals_addable (bv_locs ?view) (bv_links ?view) f" by (rule run_checks_addable [OF wfv assms(2,3)])
  then have nt: "nt = []" and ok: "addable (bv_locs ?view) (bv_links ?view) a b kind" using assms(4) by (auto simp: proposals_addable_def)
  note get = org_view_get [OF assms(1), of org]
  from ok obtain la lb where ab: "a \<noteq> b" and kind: "kind \<in> set bp_kinds"
    and la: "dict_get locs a = Some la" "lo_org la = org" and lb: "dict_get locs b = Some lb" "lo_org lb = org"
    by (auto simp: addable_def dict_has_get get split: option.splits if_splits)
  have names: "names_loc org ?t a" "names_loc org ?t b" using la lb by (simp_all add: names_loc_def)
  define v where "v = \<lparr>lk_org = org, lk_a = fst (pair_of a b), lk_b = snd (pair_of a b), lk_kind = kind, lk_note = []\<rparr>"
  have wfl: "link_wf locs (link_id a b kind) v"
    using ab kind la lb text_le_total [of a b] by (auto simp: link_wf_def v_def pair_of_def link_id_def text_le_refl)
  have "dict_get links (link_id a b kind) = None"
  proof (rule ccontr)
    assume "dict_get links (link_id a b kind) \<noteq> None"
    then obtain w where w: "dict_get links (link_id a b kind) = Some w" by blast
    have ww: "link_wf locs (link_id a b kind) w" using bp_wf_link [OF assms(1) map_of_SomeD [OF w]] .
    have slugs: "slug_ok a" "slug_ok b" using bp_wf_loc [OF assms(1) map_of_SomeD] la(1) lb(1) by blast+
    obtain lw where lw: "dict_get locs (lk_a w) = Some lw" "lo_org lw = lk_org w" using ww by (auto simp: link_wf_def)
    have end_slugs: "slug_ok (lk_a w)" "slug_ok (lk_b w)"
      using ww bp_wf_loc [OF assms(1) map_of_SomeD] by (auto simp: link_wf_def)
    have va: "slug_ok (lk_a v)" "slug_ok (lk_b v)" using slugs by (simp_all add: v_def pair_of_def)
    have a: "lk_a v = lk_a w" using link_wf_same_end [OF wfl ww va(1) end_slugs(1)] .
    have eq: "lk_a v @ ''--'' @ lk_b v @ ''--'' @ lk_kind v = lk_a w @ ''--'' @ lk_b w @ ''--'' @ lk_kind w"
      using wfl ww by (simp add: link_wf_def link_id_def)
    then have eqb: "lk_b v @ ''--'' @ lk_kind v = lk_b w @ ''--'' @ lk_kind w" by (simp add: a)
    have b: "lk_b v = lk_b w" by (rule slug_prefix_eq [OF va(2) end_slugs(2) eqb])
    with eqb have k: "lk_kind v = lk_kind w" by simp
    have "lk_org w = org"
    proof -
      have "lk_a w = a \<or> lk_a w = b" using a by (auto simp: v_def pair_of_def split: if_splits)
      with lw la lb show ?thesis by auto
    qed
    then have "dict_get (bv_links ?view) (link_id a b kind) = Some w" using w by (simp add: get)
    then have "pair_of (lk_a w) (lk_b w) \<noteq> pair_of a b"
      using ok k by (auto simp: addable_def list_all_iff v_def dest!: map_of_SomeD)
    moreover have "pair_of (lk_a w) (lk_b w) = pair_of a b"
      using a b by (simp add: v_def pair_of_eq) (simp add: pair_of_def split: if_splits)
    ultimately show False by simp
  qed
  then have "apply_op repr probes org (add_link_json a b (lk_kind v) (lk_note v)) ?t = Inr (?t\<lparr>bt_links := dict_set (link_id a b kind) v (bt_links ?t)\<rparr>)"
    using resolve_names_loc [OF names(1)] resolve_names_loc [OF names(2)] ab names
    by (intro apply_add_link_between [OF wfl]) (simp_all add: v_def pair_of_def)
  then show ?thesis by (simp add: apply_ops_def max_draft_ops_def nt v_def)
qed

lemma proposed_link_applies_witness:
  "\<exists>t. apply_ops (\<lambda>j. []) [] ''acme'' ex_locs ex_links [add_link_json ''hub'' ''lab'' ''vpn'' []] = Inr t
    \<and> bt_locs t = ex_locs \<and> dict_has (bt_links t) (link_id ''hub'' ''lab'' ''vpn'')"
proof (rule proposed_link_applies [where devices = "[]" and arp = "[]" and routes = "[]" and tunnels = "[]"
      and fs = "the (run_checks (org_view ex_locs ex_links ''acme'') [] [] [] [])" and f = "hd (isolated_findings ex_locs ex_links)"])
  show "bp_wf ex_locs ex_links" by code_simp
  show "run_checks (org_view ex_locs ex_links ''acme'') [] [] [] [] = Some (the (run_checks (org_view ex_locs ex_links ''acme'') [] [] [] []))"
    by code_simp
  show "hd (isolated_findings ex_locs ex_links) \<in> set (the (run_checks (org_view ex_locs ex_links ''acme'') [] [] [] []))" by code_simp
  show "bf_proposal (hd (isolated_findings ex_locs ex_links)) = Some [add_link_json ''hub'' ''lab'' ''vpn'' []]" by code_simp
qed

text \<open>
  A tunnel with the selector of every address, as a route-based tunnel has it, matches every location with a subnet, so it is
  proposed as a link to each of them.
\<close>

lemma any_selector_matches:
  "map (tunnel_matches \<lparr>tn_name = ''t1'', tn_remote = ''198.51.100.7'', tn_dst = [''0.0.0.0/0''], tn_up = True\<rparr>) (map snd ex_locs)
   = [True, True, True]"
  by code_simp

end
