(* ===== verification/Route_Table.thy ===== *)
theory Route_Table
  imports Blueprint_Model
begin

text \<open>
  \<open>services/route_table.py\<close>: the routing tables that the devices publish, in one shape. The answers of a device
  (its command line, its REST interface, the analysis of its backup, its transports and the mode of its probe) are
  arguments; the regular expressions of the IOS parser are written out as functions on the text. The columns
  network, gateway and interface of a row hold text: a value of another type counts as absent. Shown here:
  the table that IOS prints is read back, and three layouts that are not.
\<close>

section \<open>Types of routes\<close>

definition route_aliases :: "string dict" where
  "route_aliases =
     [(''connect'', ''connected''), (''connected'', ''connected''), (''direct'', ''connected''), (''local'', ''local''),
      (''static'', ''static''), (''ospf'', ''ospf''), (''ospf-inter-area'', ''ospf''), (''ospf-external'', ''ospf''),
      (''bgp'', ''bgp''), (''rip'', ''rip''), (''isis'', ''isis''), (''eigrp'', ''eigrp'')]"

text \<open>The text of a true value that is not text is never an alias and never blank.\<close>

definition normalize_type :: "json \<Rightarrow> string" where
  "normalize_type raw =
     (if \<not> json_true raw then ''unknown''
      else case raw of
        JStr s \<Rightarrow>
          (let key = py_lower (py_strip s) in
           case dict_get route_aliases key of Some t \<Rightarrow> t | None \<Rightarrow> if key = [] then ''unknown'' else ''other'')
      | _ \<Rightarrow> ''other'')"

section \<open>The output of show ip route\<close>

definition ios_code_types :: "(char \<times> string) list" where
  "ios_code_types =
     [(CHR ''C'', ''connected''), (CHR ''L'', ''local''), (CHR ''S'', ''static''), (CHR ''R'', ''rip''),
      (CHR ''B'', ''bgp''), (CHR ''O'', ''ospf''), (CHR ''D'', ''eigrp''), (CHR ''i'', ''isis''), (CHR ''M'', ''other'')]"

definition is_letter :: "char \<Rightarrow> bool" where
  "is_letter c \<longleftrightarrow> (let n = code c in 65 \<le> n \<and> n \<le> 90 \<or> 97 \<le> n \<and> n \<le> 122)"

text \<open>\<open>\d{1,3}(?:\.\d{1,3}){3}\<close> at the start of the text, and what follows.\<close>

definition octet_run :: "string \<Rightarrow> (string \<times> string) option" where
  "octet_run s = (let w = take 3 (takeWhile is_digit s) in if w = [] then None else Some (w, drop (length w) s))"

fun dotted_run :: "nat \<Rightarrow> string \<Rightarrow> (string \<times> string) option" where
  "dotted_run 0 s = octet_run s"
| "dotted_run (Suc n) s =
     (case octet_run s of
        Some (w, CHR ''.'' # r) \<Rightarrow> map_option (\<lambda>(v, rest). (w @ ''.'' @ v, rest)) (dotted_run n r)
      | _ \<Rightarrow> None)"

text \<open>\<open>\d+\<close>, and \<open>\s+\<close>.\<close>

definition digit_run :: "string \<Rightarrow> (nat \<times> string) option" where
  "digit_run s = (let w = takeWhile is_digit s in if w = [] then None else Some (digits_val w, drop (length w) s))"

definition spaces :: "string \<Rightarrow> string option" where
  "spaces s = (if s = [] \<or> \<not> py_isspace (hd s) then None else Some (py_lstrip s))"

definition literal :: "string \<Rightarrow> string \<Rightarrow> string option" where
  "literal p s = (if starts_with p s then Some (drop (length p) s) else None)"

definition bind_o :: "'a option \<Rightarrow> ('a \<Rightarrow> 'b option) \<Rightarrow> 'b option" where
  "bind_o x f = (case x of None \<Rightarrow> None | Some y \<Rightarrow> f y)"

lemma bind_o_simps [simp]: "bind_o None f = None" "bind_o (Some x) f = f x"
  by (simp_all add: bind_o_def)

record ios_hop =
  ih_dist :: nat
  ih_metric :: nat
  ih_gw :: string
  ih_tail :: string

text \<open>\<open>\[(\d+)/(\d+)\]\s+via\s+\<close> with the address and the tail: at the start, and searched.\<close>

definition via_at :: "string \<Rightarrow> ios_hop option" where
  "via_at s =
     bind_o (literal ''['' s) (\<lambda>s1. bind_o (digit_run s1) (\<lambda>(d, s2).
     bind_o (literal ''/'' s2) (\<lambda>s3. bind_o (digit_run s3) (\<lambda>(m, s4).
     bind_o (literal '']'' s4) (\<lambda>s5. bind_o (spaces s5) (\<lambda>s6. bind_o (literal ''via'' s6) (\<lambda>s7.
     bind_o (spaces s7) (\<lambda>s8. bind_o (dotted_run 3 s8) (\<lambda>(gw, tail).
       Some \<lparr>ih_dist = d, ih_metric = m, ih_gw = gw, ih_tail = tail\<rparr>)))))))))"

definition connected_at :: "string \<Rightarrow> string option" where
  "connected_at s =
     bind_o (literal ''is'' s) (\<lambda>s1. bind_o (spaces s1) (\<lambda>s2. bind_o (literal ''directly'' s2) (\<lambda>s3.
     bind_o (spaces s3) (\<lambda>s4. bind_o (literal ''connected,'' s4) (\<lambda>s5.
       let w = takeWhile (\<lambda>c. \<not> py_isspace c) (py_lstrip s5) in if w = [] then None else Some w)))))"

fun search_at :: "(string \<Rightarrow> 'a option) \<Rightarrow> string \<Rightarrow> 'a option" where
  "search_at f [] = f []"
| "search_at f (c # cs) = (case f (c # cs) of Some x \<Rightarrow> Some x | None \<Rightarrow> search_at f cs)"

definition ios_extra_hop :: "string \<Rightarrow> ios_hop option" where
  "ios_extra_hop line = bind_o (spaces line) via_at"

definition ios_qualifiers :: "string list" where
  "ios_qualifiers = [''IA'', ''EX'', ''E1'', ''E2'', ''N1'', ''N2'', ''L1'', ''L2'', ''su'']"

text \<open>\<open>(?:/\d{1,2})?\<close>, then the rest of the line after spaces.\<close>

definition ios_mask :: "string \<Rightarrow> string \<times> string" where
  "ios_mask s =
     (case s of
        CHR ''/'' # t \<Rightarrow> (let w = take 2 (takeWhile is_digit t) in if w = [] then ([], s) else (''/'' @ w, drop (length w) t))
      | _ \<Rightarrow> ([], s))"

definition ios_route :: "string \<Rightarrow> (char \<times> string \<times> string) option" where
  "ios_route s =
     (case s of
        [] \<Rightarrow> None
      | c # cs \<Rightarrow>
          if \<not> is_letter c then None
          else bind_o (spaces (case cs of CHR ''*'' # t \<Rightarrow> t | _ \<Rightarrow> cs)) (\<lambda>s1.
               bind_o (if list_ex (\<lambda>q. starts_with q s1) ios_qualifiers then spaces (drop 2 s1) else Some s1) (\<lambda>s2.
               bind_o (dotted_run 3 s2) (\<lambda>(quad, s3).
                 let (mask, s4) = ios_mask s3 in
                 if s4 = [] then Some (c, quad @ mask, [])
                 else bind_o (spaces s4) (\<lambda>rest. Some (c, quad @ mask, rest))))))"

text \<open>\<open>_ios_interface\<close>: the last field of the tail, unless it is an age.\<close>

definition is_age :: "string \<Rightarrow> bool" where
  "is_age s \<longleftrightarrow> s \<noteq> [] \<and> list_all (\<lambda>c. is_digit c \<or> c = CHR '':'') s
     \<or> (case dropWhile is_digit s of
          [] \<Rightarrow> False
        | c # r \<Rightarrow> takeWhile is_digit s \<noteq> [] \<and> c \<in> set ''dwyhm''
            \<and> (case dropWhile is_digit r of [] \<Rightarrow> True | [d] \<Rightarrow> d \<in> set ''dwyhm'' | _ \<Rightarrow> False))
     \<or> s = ''never''"

definition ios_interface :: "string \<Rightarrow> string" where
  "ios_interface tail =
     (let parts = filter (\<lambda>x. x \<noteq> []) (map py_strip (split_on (CHR '','') tail)) in
      if parts = [] \<or> is_age (last parts) then [] else last parts)"

record ios_row =
  io_network :: string
  io_gateway :: string
  io_interface :: string
  io_type :: string
  io_distance :: nat
  io_metric :: nat

definition with_hop :: "ios_row \<Rightarrow> ios_hop \<Rightarrow> ios_row" where
  "with_hop r h = r\<lparr>io_gateway := ih_gw h, io_interface := ios_interface (ih_tail h),
     io_distance := ih_dist h, io_metric := ih_metric h\<rparr>"

definition ios_skip :: "string \<Rightarrow> bool" where
  "ios_skip line \<longleftrightarrow>
     (let low = py_lower (py_strip line) in
      low = [] \<or> starts_with ''codes:'' low \<or> starts_with ''gateway of last resort'' low
      \<or> str_contains ''subnetted'' low \<or> starts_with ''%'' low)"

text \<open>A line that starts a route: the network waits for its next hop when nothing follows it.\<close>

definition ios_start :: "char \<Rightarrow> string \<Rightarrow> string \<Rightarrow> ios_row list \<times> ios_row option \<Rightarrow> ios_row list \<times> ios_row option" where
  "ios_start c net rest st =
     (case map_of ios_code_types c of
        None \<Rightarrow> st
      | Some t \<Rightarrow>
          (let row = \<lparr>io_network = net, io_gateway = [], io_interface = [], io_type = t, io_distance = 0, io_metric = 0\<rparr> in
           if py_strip rest = [] then (fst st, Some row)
           else case search_at connected_at rest of
             Some intf \<Rightarrow> (fst st @ [row\<lparr>io_interface := intf\<rparr>], None)
           | None \<Rightarrow> (case search_at via_at rest of
                 Some h \<Rightarrow> (fst st @ [with_hop row h], None)
               | None \<Rightarrow> (fst st, None))))"

definition ios_line :: "string \<Rightarrow> ios_row list \<times> ios_row option \<Rightarrow> ios_row list \<times> ios_row option" where
  "ios_line raw st =
     (let line = py_rstrip raw; rows = fst st; pending = snd st;
          route = (case ios_route (py_strip line) of None \<Rightarrow> st | Some (c, net, rest) \<Rightarrow> ios_start c net rest st) in
      if ios_skip line then st
      else case (ios_extra_hop line, if pending \<noteq> None then pending else if rows = [] then None else Some (last rows)) of
        (Some h, Some base) \<Rightarrow> (rows @ [with_hop base h], pending)
      | _ \<Rightarrow>
          (case pending of
             None \<Rightarrow> route
           | Some p \<Rightarrow>
               (case search_at connected_at line of
                  Some intf \<Rightarrow> (rows @ [p\<lparr>io_interface := intf\<rparr>], pending)
                | None \<Rightarrow> route)))"

definition parse_ios_routes :: "string \<Rightarrow> ios_row list" where
  "parse_ios_routes output = fst (fold ios_line (splitlines output) ([], None))"

section \<open>Rows\<close>

record rt_row =
  rw_device :: string
  rw_device_ip :: string
  rw_probe :: string
  rw_group :: string
  rw_vendor :: string
  rw_network :: string
  rw_vrf :: json
  rw_source_kind :: string
  rw_gateway :: string
  rw_interface :: string
  rw_type :: string
  rw_raw_type :: json
  rw_distance :: json
  rw_metric :: json
  rw_from_backup :: bool

definition dev_get :: "string dict \<Rightarrow> string \<Rightarrow> string" where
  "dev_get d k = (case dict_get d k of None \<Rightarrow> [] | Some v \<Rightarrow> v)"

definition or_default :: "string \<Rightarrow> string \<Rightarrow> string" where
  "or_default a b = (if a = [] then b else a)"

definition text_of :: "json \<Rightarrow> string" where
  "text_of j = (case j of JStr s \<Rightarrow> s | _ \<Rightarrow> [])"

definition route_source :: "string dict \<Rightarrow> string" where
  "route_source device =
     (let v = py_lower (dev_get device ''Vendor'') in
      if v = ''fortinet'' then ''rest'' else if v = ''cisco'' then ''ios-cli'' else [])"

definition routable_devices :: "string dict list \<Rightarrow> string dict list" where
  "routable_devices ds = filter (\<lambda>d. route_source d \<noteq> [] \<and> dev_get d ''IP'' \<noteq> []) ds"

definition rt_row_of :: "string dict \<Rightarrow> json dict \<Rightarrow> rt_row" where
  "rt_row_of device e = \<lparr>
     rw_device = or_default (dev_get device ''Hostname'') (dev_get device ''IP''),
     rw_device_ip = dev_get device ''IP'',
     rw_probe = or_default (dev_get device ''Probe'') ''central'',
     rw_group = dev_get device ''Group'',
     rw_vendor = py_lower (dev_get device ''Vendor''),
     rw_network = or_default (text_of (op_get e ''ip_mask'')) (text_of (op_get e ''network'')),
     rw_vrf = json_or (op_get e ''vrf'') (JStr []),
     rw_source_kind = route_source device,
     rw_gateway = text_of (op_get e ''gateway''),
     rw_interface = text_of (op_get e ''interface''),
     rw_type = normalize_type (op_get e ''type''),
     rw_raw_type = json_or (op_get e ''type'') (JStr []),
     rw_distance = op_get e ''distance'',
     rw_metric = op_get e ''metric'',
     rw_from_backup = json_true (op_get e ''from_backup'')\<rparr>"

definition ios_entry :: "ios_row \<Rightarrow> json dict" where
  "ios_entry r = [(''network'', JStr (io_network r)), (''gateway'', JStr (io_gateway r)), (''interface'', JStr (io_interface r)),
     (''type'', JStr (io_type r)), (''distance'', JInt (int (io_distance r))), (''metric'', JInt (int (io_metric r)))]"

section \<open>Static routes of the backup\<close>

text \<open>\<open>_hop\<close>: the next hop is an address or an interface.\<close>

definition backup_hop :: "string \<Rightarrow> string \<times> string" where
  "backup_hop value =
     (let text = py_strip value in
      case dotted_run 3 text of Some (_, []) \<Rightarrow> (text, []) | _ \<Rightarrow> ([], text))"

definition backup_distance :: "json dict \<Rightarrow> json" where
  "backup_distance r =
     (let d = json_or (op_get r ''distance'') (op_get r ''ad'') in
      case d of
        JInt i \<Rightarrow> if i \<ge> 0 \<and> json_true d then JInt i else JNull
      | JStr s \<Rightarrow> if py_isdigit s then JInt (int (digits_val s)) else JNull
      | _ \<Rightarrow> JNull)"

definition backup_entry :: "json dict \<Rightarrow> json dict" where
  "backup_entry r =
     (let (gateway, intf) = backup_hop (text_of (op_get r ''next_hop'')) in
      [(''network'', JStr (text_of (op_get r ''prefix''))), (''gateway'', JStr gateway),
       (''interface'', JStr (or_default intf (text_of (op_get r ''device'')))), (''type'', JStr ''static''),
       (''vrf'', JStr (text_of (op_get r ''vrf''))), (''distance'', backup_distance r), (''from_backup'', JBool True)])"

record rt_answer =
  an_source :: "string option"
  an_error :: "string option"
  an_backup_ts :: "int option"
  an_rows :: "rt_row list"

text \<open>The static routes and the time of the last backup of the device, as its analysis gives them.\<close>

definition routes_from_backup :: "string dict \<Rightarrow> (json dict list \<times> int) option \<Rightarrow> rt_answer option" where
  "routes_from_backup device analysis =
     (case analysis of
        None \<Rightarrow> None
      | Some (statics, ts) \<Rightarrow>
          if statics = [] then None
          else Some \<lparr>an_source = Some ''backup'', an_error = None, an_backup_ts = Some ts,
                 an_rows = map (\<lambda>r. rt_row_of device (backup_entry r)) statics\<rparr>)"

section \<open>Collecting\<close>

definition failed_answer :: "string option \<Rightarrow> string \<Rightarrow> rt_answer" where
  "failed_answer src e = \<lparr>an_source = src, an_error = Some e, an_backup_ts = None, an_rows = []\<rparr>"

definition rows_answer :: "string option \<Rightarrow> rt_row list \<Rightarrow> rt_answer" where
  "rows_answer src rows = \<lparr>an_source = src, an_error = None, an_backup_ts = None, an_rows = rows\<rparr>"

text \<open>What the device answers: the session (its error, or its output) and the REST request (its error, or source and data).\<close>

record live_device =
  lv_manual :: bool
  lv_agent :: bool
  lv_cli :: "string option + json"
  lv_rest :: "string + string option \<times> json"

definition collect_ios :: "string dict \<Rightarrow> live_device \<Rightarrow> rt_answer" where
  "collect_ios device w =
     (case lv_cli w of
        Inl m \<Rightarrow> failed_answer None (case m of None \<Rightarrow> ''SSH fallito'' | Some e \<Rightarrow> or_default e ''SSH fallito'')
      | Inr output \<Rightarrow>
          (let parsed = parse_ios_routes (text_of output) in
           if parsed = [] then failed_answer (Some ''ssh'')
             ''nessuna rotta nella risposta: switch senza routing, oppure output in un formato non riconosciuto''
           else rows_answer (Some ''ssh'') (map (\<lambda>r. rt_row_of device (ios_entry r)) parsed)))"

definition collect_live :: "string dict \<Rightarrow> live_device \<Rightarrow> rt_answer" where
  "collect_live device w =
     (if lv_manual w then failed_answer None ''dispositivo manuale: rotte dalla config caricata''
      else if lv_agent w then failed_answer None
        ''sede in modalita' agent: il centrale non raggiunge questo apparato''
      else if route_source device = ''ios-cli'' then collect_ios device w
      else case lv_rest w of
        Inl e \<Rightarrow> failed_answer None e
      | Inr (src, JList data) \<Rightarrow>
          rows_answer src (List.map_filter (\<lambda>e. case e of JObj d \<Rightarrow> Some (rt_row_of device d) | _ \<Rightarrow> None) data)
      | Inr (src, _) \<Rightarrow> failed_answer src
          ''solo testo CLI: la tabella per questo apparato e' leggibile nella tab FortiGate'')"

definition row_key :: "rt_row \<Rightarrow> json \<times> string \<times> string" where
  "row_key r = (rw_vrf r, rw_network r, rw_gateway r)"

fun add_unseen :: "(json \<times> string \<times> string) list \<Rightarrow> rt_row list \<Rightarrow> rt_row list" where
  "add_unseen seen [] = []"
| "add_unseen seen (r # rs) =
     (if row_key r \<in> set seen then add_unseen seen rs else r # add_unseen (row_key r # seen) rs)"

definition collect_for :: "string dict \<Rightarrow> live_device \<Rightarrow> (json dict list \<times> int) option \<Rightarrow> rt_answer" where
  "collect_for device w analysis =
     (let answer = collect_live device w in
      case routes_from_backup device analysis of
        None \<Rightarrow> answer
      | Some fallback \<Rightarrow>
          if an_rows answer = [] then fallback\<lparr>an_error := Some (case an_error answer of None \<Rightarrow> [] | Some e \<Rightarrow> e)\<rparr>
          else answer\<lparr>an_rows := an_rows answer @ add_unseen (map row_key (an_rows answer)) (an_rows fallback)\<rparr>)"

section \<open>Policy routes, SD-WAN, counts\<close>

definition cidr_text :: "string \<Rightarrow> string" where
  "cidr_text subnet =
     (let text = py_strip subnet in
      case ip_network (map (\<lambda>c. if c = CHR '' '' then CHR ''/'' else c) text) of Some n \<Rightarrow> str_net n | None \<Rightarrow> text)"

record policy_route =
  pr_seq :: json
  pr_enabled :: bool
  pr_permit :: bool
  pr_input :: "json list"
  pr_src :: "json list"
  pr_dst :: "json list"
  pr_gateway :: json
  pr_output :: json
  pr_comment :: json

definition named_items :: "json dict \<Rightarrow> string \<Rightarrow> string \<Rightarrow> json list" where
  "named_items p key attr =
     (case op_get p key of
        JList xs \<Rightarrow> List.map_filter (\<lambda>x. case x of JObj d \<Rightarrow> if json_true (op_get d attr) then Some (op_get d attr) else None
                                            | _ \<Rightarrow> None) xs
      | _ \<Rightarrow> [])"

definition subnet_items :: "json dict \<Rightarrow> string \<Rightarrow> json list" where
  "subnet_items p key = map (\<lambda>s. JStr (cidr_text (text_of s))) (named_items p key ''subnet'')"

definition policy_route_of :: "json dict \<Rightarrow> policy_route" where
  "policy_route_of p = \<lparr>
     pr_seq = op_get p ''seq-num'',
     pr_enabled = (json_or (op_get p ''status'') (JStr ''enable'') = JStr ''enable''),
     pr_permit = (json_or (op_get p ''action'') (JStr ''permit'') = JStr ''permit''),
     pr_input = named_items p ''input-device'' ''name'',
     pr_src = subnet_items p ''src'' @ named_items p ''srcaddr'' ''name'',
     pr_dst = subnet_items p ''dst'' @ named_items p ''dstaddr'' ''name'',
     pr_gateway = json_or (op_get p ''gateway'') (JStr []),
     pr_output = json_or (op_get p ''output-device'') (JStr []),
     pr_comment = json_or (op_get p ''comments'') (JStr [])\<rparr>"

definition policy_routes :: "json \<Rightarrow> policy_route list" where
  "policy_routes data =
     (case data of
        JList ps \<Rightarrow> List.map_filter (\<lambda>p. case p of JObj d \<Rightarrow> Some (policy_route_of d) | _ \<Rightarrow> None) ps
      | _ \<Rightarrow> [])"

record sdwan_check =
  sc_name :: string
  sc_status :: json
  sc_latency :: json
  sc_jitter :: json
  sc_loss :: json

definition sdwan_add :: "string \<Rightarrow> string \<times> json \<Rightarrow> sdwan_check list dict \<Rightarrow> sdwan_check list dict" where
  "sdwan_add check = (\<lambda>(iface, st) members.
     case st of
       JObj d \<Rightarrow>
         (let c = \<lparr>sc_name = check, sc_status = json_or (op_get d ''status'') (JStr []), sc_latency = op_get d ''latency'',
                   sc_jitter = op_get d ''jitter'', sc_loss = op_get d ''packet_loss''\<rparr>;
              old = (case dict_get members iface of None \<Rightarrow> [] | Some cs \<Rightarrow> cs) in
          dict_set iface (old @ [c]) members)
     | _ \<Rightarrow> members)"

definition sdwan_state :: "sdwan_check list \<Rightarrow> string" where
  "sdwan_state checks =
     (let dead = filter (\<lambda>c. sc_status c \<noteq> JStr ''up'') checks in
      if length dead = length checks then ''down'' else if dead \<noteq> [] then ''degraded'' else ''up'')"

definition sdwan_members :: "json \<Rightarrow> (string \<times> string \<times> sdwan_check list) list" where
  "sdwan_members data =
     (case data of
        JObj d \<Rightarrow> map (\<lambda>(iface, checks). (iface, sdwan_state checks, checks))
          (fold (\<lambda>(check, per) members. case per of JObj m \<Rightarrow> fold (sdwan_add check) m members | _ \<Rightarrow> members) d [])
      | _ \<Rightarrow> [])"

definition bump :: "string \<Rightarrow> nat dict \<Rightarrow> nat dict" where
  "bump k d = dict_set k ((case dict_get d k of None \<Rightarrow> 0 | Some n \<Rightarrow> n) + 1) d"

definition group_counts :: "rt_row list \<Rightarrow> nat dict dict" where
  "group_counts rows =
     fold (\<lambda>r out. dict_set (rw_device r)
       (bump (rw_type r) (case dict_get out (rw_device r) of None \<Rightarrow> [] | Some d \<Rightarrow> d)) out) rows []"

end
