(* ===== verification/Route_Table_Sound.thy ===== *)
theory Route_Table_Sound
  imports Route_Table
begin

text \<open>
  What \<open>parse_ios_routes\<close> reads. A printer writes routes the way IOS lays them out: connected networks, learned routes
  with one or more next hops, and learned routes whose network fills the line, so that the next hops follow. Shown
  here: the printed table is read back when no connected network follows a broken line, and what is read when one does.
\<close>

section \<open>The table as IOS prints it\<close>

record shown_hop =
  sh_dist :: nat
  sh_metric :: nat
  sh_gw :: u32
  sh_intf :: string

datatype shown_kind = Direct string | Learned bool "shown_hop list"

record shown_route =
  sr_code :: char
  sr_base :: u32
  sr_plen :: nat
  sr_kind :: shown_kind

definition print_hop :: "shown_hop \<Rightarrow> string" where
  "print_hop h = ''['' @ str_nat (sh_dist h) @ ''/'' @ str_nat (sh_metric h) @ ''] via '' @ int_to_ip (sh_gw h)
     @ '', 00:05:23, '' @ sh_intf h"

definition print_extra :: "shown_hop \<Rightarrow> string" where
  "print_extra h = ''           '' @ print_hop h"

definition print_net :: "shown_route \<Rightarrow> string" where
  "print_net r = int_to_ip (sr_base r) @ ''/'' @ str_nat (sr_plen r)"

definition print_start :: "shown_route \<Rightarrow> string" where
  "print_start r = sr_code r # ''        '' @ print_net r"

definition print_route :: "shown_route \<Rightarrow> string list" where
  "print_route r =
     (case sr_kind r of
        Direct i \<Rightarrow> [print_start r @ '' is directly connected, '' @ i]
      | Learned True hs \<Rightarrow> print_start r # map print_extra hs
      | Learned False hs \<Rightarrow> (print_start r @ '' '' @ print_hop (hd hs)) # map print_extra (tl hs))"

definition print_table :: "shown_route list \<Rightarrow> string" where
  "print_table rs = str_join [CHR 0x0A] (concat (map print_route rs))"

text \<open>What each route stands for, one row per next hop.\<close>

definition start_row :: "shown_route \<Rightarrow> ios_row" where
  "start_row r = \<lparr>io_network = print_net r, io_gateway = [], io_interface = [],
     io_type = the (map_of ios_code_types (sr_code r)), io_distance = 0, io_metric = 0\<rparr>"

definition hop_row :: "shown_route \<Rightarrow> shown_hop \<Rightarrow> ios_row" where
  "hop_row r h = (start_row r)\<lparr>io_gateway := int_to_ip (sh_gw h), io_interface := sh_intf h,
     io_distance := sh_dist h, io_metric := sh_metric h\<rparr>"

definition shown_rows :: "shown_route \<Rightarrow> ios_row list" where
  "shown_rows r = (case sr_kind r of Direct i \<Rightarrow> [(start_row r)\<lparr>io_interface := i\<rparr>] | Learned _ hs \<Rightarrow> map (hop_row r) hs)"

definition intf_ok :: "string \<Rightarrow> bool" where
  "intf_ok i \<longleftrightarrow> i \<noteq> [] \<and> list_all (\<lambda>c. \<not> py_isspace c \<and> c \<noteq> CHR '','') i \<and> \<not> is_age i
     \<and> \<not> str_contains ''subnetted'' (py_lower i)"

definition shown_ok :: "shown_route \<Rightarrow> bool" where
  "shown_ok r \<longleftrightarrow> sr_code r \<in> set (map fst ios_code_types) \<and> sr_plen r \<le> 32
     \<and> (case sr_kind r of Direct i \<Rightarrow> intf_ok i | Learned _ hs \<Rightarrow> hs \<noteq> [] \<and> list_all (\<lambda>h. intf_ok (sh_intf h)) hs)"

definition broken_line :: "shown_route \<Rightarrow> bool" where
  "broken_line r = (case sr_kind r of Learned True _ \<Rightarrow> True | _ \<Rightarrow> False)"

definition is_direct :: "shown_route \<Rightarrow> bool" where
  "is_direct r = (case sr_kind r of Direct _ \<Rightarrow> True | _ \<Rightarrow> False)"

section \<open>Pieces of a line\<close>

lemma octet_run_str_nat:
  assumes "n < 256" and "r = [] \<or> \<not> is_digit (hd r)"
  shows "octet_run (str_nat n @ r) = Some (str_nat n, r)"
proof -
  have d: "takeWhile is_digit (str_nat n @ r) = str_nat n"
    using assms(2) by (cases r) (auto simp: takeWhile_append dest: str_nat_chars)
  then show ?thesis using length_str_nat_byte [OF assms(1)] by (simp add: octet_run_def Let_def)
qed

lemma digit_run_str_nat:
  assumes "r = [] \<or> \<not> is_digit (hd r)"
  shows "digit_run (str_nat n @ r) = Some (n, r)"
proof -
  have d: "takeWhile is_digit (str_nat n @ r) = str_nat n"
    using assms by (cases r) (auto simp: takeWhile_append dest: str_nat_chars)
  then show ?thesis by (simp add: digit_run_def Let_def)
qed

lemma dotted_run_int_to_ip:
  assumes "r = [] \<or> \<not> is_digit (hd r)"
  shows "dotted_run 3 (int_to_ip w @ r) = Some (int_to_ip w, r)"
proof -
  have "unat w < 4294967296" using unsigned_less [of w] by simp
  then have "unat w div 16777216 < 256" by (simp add: less_mult_imp_div_less)
  then show ?thesis
    using assms
    by (simp add: int_to_ip_def Let_def numeral_3_eq_3 octet_run_str_nat is_digit_def code_def)
qed

lemma spaces_run: "spaces (CHR '' '' # s) = Some (py_lstrip s)"
  by (simp add: spaces_def py_lstrip_def py_isspace_def code_def)

lemma lstrip_space: "py_lstrip (CHR '' '' # s) = py_lstrip s"
  by (simp add: py_lstrip_def py_isspace_def code_def)

lemma lstrip_id: "s \<noteq> [] \<Longrightarrow> \<not> py_isspace (hd s) \<Longrightarrow> py_lstrip s = s"
  by (cases s) (simp_all add: py_lstrip_def)

lemma lstrip_Cons: "\<not> py_isspace c \<Longrightarrow> py_lstrip (c # s) = c # s"
  by (simp add: py_lstrip_def)

lemma bracket_not_space [simp]:
  "\<not> py_isspace (CHR ''['')" "\<not> is_digit (CHR '']'')" "\<not> is_digit (CHR ''/'')" "\<not> is_digit (CHR '','')"
  "\<not> is_digit (CHR '' '')" "\<not> py_isspace (CHR ''v'')" "\<not> py_isspace (CHR ''i'')" "\<not> py_isspace (CHR ''d'')" "\<not> py_isspace (CHR ''c'')"
  by (simp_all add: py_isspace_def is_digit_def code_def)

lemma int_to_ip_head: "int_to_ip w \<noteq> [] \<and> is_digit (hd (int_to_ip w))"
proof -
  have "is_digit (hd (str_nat n))" for n
    using str_nat_chars [of "hd (str_nat n)" n] hd_in_set [OF str_nat_nonempty] by blast
  then show ?thesis by (simp add: int_to_ip_def Let_def)
qed

lemma lstrip_int_to_ip [simp]: "py_lstrip (int_to_ip w @ s) = int_to_ip w @ s"
  using int_to_ip_head [of w] by (intro lstrip_id) (auto dest: is_digit_not_space)

text \<open>A next hop is read back.\<close>

definition read_hop :: "shown_hop \<Rightarrow> ios_hop" where
  "read_hop h = \<lparr>ih_dist = sh_dist h, ih_metric = sh_metric h, ih_gw = int_to_ip (sh_gw h), ih_tail = '', 00:05:23, '' @ sh_intf h\<rparr>"

lemma via_at_print_hop: "via_at (print_hop h) = Some (read_hop h)"
  by (simp add: via_at_def print_hop_def literal_def starts_with_def digit_run_str_nat spaces_run lstrip_space lstrip_Cons
      dotted_run_int_to_ip read_hop_def)

lemma extra_hop_print: "ios_extra_hop (print_extra h) = Some (read_hop h)"
proof -
  have "spaces (print_extra h) = Some (print_hop h)"
    by (simp add: print_extra_def print_hop_def spaces_run lstrip_space lstrip_Cons)
  then show ?thesis by (simp add: ios_extra_hop_def via_at_print_hop)
qed

lemma intf_read:
  assumes "intf_ok i" shows "ios_interface ('', 00:05:23, '' @ i) = i"
proof -
  have c: "CHR '','' \<notin> set i" and sp: "\<forall>c \<in> set i. \<not> py_isspace c" and ne: "i \<noteq> []" and age: "\<not> is_age i"
    using assms by (auto simp: intf_ok_def list_all_iff)
  have "split_on (CHR '','') (CHR '' '' # i) = [CHR '' '' # i]" by (rule split_on_no_sep) (use c in auto)
  then have s: "split_on (CHR '','') ('', 00:05:23, '' @ i) = [[], '' 00:05:23'', CHR '' '' # i]" by simp
  have "py_lstrip (CHR '' '' # i) = i" using ne sp by (simp add: lstrip_space lstrip_id)
  then have i: "py_strip (CHR '' '' # i) = i" using sp py_strip_no_space [of i] by (simp add: py_strip_def lstrip_id ne)
  have t: "py_strip '' 00:05:23'' = ''00:05:23''" by code_simp
  have e: "py_strip [] = []" by code_simp
  have "filter (\<lambda>x. x \<noteq> []) (map py_strip (split_on (CHR '','') ('', 00:05:23, '' @ i))) = [''00:05:23'', i]"
    using ne by (simp only: s list.map e t i filter.simps not_Cons_self) simp
  then show ?thesis using age by (simp only: ios_interface_def Let_def) simp
qed

lemma with_read_hop:
  "intf_ok (sh_intf h) \<Longrightarrow> with_hop (start_row r) (read_hop h) = hop_row r h"
  "intf_ok (sh_intf h) \<Longrightarrow> with_hop (hop_row r h') (read_hop h) = hop_row r h"
  using intf_read [of "sh_intf h"] by (simp_all add: with_hop_def read_hop_def hop_row_def)

text \<open>A line is not taken for a connected network: in it no \<open>s\<close> stands before a space.\<close>

definition no_is :: "string \<Rightarrow> bool" where
  "no_is s = successively (\<lambda>a b. \<not> (a = CHR ''s'' \<and> py_isspace b)) s"

lemma literalD: "literal p s = Some t \<Longrightarrow> s = p @ t"
  by (auto simp: literal_def starts_with_def split: if_splits) (metis append_take_drop_id)

lemma spacesD: "spaces s = Some t \<Longrightarrow> \<exists>c r. s = c # r \<and> py_isspace c"
  by (cases s) (auto simp: spaces_def split: if_splits)

lemma connected_at_is:
  assumes "connected_at s = Some w" shows "\<not> no_is s"
proof -
  from assms obtain s1 s2 where "literal ''is'' s = Some s1" "spaces s1 = Some s2"
    by (auto simp: connected_at_def bind_o_def split: option.splits)
  then show ?thesis by (auto simp: no_is_def dest!: literalD spacesD)
qed

lemma no_is_tl: "no_is (c # s) \<Longrightarrow> no_is s"
  by (cases s) (simp_all add: no_is_def)

lemma search_connected_none: "no_is s \<Longrightarrow> search_at connected_at s = None"
proof (induction s)
  case (Cons c s)
  then show ?case using connected_at_is [of "c # s"] no_is_tl [of c s] by (cases "connected_at (c # s)") auto
qed (simp add: connected_at_def literal_def starts_with_def)

lemma no_is_append:
  "no_is (a @ b) \<longleftrightarrow> no_is a \<and> no_is b \<and> (a = [] \<or> b = [] \<or> \<not> (last a = CHR ''s'' \<and> py_isspace (hd b)))"
  by (auto simp: no_is_def successively_append_iff)

lemma no_is_token: "\<forall>c \<in> set s. \<not> py_isspace c \<Longrightarrow> no_is s"
  by (induction s rule: induct_list012) (simp_all add: no_is_def)

lemma no_space_pieces:
  "\<forall>c \<in> set (str_nat n). \<not> py_isspace c" "\<forall>c \<in> set (int_to_ip w). \<not> py_isspace c"
  by (auto simp: int_to_ip_def Let_def py_isspace_def code_def dest!: str_nat_chars is_digit_not_space)

lemma last_pieces:
  "is_digit (last (str_nat n))" "is_digit (last (int_to_ip w))"
proof -
  show "is_digit (last (str_nat n))" for n using str_nat_chars last_in_set [OF str_nat_nonempty] by blast
  then show "is_digit (last (int_to_ip w))" by (simp add: int_to_ip_def Let_def)
qed

lemma s_not_digit: "is_digit c \<Longrightarrow> c \<noteq> CHR ''s''"
  by (auto simp: is_digit_def code_def)

lemma no_is_words:
  "no_is '', 00:05:23, ''" "no_is ''] via ''" "no_is ''        ''" "no_is '' ''" "no_is ''[''" "no_is ''/''"
  by code_simp+

lemma no_is_hop: "intf_ok (sh_intf h) \<Longrightarrow> no_is (print_hop h)"
  using last_pieces [THEN s_not_digit]
  by (simp add: print_hop_def no_is_append no_is_token no_space_pieces no_is_words intf_ok_def list_all_iff
      del: append_Cons append_Nil)

section \<open>Lines\<close>

lemma code_facts:
  assumes "c \<in> set (map fst ios_code_types)"
  shows "is_letter c" "c \<noteq> CHR ''s''" "\<not> py_isspace c" "map_of ios_code_types c \<noteq> None"
  using assms by (auto simp: ios_code_types_def is_letter_def py_isspace_def code_def)

lemma ios_mask_str_nat:
  assumes "p \<le> 32" and "t = [] \<or> \<not> is_digit (hd t)"
  shows "ios_mask (''/'' @ str_nat p @ t) = (''/'' @ str_nat p, t)"
proof -
  have d: "takeWhile is_digit (str_nat p @ t) = str_nat p"
    using assms(2) by (cases t) (auto simp: takeWhile_append dest: str_nat_chars)
  have "p div 10 < 10" using assms(1) by simp
  then have "length (str_nat p) \<le> 2" by (simp add: str_nat.simps [of p] str_nat.simps [of "p div 10"])
  then show ?thesis by (simp add: ios_mask_def d Let_def)
qed

lemma qualifier_letter: "q \<in> set ios_qualifiers \<Longrightarrow> is_digit (hd s) \<Longrightarrow> s \<noteq> [] \<Longrightarrow> \<not> starts_with q s"
  by (cases s) (auto simp: ios_qualifiers_def starts_with_def is_digit_def code_def)

text \<open>The start of a route, with nothing or a space and a rest behind it.\<close>

lemma ios_route_start:
  assumes ok: "sr_code r \<in> set (map fst ios_code_types)" "sr_plen r \<le> 32"
    and t: "t = [] \<and> rest = [] \<or> t = CHR '' '' # rest \<and> rest \<noteq> [] \<and> \<not> py_isspace (hd rest)"
  shows "ios_route (print_start r @ t) = Some (sr_code r, print_net r, rest)"
proof -
  have sp: "spaces (''        '' @ print_net r @ t) = Some (print_net r @ t)"
    by (simp add: spaces_run lstrip_space print_net_def)
  have "\<not> list_ex (\<lambda>q. starts_with q (print_net r @ t)) ios_qualifiers"
    using qualifier_letter [of _ "print_net r @ t"] int_to_ip_head [of "sr_base r"] by (auto simp: list_ex_iff print_net_def)
  moreover have "dotted_run 3 (print_net r @ t) = Some (int_to_ip (sr_base r), ''/'' @ str_nat (sr_plen r) @ t)"
    by (simp add: print_net_def dotted_run_int_to_ip)
  moreover have "ios_mask (''/'' @ str_nat (sr_plen r) @ t) = (''/'' @ str_nat (sr_plen r), t)"
    using t by (intro ios_mask_str_nat [OF ok(2)]) auto
  moreover have "t \<noteq> [] \<Longrightarrow> spaces t = Some rest" using t by (auto simp: spaces_run lstrip_id)
  ultimately show ?thesis
    using code_facts [OF ok(1)] t sp by (auto simp: ios_route_def print_start_def print_net_def Let_def)
qed

lemma start_line_strip:
  assumes "sr_code r \<in> set (map fst ios_code_types)" and "t = [] \<or> \<not> py_isspace (last t)"
  shows "py_strip (print_start r @ t) = print_start r @ t" "py_rstrip (print_start r @ t) = print_start r @ t"
proof -
  have l: "\<not> py_isspace (last (print_start r @ t))"
    using assms(2) last_pieces(1) [of "sr_plen r"] is_digit_not_space
    by (cases "t = []") (simp_all add: print_start_def print_net_def)
  then show "py_strip (print_start r @ t) = print_start r @ t"
    using code_facts(3) [OF assms(1)] by (intro py_strip_ends) (simp_all add: print_start_def)
  show "py_rstrip (print_start r @ t) = print_start r @ t"
    using l by (cases "print_start r @ t" rule: rev_cases) (simp_all add: py_rstrip_def)
qed

lemma lower_space: "lower_char (CHR '' '') = CHR '' ''"
  by code_simp

lemma lower_codes: "c \<in> set (map fst ios_code_types) \<Longrightarrow> lower_char c \<noteq> CHR ''%''"
proof -
  have "list_all (\<lambda>c. lower_char c \<noteq> CHR ''%'') (map fst ios_code_types)" by code_simp
  then show "c \<in> set (map fst ios_code_types) \<Longrightarrow> lower_char c \<noteq> CHR ''%''" by (auto simp: list_all_iff)
qed

lemma start_line_kept:
  assumes "sr_code r \<in> set (map fst ios_code_types)" and "t = [] \<or> \<not> py_isspace (last t)"
    and "\<not> str_contains ''subnetted'' (py_lower (print_start r @ t))"
  shows "\<not> ios_skip (print_start r @ t)"
  using assms(3) lower_codes [OF assms(1)]
  by (simp add: ios_skip_def start_line_strip [OF assms(1,2)] Let_def)
     (simp add: print_start_def py_lower_def starts_with_def lower_space)

lemma start_line_no_hop: "sr_code r \<in> set (map fst ios_code_types) \<Longrightarrow> ios_extra_hop (print_start r @ t) = None"
  by (drule code_facts(3)) (simp add: ios_extra_hop_def spaces_def print_start_def)

text \<open>A line with a further next hop.\<close>

lemma hop_line_ends:
  assumes "intf_ok (sh_intf h)"
  shows "py_strip (print_extra h) = print_hop h" "py_rstrip (print_extra h) = print_extra h"
proof -
  have l: "\<not> py_isspace (last (print_hop h))" "print_hop h \<noteq> []"
    using assms by (auto simp: print_hop_def intf_ok_def list_all_iff)
  then have "py_strip (print_hop h) = print_hop h"
    by (intro py_strip_ends) (simp_all add: print_hop_def)
  then show "py_strip (print_extra h) = print_hop h"
    by (simp add: py_strip_def print_extra_def lstrip_space)
  show "py_rstrip (print_extra h) = print_extra h"
    using l by (cases "print_hop h" rule: rev_cases) (simp_all add: py_rstrip_def print_extra_def)
qed

lemma str_contains_append: "str_contains p s \<Longrightarrow> str_contains p (a @ s)"
  by (auto simp: str_contains_def list_ex_iff suffixes_append)

lemma hop_line_kept:
  assumes "intf_ok (sh_intf h)" and "\<not> str_contains ''subnetted'' (py_lower (print_extra h))"
  shows "\<not> ios_skip (print_extra h)"
proof -
  have "py_lower (print_extra h) = py_lower ''           '' @ py_lower (print_hop h)" by (simp add: print_extra_def py_lower_def)
  then have "\<not> str_contains ''subnetted'' (py_lower (print_hop h))" using assms(2) str_contains_append by metis
  moreover have "lower_char (CHR ''['') = CHR ''[''" by code_simp
  ultimately show ?thesis
    by (simp add: ios_skip_def hop_line_ends [OF assms(1)] Let_def)
       (simp add: print_hop_def py_lower_def starts_with_def)
qed

lemma read_hop_line:
  assumes "intf_ok (sh_intf h)" and "\<not> str_contains ''subnetted'' (py_lower (print_extra h))"
    and "pending = Some base \<or> pending = None \<and> rows \<noteq> [] \<and> base = last rows"
  shows "ios_line (print_extra h) (rows, pending) = (rows @ [with_hop base (read_hop h)], pending)"
  using assms(3) hop_line_kept [OF assms(1,2)]
  by (auto simp: ios_line_def Let_def hop_line_ends [OF assms(1)] extra_hop_print)

text \<open>The word that marks a header can only stand in the name of an interface.\<close>

definition no_u :: "string \<Rightarrow> bool" where
  "no_u s \<longleftrightarrow> CHR ''u'' \<notin> set (py_lower s)"

lemma no_u_append [simp]: "no_u (a @ b) \<longleftrightarrow> no_u a \<and> no_u b"
  by (simp add: no_u_def py_lower_def)

lemma header_word_after:
  assumes "no_u a" and "a = [] \<or> lower_char (last a) \<noteq> CHR ''s''" and "\<not> str_contains ''subnetted'' (py_lower b)"
  shows "\<not> str_contains ''subnetted'' (py_lower (a @ b))"
  using assms
proof (induction a)
  case (Cons c a)
  have "\<not> starts_with ''subnetted'' (py_lower (c # a @ b))"
    using Cons.prems(1,2) by (cases a) (auto simp: starts_with_def py_lower_def no_u_def)
  moreover have "\<not> str_contains ''subnetted'' (py_lower (a @ b))"
    by (rule Cons.IH) (use Cons.prems in \<open>auto simp: no_u_def py_lower_def split: if_splits\<close>)
  ultimately show ?case by (simp add: str_contains_def py_lower_def)
qed simp

lemma no_u_digits: "list_all is_digit s \<Longrightarrow> no_u s"
  by (induction s) (auto simp: no_u_def py_lower_def lower_digit is_digit_def code_def)

lemma no_u_pieces: "no_u (str_nat n)" "no_u (int_to_ip w)"
proof -
  show d: "no_u (str_nat n)" for n using str_nat_digits [of n] by (intro no_u_digits) (simp add: py_isdigit_def)
  have "no_u ''.''" by code_simp
  then show "no_u (int_to_ip w)" using d by (simp add: int_to_ip_def Let_def) (simp add: no_u_def py_lower_def)
qed

lemma no_u_words:
  "no_u '' is directly connected, ''" "no_u '', 00:05:23, ''" "no_u ''] via ''" "no_u ''        ''" "no_u '' ''" "no_u ''[''" "no_u ''/''"
  "no_u ''           ''"
  by code_simp+

lemma no_u_code: "c \<in> set (map fst ios_code_types) \<Longrightarrow> no_u [c]"
proof -
  have "list_all (\<lambda>c. no_u [c]) (map fst ios_code_types)" by code_simp
  then show "c \<in> set (map fst ios_code_types) \<Longrightarrow> no_u [c]" by (auto simp: list_all_iff)
qed

lemma no_u_start: "sr_code r \<in> set (map fst ios_code_types) \<Longrightarrow> no_u (print_start r)"
proof -
  assume "sr_code r \<in> set (map fst ios_code_types)"
  moreover have "print_start r = [sr_code r] @ ''        '' @ int_to_ip (sr_base r) @ ''/'' @ str_nat (sr_plen r)"
    by (simp add: print_start_def print_net_def)
  ultimately show ?thesis by (simp only: no_u_append no_u_words no_u_pieces no_u_code simp_thms)
qed

lemma header_words:
  assumes "intf_ok (sh_intf h)"
  shows "\<not> str_contains ''subnetted'' (py_lower (print_hop h))"
    "\<not> str_contains ''subnetted'' (py_lower (print_extra h))"
proof -
  have i: "\<not> str_contains ''subnetted'' (py_lower (sh_intf h))" using assms by (simp add: intf_ok_def)
  let ?a = "''['' @ str_nat (sh_dist h) @ ''/'' @ str_nat (sh_metric h) @ ''] via '' @ int_to_ip (sh_gw h) @ '', 00:05:23, ''"
  have a: "no_u ?a" "no_u (''           '' @ ?a)" by (simp_all only: no_u_append no_u_words no_u_pieces simp_thms)
  have p: "print_hop h = ?a @ sh_intf h" "print_extra h = (''           '' @ ?a) @ sh_intf h" by (simp_all add: print_extra_def print_hop_def)
  show "\<not> str_contains ''subnetted'' (py_lower (print_hop h))" unfolding p
    by (rule header_word_after [OF a(1) _ i]) (simp add: lower_space)
  show "\<not> str_contains ''subnetted'' (py_lower (print_extra h))" unfolding p
    by (rule header_word_after [OF a(2) _ i]) (simp add: lower_space)
qed

lemma start_words:
  assumes "sr_code r \<in> set (map fst ios_code_types)"
  shows "\<not> str_contains ''subnetted'' (py_lower (print_start r @ []))"
    "intf_ok i \<Longrightarrow> \<not> str_contains ''subnetted'' (py_lower (print_start r @ '' is directly connected, '' @ i))"
    "intf_ok (sh_intf h) \<Longrightarrow> \<not> str_contains ''subnetted'' (py_lower (print_start r @ '' '' @ print_hop h))"
proof -
  note s = no_u_start [OF assms]
  have e: "\<not> str_contains ''subnetted'' (py_lower [])" by code_simp
  have l: "lower_char (last (print_start r)) \<noteq> CHR ''s''"
    using last_pieces(1) [of "sr_plen r"] by (simp add: print_start_def print_net_def lower_digit s_not_digit)
  show "\<not> str_contains ''subnetted'' (py_lower (print_start r @ []))"
    by (rule header_word_after [OF s _ e]) (use l in simp)
  show "\<not> str_contains ''subnetted'' (py_lower (print_start r @ '' is directly connected, '' @ i))" if "intf_ok i"
  proof -
    have "no_u (print_start r @ '' is directly connected, '')" by (simp only: no_u_append no_u_words s simp_thms)
    from header_word_after [OF this, of i] that show ?thesis by (simp add: intf_ok_def lower_space)
  qed
  show "\<not> str_contains ''subnetted'' (py_lower (print_start r @ '' '' @ print_hop h))" if "intf_ok (sh_intf h)"
  proof -
    have "no_u (print_start r @ '' '')" by (simp only: no_u_append no_u_words s simp_thms)
    from header_word_after [OF this, of "print_hop h"] header_words(1) [OF that] show ?thesis by (simp add: lower_space)
  qed
qed

section \<open>Routes\<close>

lemma start_step:
  assumes "sr_code r \<in> set (map fst ios_code_types)" "sr_plen r \<le> 32"
    and t: "t = [] \<and> rest = [] \<or> t = CHR '' '' # rest \<and> rest \<noteq> [] \<and> \<not> py_isspace (hd rest)"
    and l: "t = [] \<or> \<not> py_isspace (last t)"
    and "\<not> str_contains ''subnetted'' (py_lower (print_start r @ t))"
    and p: "snd st = None \<or> search_at connected_at (print_start r @ t) = None"
  shows "ios_line (print_start r @ t) st = ios_start (sr_code r) (print_net r) rest st"
  using p start_line_kept [OF assms(1) l assms(5)]
  by (auto simp: ios_line_def Let_def start_line_strip [OF assms(1) l] start_line_no_hop [OF assms(1)]
      ios_route_start [OF assms(1-3)] split: option.splits)

lemma no_is_start:
  assumes "sr_code r \<in> set (map fst ios_code_types)"
  shows "no_is (print_start r)"
proof -
  have c: "no_is [sr_code r]" by (simp add: no_is_def)
  have "print_start r = [sr_code r] @ ''        '' @ int_to_ip (sr_base r) @ ''/'' @ str_nat (sr_plen r)"
    by (simp add: print_start_def print_net_def)
  then show ?thesis
    using code_facts(2) [OF assms] last_pieces [THEN s_not_digit] c
    by (simp only: no_is_append no_is_words no_is_token [OF no_space_pieces(1)] no_is_token [OF no_space_pieces(2)]) simp
qed

lemma no_is_start_hop:
  assumes "sr_code r \<in> set (map fst ios_code_types)" and "intf_ok (sh_intf h)"
  shows "no_is (print_start r @ '' '' @ print_hop h)"
proof -
  have "last (print_start r) \<noteq> CHR ''s''"
    using last_pieces(1) [THEN s_not_digit, of "sr_plen r"] by (simp add: print_start_def print_net_def)
  then show ?thesis
    using no_is_start [OF assms(1)] no_is_hop [OF assms(2)] no_is_words
    by (simp only: no_is_append) simp
qed

lemma search_here: "f s = Some x \<Longrightarrow> search_at f s = Some x"
  by (cases s) simp_all

text \<open>A connected network, where no network waits for a next hop.\<close>

lemma connected_read:
  assumes "intf_ok i" shows "search_at connected_at (''is directly connected, '' @ i) = Some i"
proof -
  have t: "takeWhile (\<lambda>c. \<not> py_isspace c) (py_lstrip ('' '' @ i)) = i"
    using assms by (auto simp: intf_ok_def list_all_iff lstrip_space lstrip_id takeWhile_eq_all_conv)
  show ?thesis
    by (rule search_here)
       (use assms t in \<open>simp add: connected_at_def literal_def starts_with_def spaces_run lstrip_Cons intf_ok_def Let_def\<close>)
qed

lemma direct_line:
  assumes "shown_ok r" and "sr_kind r = Direct i" and "snd st = None"
  shows "ios_line (print_start r @ '' is directly connected, '' @ i) st = (fst st @ [(start_row r)\<lparr>io_interface := i\<rparr>], None)"
proof -
  from assms(1,2) have ok: "sr_code r \<in> set (map fst ios_code_types)" "sr_plen r \<le> 32" "intf_ok i"
    by (auto simp: shown_ok_def)
  from ok(3) have i: "i \<noteq> []" "\<not> py_isspace (last i)" by (auto simp: intf_ok_def list_all_iff)
  have rest: "py_strip (''is directly connected, '' @ i) = ''is directly connected, '' @ i"
    by (rule py_strip_ends) (use i in simp_all)
  have "ios_line (print_start r @ '' is directly connected, '' @ i) st
      = ios_start (sr_code r) (print_net r) (''is directly connected, '' @ i) st"
    by (rule start_step [OF ok(1,2) _ _ start_words(2) [OF ok(1,3)]]) (use assms(3) i in simp_all)
  also have "\<dots> = (fst st @ [(start_row r)\<lparr>io_interface := i\<rparr>], None)"
    using code_facts(4) [OF ok(1)] rest connected_read [OF ok(3)] by (auto simp: ios_start_def start_row_def Let_def)
  finally show ?thesis .
qed

lemma direct_line_swallowed:
  assumes "shown_ok r" and "sr_kind r = Direct i" and "snd st = Some p"
  shows "ios_line (print_start r @ '' is directly connected, '' @ i) st = (fst st @ [p\<lparr>io_interface := i\<rparr>], Some p)"
proof -
  from assms(1,2) have ok: "sr_code r \<in> set (map fst ios_code_types)" "intf_ok i"
    by (auto simp: shown_ok_def)
  from ok(2) have i: "i \<noteq> []" "\<not> py_isspace (last i)" by (auto simp: intf_ok_def list_all_iff)
  let ?t = "'' is directly connected, '' @ i"
  have search: "search_at connected_at (a @ s) = search_at connected_at s" if "no_is (a @ [CHR '' ''])" "s = CHR '' '' # s'" for a s s'
    using that
  proof (induction a)
    case (Cons c a)
    have "connected_at (c # a @ s) = None"
    proof (rule ccontr)
      assume "connected_at (c # a @ s) \<noteq> None"
      then obtain s1 s2 where "literal ''is'' (c # a @ s) = Some s1" "spaces s1 = Some s2"
        by (auto simp: connected_at_def bind_o_def split: option.splits)
      then obtain d u where "c # a @ s = ''is'' @ d # u" "py_isspace d" by (auto dest!: literalD spacesD)
      with Cons.prems show False
        by (cases a; cases "tl a") (auto simp: no_is_def)
    qed
    with Cons show ?case using no_is_tl [of c "a @ [CHR '' '']"] by simp
  qed simp
  have l: "last (print_start r) \<noteq> CHR ''s''"
    using last_pieces(1) [THEN s_not_digit, of "sr_plen r"] by (simp add: print_start_def print_net_def)
  have "search_at connected_at (print_start r @ ?t) = search_at connected_at ?t"
    using l no_is_start [OF ok(1)] no_is_words(4) by (intro search) (simp_all only: no_is_append, simp_all)
  also have "\<dots> = Some i"
  proof -
    have "connected_at ?t = None" by (simp add: connected_at_def literal_def starts_with_def)
    then show ?thesis using connected_read [OF ok(2)] by simp
  qed
  finally show ?thesis
    using assms(3) start_line_kept [OF ok(1) _ start_words(2) [OF ok]] i
    by (simp add: ios_line_def Let_def start_line_strip [OF ok(1), of ?t, simplified] start_line_no_hop [OF ok(1)])
qed

text \<open>Further next hops: of the network that waits, else of the last row.\<close>

lemma hop_lines:
  assumes "list_all (\<lambda>h. intf_ok (sh_intf h)) hs"
    and "pending = Some (start_row r) \<or> pending = None \<and> rows \<noteq> [] \<and> (\<exists>h. last rows = hop_row r h)"
  shows "fold ios_line (map print_extra hs) (rows, pending) = (rows @ map (hop_row r) hs, pending)"
  using assms
proof (induction hs arbitrary: rows)
  case (Cons h hs)
  have i: "intf_ok (sh_intf h)" using Cons.prems(1) by simp
  from Cons.prems(2) obtain base where base: "pending = Some base \<or> pending = None \<and> rows \<noteq> [] \<and> base = last rows"
    and row: "with_hop base (read_hop h) = hop_row r h"
    using with_read_hop [OF i] by (metis)
  have "ios_line (print_extra h) (rows, pending) = (rows @ [hop_row r h], pending)"
    using read_hop_line [OF i header_words(2) [OF i] base] row by simp
  moreover have "fold ios_line (map print_extra hs) (rows @ [hop_row r h], pending)
      = ((rows @ [hop_row r h]) @ map (hop_row r) hs, pending)"
    by (rule Cons.IH) (use Cons.prems in auto)
  ultimately show ?case by simp
qed simp

lemma learned_lines:
  assumes "shown_ok r" and k: "sr_kind r = Learned False hs"
  shows "fold ios_line (print_route r) st = (fst st @ shown_rows r, None)"
proof -
  from assms obtain h hs' where hs: "hs = h # hs'" by (cases hs) (auto simp: shown_ok_def)
  from assms have ok: "sr_code r \<in> set (map fst ios_code_types)" "sr_plen r \<le> 32" "intf_ok (sh_intf h)"
    "list_all (\<lambda>h. intf_ok (sh_intf h)) hs'"
    by (auto simp: shown_ok_def hs)
  have h: "print_hop h \<noteq> []" "\<not> py_isspace (hd (print_hop h))" "\<not> py_isspace (last (print_hop h))"
    using ok(3) by (auto simp: print_hop_def intf_ok_def list_all_iff)
  have "ios_line (print_start r @ '' '' @ print_hop h) st = ios_start (sr_code r) (print_net r) (print_hop h) st"
    by (rule start_step [OF ok(1,2) _ _ start_words(3) [OF ok(1,3)]])
       (use h search_connected_none [OF no_is_start_hop [OF ok(1,3)]] in simp_all)
  also have "\<dots> = (fst st @ [hop_row r h], None)"
    using code_facts(4) [OF ok(1)] h py_strip_ends [OF h] search_connected_none [OF no_is_hop [OF ok(3)]]
      search_here [of via_at, OF via_at_print_hop [of h]] with_read_hop(1) [OF ok(3), of r]
    by (auto simp: ios_start_def start_row_def Let_def)
  finally have one: "ios_line (print_start r @ '' '' @ print_hop h) st = (fst st @ [hop_row r h], None)" .
  have "fold ios_line (map print_extra hs') (fst st @ [hop_row r h], None) = ((fst st @ [hop_row r h]) @ map (hop_row r) hs', None)"
    by (rule hop_lines [OF ok(4)]) auto
  then show ?thesis using one by (simp add: print_route_def shown_rows_def k hs)
qed

lemma broken_lines:
  assumes "shown_ok r" and k: "sr_kind r = Learned True hs"
  shows "fold ios_line (print_route r) st = (fst st @ shown_rows r, Some (start_row r))"
proof -
  from assms have ok: "sr_code r \<in> set (map fst ios_code_types)" "sr_plen r \<le> 32" "list_all (\<lambda>h. intf_ok (sh_intf h)) hs"
    by (auto simp: shown_ok_def)
  have "ios_line (print_start r @ []) st = ios_start (sr_code r) (print_net r) [] st"
    by (rule start_step [OF ok(1,2) _ _ start_words(1) [OF ok(1)]])
       (use search_connected_none [OF no_is_start [OF ok(1)]] in simp_all)
  also have "\<dots> = (fst st, Some (start_row r))"
    using code_facts(4) [OF ok(1)] by (auto simp: ios_start_def start_row_def py_strip_def py_lstrip_def py_rstrip_def)
  finally have one: "ios_line (print_start r) st = (fst st, Some (start_row r))" by simp
  have "fold ios_line (map print_extra hs) (fst st, Some (start_row r)) = (fst st @ map (hop_row r) hs, Some (start_row r))"
    by (rule hop_lines [OF ok(3)]) simp
  then show ?thesis using one by (simp add: print_route_def shown_rows_def k)
qed

lemma route_lines:
  assumes "shown_ok r" and "snd st = None \<or> \<not> is_direct r"
  shows "fold ios_line (print_route r) st = (fst st @ shown_rows r, if broken_line r then Some (start_row r) else None)"
proof (cases "sr_kind r")
  case (Direct i)
  then show ?thesis using assms direct_line [OF assms(1) Direct, of st]
    by (simp add: is_direct_def broken_line_def print_route_def shown_rows_def)
next
  case (Learned b hs)
  then show ?thesis using assms(1) learned_lines [of r hs st] broken_lines [of r hs st]
    by (cases b) (simp_all add: broken_line_def)
qed


section \<open>The text\<close>

lemma lines_from_run:
  assumes "\<forall>c \<in> set l. \<not> is_eol c"
  shows "lines_from w (l @ CHR 0x0A # t) = (w @ l) # lines_from [] t"
    and "w @ l \<noteq> [] \<Longrightarrow> lines_from w l = [w @ l]"
proof -
  have n: "is_eol (CHR 0x0A)" "code (CHR 0x0A) = 10" by (simp_all add: is_eol_def code_def)
  show "lines_from w (l @ CHR 0x0A # t) = (w @ l) # lines_from [] t" using assms
  proof (induction l arbitrary: w)
    case Nil
    then show ?case using n by (cases t) simp_all
  next
    case (Cons c l)
    have c: "code c \<noteq> 13" using Cons.prems by (auto simp: is_eol_def)
    obtain d u where du: "l @ CHR 0x0A # t = d # u" by (cases l) auto
    have "lines_from w ((c # l) @ CHR 0x0A # t) = lines_from (w @ [c]) (l @ CHR 0x0A # t)"
      using Cons.prems c by (simp add: du)
    then show ?case using Cons.IH [of "w @ [c]"] Cons.prems by simp
  qed
  show "lines_from w l = [w @ l]" if "w @ l \<noteq> []" using assms that
  proof (induction l arbitrary: w)
    case (Cons c l)
    have c: "code c \<noteq> 13" using Cons.prems by (auto simp: is_eol_def)
    show ?case
    proof (cases l)
      case (Cons d u)
      then have "lines_from w (c # l) = lines_from (w @ [c]) l" using Cons.prems c by simp
      then show ?thesis using Cons.IH [of "w @ [c]"] Cons.prems by simp
    qed (use Cons.prems in simp)
  qed simp
qed

lemma splitlines_join:
  assumes "\<forall>l \<in> set ls. l \<noteq> [] \<and> (\<forall>c \<in> set l. \<not> is_eol c)"
  shows "splitlines (str_join [CHR 0x0A] ls) = ls"
  using assms unfolding splitlines_def
proof (induction ls rule: induct_list012)
  case (3 l l' ls)
  then show ?case using lines_from_run(1) [of l "[]"] by simp
qed (simp_all add: lines_from_run)

lemma eol_space: "is_eol c \<Longrightarrow> py_isspace c"
  by (auto simp: is_eol_def py_isspace_def Let_def)

lemma line_chars:
  "list_all (\<lambda>c. \<not> is_eol c) (str_nat n)" "list_all (\<lambda>c. \<not> is_eol c) (int_to_ip w)"
  "intf_ok i \<Longrightarrow> list_all (\<lambda>c. \<not> is_eol c) i"
  using no_space_pieces(1) [of n] no_space_pieces(2) [of w] eol_space by (auto simp: list_all_iff intf_ok_def)

lemma line_words:
  "list_all (\<lambda>c. \<not> is_eol c) '' is directly connected, ''" "list_all (\<lambda>c. \<not> is_eol c) ''           ''"
  "list_all (\<lambda>c. \<not> is_eol c) '', 00:05:23, ''" "list_all (\<lambda>c. \<not> is_eol c) ''] via ''" "list_all (\<lambda>c. \<not> is_eol c) ''        ''"
  "list_all (\<lambda>c. \<not> is_eol c) '' ''" "list_all (\<lambda>c. \<not> is_eol c) ''[''" "list_all (\<lambda>c. \<not> is_eol c) ''/''"
  by code_simp+

lemma printed_lines:
  assumes "shown_ok r" and "l \<in> set (print_route r)"
  shows "l \<noteq> [] \<and> (\<forall>c \<in> set l. \<not> is_eol c)"
proof -
  have c: "\<not> is_eol (sr_code r)" using assms(1) code_facts(3) [of "sr_code r"] eol_space by (auto simp: shown_ok_def)
  have start: "list_all (\<lambda>c. \<not> is_eol c) (print_start r)"
    using c line_words(5) line_chars by (simp add: print_start_def print_net_def is_eol_def code_def)
  have hop: "list_all (\<lambda>c. \<not> is_eol c) (print_hop h)" if "intf_ok (sh_intf h)" for h
    unfolding print_hop_def by (simp only: list_all_append line_words line_chars line_chars(3) [OF that] simp_thms)
  have ne: "print_start r \<noteq> []" "print_extra h \<noteq> []" for h by (simp_all add: print_start_def print_extra_def)
  have extra: "list_all (\<lambda>c. \<not> is_eol c) (print_extra h)" if "intf_ok (sh_intf h)" for h
    unfolding print_extra_def by (simp only: list_all_append line_words hop [OF that] simp_thms)
  have "l \<noteq> [] \<and> list_all (\<lambda>c. \<not> is_eol c) l"
  proof (cases "sr_kind r")
    case (Direct i)
    then have "l = print_start r @ '' is directly connected, '' @ i" "intf_ok i"
      using assms by (auto simp: print_route_def shown_ok_def)
    then show ?thesis by (simp only: list_all_append start line_words line_chars simp_thms append_is_Nil_conv ne)
  next
    case (Learned b hs)
    then have hs: "hs \<noteq> []" "\<And>h. h \<in> set hs \<Longrightarrow> intf_ok (sh_intf h)" using assms(1) by (auto simp: shown_ok_def list_all_iff)
    show ?thesis
    proof (cases "l \<in> print_extra ` set hs")
      case True
      then show ?thesis using extra hs(2) ne by auto
    next
      case False
      then have "l = print_start r \<or> l = print_start r @ '' '' @ print_hop (hd hs)"
        using assms(2) Learned hs(1) by (cases b) (auto simp: print_route_def dest: list.set_sel(2))
      then show ?thesis
        by (elim disjE; simp only: list_all_append start line_words hop hs hd_in_set simp_thms append_is_Nil_conv ne)
    qed
  qed
  then show ?thesis by (simp add: list_all_iff)
qed

lemma parse_printed:
  assumes "list_all shown_ok rs"
  shows "parse_ios_routes (print_table rs) = fst (fold ios_line (concat (map print_route rs)) ([], None))"
proof -
  have "splitlines (print_table rs) = concat (map print_route rs)"
    unfolding print_table_def by (rule splitlines_join) (use assms printed_lines in \<open>auto simp: list_all_iff\<close>)
  then show ?thesis by (simp add: parse_ios_routes_def)
qed

section \<open>Properties\<close>


definition ex_hop :: "u32 \<Rightarrow> shown_hop" where
  "ex_hop gw = \<lparr>sh_dist = 110, sh_metric = 20, sh_gw = gw, sh_intf = ''Vlan10''\<rparr>"

definition ex_broken :: shown_route where
  "ex_broken = \<lparr>sr_code = CHR ''O'', sr_base = 0xCB007180, sr_plen = 25, sr_kind = Learned True [ex_hop 0x0A000002, ex_hop 0x0A000003]\<rparr>"


definition ex_direct :: shown_route where
  "ex_direct = \<lparr>sr_code = CHR ''C'', sr_base = 0xCB007200, sr_plen = 24, sr_kind = Direct ''Vlan20''\<rparr>"



text \<open>
  After a route whose next hops stand on the following lines a connected network is lost: its line is read as one
  more row of the broken route, with the interface of the connected network.
\<close>

theorem broken_line_swallows_connected:
  assumes "shown_ok a" and "shown_ok b" and "broken_line a" and "sr_kind b = Direct i"
  shows "parse_ios_routes (print_table [a, b]) = shown_rows a @ [(start_row a)\<lparr>io_interface := i\<rparr>]"
proof -
  have "fold ios_line (print_route a) ([], None) = (shown_rows a, Some (start_row a))"
    using route_lines [OF assms(1), of "([], None)"] assms(3) by simp
  moreover have "print_route b = [print_start b @ '' is directly connected, '' @ i]"
    using assms(4) by (simp add: print_route_def)
  ultimately show ?thesis
    using assms(1,2) direct_line_swallowed [OF assms(2,4), of "(shown_rows a, Some (start_row a))"]
    by (simp add: parse_printed)
qed

lemma broken_line_swallows_connected_witness:
  "parse_ios_routes (print_table [ex_broken, ex_direct]) = shown_rows ex_broken @ [(start_row ex_broken)\<lparr>io_interface := ''Vlan20''\<rparr>]"
  by (rule broken_line_swallows_connected; code_simp)

text \<open>
  Below a line \<open>is subnetted\<close> IOS leaves the mask out, which only that line carries; and the qualifier of a default route
  stands right behind the star.
\<close>

lemma subnetted_mask_lost:
  "map io_network (parse_ios_routes (str_join [CHR 0x0A]
     [''      10.0.0.0/24 is subnetted, 1 subnets'', ''S        10.1.1.0 [1/0] via 192.0.2.1''])) = [''10.1.1.0'']"
  by code_simp

lemma external_default_lost:
  "parse_ios_routes ''O*E2  0.0.0.0/0 [110/1] via 192.0.2.1, 00:05:23, Vlan10'' = []"
  by code_simp

end
