(* ===== verification/Path_Trace.thy ===== *)
theory Path_Trace
  imports Route_Table Fieldmap "HOL-Library.Product_Lexorder"
begin

text \<open>
  \<open>services/path_trace.py\<close>: the path of an address through the devices, read from their tables. The tables and the
  addresses of the interfaces are dictionaries by the address of the device; the answer of a FortiGate about its
  interfaces and the driver of a vendor are arguments. Running the traceroute is left out, its command, its output and
  the comparison with the computed path are modelled.
\<close>

section \<open>Addresses of a device\<close>

definition default_ad :: "int dict" where
  "default_ad = [(''connected'', 0), (''local'', 0), (''static'', 1), (''bgp'', 20), (''eigrp'', 90), (''ospf'', 110),
     (''isis'', 115), (''rip'', 120)]"

definition max_hops :: nat where "max_hops = 16"

definition pt_net :: "string \<Rightarrow> ip_net option" where "pt_net s = ip_network (py_strip s)"

definition pt_addr :: "string \<Rightarrow> ip_addr option" where "pt_addr s = ip_address (py_strip s)"

record if_addr =
  ia_iface :: string
  ia_ip :: string
  ia_network :: string
  ia_alias :: "json option"

definition fortigate_address :: "json \<Rightarrow> if_addr option" where
  "fortigate_address j =
     (case j of
        JObj e \<Rightarrow>
          (case pt_addr (text_of (json_or (op_get e ''ip'') (op_get e ''ipv4_address''))) of
             None \<Rightarrow> None
           | Some ip \<Rightarrow>
               (let masked = (case json_to_int (op_get e ''mask'') of
                      None \<Rightarrow> None | Some m \<Rightarrow> ip_network (str_ip ip @ ''/'' @ str_int m));
                    net = (case masked of Some n \<Rightarrow> Some n | None \<Rightarrow> ip_network (str_ip ip @ ''/32'')) in
                Some \<lparr>ia_iface = text_of (op_get e ''name''), ia_ip = str_ip ip,
                      ia_network = (case net of Some n \<Rightarrow> str_net n | None \<Rightarrow> []),
                      ia_alias = Some (json_or (op_get e ''alias'') (JStr []))\<rparr>))
      | _ \<Rightarrow> None)"

text \<open>The interfaces that the firewall listed, or None when it did not answer.\<close>

definition fortigate_addresses :: "json option \<Rightarrow> if_addr list" where
  "fortigate_addresses answer =
     (case answer of
        Some (JObj d) \<Rightarrow> List.map_filter (\<lambda>(k, e). fortigate_address e) d
      | Some (JList xs) \<Rightarrow> List.map_filter fortigate_address xs
      | _ \<Rightarrow> [])"

definition local_address :: "rt_row \<Rightarrow> if_addr option" where
  "local_address r =
     (if rw_type r \<noteq> ''local'' then None
      else case pt_net (rw_network r) of
        None \<Rightarrow> None
      | Some n \<Rightarrow>
          if net_plen n \<noteq> 32 then None
          else Some \<lparr>ia_iface = rw_interface r, ia_ip = str_ip (net_address n), ia_network = str_net n, ia_alias = None\<rparr>)"

definition addresses_for :: "string dict \<Rightarrow> json option \<Rightarrow> rt_row list \<Rightarrow> if_addr list" where
  "addresses_for device answer rows =
     (if py_lower (dev_get device ''Vendor'') = ''fortinet'' then fortigate_addresses answer else [])
     @ List.map_filter local_address rows"

section \<open>The routes that cover an address\<close>

definition pt_num :: "json \<Rightarrow> int option" where
  "pt_num value = (case value of JBool b \<Rightarrow> None | _ \<Rightarrow> json_to_int value)"

definition admin_distance :: "rt_row \<Rightarrow> int" where
  "admin_distance r =
     (case pt_num (rw_distance r) of
        Some d \<Rightarrow> d
      | None \<Rightarrow> (case dict_get default_ad (rw_type r) of Some d \<Rightarrow> d | None \<Rightarrow> 255))"

record rt_cand =
  cd_row :: rt_row
  cd_plen :: nat
  cd_ad :: int
  cd_metric :: int

definition cand_of :: "ip_addr \<Rightarrow> rt_row \<Rightarrow> rt_cand option" where
  "cand_of target r =
     (if rw_type r = ''local'' then None
      else case pt_net (rw_network r) of
        None \<Rightarrow> None
      | Some n \<Rightarrow>
          if \<not> in_net target n then None
          else (let metric = (case pt_num (rw_metric r) of None \<Rightarrow> 0 | Some m \<Rightarrow> m) in
            Some \<lparr>cd_row = r\<lparr>rw_metric := JInt metric\<rparr>, cd_plen = net_plen n, cd_ad = admin_distance r, cd_metric = metric\<rparr>))"

definition cand_key :: "rt_cand \<Rightarrow> int \<times> int \<times> int" where
  "cand_key c = (- int (cd_plen c), cd_ad c, cd_metric c)"

definition candidates :: "rt_row list \<Rightarrow> string \<Rightarrow> rt_cand list" where
  "candidates rows dst =
     (case pt_addr dst of
        None \<Rightarrow> []
      | Some target \<Rightarrow> sort_key cand_key (List.map_filter (cand_of target) rows))"

datatype decision = By_only | By_prefix | By_distance | By_metric | By_none

definition decided_by :: "rt_cand list \<Rightarrow> decision" where
  "decided_by cand =
     (case cand of
        a # b # _ \<Rightarrow>
          if cd_plen a \<noteq> cd_plen b then By_prefix
          else if cd_ad a \<noteq> cd_ad b then By_distance
          else if cd_metric a \<noteq> cd_metric b then By_metric
          else By_none
      | _ \<Rightarrow> By_only)"

section \<open>The path\<close>

definition owner_of :: "string \<Rightarrow> if_addr list dict \<Rightarrow> string \<Rightarrow> string option" where
  "owner_of hop_ip addresses exclude =
     (case pt_addr hop_ip of
        None \<Rightarrow> None
      | Some target \<Rightarrow>
          map_option fst (find (\<lambda>(ip, addrs). ip \<noteq> exclude \<and> list_ex (\<lambda>a. pt_addr (ia_ip a) = Some target) addrs) addresses))"

definition on_own_lan :: "string \<Rightarrow> if_addr list \<Rightarrow> bool" where
  "on_own_lan hop_ip addrs =
     (case pt_addr hop_ip of
        None \<Rightarrow> False
      | Some target \<Rightarrow>
          list_ex (\<lambda>a. case pt_net (ia_network a) of None \<Rightarrow> False | Some n \<Rightarrow> in_net target n) addrs)"

definition same_choice :: "rt_cand \<Rightarrow> rt_cand \<Rightarrow> bool" where
  "same_choice a b \<longleftrightarrow> (cd_plen a, cd_ad a, cd_metric a) = (cd_plen b, cd_ad b, cd_metric b)"

text \<open>The outcomes of a path, in the order the code gives them: the texts are those of the source.\<close>

datatype outcome = Not_queried | Loop | No_route | Fork | Delivered | Outside | Hop_limit

definition outcome_text :: "outcome \<Rightarrow> string" where
  "outcome_text x =
     (case x of Not_queried \<Rightarrow> ''non interrogato'' | Loop \<Rightarrow> ''anello'' | No_route \<Rightarrow> ''nessuna rotta''
      | Fork \<Rightarrow> ''biforcazione'' | Delivered \<Rightarrow> ''consegna'' | Outside \<Rightarrow> ''fuori inventario'' | Hop_limit \<Rightarrow> ''limite salti'')"

record hop =
  hp_device_ip :: string
  hp_device :: string
  hp_from_backup :: bool
  hp_candidates :: "rt_cand list"
  hp_best :: "rt_cand option"
  hp_decided_by :: "decision option"
  hp_tied :: "rt_cand list"
  hp_outcome :: "outcome option"
  hp_next :: "string option"

record path_result =
  pa_hops :: "hop list"
  pa_outcome :: outcome
  pa_device_ip :: "string option"
  pa_branches :: "(rt_cand \<times> string option) list"
  pa_exit :: "(string \<times> bool) option"

record net_view =
  nv_rows :: "rt_row list dict"
  nv_addrs :: "if_addr list dict"
  nv_devices :: "string dict dict"

definition device_name :: "net_view \<Rightarrow> string \<Rightarrow> string" where
  "device_name v ip = (case dict_get (nv_devices v) ip of None \<Rightarrow> ip | Some d \<Rightarrow> or_default (dev_get d ''Hostname'') ip)"

definition no_hop :: "net_view \<Rightarrow> string \<Rightarrow> hop" where
  "no_hop v ip = \<lparr>hp_device_ip = ip, hp_device = device_name v ip, hp_from_backup = False, hp_candidates = [], hp_best = None,
     hp_decided_by = None, hp_tied = [], hp_outcome = None, hp_next = None\<rparr>"

definition ended :: "hop list \<Rightarrow> outcome \<Rightarrow> path_result" where
  "ended hops x = \<lparr>pa_hops = hops, pa_outcome = x, pa_device_ip = None, pa_branches = [], pa_exit = None\<rparr>"

text \<open>One device of the path: the path ends here, or goes on at the next device.\<close>

definition visit_device :: "string \<Rightarrow> net_view \<Rightarrow> string \<Rightarrow> rt_row list \<Rightarrow> hop list \<Rightarrow> path_result + (hop list \<times> string)" where
  "visit_device dst v current rows hops =
     (let cand = candidates rows dst;
          h = (no_hop v current)\<lparr>hp_from_backup := list_ex rw_from_backup rows, hp_candidates := cand\<rparr> in
      case cand of
        [] \<Rightarrow> Inl (ended (hops @ [h\<lparr>hp_outcome := Some No_route\<rparr>]) No_route)
      | best # _ \<Rightarrow>
          (let h1 = h\<lparr>hp_best := Some best, hp_decided_by := Some (decided_by cand)\<rparr>;
               tied = filter (\<lambda>r. same_choice r best) cand in
           if length tied > 1 then
             Inl ((ended (hops @ [h1\<lparr>hp_outcome := Some Fork, hp_tied := tied\<rparr>]) Fork)
               \<lparr>pa_branches := map (\<lambda>r. (r, owner_of (rw_gateway (cd_row r)) (nv_addrs v) current)) tied\<rparr>)
           else if rw_type (cd_row best) \<in> {''connected'', ''local''} then
             Inl (ended (hops @ [h1\<lparr>hp_outcome := Some Delivered\<rparr>]) Delivered)
           else
             (let gw = rw_gateway (cd_row best); nxt = owner_of gw (nv_addrs v) current;
                  hops' = hops @ [h1\<lparr>hp_next := nxt\<rparr>] in
              case nxt of
                None \<Rightarrow> Inl ((ended hops' Outside)\<lparr>pa_exit := Some (gw, on_own_lan gw
                  (case dict_get (nv_addrs v) current of None \<Rightarrow> [] | Some as \<Rightarrow> as))\<rparr>)
              | Some d \<Rightarrow> Inr (hops', d))))"

fun trace_from :: "nat \<Rightarrow> string \<Rightarrow> net_view \<Rightarrow> string list \<Rightarrow> hop list \<Rightarrow> string \<Rightarrow> path_result" where
  "trace_from 0 dst v seen hops current = ended hops Hop_limit"
| "trace_from (Suc n) dst v seen hops current =
     (case dict_get (nv_rows v) current of
        None \<Rightarrow> (ended hops Not_queried)\<lparr>pa_device_ip := Some current\<rparr>
      | Some rows \<Rightarrow>
          if current \<in> set seen then ended (hops @ [(no_hop v current)\<lparr>hp_outcome := Some Loop\<rparr>]) Loop
          else case visit_device dst v current rows hops of
            Inl t \<Rightarrow> t
          | Inr (hops', d) \<Rightarrow> trace_from n dst v (current # seen) hops' d)"

definition path_trace :: "string \<Rightarrow> string \<Rightarrow> net_view \<Rightarrow> path_result" where
  "path_trace dst start v = trace_from max_hops dst v [] [] start"

section \<open>The traceroute\<close>

definition probe_max_hops :: nat where "probe_max_hops = 8"

text \<open>The argument is the name of the driver of the vendor.\<close>

definition probe_command :: "string \<Rightarrow> string dict \<Rightarrow> string \<Rightarrow> string" where
  "probe_command driver device dst =
     (if py_lower (dev_get device ''Vendor'') = ''fortinet'' then ''execute traceroute '' @ dst
      else if driver = ''cisco_s300'' then ''traceroute ip '' @ dst @ '' ttl '' @ str_nat probe_max_hops @ '' count 2 timeout 2''
      else ''traceroute '' @ dst @ '' numeric timeout 2 probe 2 ttl 1 '' @ str_nat probe_max_hops)"

record probe_hop =
  ph_n :: nat
  ph_ip :: string

text \<open>\<open>^\s*(\d{1,2})\s+(.*)$\<close>, and the first address of the rest.\<close>

definition hop_line :: "string \<Rightarrow> (nat \<times> string) option" where
  "hop_line s =
     (let t = py_lstrip s; w = take 2 (takeWhile is_digit t) in
      if w = [] then None else map_option (\<lambda>rest. (digits_val w, rest)) (spaces (drop (length w) t)))"

definition traceroute_line :: "string \<Rightarrow> probe_hop list \<Rightarrow> probe_hop list" where
  "traceroute_line raw hops =
     (case hop_line (py_rstrip raw) of
        None \<Rightarrow> hops
      | Some (n, rest) \<Rightarrow>
          if hops \<noteq> [] \<and> n \<le> ph_n (last hops) then hops
          else hops @ [\<lparr>ph_n = n, ph_ip = (case ip_scan False rest of [] \<Rightarrow> [] | ip # _ \<Rightarrow> ip)\<rparr>])"

definition parse_traceroute :: "string \<Rightarrow> probe_hop list" where
  "parse_traceroute output = fold traceroute_line (splitlines output) []"

record path_comparison =
  pc_expected :: "string list"
  pc_seen :: "string list"
  pc_matched :: "string list"
  pc_missing :: "string list"
  pc_unexpected :: "string list"

definition compare_paths :: "path_result \<Rightarrow> probe_hop list \<Rightarrow> path_comparison" where
  "compare_paths t hops =
     (let expected = List.map_filter (\<lambda>h. case hp_best h of
            None \<Rightarrow> None | Some b \<Rightarrow> if rw_gateway (cd_row b) = [] then None else Some (rw_gateway (cd_row b))) (pa_hops t);
          seen = filter (\<lambda>ip. ip \<noteq> []) (map ph_ip hops) in
      \<lparr>pc_expected = expected, pc_seen = seen, pc_matched = filter (\<lambda>ip. ip \<in> set seen) expected,
       pc_missing = filter (\<lambda>ip. ip \<notin> set seen) expected, pc_unexpected = filter (\<lambda>ip. ip \<notin> set expected) seen\<rparr>)"

end
