(* ===== verification/Path_Trace_Sound.thy ===== *)
theory Path_Trace_Sound
  imports Path_Trace
begin

text \<open>
  What a path means. A relation says when a device forwards to another one, and a predicate says how a path ends
  at a device; the outcome of \<open>trace\<close> is the one that they determine. The route that a device uses is the most specific one
  of those that cover the address.
\<close>

section \<open>The route of a device\<close>

lemma net_nested:
  assumes "net_ok n" "net_ok m" and "in_net a n" "in_net a m" and "net_plen m \<le> net_plen n"
  shows "net_set n \<subseteq> net_set m"
proof -
  let ?v = "ip_value a" and ?s = "net_size n" and ?t = "net_size m"
  from assms(3,4) have same: "net_is6 n = net_is6 m" and b: "net_base n = ?v div ?s * ?s" "net_base m = ?v div ?t * ?t"
    by (auto simp: in_net_def)
  from assms(1,5) same have "?s dvd ?t"
    by (auto simp: net_size_def net_ok_def intro!: le_imp_power_dvd)
  then obtain q where t: "?t = ?s * q" by blast
  have q: "0 < q" using net_size_pos [of m] t by (cases q) auto
  have d: "?v div ?t = ?v div ?s div q" unfolding t by (rule div_mult2_eq)
  then have "?v div ?t * ?t = ?v div ?s div q * q * ?s" by (simp add: t mult.commute mult.left_commute)
  then have lo: "net_base m \<le> net_base n" using b by (simp add: div_times_less_eq_dividend)
  have "?v div ?s + 1 \<le> (?v div ?s div q + 1) * q"
    using dividend_less_div_times [OF q, of "?v div ?s"] by (simp add: add.commute)
  then have "(?v div ?s + 1) * ?s \<le> (?v div ?s div q + 1) * q * ?s" by (rule mult_le_mono1)
  then have "net_base n + ?s \<le> net_base m + ?t"
    using d by (simp add: b t algebra_simps)
  then have "net_last n \<le> net_last m" using net_size_pos [of n] net_size_pos [of m] unfolding net_last_def by linarith
  with lo show ?thesis by (auto simp: net_set_def)
qed

text \<open>A row covers an address: it forwards, and its network has the address.\<close>

definition row_covers :: "ip_addr \<Rightarrow> rt_row \<Rightarrow> bool" where
  "row_covers a r \<longleftrightarrow> rw_type r \<noteq> ''local''
     \<and> (\<exists>n. pt_net (rw_network r) = Some n \<and> ip_is6 a = net_is6 n \<and> ip_value a \<in> net_set n)"

lemma pt_net_ok: "pt_net s = Some n \<Longrightarrow> net_ok n"
  by (simp add: pt_net_def ip_network_ok)

lemma cand_of_covers: "cand_of a r \<noteq> None \<longleftrightarrow> row_covers a r"
  by (auto simp: cand_of_def row_covers_def in_net_set [OF pt_net_ok] Let_def split: option.splits)

lemma cand_of_net:
  "cand_of a r = Some c \<Longrightarrow> \<exists>n. pt_net (rw_network r) = Some n \<and> net_ok n \<and> in_net a n \<and> cd_plen c = net_plen n
     \<and> rw_network (cd_row c) = rw_network r"
  by (auto simp: cand_of_def Let_def pt_net_ok split: option.splits if_splits)

lemma set_candidates:
  "pt_addr dst = Some a \<Longrightarrow> c \<in> set (candidates rows dst) \<longleftrightarrow> (\<exists>r \<in> set rows. cand_of a r = Some c)"
  by (force simp: candidates_def List.map_filter_def)

lemma candidates_sorted: "sorted (map cand_key (candidates rows dst))"
  by (simp add: candidates_def split: option.splits)

lemma candidates_best:
  "candidates rows dst = b # rest \<Longrightarrow> c \<in> set (candidates rows dst) \<Longrightarrow> cand_key b \<le> cand_key c"
  using candidates_sorted [of rows dst] by auto

lemma same_choice_key: "same_choice a b \<longleftrightarrow> cand_key a = cand_key b"
  by (auto simp: same_choice_def cand_key_def)

section \<open>Forwarding\<close>

inductive forwards :: "string \<Rightarrow> net_view \<Rightarrow> string \<Rightarrow> string \<Rightarrow> bool" for dst v where
  fwd: "dict_get (nv_rows v) d = Some rows \<Longrightarrow> candidates rows dst = best # rest \<Longrightarrow> \<forall>c \<in> set rest. \<not> same_choice c best
    \<Longrightarrow> rw_type (cd_row best) \<notin> {''connected'', ''local''} \<Longrightarrow> owner_of (rw_gateway (cd_row best)) (nv_addrs v) d = Some e
    \<Longrightarrow> forwards dst v d e"

inductive stops :: "string \<Rightarrow> net_view \<Rightarrow> string \<Rightarrow> outcome \<Rightarrow> bool" for dst v where
  unknown: "dict_get (nv_rows v) d = None \<Longrightarrow> stops dst v d Not_queried"
| no_route: "dict_get (nv_rows v) d = Some rows \<Longrightarrow> candidates rows dst = [] \<Longrightarrow> stops dst v d No_route"
| fork: "dict_get (nv_rows v) d = Some rows \<Longrightarrow> candidates rows dst = best # rest \<Longrightarrow> c \<in> set rest \<Longrightarrow> same_choice c best
    \<Longrightarrow> stops dst v d Fork"
| delivered: "dict_get (nv_rows v) d = Some rows \<Longrightarrow> candidates rows dst = best # rest \<Longrightarrow> \<forall>c \<in> set rest. \<not> same_choice c best
    \<Longrightarrow> rw_type (cd_row best) \<in> {''connected'', ''local''} \<Longrightarrow> stops dst v d Delivered"
| outside: "dict_get (nv_rows v) d = Some rows \<Longrightarrow> candidates rows dst = best # rest \<Longrightarrow> \<forall>c \<in> set rest. \<not> same_choice c best
    \<Longrightarrow> rw_type (cd_row best) \<notin> {''connected'', ''local''} \<Longrightarrow> owner_of (rw_gateway (cd_row best)) (nv_addrs v) d = None
    \<Longrightarrow> stops dst v d Outside"

inductive_cases forwardsE: "forwards dst v d e"
inductive_cases stopsE: "stops dst v d x"

lemma forwards_fun: "forwards dst v d e \<Longrightarrow> forwards dst v d e' \<Longrightarrow> e' = e"
  by (auto elim!: forwardsE)

lemma stops_fun: "stops dst v d x \<Longrightarrow> stops dst v d y \<Longrightarrow> y = x"
  by (auto elim!: stopsE)

lemma stops_not_forwards: "stops dst v d x \<Longrightarrow> \<not> forwards dst v d e"
  by (auto elim!: stopsE forwardsE)

lemma tied_one: "(length (filter (\<lambda>r. same_choice r b) (b # rest)) > 1) \<longleftrightarrow> (\<exists>c \<in> set rest. same_choice c b)"
  by (auto simp: same_choice_def filter_empty_conv length_greater_0_conv [symmetric] simp del: length_greater_0_conv)

lemma visit_device_cases:
  assumes "dict_get (nv_rows v) d = Some rows"
  shows "(\<exists>t h. visit_device dst v d rows hops = Inl t \<and> stops dst v d (pa_outcome t) \<and> pa_hops t = hops @ [h] \<and> hp_device_ip h = d)
    \<or> (\<exists>e h. visit_device dst v d rows hops = Inr (hops @ [h], e) \<and> forwards dst v d e \<and> hp_device_ip h = d)"
proof (cases "candidates rows dst")
  case Nil
  then show ?thesis using no_route [OF assms Nil] by (auto simp: visit_device_def Let_def ended_def no_hop_def)
next
  case (Cons best rest)
  show ?thesis
  proof (cases "\<exists>c \<in> set rest. same_choice c best")
    case True
    then obtain c where "c \<in> set rest" "same_choice c best" by blast
    from fork [OF assms Cons this] True tied_one [of best rest] show ?thesis
      by (auto simp: visit_device_def Let_def Cons ended_def no_hop_def)
  next
    case False
    note one = False [unfolded tied_one [symmetric]]
    from False have u: "\<forall>c \<in> set rest. \<not> same_choice c best" by blast
    show ?thesis
    proof (cases "rw_type (cd_row best) \<in> {''connected'', ''local''}")
      case True
      from delivered [OF assms Cons u True] one True show ?thesis
        by (auto simp: visit_device_def Let_def Cons ended_def no_hop_def)
    next
      case False
      show ?thesis
      proof (cases "owner_of (rw_gateway (cd_row best)) (nv_addrs v) d")
        case None
        from outside [OF assms Cons u False None] one False None show ?thesis
          by (auto simp: visit_device_def Let_def Cons ended_def no_hop_def)
      next
        case (Some e)
        from fwd [OF assms Cons u False Some] one False Some show ?thesis
          by (auto simp: visit_device_def Let_def Cons ended_def no_hop_def)
      qed
    qed
  qed
qed

section \<open>Paths\<close>

abbreviation reaches :: "string \<Rightarrow> net_view \<Rightarrow> nat \<Rightarrow> string \<Rightarrow> string \<Rightarrow> bool" where
  "reaches dst v i \<equiv> (forwards dst v ^^ i)"

lemma reaches_fun: "reaches dst v i s d \<Longrightarrow> reaches dst v i s d' \<Longrightarrow> d' = d"
proof (induction i arbitrary: d d')
  case (Suc i)
  from Suc.prems obtain b b' where "reaches dst v i s b" "forwards dst v b d" "reaches dst v i s b'" "forwards dst v b' d'"
    by auto
  with Suc.IH [of b b'] forwards_fun show ?case by metis
qed simp

lemma reaches_prefix: "reaches dst v (i + j) s d \<Longrightarrow> \<exists>e. reaches dst v i s e \<and> reaches dst v j e d"
  by (simp add: relpowp_add) (auto simp: OO_def)

lemma reaches_stop: "reaches dst v i s d \<Longrightarrow> stops dst v d x \<Longrightarrow> reaches dst v j s e \<Longrightarrow> j \<le> i"
proof (rule ccontr)
  assume a: "reaches dst v i s d" "stops dst v d x" "reaches dst v j s e" "\<not> j \<le> i"
  then have "j = i + (1 + (j - i - 1))" by simp
  with a(3) obtain f where "reaches dst v i s f" "reaches dst v (1 + (j - i - 1)) f e" by (metis reaches_prefix)
  then obtain g where "f = d" "reaches dst v 1 f g" using reaches_fun a(1) reaches_prefix by metis
  then show False using stops_not_forwards [OF a(2)] by auto
qed

text \<open>A path that comes back goes on for ever.\<close>

lemma loop_goes_on: "reaches dst v (Suc n) d d \<Longrightarrow> \<exists>e. reaches dst v m d e"
proof (induction m rule: less_induct)
  case (less m)
  show ?case
  proof (cases "m \<le> Suc n")
    case True
    then have "Suc n = m + (Suc n - m)" by simp
    with less.prems show ?thesis by (metis reaches_prefix)
  next
    case False
    then obtain e where e: "reaches dst v (m - Suc n) d e" using less.IH [of "m - Suc n"] less.prems by auto
    have "reaches dst v (Suc n + (m - Suc n)) d e"
      unfolding relpowp_add using less.prems e by (auto simp: OO_def)
    then show ?thesis using False by auto
  qed
qed

lemma stop_no_loop:
  assumes "reaches dst v i s d" "stops dst v d x" and "reaches dst v j s e" "reaches dst v k s e" "j < k"
  shows False
proof -
  have "k = j + Suc (k - j - 1)" using assms(5) by simp
  with assms(4) obtain f where "reaches dst v j s f" "reaches dst v (Suc (k - j - 1)) f e" by (metis reaches_prefix)
  then have "reaches dst v (Suc (k - j - 1)) e e" using reaches_fun assms(3) by metis
  from loop_goes_on [OF this] obtain g where "reaches dst v (Suc i) e g" by blast
  then have "reaches dst v (j + Suc i) s g" unfolding relpowp_add using assms(3) by (auto simp: OO_def)
  from reaches_stop [OF assms(1,2) this] show False by simp
qed

text \<open>The condition of each outcome, within a number of devices.\<close>

definition comes_back :: "nat \<Rightarrow> string \<Rightarrow> net_view \<Rightarrow> string \<Rightarrow> bool" where
  "comes_back n dst v s \<longleftrightarrow> (\<exists>i j d. i < j \<and> j < n \<and> reaches dst v i s d \<and> reaches dst v j s d)"

definition outcome_holds :: "nat \<Rightarrow> string \<Rightarrow> net_view \<Rightarrow> string \<Rightarrow> outcome \<Rightarrow> bool" where
  "outcome_holds n dst v s x \<longleftrightarrow>
     (case x of
        Loop \<Rightarrow> comes_back n dst v s
      | Hop_limit \<Rightarrow> (\<exists>d. reaches dst v n s d) \<and> \<not> comes_back n dst v s
      | _ \<Rightarrow> \<exists>i d. i < n \<and> reaches dst v i s d \<and> stops dst v d x)"

lemma stops_not_end: "stops dst v d x \<Longrightarrow> x \<noteq> Loop \<and> x \<noteq> Hop_limit"
  by (auto elim: stopsE)

lemma outcome_stops: "x \<noteq> Loop \<Longrightarrow> x \<noteq> Hop_limit \<Longrightarrow> outcome_holds n dst v s x \<longleftrightarrow> (\<exists>i d. i < n \<and> reaches dst v i s d \<and> stops dst v d x)"
  by (cases x) (simp_all add: outcome_holds_def)

lemma outcome_unique:
  assumes "outcome_holds n dst v s x" and "outcome_holds n dst v s y" shows "x = y"
proof -
  have stop: "z = w" if z: "z \<noteq> Loop" "z \<noteq> Hop_limit" "outcome_holds n dst v s z" and w: "outcome_holds n dst v s w" for z w
  proof -
    from z obtain i d where d: "i < n" "reaches dst v i s d" "stops dst v d z" by (auto simp: outcome_stops)
    show ?thesis
    proof (cases "w = Loop \<or> w = Hop_limit")
      case True
      then show ?thesis
        using w stop_no_loop [OF d(2,3)] reaches_stop [OF d(2,3)] d(1)
        by (fastforce simp: outcome_holds_def comes_back_def)
    next
      case False
      then obtain i' d' where d': "reaches dst v i' s d'" "stops dst v d' w" using w by (auto simp: outcome_stops)
      have "i' = i" using reaches_stop [OF d(2,3) d'(1)] reaches_stop [OF d' d(2)] by simp
      then have "d' = d" using reaches_fun d(2) d'(1) by metis
      then show ?thesis using stops_fun [OF d(3)] d'(2) by simp
    qed
  qed
  show ?thesis
  proof (cases "(x = Loop \<or> x = Hop_limit) \<and> (y = Loop \<or> y = Hop_limit)")
    case True
    then show ?thesis using assms by (auto simp: outcome_holds_def)
  next
    case False
    then show ?thesis using stop [OF _ _ assms] stop [OF _ _ assms(2,1)] by metis
  qed
qed

text \<open>The loop of the code, with the devices already visited.\<close>

lemma trace_from_holds:
  assumes "\<And>i. i < length seen \<Longrightarrow> reaches dst v i s (rev seen ! i)" and "distinct seen"
    and "reaches dst v (length seen) s current" and "map hp_device_ip hops = rev seen"
  shows "outcome_holds (length seen + n) dst v s (pa_outcome (trace_from n dst v seen hops current))
    \<and> (\<forall>i < length (pa_hops (trace_from n dst v seen hops current)).
         reaches dst v i s (hp_device_ip (pa_hops (trace_from n dst v seen hops current) ! i)))
    \<and> length (pa_hops (trace_from n dst v seen hops current)) \<le> length seen + n"
  using assms
proof (induction n arbitrary: seen hops current)
  case 0
  have "\<not> comes_back (length seen) dst v s"
  proof
    assume "comes_back (length seen) dst v s"
    then obtain i j d where "i < j" "j < length seen" "reaches dst v i s d" "reaches dst v j s d"
      by (auto simp: comes_back_def)
    with 0(1) [of i] 0(1) [of j] have "rev seen ! i = rev seen ! j" using reaches_fun by (metis less_trans)
    with 0(2) \<open>i < j\<close> \<open>j < length seen\<close> show False by (metis distinct_rev length_rev less_trans nat_neq_iff nth_eq_iff_index_eq)
  qed
  moreover have "length hops = length seen" using 0(4) by (metis length_map length_rev)
  moreover have "hp_device_ip (hops ! i) = rev seen ! i" if "i < length hops" for i using 0(4) that by (metis nth_map)
  ultimately show ?case using 0(1,3) by (auto simp: outcome_holds_def ended_def)
next
  case (Suc n)
  have len: "length hops = length seen" using Suc.prems(4) by (metis length_map length_rev)
  have old: "reaches dst v i s (hp_device_ip (hops ! i))" if "i < length hops" for i
    using Suc.prems(1) [of i] Suc.prems(4) that len by (metis nth_map)
  have more: "reaches dst v i s (hp_device_ip ((hops @ [h]) ! i))" if "i < length (hops @ [h])" "hp_device_ip h = current" for i h
    using old [of i] that Suc.prems(3) len by (cases "i = length hops") (auto simp: nth_append)
  show ?case
  proof (cases "dict_get (nv_rows v) current")
    case None
    from unknown [OF this] Suc.prems(3) old len None show ?thesis
      by (auto simp: outcome_holds_def ended_def intro!: exI [of _ "length seen"])
  next
    case (Some rows)
    show ?thesis
    proof (cases "current \<in> set seen")
      case True
      then obtain i where i: "i < length seen" "rev seen ! i = current" by (metis in_set_conv_nth length_rev set_rev)
      have "comes_back (length seen + Suc n) dst v s"
        unfolding comes_back_def
        by (rule exI [of _ i], rule exI [of _ "length seen"], rule exI [of _ current])
           (use i Suc.prems(1) [OF i(1)] Suc.prems(3) in simp)
      then show ?thesis using True Some more [of _ "(no_hop v current)\<lparr>hp_outcome := Some Loop\<rparr>"] len
        by (auto simp: outcome_holds_def ended_def no_hop_def)
    next
      case False
      from visit_device_cases [OF Some, of dst hops] show ?thesis
      proof (elim disjE exE conjE)
        fix t h assume t: "visit_device dst v current rows hops = Inl t" "stops dst v current (pa_outcome t)"
          "pa_hops t = hops @ [h]" "hp_device_ip h = current"
        have "outcome_holds (length seen + Suc n) dst v s (pa_outcome t)"
          using t(2) Suc.prems(3) stops_not_end [OF t(2)]
          by (auto simp: outcome_stops intro!: exI [of _ "length seen"])
        then show ?thesis using Some False t more [OF _ t(4)] len by auto
      next
        fix e h assume e: "visit_device dst v current rows hops = Inr (hops @ [h], e)" "forwards dst v current e"
          "hp_device_ip h = current"
        have "reaches dst v (length (current # seen)) s e" using Suc.prems(3) e(2) by auto
        moreover have "reaches dst v i s (rev (current # seen) ! i)" if "i < length (current # seen)" for i
          using Suc.prems(1) [of i] Suc.prems(3) that by (cases "i = length seen") (auto simp: nth_append)
        ultimately show ?thesis
          using Suc.IH [of "current # seen" e "hops @ [h]"] Suc.prems(2,4) False Some e by simp
      qed
    qed
  qed
qed

lemma path_trace_holds: "outcome_holds max_hops dst v s (pa_outcome (path_trace dst s v))"
  using trace_from_holds [of "[]" dst v s s "[]" max_hops] by (simp add: path_trace_def)

section \<open>Properties\<close>

text \<open>
  C35: the outcome of a path is the one that the forwarding relation determines: delivered, no route, fork or outside when
  a chain of fewer than sixteen devices ends so, a loop exactly when the chain comes back to a device within the first
  sixteen, the limit exactly when sixteen different devices forward; and the hops listed are the devices of the chain.
\<close>

theorem path_outcome_exact:
  "(pa_outcome (path_trace dst s v) = x \<longleftrightarrow> outcome_holds max_hops dst v s x)
   \<and> list_all (\<lambda>i. reaches dst v i s (hp_device_ip (pa_hops (path_trace dst s v) ! i))) [0..<length (pa_hops (path_trace dst s v))]"
proof -
  have "pa_outcome (path_trace dst s v) = x \<longleftrightarrow> outcome_holds max_hops dst v s x"
    using path_trace_holds [of dst v s] outcome_unique by metis
  moreover have "\<forall>i < length (pa_hops (path_trace dst s v)). reaches dst v i s (hp_device_ip (pa_hops (path_trace dst s v) ! i))"
    using trace_from_holds [of "[]" dst v s s "[]" max_hops] by (simp add: path_trace_def)
  ultimately show ?thesis by (simp add: list_all_iff)
qed

text \<open>
  C36: when a row covers the destination the route used is one of the rows that cover it, its network lies in the
  network of every other one, and among networks of its length it has the least distance and metric.
\<close>

theorem route_most_specific:
  assumes "pt_addr dst = Some a" and "r \<in> set rows" and "row_covers a r"
  shows "\<exists>b rest n m c. candidates rows dst = b # rest \<and> cand_of a r = Some c
    \<and> list_ex (\<lambda>r'. row_covers a r' \<and> cand_of a r' = Some b) rows
    \<and> pt_net (rw_network (cd_row b)) = Some n \<and> pt_net (rw_network r) = Some m \<and> net_set n \<subseteq> net_set m
    \<and> (cd_plen b, - cd_ad b, - cd_metric b) \<ge> (cd_plen c, - cd_ad c, - cd_metric c)"
proof -
  from assms(3) obtain c where c: "cand_of a r = Some c" using cand_of_covers by blast
  then have "c \<in> set (candidates rows dst)" using assms(1,2) set_candidates by blast
  then obtain b rest where b: "candidates rows dst = b # rest" by (cases "candidates rows dst") auto
  from set_candidates [OF assms(1), of b rows] b obtain r' where r': "r' \<in> set rows" "cand_of a r' = Some b" by auto
  have key: "cand_key b \<le> cand_key c" using candidates_best [OF b \<open>c \<in> _\<close>] .
  then have plen: "cd_plen c \<le> cd_plen b" by (auto simp: cand_key_def)
  from cand_of_net [OF c] obtain m where m: "pt_net (rw_network r) = Some m" "net_ok m" "in_net a m" "cd_plen c = net_plen m" by blast
  from cand_of_net [OF r'(2)] obtain n where n: "pt_net (rw_network (cd_row b)) = Some n" "net_ok n" "in_net a n" "cd_plen b = net_plen n"
    by auto
  have "net_set n \<subseteq> net_set m" by (rule net_nested [OF n(2) m(2) n(3) m(3)]) (use plen n m in simp)
  moreover have "row_covers a r'" using r'(2) cand_of_covers by blast
  moreover have "(cd_plen b, - cd_ad b, - cd_metric b) \<ge> (cd_plen c, - cd_ad c, - cd_metric c)"
    using key by (auto simp: cand_key_def)
  ultimately show ?thesis using b c r' n(1) m(1) by (auto simp: list_ex_iff)
qed

definition ex_row :: "string \<Rightarrow> string \<Rightarrow> string \<Rightarrow> string \<Rightarrow> rt_row" where
  "ex_row type network gateway vrf = \<lparr>rw_device = [], rw_device_ip = [], rw_probe = [], rw_group = [], rw_vendor = [],
     rw_network = network, rw_vrf = JStr vrf, rw_source_kind = [], rw_gateway = gateway, rw_interface = [],
     rw_type = type, rw_raw_type = JNull, rw_distance = JInt 1, rw_metric = JInt 0, rw_from_backup = False\<rparr>"

definition ex_addr :: "string \<Rightarrow> if_addr" where
  "ex_addr ip = \<lparr>ia_iface = [], ia_ip = ip, ia_network = ip, ia_alias = None\<rparr>"

definition ex_view :: net_view where
  "ex_view = \<lparr>
     nv_rows = [(''10.0.0.1'', [ex_row ''static'' ''0.0.0.0/0'' ''10.0.0.2'' []]),
                (''10.0.0.2'', [ex_row ''connected'' ''192.0.2.0/24'' [] []])],
     nv_addrs = [(''10.0.0.1'', [ex_addr ''10.0.0.1'']), (''10.0.0.2'', [ex_addr ''10.0.0.2''])],
     nv_devices = []\<rparr>"

lemma route_most_specific_witness:
  "\<exists>b rest n m. candidates [ex_row ''static'' ''0.0.0.0/0'' ''10.0.0.2'' [], ex_row ''static'' ''10.0.0.0/8'' ''10.0.0.3'' []] ''10.1.1.1'' = b # rest
     \<and> pt_net (rw_network (cd_row b)) = Some n \<and> pt_net ''0.0.0.0/0'' = Some m \<and> net_set n \<subseteq> net_set m"
proof -
  let ?r = "ex_row ''static'' ''0.0.0.0/0'' ''10.0.0.2'' []"
  have a: "pt_addr ''10.1.1.1'' = Some (V4 167837953)" by code_simp
  have "cand_of (V4 167837953) ?r \<noteq> None" by code_simp
  then have "row_covers (V4 167837953) ?r" using cand_of_covers by blast
  from route_most_specific [OF a _ this, of "[?r, ex_row ''static'' ''10.0.0.0/8'' ''10.0.0.3'' []]"]
  show ?thesis by (auto simp: ex_row_def)
qed

lemma owner_listed: "owner_of gw addrs x = Some d \<Longrightarrow> dict_has addrs d"
  by (auto simp: owner_of_def dict_has_def map_of_eq_None_iff dest!: find_SomeD split: option.splits) (force simp: image_iff)

lemma forwards_queried: "forwards dst v d e \<Longrightarrow> dict_has (nv_rows v) d \<and> dict_has (nv_addrs v) e"
  by (auto simp: dict_has_def elim!: forwardsE dest!: owner_listed)

lemma reaches_queried:
  assumes "reaches dst v i s d" and "dict_has (nv_rows v) s" and "\<forall>(ip, as) \<in> set (nv_addrs v). dict_has (nv_rows v) ip"
  shows "dict_has (nv_rows v) d"
  using assms(1,2)
proof (cases i)
  case (Suc j)
  with assms(1) obtain e where "forwards dst v e d" by auto
  then have "dict_has (nv_addrs v) d" using forwards_queried by blast
  then show ?thesis using assms(3) by (auto simp: dict_has_def dest!: map_of_SomeD)
qed simp

lemma fewer_devices_than_limit:
  assumes "outcome_holds n dst v s Hop_limit" shows "n \<le> length (nv_rows v)"
proof -
  from assms obtain d where d: "reaches dst v n s d" and no: "\<not> comes_back n dst v s" by (auto simp: outcome_holds_def)
  have "\<exists>e. reaches dst v i s e \<and> dict_has (nv_rows v) e" if "i < n" for i
  proof -
    from that have "n = i + Suc (n - i - 1)" by simp
    with d obtain e where e: "reaches dst v i s e" "reaches dst v (Suc (n - i - 1)) e d" by (metis reaches_prefix)
    from reaches_prefix [of 1 "n - i - 1" dst v e d] e(2) obtain f where "forwards dst v e f" by auto
    then show ?thesis using e(1) forwards_queried by blast
  qed
  then obtain f where f: "\<And>i. i < n \<Longrightarrow> reaches dst v i s (f i) \<and> dict_has (nv_rows v) (f i)" by metis
  have "inj_on f {..<n}"
  proof (rule inj_onI)
    fix i j assume "i \<in> {..<n}" "j \<in> {..<n}" "f i = f j"
    then show "i = j" using no f [of i] f [of j] unfolding comes_back_def by (metis lessThan_iff nat_neq_iff)
  qed
  moreover have "f ` {..<n} \<subseteq> fst ` set (nv_rows v)"
  proof
    fix x assume "x \<in> f ` {..<n}"
    then have "dict_has (nv_rows v) x" using f by auto
    then show "x \<in> fst ` set (nv_rows v)" by (force simp: dict_has_def dest!: map_of_SomeD)
  qed
  ultimately have "n \<le> card (fst ` set (nv_rows v))"
    using card_inj_on_le [of f "{..<n}" "fst ` set (nv_rows v)"] by simp
  also have "\<dots> \<le> length (nv_rows v)" by (metis card_image_le card_length finite_set le_trans)
  finally show ?thesis .
qed

text \<open>
  C37: over a selection of fewer than sixteen devices, all of them queried, the path comes to an end that the tables
  explain: it is never stopped by the limit, and the outcome for a device that was not queried does not occur.
\<close>

theorem selection_explained:
  assumes "dict_has (nv_rows v) s" and "list_all (\<lambda>(ip, as). dict_has (nv_rows v) ip) (nv_addrs v)"
    and "length (nv_rows v) < max_hops"
  shows "pa_outcome (path_trace dst s v) \<in> {Delivered, No_route, Fork, Outside, Loop}"
proof -
  have "pa_outcome (path_trace dst s v) \<noteq> Hop_limit"
    using path_trace_holds [of dst v s] fewer_devices_than_limit [of max_hops dst v s] assms(3) by force
  moreover have "pa_outcome (path_trace dst s v) \<noteq> Not_queried"
  proof
    assume "pa_outcome (path_trace dst s v) = Not_queried"
    with path_trace_holds [of dst v s] obtain i d where "reaches dst v i s d" "stops dst v d Not_queried"
      by (auto simp: outcome_holds_def)
    then have "dict_get (nv_rows v) d = None" by (auto elim: stopsE)
    moreover have "dict_has (nv_rows v) d"
      by (rule reaches_queried [OF \<open>reaches dst v i s d\<close> assms(1)]) (use assms(2) in \<open>simp add: list_all_iff\<close>)
    ultimately show False by (simp add: dict_has_def)
  qed
  ultimately show ?thesis by (cases "pa_outcome (path_trace dst s v)") simp_all
qed

lemma selection_explained_witness:
  "pa_outcome (path_trace ''192.0.2.9'' ''10.0.0.1'' ex_view) \<in> {Delivered, No_route, Fork, Outside, Loop}"
  by (rule selection_explained; code_simp)

section \<open>Tables of other contexts\<close>

lemma insort_key_map: "insort_key k (g x) (map g xs) = map g (insort_key (\<lambda>x. k (g x)) x xs)"
  by (induction xs) auto

lemma sort_key_map: "sort_key k (map g xs) = map g (sort_key (\<lambda>x. k (g x)) xs)"
  by (induction xs) (simp_all add: insort_key_map)

definition with_vrf :: "json \<Rightarrow> rt_row \<Rightarrow> rt_row" where
  "with_vrf j r = r\<lparr>rw_vrf := j\<rparr>"

definition cand_with_vrf :: "json \<Rightarrow> rt_cand \<Rightarrow> rt_cand" where
  "cand_with_vrf j c = c\<lparr>cd_row := with_vrf j (cd_row c)\<rparr>"

lemma cand_of_with_vrf: "cand_of a (with_vrf j r) = map_option (cand_with_vrf j) (cand_of a r)"
  by (auto simp: cand_of_def with_vrf_def cand_with_vrf_def admin_distance_def Let_def split: option.splits)

lemma cand_with_vrf_simps [simp]:
  "cand_key (cand_with_vrf j c) = cand_key c" "rw_type (cd_row (cand_with_vrf j c)) = rw_type (cd_row c)"
  "rw_gateway (cd_row (cand_with_vrf j c)) = rw_gateway (cd_row c)"
  by (simp_all add: cand_key_def cand_with_vrf_def with_vrf_def)

lemma map_filter_option: "List.map_filter (\<lambda>x. map_option g (f x)) xs = map g (List.map_filter f xs)"
  by (induction xs) (auto simp: List.map_filter_def)

lemma candidates_with_vrf: "candidates (map (with_vrf j) rows) dst = map (cand_with_vrf j) (candidates rows dst)"
proof -
  have "List.map_filter (cand_of a) (map (with_vrf j) rows) = map (cand_with_vrf j) (List.map_filter (cand_of a) rows)" for a
    unfolding map_filter_option [symmetric] cand_of_with_vrf [symmetric] by (simp add: List.map_filter_def filter_map o_def)
  then show ?thesis by (simp add: candidates_def sort_key_map split: option.splits)
qed

definition one_vrf :: "json \<Rightarrow> net_view \<Rightarrow> net_view" where
  "one_vrf j v = v\<lparr>nv_rows := map (\<lambda>(ip, rows). (ip, map (with_vrf j) rows)) (nv_rows v)\<rparr>"

lemma one_vrf_simps [simp]:
  "dict_get (nv_rows (one_vrf j v)) d = map_option (map (with_vrf j)) (dict_get (nv_rows v) d)"
  "nv_addrs (one_vrf j v) = nv_addrs v"
  by (simp_all add: one_vrf_def map_of_map [simplified])

lemma forwards_one_vrf: "forwards dst (one_vrf j v) = forwards dst v"
proof (intro ext)
  fix d e
  show "forwards dst (one_vrf j v) d e = forwards dst v d e"
    unfolding forwards.simps by (auto simp: candidates_with_vrf same_choice_key map_eq_Cons_conv)
qed

lemma stops_one_vrf: "stops dst (one_vrf j v) d x = stops dst v d x"
  unfolding stops.simps by (cases x) (auto simp: candidates_with_vrf same_choice_key map_eq_Cons_conv, blast)

text \<open>
  The VRF of a route plays no part in a path: rows of any VRF decide for the global table, since giving all rows one
  VRF leaves every outcome as it is.
\<close>

theorem trace_ignores_vrf: "pa_outcome (path_trace dst s (one_vrf j v)) = pa_outcome (path_trace dst s v)"
proof -
  have "outcome_holds max_hops dst (one_vrf j v) s x = outcome_holds max_hops dst v s x" for x
    by (simp add: outcome_holds_def comes_back_def forwards_one_vrf stops_one_vrf cong: outcome.case_cong)
  then show ?thesis using path_trace_holds outcome_unique by metis
qed

text \<open>A management network that is known in a VRF only is where the path to the same addresses ends.\<close>

lemma vrf_route_delivers:
  "outcome_text (pa_outcome (path_trace ''10.1.1.1'' ''10.0.0.1''
     (ex_view\<lparr>nv_rows := [(''10.0.0.1'', [ex_row ''static'' ''0.0.0.0/0'' ''10.0.0.2'' [], ex_row ''connected'' ''10.1.0.0/16'' [] ''MGMT''])]\<rparr>)))
   = ''consegna''"
  by code_simp

end
