(* ===== verification/Accounts.thy ===== *)
theory Accounts
  imports Obs_Store
begin

text \<open>
  \<open>security/user_manager.py\<close>: the store of accounts with its roles, tenants, tabs and session epochs. The store is the
  dictionary that \<open>users.json\<close> holds, or \<open>None\<close> when the file cannot be read as one; the operations are those on a
  readable store, and a field that an old account lacks has the default the code reads. The hash and the comparison of
  passwords are arguments. Shown here: what each operation keeps, and that the tabs in force are closed under the grants
  of sub-tabs.
\<close>

section \<open>Roles\<close>

definition valid_roles :: "string list" where
  "valid_roles = [''super_admin'', ''admin'', ''operator'', ''viewer'']"

definition role_ranks :: "nat dict" where
  "role_ranks = [(''viewer'', 0), (''operator'', 1), (''admin'', 2), (''super_admin'', 3)]"

definition role_rank :: "string \<Rightarrow> nat" where
  "role_rank r = (case dict_get role_ranks r of None \<Rightarrow> 0 | Some n \<Rightarrow> n)"

definition legacy_role :: string where "legacy_role = ''super_admin''"

definition is_admin :: "string \<Rightarrow> bool" where
  "is_admin role \<longleftrightarrow> role \<in> {''super_admin'', ''admin''}"

definition can_manage :: "string \<Rightarrow> string \<Rightarrow> bool" where
  "can_manage actor_role target_role \<longleftrightarrow> actor_role = ''super_admin'' \<or> role_rank target_role < role_rank actor_role"

definition can_assign :: "string \<Rightarrow> string \<Rightarrow> bool" where
  "can_assign actor_role new_role \<longleftrightarrow>
     dict_has role_ranks new_role \<and> (actor_role = ''super_admin'' \<or> role_rank new_role < role_rank actor_role)"

definition min_password_length :: nat where "min_password_length = 8"

definition password_ok :: "string \<Rightarrow> bool" where
  "password_ok p \<longleftrightarrow> length p \<ge> min_password_length"

section \<open>The store\<close>

record user =
  us_hash :: string
  us_role :: "string option"
  us_groups :: "string list"
  us_email :: string
  us_tabs :: "string list"
  us_disabled :: bool
  us_must_change :: bool
  us_pending :: bool
  us_awaiting :: bool
  us_last_login :: string
  us_epoch :: int

type_synonym users = "user dict"

definition has_any_user :: "users option \<Rightarrow> bool" where
  "has_any_user store = (case store of None \<Rightarrow> True | Some us \<Rightarrow> us \<noteq> [])"

definition role_of :: "user \<Rightarrow> string" where
  "role_of d = (case us_role d of None \<Rightarrow> legacy_role | Some r \<Rightarrow> r)"

definition get_role :: "users \<Rightarrow> string \<Rightarrow> string option" where
  "get_role us u = map_option role_of (dict_get us u)"

definition create_user ::
    "(string \<Rightarrow> string) \<Rightarrow> string \<Rightarrow> string \<Rightarrow> string \<Rightarrow> string list \<Rightarrow> bool \<Rightarrow> string \<Rightarrow> bool \<Rightarrow> users \<Rightarrow> bool \<times> users" where
  "create_user hashpw u password role groups must_change email pending us =
     (if dict_has us u then (False, us)
      else (True, dict_set u \<lparr>us_hash = hashpw password,
              us_role = Some (if role \<in> set valid_roles then role else ''viewer''),
              us_groups = groups, us_email = py_strip email, us_tabs = [], us_disabled = False,
              us_must_change = must_change, us_pending = pending, us_awaiting = False, us_last_login = [], us_epoch = 0\<rparr> us))"

definition verify_user :: "(string \<Rightarrow> string \<Rightarrow> bool) \<Rightarrow> string \<Rightarrow> string \<Rightarrow> users \<Rightarrow> bool" where
  "verify_user checkpw u password us = (case dict_get us u of None \<Rightarrow> False | Some d \<Rightarrow> checkpw password (us_hash d))"

text \<open>\<open>_update\<close> and the setters of one field.\<close>

definition update_user :: "string \<Rightarrow> (user \<Rightarrow> user) \<Rightarrow> users \<Rightarrow> bool \<times> users" where
  "update_user u f us = (case dict_get us u of None \<Rightarrow> (False, us) | Some d \<Rightarrow> (True, dict_set u (f d) us))"

definition change_password ::
    "(string \<Rightarrow> string \<Rightarrow> bool) \<Rightarrow> (string \<Rightarrow> string) \<Rightarrow> string \<Rightarrow> string \<Rightarrow> string \<Rightarrow> users \<Rightarrow> bool \<times> users" where
  "change_password checkpw hashpw u old new us =
     (if \<not> verify_user checkpw u old us then (False, us)
      else update_user u (\<lambda>d. d\<lparr>us_hash := hashpw new, us_must_change := False\<rparr>) us)"

definition user_flag :: "(user \<Rightarrow> bool) \<Rightarrow> users \<Rightarrow> string \<Rightarrow> bool" where
  "user_flag f us u = (case dict_get us u of None \<Rightarrow> False | Some d \<Rightarrow> f d)"

definition must_change_password :: "users \<Rightarrow> string \<Rightarrow> bool" where "must_change_password = user_flag us_must_change"
definition is_disabled :: "users \<Rightarrow> string \<Rightarrow> bool" where "is_disabled = user_flag us_disabled"
definition is_pending :: "users \<Rightarrow> string \<Rightarrow> bool" where "is_pending = user_flag us_pending"
definition awaiting_password :: "users \<Rightarrow> string \<Rightarrow> bool" where "awaiting_password = user_flag us_awaiting"

definition approve :: "string \<Rightarrow> users \<Rightarrow> bool \<times> users" where
  "approve u = update_user u (\<lambda>d. d\<lparr>us_pending := False\<rparr>)"

definition mark_awaiting_password :: "string \<Rightarrow> users \<Rightarrow> bool \<times> users" where
  "mark_awaiting_password u = update_user u (\<lambda>d. d\<lparr>us_awaiting := True\<rparr>)"

definition password_chosen_by_user :: "string \<Rightarrow> users \<Rightarrow> bool \<times> users" where
  "password_chosen_by_user u = update_user u (\<lambda>d. d\<lparr>us_awaiting := False, us_must_change := False\<rparr>)"

definition record_login :: "string \<Rightarrow> string \<Rightarrow> users \<Rightarrow> users" where
  "record_login now_text u us = snd (update_user u (\<lambda>d. d\<lparr>us_last_login := now_text\<rparr>) us)"

definition session_epoch :: "users \<Rightarrow> string \<Rightarrow> int" where
  "session_epoch us u = (case dict_get us u of None \<Rightarrow> 0 | Some d \<Rightarrow> us_epoch d)"

definition bump_session_epoch :: "string \<Rightarrow> users \<Rightarrow> bool \<times> users" where
  "bump_session_epoch u us = update_user u (\<lambda>d. d\<lparr>us_epoch := session_epoch us u + 1\<rparr>) us"

definition find_by_login :: "string \<Rightarrow> users \<Rightarrow> string list" where
  "find_by_login identifier us =
     (let ident = py_strip identifier; folded = py_lower ident in
      List.map_filter (\<lambda>(u, d).
        if u = ident \<or> folded \<noteq> [] \<and> py_lower (py_strip (us_email d)) = folded then Some u else None) us)"

definition set_disabled :: "string \<Rightarrow> bool \<Rightarrow> users \<Rightarrow> bool \<times> users" where
  "set_disabled u b = update_user u (\<lambda>d. d\<lparr>us_disabled := b\<rparr>)"

definition active_super :: "user \<Rightarrow> bool" where
  "active_super d \<longleftrightarrow> role_of d = ''super_admin'' \<and> \<not> us_disabled d \<and> \<not> us_pending d"

definition count_active_super_admins :: "users \<Rightarrow> nat" where
  "count_active_super_admins us = length (filter (\<lambda>(u, d). active_super d) us)"

definition is_last_active_super_admin :: "users \<Rightarrow> string \<Rightarrow> bool" where
  "is_last_active_super_admin us u =
     (case dict_get us u of
        None \<Rightarrow> False
      | Some d \<Rightarrow> active_super d \<and> count_active_super_admins us \<le> 1)"

definition get_user_groups :: "users \<Rightarrow> string \<Rightarrow> string list" where
  "get_user_groups us u = (case dict_get us u of None \<Rightarrow> [] | Some d \<Rightarrow> us_groups d)"

definition set_groups :: "string \<Rightarrow> string list \<Rightarrow> users \<Rightarrow> bool \<times> users" where
  "set_groups u groups = update_user u (\<lambda>d. d\<lparr>us_groups := groups\<rparr>)"

definition get_allowed_tabs :: "users \<Rightarrow> string \<Rightarrow> string list" where
  "get_allowed_tabs us u = (case dict_get us u of None \<Rightarrow> [] | Some d \<Rightarrow> us_tabs d)"

definition set_allowed_tabs :: "string \<Rightarrow> string list \<Rightarrow> users \<Rightarrow> bool \<times> users" where
  "set_allowed_tabs u tabs = update_user u (\<lambda>d. d\<lparr>us_tabs := tabs\<rparr>)"

section \<open>Tabs\<close>

definition tab_aliases :: "string dict" where
  "tab_aliases = [(''tab-mac'', ''tab-endpoint''), (''tab-clientmap'', ''tab-endpoint''), (''tab-diagnosi'', ''tab-endpoint''),
     (''tab-endpoints'', ''tab-endpoint'')]"

definition tab_alias :: "string \<Rightarrow> string" where
  "tab_alias t = (case dict_get tab_aliases t of None \<Rightarrow> t | Some a \<Rightarrow> a)"

definition subtab_grants :: "string list dict" where
  "subtab_grants = [(''tab-map'', [''tab-map-interactive'']), (''tab-provisioning'', [''tab-provisioner'']),
     (''tab-devices'', [''tab-device-history''])]"

definition subtabs :: "string \<Rightarrow> string list" where
  "subtabs t = (case dict_get subtab_grants t of None \<Rightarrow> [] | Some s \<Rightarrow> s)"

definition always_granted_tabs :: "string list" where "always_granted_tabs = [''tab-home'']"

text \<open>The tabs in force for a list of allowed ones; \<open>None\<close> is no restriction.\<close>

definition tab_list :: "string list \<Rightarrow> string list" where
  "tab_list raw = (let tabs = map tab_alias raw in tabs @ concat (map subtabs tabs) @ always_granted_tabs)"

definition tabs_in_force :: "string list \<Rightarrow> string set" where
  "tabs_in_force raw = set (tab_list raw)"

definition effective_tabs :: "users \<Rightarrow> string \<Rightarrow> string set option" where
  "effective_tabs us u =
     (if get_role us u = Some ''super_admin'' then None
      else (let raw = get_allowed_tabs us u in if raw = [] then None else Some (tabs_in_force raw)))"

section \<open>Removal, roles and recovery\<close>

definition delete_user :: "string \<Rightarrow> users \<Rightarrow> bool \<times> users" where
  "delete_user u us = (if dict_has us u then (True, AList.delete u us) else (False, us))"

definition set_role :: "string \<Rightarrow> string \<Rightarrow> users \<Rightarrow> bool \<times> users" where
  "set_role u role us =
     (if role \<notin> set valid_roles then (False, us) else update_user u (\<lambda>d. d\<lparr>us_role := Some role\<rparr>) us)"

text \<open>The highest rank first, then the name.\<close>

definition first_admin_username :: "users \<Rightarrow> string option" where
  "first_admin_username us =
     (let admins = filter (\<lambda>(u, d). is_admin (role_of d)) us;
          top = filter (\<lambda>(u, d). list_all (\<lambda>(v, e). role_rank (role_of e) \<le> role_rank (role_of d)) admins) admins in
      case sorted_texts (map fst top) of [] \<Rightarrow> None | u # _ \<Rightarrow> Some u)"

definition reset_password_break_glass :: "(string \<Rightarrow> string) \<Rightarrow> string \<Rightarrow> string \<Rightarrow> users \<Rightarrow> bool \<times> users" where
  "reset_password_break_glass hashpw u new =
     update_user u (\<lambda>d. d\<lparr>us_hash := hashpw new, us_must_change := True, us_disabled := False\<rparr>)"

definition get_email :: "users \<Rightarrow> string \<Rightarrow> string" where
  "get_email us u = (case dict_get us u of None \<Rightarrow> [] | Some d \<Rightarrow> us_email d)"

definition set_email :: "string \<Rightarrow> string \<Rightarrow> users \<Rightarrow> bool \<times> users" where
  "set_email u email = update_user u (\<lambda>d. d\<lparr>us_email := py_strip email\<rparr>)"

definition migrate_admins :: "users \<Rightarrow> string list \<times> users" where
  "migrate_admins us =
     (if count_active_super_admins us > 0 then ([], us)
      else (sorted_texts (map fst (filter (\<lambda>(u, d). us_role d = Some ''admin'') us)),
            map (\<lambda>(u, d). (u, if us_role d = Some ''admin'' then d\<lparr>us_role := Some ''super_admin''\<rparr> else d)) us))"

definition rename_allowed_tab :: "string \<Rightarrow> string \<Rightarrow> users \<Rightarrow> string list \<times> users" where
  "rename_allowed_tab old new us =
     (sorted_texts (map fst (filter (\<lambda>(u, d). old \<in> set (us_tabs d)) us)),
      map (\<lambda>(u, d). (u, if old \<in> set (us_tabs d) then d\<lparr>us_tabs := map (\<lambda>t. if t = old then new else t) (us_tabs d)\<rparr> else d)) us)"

section \<open>What the operations keep\<close>

lemma update_user_get:
  "dict_get (snd (update_user u f us)) v = (if v = u then map_option f (dict_get us u) else dict_get us v)"
  by (auto simp: update_user_def split: option.splits)

lemma update_user_ok [simp]: "fst (update_user u f us) \<longleftrightarrow> dict_has us u"
  by (auto simp: update_user_def dict_has_def split: option.splits)

lemma delete_user_get: "dict_get (snd (delete_user u us)) v = (if v = u then None else dict_get us v)"
  by (auto simp: delete_user_def dict_has_def delete_conv')

lemma create_user_get:
  "dict_get (snd (create_user hashpw u password role groups must_change email pending us)) v =
     (if v = u \<and> \<not> dict_has us u then Some \<lparr>us_hash = hashpw password,
              us_role = Some (if role \<in> set valid_roles then role else ''viewer''),
              us_groups = groups, us_email = py_strip email, us_tabs = [], us_disabled = False,
              us_must_change = must_change, us_pending = pending, us_awaiting = False, us_last_login = [], us_epoch = 0\<rparr>
      else dict_get us v)"
  by (auto simp: create_user_def dict_has_def)

lemmas user_setters = approve_def mark_awaiting_password_def password_chosen_by_user_def bump_session_epoch_def set_disabled_def
  set_groups_def set_allowed_tabs_def reset_password_break_glass_def set_email_def

text \<open>The usable super administrators are the accounts that the count finds.\<close>

definition usable_super :: "users \<Rightarrow> string \<Rightarrow> bool" where
  "usable_super us u \<longleftrightarrow> (case dict_get us u of None \<Rightarrow> False | Some d \<Rightarrow> active_super d)"

lemma count_active_pos:
  assumes "distinct (map fst us)"
  shows "0 < count_active_super_admins us \<longleftrightarrow> (\<exists>u. usable_super us u)"
proof -
  have "0 < count_active_super_admins us \<longleftrightarrow> (\<exists>(u, d) \<in> set us. active_super d)"
    by (auto simp: count_active_super_admins_def filter_empty_conv)
  also have "\<dots> \<longleftrightarrow> (\<exists>u. usable_super us u)"
    using assms by (auto simp: usable_super_def split: option.splits) (metis map_of_is_SomeI option.inject)+
  finally show ?thesis .
qed

lemma not_last_another:
  assumes "distinct (map fst us)" and "usable_super us u" and "\<not> is_last_active_super_admin us u"
  shows "\<exists>v. v \<noteq> u \<and> usable_super us v"
proof (rule ccontr)
  assume no: "\<not> (\<exists>v. v \<noteq> u \<and> usable_super us v)"
  have "\<forall>(v, d) \<in> set us. active_super d \<longrightarrow> v = u"
    using no assms(1) by (auto simp: usable_super_def)
  then have "set (map fst (filter (\<lambda>(v, d). active_super d) us)) \<subseteq> {u}" by auto
  moreover have "distinct (map fst (filter (\<lambda>(v, d). active_super d) us))" by (rule distinct_map_filter [OF assms(1)])
  ultimately have "length (map fst (filter (\<lambda>(v, d). active_super d) us)) \<le> 1"
    using card_mono [of "{u}" "set (map fst (filter (\<lambda>(v, d). active_super d) us))"] distinct_card by fastforce
  then show False using assms(2,3)
    by (auto simp: is_last_active_super_admin_def usable_super_def count_active_super_admins_def split: option.splits)
qed

text \<open>The tabs in force contain what they grant.\<close>

lemma subtabs_twice:
  assumes "t \<in> set (subtabs s)" shows "tab_alias t = t \<and> subtabs t = []"
proof -
  have "list_all (\<lambda>(s, ts). list_all (\<lambda>t. tab_alias t = t \<and> subtabs t = []) ts) subtab_grants" by code_simp
  moreover obtain ts where "(s, ts) \<in> set subtab_grants" "t \<in> set ts"
    using assms by (auto simp: subtabs_def split: option.splits dest!: sym [THEN map_of_SomeD] map_of_SomeD)
  ultimately show ?thesis by (auto simp: list_all_iff)
qed

lemma alias_no_alias: "tab_alias (tab_alias t) = tab_alias t"
proof -
  have "list_all (\<lambda>(s, a). tab_alias a = a) tab_aliases" by code_simp
  then show ?thesis by (auto simp: tab_alias_def [of t] list_all_iff split: option.splits dest!: map_of_SomeD)
qed

lemma tabs_in_force_closed:
  assumes "set (map tab_alias (filter (\<lambda>t. t \<noteq> ''tab-home'') raw)) \<subseteq> tabs_in_force held"
  shows "tabs_in_force raw \<subseteq> tabs_in_force held"
proof -
  have home: "tab_alias ''tab-home'' = ''tab-home''" "subtabs ''tab-home'' = []" by code_simp+
  have held: "''tab-home'' \<in> tabs_in_force held" by (simp add: tabs_in_force_def tab_list_def always_granted_tabs_def Let_def)
  have sub: "set (subtabs t) \<subseteq> tabs_in_force held" if "t \<in> tabs_in_force held" for t
    using that home(2) subtabs_twice by (auto simp: tabs_in_force_def tab_list_def always_granted_tabs_def Let_def)
  have "tab_alias t \<in> tabs_in_force held" if "t \<in> set raw" for t
    using assms that home held by (cases "t = ''tab-home''") auto
  then show ?thesis using sub held by (auto simp: tabs_in_force_def [of raw] tab_list_def [of raw] always_granted_tabs_def Let_def)
qed

end
