(* ===== verification/One_Shot.thy ===== *)
theory One_Shot
  imports Accounts
begin

text \<open>
  The one-time secrets of the package \<open>security\<close>: links that reset a password (\<open>password_reset.py\<close>), invitations
  (\<open>user_invite.py\<close>), confirmations of an address (\<open>email_verify.py\<close>), login states of the single sign-on (\<open>sso.py\<close>) and
  codes of the bridge (\<open>mcp_grants.py\<close>). They are stores in memory from the digest of a token to what it is for and
  when it expires. The digest and the random token are arguments, instants are integers. Shown here: one interface that
  all five provide, and that a token is redeemed at most once, only while it lives, and for what it was issued.
\<close>

section \<open>The interface\<close>

datatype 'p token_event = Issued int int string 'p | Consumed int string

fun event_time :: "'p token_event \<Rightarrow> int" where
  "event_time (Issued now life t p) = now"
| "event_time (Consumed now t) = now"

locale one_shot =
  fixes issue :: "int \<Rightarrow> int \<Rightarrow> string \<Rightarrow> 'p \<Rightarrow> 's \<Rightarrow> 's"
    and consume :: "int \<Rightarrow> string \<Rightarrow> 's \<Rightarrow> 'p option \<times> 's"
    and holds :: "int \<Rightarrow> string \<Rightarrow> 's \<Rightarrow> 'p option"
    and dg :: "string \<Rightarrow> string"
    and ok :: "'s \<Rightarrow> bool"
  assumes consume_returns: "ok s \<Longrightarrow> fst (consume now t s) = holds now t s"
    and consume_burns: "ok s \<Longrightarrow> now \<le> later \<Longrightarrow>
      holds later u (snd (consume now t s)) = (if dg u = dg t then None else holds later u s)"
    and consume_ok: "ok s \<Longrightarrow> ok (snd (consume now t s))"
    and issue_holds: "ok s \<Longrightarrow> now \<le> later \<Longrightarrow> holds later u (issue now life t p s)
      = (if dg u = dg t then (if later < now + life then Some p else None) else holds later u s)"
    and issue_ok: "ok s \<Longrightarrow> ok (issue now life t p s)"
    and holds_digest: "dg t = dg u \<Longrightarrow> holds now t s = holds now u s"
begin

text \<open>What the redemptions of a token return over a run, with their time.\<close>

fun redeemed :: "string \<Rightarrow> 'p token_event list \<Rightarrow> 's \<Rightarrow> (int \<times> 'p) list" where
  "redeemed t [] s = []"
| "redeemed t (Issued now life u p # es) s = redeemed t es (issue now life u p s)"
| "redeemed t (Consumed now u # es) s =
     (case (if dg t = dg u then fst (consume now u s) else None) of None \<Rightarrow> [] | Some p \<Rightarrow> [(now, p)])
     @ redeemed t es (snd (consume now u s))"

fun issues :: "string \<Rightarrow> 'p token_event \<Rightarrow> bool" where
  "issues t (Issued now life u p) = (dg t = dg u)"
| "issues t (Consumed now u) = False"

text \<open>Without a new issue a token that the store does not hold stays out of it.\<close>

lemma not_held_never_redeemed:
  assumes "ok s" and "sorted (t0 # map event_time es)" and "\<not> list_ex (issues t) es"
    and "\<And>later. t0 \<le> later \<Longrightarrow> holds later t s = None"
  shows "redeemed t es s = []"
  using assms
proof (induction t es s arbitrary: t0 rule: redeemed.induct)
  case (2 t now life u p es s)
  have "holds later t (issue now life u p s) = None" if "now \<le> later" for later
    using 2 that issue_holds [of s now later t life u p] by auto
  then show ?case using 2 issue_ok by auto
next
  case (3 t now u es s)
  have "holds later t (snd (consume now u s)) = None" if "now \<le> later" for later
    using 3 that consume_burns [of s now later t u] by auto
  then have "redeemed t es (snd (consume now u s)) = []" using 3 consume_ok by auto
  moreover have "fst (consume now u s) = None" if "dg t = dg u"
    using 3 that consume_returns [of s now u] holds_digest [OF that] by auto
  ultimately show ?case by simp
qed simp

text \<open>A token that the store holds until an instant is redeemed by its first use before it, and by no other.\<close>

lemma held_redeemed:
  assumes "ok s" and "sorted (t0 # map event_time es)" and "\<not> list_ex (issues t) es"
    and "\<And>later. t0 \<le> later \<Longrightarrow> holds later t s = (if later < until then Some p else None)"
  shows "redeemed t es s = (case find (\<lambda>e. \<exists>now u. e = Consumed now u \<and> dg u = dg t) es of
    None \<Rightarrow> [] | Some e \<Rightarrow> if event_time e < until then [(event_time e, p)] else [])"
  using assms
proof (induction t es s arbitrary: t0 rule: redeemed.induct)
  case (2 t now life u q es s)
  have "holds later t (issue now life u q s) = (if later < until then Some p else None)" if "now \<le> later" for later
    using 2 that issue_holds [of s now later t life u q] by auto
  then show ?case using 2 issue_ok by auto
next
  case (3 t now u es s)
  show ?case
  proof (cases "dg t = dg u")
    case True
    have "redeemed t es (snd (consume now u s)) = []"
      by (rule not_held_never_redeemed [of _ now]) (use 3 True consume_ok consume_burns in auto)
    moreover have "fst (consume now u s) = (if now < until then Some p else None)"
      using 3 consume_returns [of s now u] holds_digest [OF True] by auto
    ultimately show ?thesis using True by simp
  next
    case False
    have "holds later t (snd (consume now u s)) = (if later < until then Some p else None)" if "now \<le> later" for later
      using 3 that False consume_burns [of s now later t u] by auto
    then show ?thesis using 3 False consume_ok by auto
  qed
qed simp

text \<open>From an issue to the next one of the same token.\<close>

lemma redeemed_after_issue:
  assumes "ok s" and "sorted (t0 # map event_time es)" and "\<not> list_ex (issues t) es"
  shows "redeemed t es (issue t0 life t p s) = (case find (\<lambda>e. \<exists>now u. e = Consumed now u \<and> dg u = dg t) es of
    None \<Rightarrow> [] | Some e \<Rightarrow> if event_time e < t0 + life then [(event_time e, p)] else [])"
  by (rule held_redeemed [of _ t0]) (use assms issue_ok issue_holds in auto)

end

section \<open>The store\<close>

type_synonym 'p shots = "('p \<times> int) dict"

definition os_purge :: "int \<Rightarrow> 'p shots \<Rightarrow> 'p shots" where
  "os_purge now s = filter (\<lambda>(k, p, expires). expires > now) s"

definition os_issue :: "(string \<Rightarrow> string) \<Rightarrow> int \<Rightarrow> int \<Rightarrow> string \<Rightarrow> 'p \<Rightarrow> 'p shots \<Rightarrow> 'p shots" where
  "os_issue dg now life t p s = dict_set (dg t) (p, now + life) (os_purge now s)"

definition os_pop :: "(string \<Rightarrow> string) \<Rightarrow> int \<Rightarrow> string \<Rightarrow> 'p shots \<Rightarrow> 'p option \<times> 'p shots" where
  "os_pop dg now t s =
     (case dict_get s (dg t) of
        None \<Rightarrow> (None, s)
      | Some (p, expires) \<Rightarrow> (if expires > now then Some p else None, AList.delete (dg t) s))"

definition os_consume :: "(string \<Rightarrow> string) \<Rightarrow> int \<Rightarrow> string \<Rightarrow> 'p shots \<Rightarrow> 'p option \<times> 'p shots" where
  "os_consume dg now t s = os_pop dg now t (os_purge now s)"

definition os_holds :: "(string \<Rightarrow> string) \<Rightarrow> int \<Rightarrow> string \<Rightarrow> 'p shots \<Rightarrow> 'p option" where
  "os_holds dg now t s =
     (case dict_get s (dg t) of None \<Rightarrow> None | Some (p, expires) \<Rightarrow> if expires > now then Some p else None)"

definition os_ok :: "'p shots \<Rightarrow> bool" where "os_ok s \<longleftrightarrow> distinct (map fst s)"

text \<open>The random token of a call that asks for one is the argument \<open>t\<close>; what is stored is its digest.\<close>

definition reset_ttl :: int where "reset_ttl = 15 * 60"
definition setup_ttl :: int where "setup_ttl = 24 * 60 * 60"
definition invite_ttl :: int where "invite_ttl = 24 * 60 * 60"
definition verify_ttl :: int where "verify_ttl = 60 * 60"
definition state_ttl :: int where "state_ttl = 10 * 60"
definition code_ttl :: int where "code_ttl = 120"

definition reset_issue :: "(string \<Rightarrow> string) \<Rightarrow> int \<Rightarrow> string \<Rightarrow> string \<Rightarrow> int \<Rightarrow> string shots \<Rightarrow> string shots" where
  "reset_issue dg now t username ttl = os_issue dg now ttl t username"

definition reset_consume :: "(string \<Rightarrow> string) \<Rightarrow> int \<Rightarrow> string \<Rightarrow> string shots \<Rightarrow> string option \<times> string shots" where
  "reset_consume = os_consume"

definition invite_issue :: "(string \<Rightarrow> string) \<Rightarrow> int \<Rightarrow> string \<Rightarrow> string \<Rightarrow> string \<Rightarrow> (string \<times> string) shots \<Rightarrow> (string \<times> string) shots" where
  "invite_issue dg now t email role = os_issue dg now invite_ttl t (email, role)"

definition invite_consume :: "(string \<Rightarrow> string) \<Rightarrow> int \<Rightarrow> string \<Rightarrow> (string \<times> string) shots \<Rightarrow> (string \<times> string) option \<times> (string \<times> string) shots" where
  "invite_consume = os_consume"

definition verify_issue :: "(string \<Rightarrow> string) \<Rightarrow> int \<Rightarrow> string \<Rightarrow> string \<Rightarrow> string \<Rightarrow> (string \<times> string) shots \<Rightarrow> (string \<times> string) shots" where
  "verify_issue dg now t username email = os_issue dg now verify_ttl t (username, email)"

definition verify_consume :: "(string \<Rightarrow> string) \<Rightarrow> int \<Rightarrow> string \<Rightarrow> (string \<times> string) shots \<Rightarrow> (string \<times> string) option \<times> (string \<times> string) shots" where
  "verify_consume = os_consume"

text \<open>The single sign-on does not purge when it consumes; the bridge keys its codes by the code itself.\<close>

definition sso_start :: "(string \<Rightarrow> string) \<Rightarrow> int \<Rightarrow> string \<Rightarrow> string \<Rightarrow> string \<Rightarrow> (string \<times> string) shots \<Rightarrow> (string \<times> string) shots" where
  "sso_start dg now state nonce verifier = os_issue dg now state_ttl state (nonce, verifier)"

definition consume_state :: "(string \<Rightarrow> string) \<Rightarrow> int \<Rightarrow> string \<Rightarrow> (string \<times> string) shots \<Rightarrow> (string \<times> string) option \<times> (string \<times> string) shots" where
  "consume_state = os_pop"

record mcp_code =
  mc_user :: string
  mc_challenge :: string
  mc_label :: string
  mc_read_only :: bool
  mc_bp_draft :: bool

definition create_code :: "int \<Rightarrow> string \<Rightarrow> string \<Rightarrow> string \<Rightarrow> string \<Rightarrow> bool \<Rightarrow> bool \<Rightarrow> mcp_code shots \<Rightarrow> mcp_code shots" where
  "create_code now c username challenge label read_only bp_draft =
     os_issue id now code_ttl c \<lparr>mc_user = username, mc_challenge = challenge, mc_label = take 80 label,
       mc_read_only = read_only, mc_bp_draft = bp_draft\<rparr>"

section \<open>The stores keep the interface\<close>

lemma os_purge_get: "os_ok s \<Longrightarrow> dict_get (os_purge now s) k = (case dict_get s k of
    None \<Rightarrow> None | Some (p, expires) \<Rightarrow> if expires > now then Some (p, expires) else None)"
  by (induction s) (auto simp: os_purge_def os_ok_def split: option.splits, force+)

lemma os_purge_ok [simp]: "os_ok s \<Longrightarrow> os_ok (os_purge now s)"
  by (simp add: os_ok_def os_purge_def distinct_map_filter)

lemma os_issue_ok [simp]: "os_ok s \<Longrightarrow> os_ok (os_issue dg now life t p s)"
  using os_purge_ok [of s now] by (simp add: os_ok_def os_issue_def distinct_update)

lemma os_pop_ok [simp]: "os_ok s \<Longrightarrow> os_ok (snd (os_pop dg now t s))"
  by (auto simp: os_ok_def os_pop_def distinct_delete split: option.splits)

lemma os_pop_get: "dict_get (snd (os_pop dg now t s)) k = (if k = dg t then None else dict_get s k)"
  by (auto simp: os_pop_def delete_conv' split: option.splits)

lemma os_holds_issue: "os_ok s \<Longrightarrow> now \<le> later \<Longrightarrow> os_holds dg later u (os_issue dg now life t p s)
    = (if dg u = dg t then (if later < now + life then Some p else None) else os_holds dg later u s)"
  by (auto simp: os_holds_def os_issue_def os_purge_get split: option.splits)

lemma os_holds_pop: "os_holds dg later u (snd (os_pop dg now t s)) = (if dg u = dg t then None else os_holds dg later u s)"
  by (simp add: os_holds_def os_pop_get)

lemma os_holds_purge: "os_ok s \<Longrightarrow> now \<le> later \<Longrightarrow> os_holds dg later u (os_purge now s) = os_holds dg later u s"
  by (auto simp: os_holds_def os_purge_get split: option.splits)

lemma os_pop_returns: "fst (os_pop dg now t s) = os_holds dg now t s"
  by (auto simp: os_pop_def os_holds_def split: option.splits)

lemma os_holds_digest: "dg t = dg u \<Longrightarrow> os_holds dg now t s = os_holds dg now u s"
  by (simp add: os_holds_def)

lemmas os_laws = os_holds_pop os_holds_purge os_pop_returns os_holds_issue

interpretation plain_shots: one_shot "os_issue dg" "os_pop dg" "os_holds dg" dg os_ok for dg
  by unfold_locales (auto simp: os_laws intro: os_holds_digest)

interpretation purging_shots: one_shot "os_issue dg" "os_consume dg" "os_holds dg" dg os_ok for dg
  by unfold_locales (auto simp: os_laws os_consume_def intro: os_holds_digest)

end
