(* ===== verification/Sessions.thy ===== *)
theory Sessions
  imports One_Shot
begin

text \<open>
  Sessions of \<open>security/security_manager.py\<close> (their settings, tokens and the list of revoked ones) and the grants of
  \<open>security/mcp_grants.py\<close>. A signed token is an opaque value of a type of its own: signing, reading, the digest of a
  token, the challenge of a verifier and the password hash are fields of a record of functions, and what is used of the
  library that signs is the predicate \<open>signs\<close>. A claim that a token lacks has the empty or zero value.
\<close>

record claims =
  cl_sub :: string
  cl_exp :: int
  cl_jti :: string
  cl_auth_time :: int
  cl_sep :: int
  cl_role :: string
  cl_ro :: bool
  cl_bpd :: bool

record 't crypto =
  cr_encode :: "claims \<Rightarrow> 't"
  cr_decode :: "int \<Rightarrow> 't \<Rightarrow> claims option"
  cr_digest :: "string \<Rightarrow> string"
  cr_challenge :: "string \<Rightarrow> string"
  cr_hash :: "string \<Rightarrow> string"
  cr_check :: "string \<Rightarrow> string \<Rightarrow> bool"

text \<open>A token is read back until it expires, and only a token that was signed is read.\<close>

definition signs :: "'t crypto \<Rightarrow> bool" where
  "signs cx \<longleftrightarrow> (\<forall>now c. cr_decode cx now (cr_encode cx c) = (if now < cl_exp c then Some c else None))
     \<and> (\<forall>now t c. cr_decode cx now t = Some c \<longrightarrow> t = cr_encode cx c)"

section \<open>Settings\<close>

definition session_idle_default :: int where "session_idle_default = 60"
definition session_max_hours_default :: int where "session_max_hours_default = 12"
definition session_idle_limits :: "int \<times> int" where "session_idle_limits = (5, 1440)"
definition session_max_hours_limit :: int where "session_max_hours_limit = 720"

definition session_int :: "json \<Rightarrow> string \<Rightarrow> int \<Rightarrow> int \<Rightarrow> int \<Rightarrow> int" where
  "session_int raw key other lo hi =
     (case (case raw of JObj d \<Rightarrow> map_option json_to_int (dict_get d key) | _ \<Rightarrow> None) of
        Some (Some n) \<Rightarrow> min (max n lo) hi
      | _ \<Rightarrow> other)"

text \<open>\<open>idle_minutes\<close> and \<open>max_hours\<close> of the saved section.\<close>

definition session_settings :: "json \<Rightarrow> int \<times> int" where
  "session_settings raw =
     (session_int raw ''idle_minutes'' session_idle_default (fst session_idle_limits) (snd session_idle_limits),
      session_int raw ''max_hours'' session_max_hours_default 1 session_max_hours_limit)"

section \<open>Tokens\<close>

text \<open>The identifiers of revoked tokens with the end of each.\<close>

type_synonym revoked = "int dict"

definition load_revoked :: "int \<Rightarrow> revoked \<Rightarrow> revoked" where
  "load_revoked now raw = filter (\<lambda>(k, v). v > now) raw"

definition revoke_token :: "int \<Rightarrow> claims \<Rightarrow> revoked \<Rightarrow> bool \<times> revoked" where
  "revoke_token now c rv =
     (if cl_jti c = [] \<or> cl_exp c = 0 then (False, rv)
      else (True, dict_set (cl_jti c) (cl_exp c) (filter (\<lambda>(k, v). \<not> v \<le> now) rv)))"

definition is_revoked :: "int \<Rightarrow> string \<Rightarrow> revoked \<Rightarrow> bool" where
  "is_revoked now jti rv \<longleftrightarrow> jti \<noteq> [] \<and> (case dict_get rv jti of None \<Rightarrow> False | Some expires \<Rightarrow> expires > now)"

text \<open>The identifier of the new token is an argument; an \<open>auth_time\<close> of zero stands for none.\<close>

definition new_claims :: "int \<Rightarrow> int \<times> int \<Rightarrow> string \<Rightarrow> int option \<Rightarrow> claims \<Rightarrow> claims" where
  "new_claims now cfg jti delta c =
     c\<lparr>cl_exp := now + (case delta of None \<Rightarrow> fst cfg * 60 | Some s \<Rightarrow> s),
       cl_jti := (if cl_jti c = [] then jti else cl_jti c),
       cl_auth_time := (if cl_auth_time c = 0 then now else cl_auth_time c)\<rparr>"

definition create_access_token :: "'t crypto \<Rightarrow> int \<Rightarrow> int \<times> int \<Rightarrow> string \<Rightarrow> int option \<Rightarrow> claims \<Rightarrow> 't" where
  "create_access_token cx now cfg jti delta c = cr_encode cx (new_claims now cfg jti delta c)"

definition verify_access_token :: "'t crypto \<Rightarrow> int \<Rightarrow> 't \<Rightarrow> revoked \<Rightarrow> claims option" where
  "verify_access_token cx now tok rv =
     (case cr_decode cx now tok of
        None \<Rightarrow> None
      | Some c \<Rightarrow> if is_revoked now (cl_jti c) rv then None else Some c)"

section \<open>Grants of the bridge\<close>

record grant =
  gr_user :: string
  gr_hash :: string
  gr_label :: string
  gr_read_only :: bool
  gr_bp_draft :: bool
  gr_sep :: int
  gr_created :: int
  gr_last_used :: "int option"

type_synonym grants = "grant dict"

definition token_prefix :: string where "token_prefix = ''snmcp_''"

text \<open>The new token and the new identifier are arguments.\<close>

definition redeem_code ::
    "'t crypto \<Rightarrow> int \<Rightarrow> string \<Rightarrow> string \<Rightarrow> string \<Rightarrow> string \<Rightarrow> users \<Rightarrow> mcp_code shots \<times> grants
      \<Rightarrow> (string \<times> string) option \<times> mcp_code shots \<times> grants" where
  "redeem_code cx now c verifier secret gid us st =
     (case os_pop id now c (fst st) of
        (None, codes) \<Rightarrow> (None, codes, snd st)
      | (Some e, codes) \<Rightarrow>
          if cr_challenge cx verifier \<noteq> mc_challenge e then (None, codes, snd st)
          else (let token = token_prefix @ secret in
            (Some (token, mc_user e), codes,
             dict_set gid \<lparr>gr_user = mc_user e, gr_hash = cr_digest cx token, gr_label = mc_label e,
               gr_read_only = mc_read_only e, gr_bp_draft = mc_bp_draft e, gr_sep = session_epoch us (mc_user e),
               gr_created = now, gr_last_used = None\<rparr> (snd st))))"

definition grant_alive :: "users \<Rightarrow> grant \<Rightarrow> bool" where
  "grant_alive us g \<longleftrightarrow> get_role us (gr_user g) \<noteq> None \<and> \<not> is_disabled us (gr_user g) \<and> \<not> is_pending us (gr_user g)
     \<and> gr_sep g = session_epoch us (gr_user g)"

definition user_for_grant :: "'t crypto \<Rightarrow> int \<Rightarrow> string \<Rightarrow> users \<Rightarrow> grants \<Rightarrow> (string \<times> bool \<times> bool) option \<times> grants" where
  "user_for_grant cx now token us grants =
     (if \<not> starts_with token_prefix token then (None, grants)
      else case find (\<lambda>(k, g). gr_hash g = cr_digest cx token) grants of
        None \<Rightarrow> (None, grants)
      | Some (gid, g) \<Rightarrow>
          if \<not> grant_alive us g then (None, grants)
          else (Some (gr_user g, gr_read_only g, gr_bp_draft g), dict_set gid (g\<lparr>gr_last_used := Some now\<rparr>) grants))"

definition list_grants :: "string option \<Rightarrow> grants \<Rightarrow> (string \<times> grant) list" where
  "list_grants user grants =
     sort_key (\<lambda>(k, g). gr_created g)
       (case user of None \<Rightarrow> grants | Some u \<Rightarrow> filter (\<lambda>(k, g). gr_user g = u) grants)"

definition revoke_grant :: "string \<Rightarrow> string option \<Rightarrow> grants \<Rightarrow> string option \<times> grants" where
  "revoke_grant gid user grants =
     (case dict_get grants gid of
        None \<Rightarrow> (None, grants)
      | Some g \<Rightarrow>
          if user \<noteq> None \<and> user \<noteq> Some (gr_user g) then (None, grants)
          else (Some (gr_user g), AList.delete gid grants))"

section \<open>What stays revoked\<close>

definition revoked_ok :: "revoked \<Rightarrow> bool" where "revoked_ok rv \<longleftrightarrow> distinct (map fst rv)"

lemma revoked_filter:
  "revoked_ok rv \<Longrightarrow> dict_get (filter (\<lambda>(k, v). P v) rv) j = (case dict_get rv j of None \<Rightarrow> None | Some v \<Rightarrow> if P v then Some v else None)"
  by (induction rv) (auto simp: revoked_ok_def split: option.splits, force+)

lemma revoked_ok_filter [simp]: "revoked_ok rv \<Longrightarrow> revoked_ok (filter P rv)"
  by (simp add: revoked_ok_def distinct_map_filter)

lemma revoke_token_ok [simp]: "revoked_ok rv \<Longrightarrow> revoked_ok (snd (revoke_token now c rv))"
  using revoked_ok_filter [of rv "\<lambda>(k, v). \<not> v \<le> now"] by (simp add: revoke_token_def revoked_ok_def distinct_update)

text \<open>A token that is revoked stays so until its end, whatever is revoked next and however often the list is loaded.\<close>

lemma revoked_stays:
  assumes "revoked_ok rv" and "dict_get rv j = Some e" and "now < e"
  shows "dict_get (load_revoked now rv) j = Some e"
    and "cl_jti c \<noteq> j \<or> cl_exp c = e \<Longrightarrow> dict_get (snd (revoke_token now c rv)) j = Some e"
  using assms by (auto simp: load_revoked_def revoke_token_def revoked_filter [OF assms(1)])

end
