(* ===== verification/Auth_Guards.thy ===== *)
theory Auth_Guards
  imports Sessions
begin

text \<open>
  \<open>routers/deps.py\<close>: who is calling, and what a caller may see and change. A guard is the status of the exception it
  raises, or nothing; a scope is a set of tenants, or \<open>None\<close> for all of them. Devices are the address and the tenant of
  an inventory entry.
\<close>

section \<open>The caller\<close>

text \<open>A request: its tokens, method, the headers against forgery and of activity, and the address of the client.\<close>

record 't http =
  ht_bearer :: "'t option"
  ht_cookie :: "'t option"
  ht_method :: string
  ht_csrf :: string
  ht_active :: bool
  ht_client :: string

type_synonym 'a http_answer = "nat + 'a"

definition csrf_methods :: "string list" where
  "csrf_methods = [''POST'', ''PUT'', ''PATCH'', ''DELETE'']"

definition session_of :: "users \<Rightarrow> claims \<Rightarrow> claims http_answer" where
  "session_of us c =
     (let sub = cl_sub c in
      if sub = [] then Inl 401
      else case get_role us sub of
        None \<Rightarrow> Inl 401
      | Some role \<Rightarrow>
          if is_disabled us sub then Inl 403
          else if is_pending us sub then Inl 403
          else if cl_sep c \<noteq> session_epoch us sub then Inl 401
          else Inr (c\<lparr>cl_role := if cl_ro c then ''viewer'' else role\<rparr>))"

definition get_current_user :: "'t crypto \<Rightarrow> int \<Rightarrow> 't http \<Rightarrow> users \<Rightarrow> revoked \<Rightarrow> claims http_answer" where
  "get_current_user cx now rq us rv =
     (case (if ht_bearer rq \<noteq> None then ht_bearer rq else ht_cookie rq) of
        None \<Rightarrow> Inl 401
      | Some tok \<Rightarrow>
          if ht_bearer rq = None \<and> ht_method rq \<in> set csrf_methods \<and> ht_csrf rq = [] then Inl 403
          else case verify_access_token cx now tok rv of
            None \<Rightarrow> Inl 401
          | Some c \<Rightarrow> session_of us c)"

definition require_role :: "string list \<Rightarrow> claims \<Rightarrow> claims http_answer" where
  "require_role allowed c = (if cl_role c \<notin> set allowed then Inl 403 else Inr c)"

definition require_tab :: "string list \<Rightarrow> users \<Rightarrow> claims \<Rightarrow> claims http_answer" where
  "require_tab wanted us c =
     (case effective_tabs us (cl_sub c) of
        None \<Rightarrow> Inr c
      | Some tabs \<Rightarrow> if tabs \<inter> set wanted = {} then Inl 403 else Inr c)"

definition require_super_admin :: "claims \<Rightarrow> claims http_answer" where
  "require_super_admin = require_role [''super_admin'']"

definition require_admin :: "claims \<Rightarrow> claims http_answer" where
  "require_admin = require_role [''super_admin'', ''admin'']"

definition require_operator :: "claims \<Rightarrow> claims http_answer" where
  "require_operator = require_role [''super_admin'', ''admin'', ''operator'']"

section \<open>Scopes\<close>

definition user_group_scope :: "users \<Rightarrow> claims \<Rightarrow> string set option" where
  "user_group_scope us c =
     (if cl_role c = ''super_admin'' then None
      else (let groups = get_user_groups us (cl_sub c) in if groups = [] then None else Some (set groups)))"

definition is_unscoped_admin :: "users \<Rightarrow> claims \<Rightarrow> bool" where
  "is_unscoped_admin us c \<longleftrightarrow>
     cl_role c = ''super_admin'' \<or> cl_role c = ''admin'' \<and> get_user_groups us (cl_sub c) = []"

definition require_unscoped_admin :: "users \<Rightarrow> claims \<Rightarrow> claims http_answer" where
  "require_unscoped_admin us c =
     (case require_admin c of Inl n \<Rightarrow> Inl n | Inr c \<Rightarrow> if is_unscoped_admin us c then Inr c else Inl 403)"

type_synonym device = "string \<times> string"

definition devices_in_scope :: "users \<Rightarrow> device list \<Rightarrow> claims \<Rightarrow> device list" where
  "devices_in_scope us devices c =
     (case user_group_scope us c of None \<Rightarrow> devices | Some scope \<Rightarrow> filter (\<lambda>(ip, g). g \<in> scope) devices)"

definition assert_group_allowed :: "users \<Rightarrow> claims \<Rightarrow> string \<Rightarrow> unit http_answer" where
  "assert_group_allowed us c g =
     (case user_group_scope us c of None \<Rightarrow> Inr () | Some scope \<Rightarrow> if g \<in> scope then Inr () else Inl 403)"

text \<open>The tenant is empty when the request names none.\<close>

definition assert_device_allowed :: "users \<Rightarrow> device list \<Rightarrow> claims \<Rightarrow> string \<Rightarrow> string \<Rightarrow> device option http_answer" where
  "assert_device_allowed us devices c ip tenant =
     (let all_matches = filter (\<lambda>(i, g). i = ip) devices in
      if all_matches = [] then Inr None
      else case user_group_scope us c of
        Some scope \<Rightarrow>
          (let in_scope = filter (\<lambda>(i, g). g \<in> scope) all_matches;
               ms = (if tenant = [] then in_scope else filter (\<lambda>(i, g). g = tenant) in_scope) in
           if in_scope = [] then Inl 403
           else if length ms > 1 then Inl 409
           else (case ms of [] \<Rightarrow> Inr None | d # _ \<Rightarrow> Inr (Some d)))
      | None \<Rightarrow>
          if tenant \<noteq> [] then Inr (find (\<lambda>(i, g). g = tenant) all_matches)
          else if length all_matches > 1 then Inl 409
          else Inr (Some (hd all_matches)))"

definition user_visible_to :: "users \<Rightarrow> claims \<Rightarrow> string \<Rightarrow> bool" where
  "user_visible_to us c target \<longleftrightarrow>
     (case user_group_scope us c of
        None \<Rightarrow> True
      | Some scope \<Rightarrow> target = cl_sub c
          \<or> get_user_groups us target \<noteq> [] \<and> set (get_user_groups us target) \<subseteq> scope)"

section \<open>Changing accounts\<close>

definition assert_can_assign :: "claims \<Rightarrow> string \<Rightarrow> unit http_answer" where
  "assert_can_assign c new_role = (if can_assign (cl_role c) new_role then Inr () else Inl 403)"

definition assert_can_manage :: "users \<Rightarrow> claims \<Rightarrow> string \<Rightarrow> string option \<Rightarrow> bool \<Rightarrow> unit http_answer" where
  "assert_can_manage us c target new_role allow_self =
     (case get_role us target of
        None \<Rightarrow> Inl 404
      | Some target_role \<Rightarrow>
          if \<not> user_visible_to us c target then Inl 404
          else if \<not> (target = cl_sub c \<and> allow_self) \<and> \<not> can_manage (cl_role c) target_role then Inl 403
          else case new_role of None \<Rightarrow> Inr () | Some r \<Rightarrow> assert_can_assign c r)"

definition groups_within_scope :: "users \<Rightarrow> claims \<Rightarrow> string list \<Rightarrow> bool" where
  "groups_within_scope us c groups \<longleftrightarrow>
     (case user_group_scope us c of None \<Rightarrow> True | Some scope \<Rightarrow> groups \<noteq> [] \<and> set groups \<subseteq> scope)"

definition assert_groups_within_scope :: "users \<Rightarrow> claims \<Rightarrow> string list \<Rightarrow> unit http_answer" where
  "assert_groups_within_scope us c groups = (if groups_within_scope us c groups then Inr () else Inl 403)"

definition tabs_within_grant :: "users \<Rightarrow> claims \<Rightarrow> string list \<Rightarrow> bool" where
  "tabs_within_grant us c tabs \<longleftrightarrow>
     (case effective_tabs us (cl_sub c) of
        None \<Rightarrow> True
      | Some actor_tabs \<Rightarrow>
          (let normalized = set (map tab_alias (filter (\<lambda>t. t \<noteq> ''tab-home'') tabs)) in
           normalized \<noteq> {} \<and> normalized \<subseteq> actor_tabs))"

definition assert_tabs_within_grant :: "users \<Rightarrow> claims \<Rightarrow> string list \<Rightarrow> unit http_answer" where
  "assert_tabs_within_grant us c tabs = (if tabs_within_grant us c tabs then Inr () else Inl 403)"

text \<open>The map: nodes with their identifier and tenant, links with their ends.\<close>

definition filter_map_to_scope ::
    "string set option \<Rightarrow> (string \<times> string) list \<times> (string \<times> string) list \<Rightarrow> (string \<times> string) list \<times> (string \<times> string) list" where
  "filter_map_to_scope scope data =
     (case scope of
        None \<Rightarrow> data
      | Some s \<Rightarrow>
          (let nodes = filter (\<lambda>(i, g). g \<in> s) (fst data); allowed = set (map fst nodes) in
           (filter (\<lambda>(i, g). i \<in> allowed) (fst data), filter (\<lambda>(a, b). a \<in> allowed \<and> b \<in> allowed) (snd data))))"

section \<open>What a guard that lets through has checked\<close>

lemma session_of_ok:
  assumes "session_of us c = Inr u"
  shows "cl_sub u = cl_sub c \<and> cl_jti u = cl_jti c \<and> cl_exp u = cl_exp c \<and> cl_ro u = cl_ro c
    \<and> (\<exists>d. dict_get us (cl_sub c) = Some d \<and> \<not> us_disabled d \<and> \<not> us_pending d \<and> cl_sep c = us_epoch d
        \<and> cl_role u = (if cl_ro c then ''viewer'' else role_of d))"
  using assms
  by (auto simp: session_of_def Let_def get_role_def is_disabled_def is_pending_def user_flag_def session_epoch_def
      split: if_splits option.splits)

lemma can_manage_ok:
  assumes "assert_can_manage us c target new_role allow_self = Inr ()"
  shows "(\<exists>d. dict_get us target = Some d \<and> (target = cl_sub c \<and> allow_self \<or> can_manage (cl_role c) (role_of d)))
    \<and> user_visible_to us c target \<and> (\<forall>r. new_role = Some r \<longrightarrow> can_assign (cl_role c) r)"
  using assms
  by (auto simp: assert_can_manage_def assert_can_assign_def get_role_def split: if_splits option.splits)

text \<open>
  A scoped caller who names a device sees one of its own tenants or nothing: the answer for a device of another tenant
  is that of a forbidden one.
\<close>

lemma device_in_scope:
  assumes "assert_device_allowed us devices c ip tenant = Inr (Some d)"
  shows "d \<in> set (devices_in_scope us devices c) \<and> fst d = ip"
proof -
  have fnd: "d \<in> set ms \<and> P d" if "find P ms = Some d" for P and ms :: "device list"
    using that by (rule find_SomeD)
  have hit: "hd ms \<in> set devices \<and> fst (hd ms) = ip" if "ms = filter (\<lambda>(i, g). i = ip) devices" "ms \<noteq> []" for ms
    using hd_in_set [OF that(2)] that(1) by auto
  show ?thesis using assms hit
    by (auto simp: assert_device_allowed_def devices_in_scope_def Let_def
        split: option.splits if_splits list.splits dest!: fnd dest: filter_eq_ConsD)
qed

end
