(* ===== verification/Lockout.thy ===== *)
theory Lockout
  imports SN_Prelude
begin

text \<open>
  The failed attempts of \<open>security/security_manager.py\<close>: a list of instants per key, in memory and in
  \<open>login_attempts.json\<close>. Instants are integers, and a file that can be written is written. Shown here: in any window of
  the length of the lockout at most five attempts of a key reach the password, also when the process is restarted.
\<close>

section \<open>The store\<close>

definition max_attempts :: nat where "max_attempts = 5"
definition lockout_seconds :: int where "lockout_seconds = 300"

record lockout =
  lo_mem :: "int list dict"
  lo_file :: "int list dict"

definition attempts_of :: "int list dict \<Rightarrow> string \<Rightarrow> int list" where
  "attempts_of d k = (case dict_get d k of None \<Rightarrow> [] | Some v \<Rightarrow> v)"

definition recent :: "int \<Rightarrow> int list \<Rightarrow> int list" where
  "recent now v = filter (\<lambda>t. now - t < lockout_seconds) v"

text \<open>\<open>_load_attempts\<close>, which the first use after a start runs.\<close>

definition load_attempts :: "int \<Rightarrow> lockout \<Rightarrow> lockout" where
  "load_attempts now st = st\<lparr>lo_mem := map (\<lambda>(k, v). (k, recent now v)) (lo_file st)\<rparr>"

definition save_attempts :: "int \<Rightarrow> lockout \<Rightarrow> lockout" where
  "save_attempts now st = st\<lparr>lo_file := filter (\<lambda>(k, v). v \<noteq> [] \<and> now - last v < lockout_seconds) (lo_mem st)\<rparr>"

definition is_locked_out :: "int \<Rightarrow> string \<Rightarrow> lockout \<Rightarrow> bool \<times> lockout" where
  "is_locked_out now k st =
     (let attempts = recent now (attempts_of (lo_mem st) k) in
      (length attempts \<ge> max_attempts, st\<lparr>lo_mem := dict_set k attempts (lo_mem st)\<rparr>))"

definition record_failed_attempt :: "int \<Rightarrow> string \<Rightarrow> lockout \<Rightarrow> lockout" where
  "record_failed_attempt now k st =
     save_attempts now (st\<lparr>lo_mem := dict_set k (attempts_of (lo_mem st) k @ [now]) (lo_mem st)\<rparr>)"

definition reset_failed_attempts :: "int \<Rightarrow> string \<Rightarrow> lockout \<Rightarrow> lockout" where
  "reset_failed_attempts now k st =
     (if dict_has (lo_mem st) k then save_attempts now (st\<lparr>lo_mem := AList.delete k (lo_mem st)\<rparr>) else st)"

definition ends_with :: "string \<Rightarrow> string \<Rightarrow> bool" where
  "ends_with p s \<longleftrightarrow> starts_with (rev p) (rev s)"

definition account_key :: "string \<Rightarrow> string \<Rightarrow> bool" where
  "account_key username k \<longleftrightarrow> starts_with ''login:'' k \<and> ends_with ('':'' @ username) k"

definition clear_account_lockouts :: "int \<Rightarrow> string \<Rightarrow> lockout \<Rightarrow> lockout" where
  "clear_account_lockouts now username st =
     (if list_ex (\<lambda>(k, v). account_key username k) (lo_mem st) then
        save_attempts now (st\<lparr>lo_mem := filter (\<lambda>(k, v). \<not> account_key username k) (lo_mem st)\<rparr>)
      else st)"

definition login_key :: "string \<Rightarrow> string \<Rightarrow> string" where
  "login_key client_ip username = ''login:'' @ client_ip @ '':'' @ username"

text \<open>The gate in front of a check: it runs unless the key is locked, and its result is recorded.\<close>

definition gated :: "int \<Rightarrow> string \<Rightarrow> bool \<Rightarrow> lockout \<Rightarrow> bool \<times> lockout" where
  "gated now k passes st =
     (let (locked, st') = is_locked_out now k st in
      if locked then (False, st')
      else (True, if passes then reset_failed_attempts now k st' else record_failed_attempt now k st'))"

section \<open>Runs\<close>

text \<open>An attempt with a key and the result of its check, the recovery of an account, or a start of the process.\<close>

datatype gate_event = Attempt int string bool | Recovered int string | Started int

fun gate_time :: "gate_event \<Rightarrow> int" where
  "gate_time (Attempt now k passes) = now"
| "gate_time (Recovered now u) = now"
| "gate_time (Started now) = now"

fun gate_step :: "gate_event \<Rightarrow> lockout \<Rightarrow> lockout" where
  "gate_step (Attempt now k passes) st = snd (gated now k passes st)"
| "gate_step (Recovered now u) st = clear_account_lockouts now u st"
| "gate_step (Started now) st = load_attempts now st"

text \<open>The instants at which the check of a key runs.\<close>

fun checked :: "string \<Rightarrow> gate_event list \<Rightarrow> lockout \<Rightarrow> int list" where
  "checked k [] st = []"
| "checked k (e # es) st =
     (case e of Attempt now k' passes \<Rightarrow> if k' = k \<and> fst (gated now k' passes st) then [now] else [] | _ \<Rightarrow> [])
     @ checked k es (gate_step e st)"

fun fails_on :: "string \<Rightarrow> gate_event \<Rightarrow> bool" where
  "fails_on k (Attempt now k' passes) = (k' = k \<longrightarrow> \<not> passes)"
| "fails_on k (Recovered now u) = (\<not> account_key u k)"
| "fails_on k (Started now) = True"

section \<open>Memory and file agree on what is recent\<close>

definition windowed :: "int list \<Rightarrow> bool" where
  "windowed v \<longleftrightarrow> (\<forall>w. length (filter (\<lambda>t. w \<le> t \<and> t < w + lockout_seconds) v) \<le> max_attempts)"

text \<open>The instants of a key are in order and not in the future, and five at most lie in a window.\<close>

definition mem_ok :: "int \<Rightarrow> int list dict \<Rightarrow> bool" where
  "mem_ok now d \<longleftrightarrow> distinct (map fst d)
     \<and> (\<forall>k. sorted (attempts_of d k) \<and> (\<forall>t \<in> set (attempts_of d k). t \<le> now) \<and> windowed (attempts_of d k))"

text \<open>The file holds the recent instants of the memory.\<close>

definition lock_ok :: "int \<Rightarrow> lockout \<Rightarrow> bool" where
  "lock_ok now st \<longleftrightarrow> mem_ok now (lo_mem st) \<and> mem_ok now (lo_file st)
     \<and> (\<forall>k later. now \<le> later \<longrightarrow> recent later (attempts_of (lo_file st) k) = recent later (attempts_of (lo_mem st) k))"

lemma recent_recent [simp]: "now \<le> later \<Longrightarrow> recent later (recent now v) = recent later v"
  by (auto simp: recent_def intro: filter_cong)

lemma recent_append [simp]: "recent now (v @ w) = recent now v @ recent now w"
  by (simp add: recent_def)

lemma sorted_recent [simp]: "sorted v \<Longrightarrow> sorted (recent now v)"
  by (simp add: recent_def sorted_wrt_filter)

lemma set_recent: "t \<in> set (recent now v) \<longleftrightarrow> t \<in> set v \<and> now - t < lockout_seconds"
  by (auto simp: recent_def)

lemma none_recent:
  assumes "sorted v" and "v \<noteq> [] \<Longrightarrow> \<not> now - last v < lockout_seconds" and "now \<le> later" shows "recent later v = []"
proof -
  have "t \<le> last v" if "t \<in> set v" for t
    using that assms(1) by (cases v rule: rev_cases) (auto simp: sorted_append)
  then show ?thesis using assms(2,3) by (fastforce simp: recent_def filter_empty_conv)
qed

lemma windowed_Nil [simp]: "windowed []" by (simp add: windowed_def)

lemma length_filter_filter: "length (filter P (filter Q v)) \<le> length (filter P v)"
  by (induction v) auto

lemma windowed_recent [simp]: "windowed v \<Longrightarrow> windowed (recent now v)"
  unfolding windowed_def recent_def using length_filter_filter le_trans by blast

text \<open>An instant that comes where fewer than five are recent.\<close>

lemma windowed_snoc:
  assumes "windowed v" and "length (recent now v) < max_attempts" and "\<forall>t \<in> set v. t \<le> now"
  shows "windowed (v @ [now])"
  unfolding windowed_def
proof
  fix w
  let ?W = "\<lambda>t. w \<le> t \<and> t < w + lockout_seconds"
  show "length (filter ?W (v @ [now])) \<le> max_attempts"
  proof (cases "?W now")
    case True
    then have "filter ?W v = filter ?W (recent now v)" by (auto simp: recent_def intro!: filter_cong)
    then have "length (filter ?W v) \<le> length (recent now v)" by simp
    then show ?thesis using assms(2) True by simp
  next
    case False
    then show ?thesis using assms(1) by (auto simp: windowed_def)
  qed
qed

section \<open>The operations keep it\<close>

lemma attempts_set [simp]: "attempts_of (dict_set k v d) k' = (if k' = k then v else attempts_of d k')"
  by (simp add: attempts_of_def)

lemma attempts_delete [simp]: "attempts_of (AList.delete k d) k' = (if k' = k then [] else attempts_of d k')"
  by (simp add: attempts_of_def delete_conv')

lemma attempts_filter:
  "distinct (map fst d) \<Longrightarrow> attempts_of (filter (\<lambda>(k, v). P k v) d) k = (if P k (attempts_of d k) then attempts_of d k else [])"
  by (induction d) (auto simp: attempts_of_def split: option.splits dest: map_of_SomeD, force+)

lemma attempts_load [simp]: "attempts_of (map (\<lambda>(k, v). (k, recent now v)) d) k = recent now (attempts_of d k)"
  by (simp add: attempts_of_def map_of_map case_prod_beta split: option.splits) (simp add: recent_def)

lemma mem_ok_later: "mem_ok now d \<Longrightarrow> now \<le> later \<Longrightarrow> mem_ok later d"
  by (fastforce simp: mem_ok_def)

lemma lock_ok_later: "lock_ok now st \<Longrightarrow> now \<le> later \<Longrightarrow> lock_ok later st"
  by (auto simp: lock_ok_def intro: mem_ok_later)

lemma mem_ok_set:
  "mem_ok now d \<Longrightarrow> sorted v \<Longrightarrow> \<forall>t \<in> set v. t \<le> now \<Longrightarrow> windowed v \<Longrightarrow> mem_ok now (dict_set k v d)"
  by (simp add: mem_ok_def distinct_update)

lemma mem_ok_filter: "mem_ok now d \<Longrightarrow> mem_ok now (filter (\<lambda>(k, v). P k v) d)"
  by (auto simp: mem_ok_def attempts_filter distinct_map_filter)

lemma mem_ok_delete: "mem_ok now d \<Longrightarrow> mem_ok now (AList.delete k d)"
  by (simp add: mem_ok_def distinct_delete)

lemma save_ok: "mem_ok now (lo_mem st) \<Longrightarrow> lock_ok now (save_attempts now st)"
  unfolding lock_ok_def
proof (intro conjI allI impI)
  assume m: "mem_ok now (lo_mem st)"
  show "mem_ok now (lo_mem (save_attempts now st))" using m by (simp add: save_attempts_def)
  show "mem_ok now (lo_file (save_attempts now st))" using m by (simp add: save_attempts_def mem_ok_filter)
  fix k later assume "now \<le> later"
  then show "recent later (attempts_of (lo_file (save_attempts now st)) k) = recent later (attempts_of (lo_mem (save_attempts now st)) k)"
    using m none_recent [of "attempts_of (lo_mem st) k" now later]
    by (auto simp: save_attempts_def attempts_filter mem_ok_def recent_def)
qed

lemma lock_ok_pruned:
  "lock_ok now st \<Longrightarrow> lock_ok now (st\<lparr>lo_mem := dict_set k (recent now (attempts_of (lo_mem st) k)) (lo_mem st)\<rparr>)"
  by (auto simp: lock_ok_def intro!: mem_ok_set) (auto simp: mem_ok_def set_recent)

lemma gated_ok:
  assumes "lock_ok now st" shows "lock_ok now (snd (gated now k passes st))"
proof -
  let ?v = "recent now (attempts_of (lo_mem st) k)"
  let ?st = "st\<lparr>lo_mem := dict_set k ?v (lo_mem st)\<rparr>"
  have ok: "lock_ok now ?st" by (rule lock_ok_pruned [OF assms])
  have v: "sorted ?v" "windowed ?v" "\<forall>t \<in> set ?v. t \<le> now" using assms by (auto simp: lock_ok_def mem_ok_def set_recent)
  have "lock_ok now (record_failed_attempt now k ?st)" if "length ?v < max_attempts"
  proof -
    have "windowed (?v @ [now])" by (rule windowed_snoc) (use that v in auto)
    then have "mem_ok now (dict_set k (?v @ [now]) (lo_mem ?st))"
      by (intro mem_ok_set) (use ok v in \<open>auto simp: lock_ok_def sorted_append\<close>)
    then show ?thesis unfolding record_failed_attempt_def by (intro save_ok) simp
  qed
  moreover have "lock_ok now (reset_failed_attempts now k ?st)"
  proof -
    have "mem_ok now (AList.delete k (lo_mem ?st))" by (rule mem_ok_delete) (use ok in \<open>simp add: lock_ok_def\<close>)
    then have "lock_ok now (save_attempts now (?st\<lparr>lo_mem := AList.delete k (lo_mem ?st)\<rparr>))" by (intro save_ok) simp
    then show ?thesis using ok by (simp only: reset_failed_attempts_def split: if_splits) simp
  qed
  ultimately show ?thesis using ok by (simp add: gated_def is_locked_out_def Let_def not_le)
qed

lemma gate_step_ok: "lock_ok t0 st \<Longrightarrow> t0 \<le> gate_time e \<Longrightarrow> lock_ok (gate_time e) (gate_step e st)"
proof (cases e)
  case (Started now)
  assume "lock_ok t0 st" "t0 \<le> gate_time e"
  then have ok: "lock_ok now st" using Started by (auto intro: lock_ok_later)
  then have "mem_ok now (map (\<lambda>(k, v). (k, recent now v)) (lo_file st))"
    by (auto simp: lock_ok_def mem_ok_def set_recent comp_def case_prod_beta)
  then show ?thesis using ok Started by (auto simp: lock_ok_def load_attempts_def)
next
  case (Recovered now u)
  assume "lock_ok t0 st" "t0 \<le> gate_time e"
  then have ok: "lock_ok now st" using Recovered by (auto intro: lock_ok_later)
  then have "mem_ok now (filter (\<lambda>(k, v). \<not> account_key u k) (lo_mem st))" by (intro mem_ok_filter) (simp add: lock_ok_def)
  then have "lock_ok now (save_attempts now (st\<lparr>lo_mem := filter (\<lambda>(k, v). \<not> account_key u k) (lo_mem st)\<rparr>))"
    by (intro save_ok) simp
  then show ?thesis using ok Recovered by (simp add: clear_account_lockouts_def)
qed (auto intro: gated_ok lock_ok_later)

lemma gate_run_ok: "lock_ok t0 st \<Longrightarrow> sorted (t0 # map gate_time es) \<Longrightarrow> lock_ok (last (t0 # map gate_time es)) (fold gate_step es st)"
proof (induction es arbitrary: t0 st)
  case (Cons e es)
  then have "lock_ok (gate_time e) (gate_step e st)" by (intro gate_step_ok [of t0]) auto
  from Cons.IH [OF this] Cons.prems(2) show ?case by simp
qed simp

section \<open>The bound\<close>

text \<open>A history of a key with the same recent part as the memory stays within the bound when the checks are added.\<close>

lemma checked_windowed:
  assumes "lock_ok t0 st" and "sorted (t0 # map gate_time es)" and "list_all (fails_on k) es"
    and "windowed g" and "\<forall>t \<in> set g. t \<le> t0" and "\<And>later. t0 \<le> later \<Longrightarrow> recent later g = recent later (attempts_of (lo_mem st) k)"
  shows "windowed (g @ checked k es st)"
  using assms
proof (induction es arbitrary: t0 st g)
  case (Cons e es)
  let ?st = "gate_step e st"
  have le: "t0 \<le> gate_time e" using Cons.prems(2) by simp
  have ok: "lock_ok (gate_time e) ?st" by (rule gate_step_ok [OF Cons.prems(1) le])
  have srt: "sorted (gate_time e # map gate_time es)" and fl: "list_all (fails_on k) es" using Cons.prems(2,3) by auto
  have old: "\<forall>t \<in> set g. t \<le> gate_time e" using Cons.prems(5) le by force
  note step = Cons.IH [OF ok srt fl]
  have same: "windowed (g @ checked k es ?st)"
    if "\<And>later. gate_time e \<le> later \<Longrightarrow> recent later (attempts_of (lo_mem ?st) k) = recent later (attempts_of (lo_mem st) k)"
    by (rule step [OF Cons.prems(4) old]) (use that Cons.prems(6) le in auto)
  show ?case
  proof (cases e)
    case (Attempt now k' passes)
    show ?thesis
    proof (cases "k' = k \<and> fst (gated now k' passes st)")
      case True
      then have few: "length (recent now (attempts_of (lo_mem st) k)) < max_attempts"
        and st: "?st = record_failed_attempt now k (st\<lparr>lo_mem := dict_set k (recent now (attempts_of (lo_mem st) k)) (lo_mem st)\<rparr>)"
        using Attempt Cons.prems(3) by (auto simp: gated_def is_locked_out_def Let_def split: if_splits)
      have mem: "attempts_of (lo_mem ?st) k = recent now (attempts_of (lo_mem st) k) @ [now]"
        unfolding st by (simp add: record_failed_attempt_def save_attempts_def)
      have "windowed ((g @ [now]) @ checked k es ?st)"
      proof (rule step)
        show "windowed (g @ [now])"
          by (rule windowed_snoc [OF Cons.prems(4)]) (use few Cons.prems(6) [of now] old le Attempt in auto)
        show "\<forall>t \<in> set (g @ [now]). t \<le> gate_time e" using old Attempt by auto
        fix later assume "gate_time e \<le> later"
        then show "recent later (g @ [now]) = recent later (attempts_of (lo_mem ?st) k)"
          unfolding mem using Cons.prems(6) [of later] le Attempt by simp
      qed
      then show ?thesis using True Attempt by auto
    next
      case False
      have "windowed (g @ checked k es ?st)"
        by (rule same) (use False Attempt Cons.prems(3) in \<open>auto simp: gated_def is_locked_out_def Let_def
            reset_failed_attempts_def record_failed_attempt_def save_attempts_def split: if_splits\<close>)
      then show ?thesis using False Attempt by auto
    qed
  next
    case (Recovered now u)
    have "attempts_of (lo_mem ?st) k = attempts_of (lo_mem st) k"
      using Recovered Cons.prems(1,3)
      by (auto simp: clear_account_lockouts_def save_attempts_def attempts_filter lock_ok_def mem_ok_def)
    then show ?thesis using same Recovered by simp
  next
    case (Started now)
    have "windowed (g @ checked k es ?st)"
      by (rule same) (use Started Cons.prems(1,2) in \<open>auto simp: load_attempts_def lock_ok_def\<close>)
    then show ?thesis using Started by simp
  qed
qed simp

definition no_attempts :: lockout where "no_attempts = \<lparr>lo_mem = [], lo_file = []\<rparr>"

lemma no_attempts_ok: "lock_ok t0 no_attempts"
  by (simp add: lock_ok_def mem_ok_def no_attempts_def attempts_of_def)

text \<open>
  C31: after any run, as long as no attempt with a key succeeds and its account is not recovered, at most five attempts with
  this key reach the check of the password in any window of 300 seconds, whatever happens with other keys and however
  often the process is started again.
\<close>

theorem lockout_bounds_guesses:
  assumes "sorted (map gate_time (es0 @ es))" and "list_all (fails_on k) es"
  shows "length (filter (\<lambda>t. w \<le> t \<and> t < w + lockout_seconds) (checked k es (fold gate_step es0 no_attempts))) \<le> max_attempts"
proof -
  define t0 where "t0 = (if es0 @ es = [] then 0 else hd (map gate_time (es0 @ es)))"
  have srt: "sorted (t0 # map gate_time es0)" and srt2: "sorted (last (t0 # map gate_time es0) # map gate_time es)"
    using assms(1) by (cases es0; cases es; fastforce simp: t0_def sorted_append last_map)+
  let ?st = "fold gate_step es0 no_attempts"
  have ok: "lock_ok (last (t0 # map gate_time es0)) ?st" by (rule gate_run_ok [OF no_attempts_ok srt])
  have "windowed (attempts_of (lo_mem ?st) k @ checked k es ?st)"
    by (rule checked_windowed [OF ok srt2 assms(2)]) (use ok in \<open>auto simp: lock_ok_def mem_ok_def\<close>)
  then have "length (filter (\<lambda>t. w \<le> t \<and> t < w + lockout_seconds) (attempts_of (lo_mem ?st) k @ checked k es ?st)) \<le> max_attempts"
    by (simp only: windowed_def)
  then show ?thesis by simp
qed

text \<open>Six wrong passwords in a minute, with a start of the process in between.\<close>

definition ex_guesses :: "gate_event list" where
  "ex_guesses = map (\<lambda>t. Attempt t (login_key ''192.0.2.9'' ''admin'') False) [10, 20, 30]
     @ Started 35 # map (\<lambda>t. Attempt t (login_key ''192.0.2.9'' ''admin'') False) [40, 50, 60]"

lemma ex_guesses_checked: "checked (login_key ''192.0.2.9'' ''admin'') ex_guesses no_attempts = [10, 20, 30, 40, 50]"
  by code_simp

theorem lockout_bounds_guesses_witness:
  "length (filter (\<lambda>t. 10 \<le> t \<and> t < 10 + lockout_seconds) (checked (login_key ''192.0.2.9'' ''admin'') ex_guesses
     (fold gate_step [] no_attempts))) \<le> max_attempts"
  by (rule lockout_bounds_guesses; code_simp)

end
