(* ===== verification/Auth_Api.thy ===== *)
theory Auth_Api
  imports Auth_Guards Lockout
begin

text \<open>
  The handlers of \<open>routers/auth.py\<close> and \<open>routers/mcp.py\<close> with \<open>security/sso.py\<close>: each is a function from the state of
  the server to an answer, the status of the exception or the reply, and the state after it. What a call takes from
  outside is a record: the clock, the random texts by what they are for, which recipients the mail server accepts,
  whether the address of the installation is configured, and what the identity provider answers to a code.
\<close>

section \<open>The state of the server\<close>

record sso_config =
  so_enabled :: bool
  so_auto_provision :: bool
  so_sync_roles :: bool
  so_default_role :: string
  so_admin_group :: string
  so_operator_group :: string

record id_claims =
  ic_nonce :: string
  ic_preferred :: string
  ic_email :: string
  ic_sub :: string
  ic_groups :: "string list"

text \<open>Mails are the recipient and the token of the link; the saved section of the session settings is a JSON value.\<close>

record world =
  w_users :: users
  w_corrupt :: bool
  w_resets :: "string shots"
  w_invites :: "(string \<times> string) shots"
  w_verifies :: "(string \<times> string) shots"
  w_states :: "(string \<times> string) shots"
  w_codes :: "mcp_code shots"
  w_grants :: grants
  w_revoked :: revoked
  w_lock :: lockout
  w_session :: json
  w_tenants :: "string list"
  w_sso :: sso_config
  w_mails :: "(string \<times> string) list"

record call =
  ct_now :: int
  ct_now_text :: string
  ct_random :: "string \<Rightarrow> string"
  ct_mailed :: "string \<Rightarrow> bool"
  ct_base_url :: bool
  ct_discovered :: bool
  ct_identity :: "string \<Rightarrow> string \<Rightarrow> id_claims option"

datatype 't reply = Done | Mail_sent bool | Session 't string bool | Bridge_code string | Bridge_grant string string

type_synonym 't http_outcome = "'t reply http_answer \<times> world"

definition on_ok :: "'a http_answer \<Rightarrow> world \<Rightarrow> ('a \<Rightarrow> 't http_outcome) \<Rightarrow> 't http_outcome" where
  "on_ok r w k = (case r of Inl n \<Rightarrow> (Inl n, w) | Inr a \<Rightarrow> k a)"

text \<open>The result of an operation on the store: a failure answers with the status.\<close>

definition stored :: "nat \<Rightarrow> bool \<times> users \<Rightarrow> world \<Rightarrow> 't http_outcome" where
  "stored n r w = (if fst r then (Inr Done, w\<lparr>w_users := snd r\<rparr>) else (Inl n, w))"

definition caller :: "'t crypto \<Rightarrow> call \<Rightarrow> 't http \<Rightarrow> world \<Rightarrow> claims http_answer" where
  "caller cx ct rq w = get_current_user cx (ct_now ct) rq (w_users w) (w_revoked w)"

definition tab_caller :: "string \<Rightarrow> 't crypto \<Rightarrow> call \<Rightarrow> 't http \<Rightarrow> world \<Rightarrow> claims http_answer" where
  "tab_caller tab cx ct rq w =
     (case caller cx ct rq w of Inl n \<Rightarrow> Inl n | Inr c \<Rightarrow> require_tab [tab] (w_users w) c)"

definition users_admin :: "'t crypto \<Rightarrow> call \<Rightarrow> 't http \<Rightarrow> world \<Rightarrow> claims http_answer" where
  "users_admin cx ct rq w = (case tab_caller ''tab-users'' cx ct rq w of Inl n \<Rightarrow> Inl n | Inr c \<Rightarrow> require_admin c)"

definition unscoped_admin :: "string \<Rightarrow> 't crypto \<Rightarrow> call \<Rightarrow> 't http \<Rightarrow> world \<Rightarrow> claims http_answer" where
  "unscoped_admin tab cx ct rq w =
     (case tab_caller tab cx ct rq w of Inl n \<Rightarrow> Inl n | Inr c \<Rightarrow> require_unscoped_admin (w_users w) c)"

section \<open>Signing in and out\<close>

definition setup_admin :: "'t crypto \<Rightarrow> string \<Rightarrow> string \<Rightarrow> world \<Rightarrow> 't http_outcome" where
  "setup_admin cx username password w =
     (if w_corrupt w then (Inl 500, w)
      else if w_users w \<noteq> [] then (Inl 403, w)
      else if \<not> password_ok password then (Inl 400, w)
      else if py_strip username = [] then (Inl 400, w)
      else stored 400 (create_user (cr_hash cx) username password ''super_admin'' [] False [] False (w_users w)) w)"

definition session_claims :: "string \<Rightarrow> string \<Rightarrow> int \<Rightarrow> int \<Rightarrow> claims" where
  "session_claims sub role sep auth_time =
     \<lparr>cl_sub = sub, cl_exp = 0, cl_jti = [], cl_auth_time = auth_time, cl_sep = sep, cl_role = role, cl_ro = False, cl_bpd = False\<rparr>"

definition renew_session_cookie :: "'t crypto \<Rightarrow> call \<Rightarrow> 't http \<Rightarrow> world \<Rightarrow> 't option" where
  "renew_session_cookie cx ct rq w =
     (if \<not> ht_active rq \<or> ht_cookie rq = None then None
      else case caller cx ct (rq\<lparr>ht_bearer := None\<rparr>) w of
        Inl n \<Rightarrow> None
      | Inr c \<Rightarrow>
          if cl_ro c then None
          else (let cfg = session_settings (w_session w); idle_s = fst cfg * 60; now = ct_now ct;
                    auth_time = (if cl_auth_time c \<noteq> 0 then cl_auth_time c else cl_exp c - idle_s);
                    lifetime = min idle_s (auth_time + snd cfg * 3600 - now) in
            if cl_exp c - now > idle_s - 60 then None
            else if lifetime \<le> 60 then None
            else Some (create_access_token cx now cfg (ct_random ct ''jti'') (Some lifetime)
                   (session_claims (cl_sub c) (cl_role c) (cl_sep c) auth_time))))"

definition issue_token :: "'t crypto \<Rightarrow> call \<Rightarrow> string \<Rightarrow> string \<Rightarrow> world \<Rightarrow> 't \<times> world" where
  "issue_token cx ct username role w =
     (let us = record_login (ct_now_text ct) username (w_users w) in
      (create_access_token cx (ct_now ct) (session_settings (w_session w)) (ct_random ct ''jti'') None
         (session_claims username role (session_epoch us username) 0), w\<lparr>w_users := us\<rparr>))"

definition login :: "'t crypto \<Rightarrow> call \<Rightarrow> 't http \<Rightarrow> string \<Rightarrow> string \<Rightarrow> world \<Rightarrow> 't http_outcome" where
  "login cx ct rq username password w =
     (let k = login_key (ht_client rq) username; us = w_users w;
          (locked, lk) = is_locked_out (ct_now ct) k (w_lock w);
          w = (if w_corrupt w then w else w\<lparr>w_lock := lk\<rparr>) in
      if w_corrupt w then (Inl 503, w)
      else if locked then (Inl 429, w)
      else if verify_user (cr_check cx) username password us then
        (if is_disabled us username then (Inl 403, w)
         else if is_pending us username then (Inl 403, w)
         else (let w = w\<lparr>w_lock := reset_failed_attempts (ct_now ct) k lk\<rparr>;
                   role = (case get_role us username of None \<Rightarrow> ''viewer'' | Some r \<Rightarrow> r);
                   (tok, w) = issue_token cx ct username role w in
           (Inr (Session tok role (must_change_password us username)), w)))
      else (Inl 401, w\<lparr>w_lock := record_failed_attempt (ct_now ct) k lk\<rparr>))"

definition change_password_ep :: "'t crypto \<Rightarrow> call \<Rightarrow> 't http \<Rightarrow> string \<Rightarrow> string \<Rightarrow> world \<Rightarrow> 't http_outcome" where
  "change_password_ep cx ct rq old new w =
     on_ok (caller cx ct rq w) w (\<lambda>c.
       if \<not> password_ok new then (Inl 400, w)
       else stored 400 (change_password (cr_check cx) (cr_hash cx) (cl_sub c) old new (w_users w)) w)"

definition logout_ep :: "'t crypto \<Rightarrow> call \<Rightarrow> 't http \<Rightarrow> world \<Rightarrow> 't http_outcome" where
  "logout_ep cx ct rq w =
     on_ok (caller cx ct rq w) w (\<lambda>c. (Inr Done, w\<lparr>w_revoked := snd (revoke_token (ct_now ct) c (w_revoked w))\<rparr>))"

definition logout_all :: "'t crypto \<Rightarrow> call \<Rightarrow> 't http \<Rightarrow> world \<Rightarrow> 't http_outcome" where
  "logout_all cx ct rq w =
     on_ok (caller cx ct rq w) w (\<lambda>c. (Inr Done, w\<lparr>w_users := snd (bump_session_epoch (cl_sub c) (w_users w))\<rparr>))"

section \<open>The address of recovery\<close>

definition valid_email :: "string \<Rightarrow> bool" where "valid_email e \<longleftrightarrow> CHR ''@'' \<in> set e"

definition send_email :: "call \<Rightarrow> string \<Rightarrow> string \<Rightarrow> world \<Rightarrow> bool \<times> world" where
  "send_email ct to token w = (if ct_mailed ct to then (True, w\<lparr>w_mails := w_mails w @ [(to, token)]\<rparr>) else (False, w))"

definition change_own_email :: "'t crypto \<Rightarrow> call \<Rightarrow> 't http \<Rightarrow> string \<Rightarrow> string \<Rightarrow> world \<Rightarrow> 't http_outcome" where
  "change_own_email cx ct rq email0 password w =
     on_ok (caller cx ct rq w) w (\<lambda>c.
       let u = cl_sub c; email = py_strip email0 in
       if \<not> verify_user (cr_check cx) u password (w_users w) then (Inl 400, w)
       else if email = [] then (Inr (Mail_sent False), w\<lparr>w_users := snd (set_email u [] (w_users w))\<rparr>)
       else if \<not> valid_email email then (Inl 400, w)
       else if \<not> ct_base_url ct then (Inl 400, w)
       else (let t = ct_random ct u;
                 w = w\<lparr>w_verifies := verify_issue (cr_digest cx) (ct_now ct) t u email (w_verifies w)\<rparr>;
                 (sent, w) = send_email ct email t w in
         if sent then (Inr (Mail_sent True), w) else (Inl 400, w)))"

definition verify_email :: "'t crypto \<Rightarrow> call \<Rightarrow> string \<Rightarrow> world \<Rightarrow> 't http_outcome" where
  "verify_email cx ct token w =
     (let (e, vs) = verify_consume (cr_digest cx) (ct_now ct) token (w_verifies w); w = w\<lparr>w_verifies := vs\<rparr> in
      case e of
        None \<Rightarrow> (Inl 400, w)
      | Some (u, email) \<Rightarrow> stored 400 (set_email u email (w_users w)) w)"

definition set_user_email :: "'t crypto \<Rightarrow> call \<Rightarrow> 't http \<Rightarrow> string \<Rightarrow> string \<Rightarrow> world \<Rightarrow> 't http_outcome" where
  "set_user_email cx ct rq u email0 w =
     on_ok (users_admin cx ct rq w) w (\<lambda>c.
       on_ok (assert_can_manage (w_users w) c u None True) w (\<lambda>_.
         let email = py_strip email0 in
         if email \<noteq> [] \<and> \<not> valid_email email then (Inl 400, w)
         else stored 404 (set_email u email (w_users w)) w))"

section \<open>Managing accounts\<close>

text \<open>The tabs that a restricted caller passes on: all that it has in force but the home.\<close>

definition tabs_to_pass :: "users \<Rightarrow> string \<Rightarrow> string list option" where
  "tabs_to_pass us actor =
     (if effective_tabs us actor = None then None
      else Some (sorted_texts (filter (\<lambda>t. t \<noteq> ''tab-home'') (tab_list (get_allowed_tabs us actor)))))"

definition pass_tabs :: "string \<Rightarrow> string \<Rightarrow> users \<Rightarrow> users" where
  "pass_tabs actor u us =
     (case tabs_to_pass us actor of None \<Rightarrow> us | Some tabs \<Rightarrow> snd (set_allowed_tabs u tabs us))"

definition known_groups :: "world \<Rightarrow> string list \<Rightarrow> string list" where
  "known_groups w groups = filter (\<lambda>g. g \<in> set (w_tenants w)) groups"

definition mail_setup_link :: "'t crypto \<Rightarrow> call \<Rightarrow> string \<Rightarrow> int \<Rightarrow> world \<Rightarrow> bool \<times> world" where
  "mail_setup_link cx ct u ttl w =
     (let t = ct_random ct u; w = w\<lparr>w_resets := reset_issue (cr_digest cx) (ct_now ct) t u ttl (w_resets w)\<rparr> in
      send_email ct (get_email (w_users w) u) t w)"

definition mail_welcome :: "call \<Rightarrow> string \<Rightarrow> world \<Rightarrow> world" where
  "mail_welcome ct u w = snd (send_email ct (get_email (w_users w) u) [] w)"

definition create_user_ep ::
    "'t crypto \<Rightarrow> call \<Rightarrow> 't http \<Rightarrow> string \<Rightarrow> string \<Rightarrow> string \<Rightarrow> string list \<Rightarrow> string \<Rightarrow> world \<Rightarrow> 't http_outcome" where
  "create_user_ep cx ct rq username0 password role groups0 email0 w =
     on_ok (users_admin cx ct rq w) w (\<lambda>c.
       let username = py_strip username0; email = py_strip email0; setup_link = (password = []);
           groups = known_groups w groups0; us = w_users w;
           (created, us1) = create_user (cr_hash cx) username (if setup_link then ct_random ct ''password'' else password)
             role groups (\<not> setup_link) email False us;
           us2 = pass_tabs (cl_sub c) username us1 in
       if role \<notin> set valid_roles then (Inl 400, w)
       else on_ok (assert_can_assign c role) w (\<lambda>_.
         if username = [] then (Inl 400, w)
         else if email \<noteq> [] \<and> \<not> valid_email email then (Inl 400, w)
         else if setup_link \<and> email = [] then (Inl 400, w)
         else if \<not> setup_link \<and> \<not> password_ok password then (Inl 400, w)
         else if setup_link \<and> \<not> ct_base_url ct then (Inl 400, w)
         else on_ok (assert_groups_within_scope us c groups) w (\<lambda>_.
           if \<not> created then (Inl 400, w)
           else if setup_link then
             (let us3 = snd (mark_awaiting_password username us2);
                  (sent, w1) = mail_setup_link cx ct username setup_ttl (w\<lparr>w_users := us3\<rparr>) in
              if sent then (Inr (Mail_sent True), w1)
              else (Inl 400, w1\<lparr>w_users := snd (delete_user username (w_users w1))\<rparr>))
           else if email \<noteq> [] then (Inr (Mail_sent False), mail_welcome ct username (w\<lparr>w_users := us2\<rparr>))
           else (Inr (Mail_sent False), w\<lparr>w_users := us2\<rparr>))))"

definition delete_user_ep :: "'t crypto \<Rightarrow> call \<Rightarrow> 't http \<Rightarrow> string \<Rightarrow> world \<Rightarrow> 't http_outcome" where
  "delete_user_ep cx ct rq u w =
     on_ok (tab_caller ''tab-users'' cx ct rq w) w (\<lambda>c.
       if u \<noteq> cl_sub c \<and> \<not> is_admin (cl_role c) then (Inl 403, w)
       else on_ok (assert_can_manage (w_users w) c u None True) w (\<lambda>_.
         if is_last_active_super_admin (w_users w) u then (Inl 400, w)
         else stored 404 (delete_user u (w_users w)) w))"

definition set_user_role_ep :: "'t crypto \<Rightarrow> call \<Rightarrow> 't http \<Rightarrow> string \<Rightarrow> string \<Rightarrow> world \<Rightarrow> 't http_outcome" where
  "set_user_role_ep cx ct rq u role w =
     on_ok (users_admin cx ct rq w) w (\<lambda>c.
       if role \<notin> set valid_roles then (Inl 400, w)
       else on_ok (assert_can_manage (w_users w) c u (Some role) False) w (\<lambda>_.
         if role \<noteq> ''super_admin'' \<and> is_last_active_super_admin (w_users w) u then (Inl 400, w)
         else stored 404 (set_role u role (w_users w)) w))"

definition disable_user_ep :: "'t crypto \<Rightarrow> call \<Rightarrow> 't http \<Rightarrow> string \<Rightarrow> bool \<Rightarrow> world \<Rightarrow> 't http_outcome" where
  "disable_user_ep cx ct rq u b w =
     on_ok (users_admin cx ct rq w) w (\<lambda>c.
       if b \<and> u = cl_sub c then (Inl 400, w)
       else on_ok (assert_can_manage (w_users w) c u None False) w (\<lambda>_.
         if b \<and> is_last_active_super_admin (w_users w) u then (Inl 400, w)
         else stored 404 (set_disabled u b (w_users w)) w))"

definition set_user_groups_ep :: "'t crypto \<Rightarrow> call \<Rightarrow> 't http \<Rightarrow> string \<Rightarrow> string list \<Rightarrow> world \<Rightarrow> 't http_outcome" where
  "set_user_groups_ep cx ct rq u groups0 w =
     on_ok (users_admin cx ct rq w) w (\<lambda>c.
       on_ok (assert_can_manage (w_users w) c u None False) w (\<lambda>_.
         let groups = known_groups w groups0 in
         on_ok (assert_groups_within_scope (w_users w) c groups) w (\<lambda>_. stored 404 (set_groups u groups (w_users w)) w)))"

definition set_user_tabs_ep :: "'t crypto \<Rightarrow> call \<Rightarrow> 't http \<Rightarrow> string \<Rightarrow> string list \<Rightarrow> world \<Rightarrow> 't http_outcome" where
  "set_user_tabs_ep cx ct rq u tabs w =
     on_ok (users_admin cx ct rq w) w (\<lambda>c.
       on_ok (assert_can_manage (w_users w) c u None False) w (\<lambda>_.
         on_ok (assert_tabs_within_grant (w_users w) c tabs) w (\<lambda>_. stored 404 (set_allowed_tabs u tabs (w_users w)) w)))"

definition approve_user :: "'t crypto \<Rightarrow> call \<Rightarrow> 't http \<Rightarrow> string \<Rightarrow> world \<Rightarrow> 't http_outcome" where
  "approve_user cx ct rq u w =
     on_ok (users_admin cx ct rq w) w (\<lambda>c.
       on_ok (assert_can_manage (w_users w) c u None False) w (\<lambda>_.
         let (ok, us1) = approve u (w_users w);
             us2 = (if effective_tabs us1 u = None then pass_tabs (cl_sub c) u us1 else us1) in
         if \<not> ok then (Inl 404, w) else (Inr Done, w\<lparr>w_users := us2\<rparr>)))"

section \<open>Recovery and invitations\<close>

definition forgot_password :: "'t crypto \<Rightarrow> call \<Rightarrow> 't http \<Rightarrow> string \<Rightarrow> world \<Rightarrow> 't http_outcome" where
  "forgot_password cx ct rq identifier w =
     (let k = ''forgot-password:'' @ ht_client rq; us = w_users w;
          (locked, lk) = is_locked_out (ct_now ct) k (w_lock w);
          targets = filter (\<lambda>u. get_email us u \<noteq> [] \<and> \<not> is_disabled us u \<and> \<not> is_pending us u) (find_by_login identifier us) in
      if locked then (Inl 429, w\<lparr>w_lock := lk\<rparr>)
      else (let w = w\<lparr>w_lock := record_failed_attempt (ct_now ct) k lk\<rparr> in
        if targets = [] \<or> \<not> ct_base_url ct then (Inr Done, w)
        else (Inr Done, fold (\<lambda>u w. snd (mail_setup_link cx ct u reset_ttl w)) targets w)))"

definition admin_send_reset :: "'t crypto \<Rightarrow> call \<Rightarrow> 't http \<Rightarrow> string \<Rightarrow> world \<Rightarrow> 't http_outcome" where
  "admin_send_reset cx ct rq u w =
     on_ok (users_admin cx ct rq w) w (\<lambda>c.
       on_ok (assert_can_manage (w_users w) c u None False) w (\<lambda>_.
         if get_role (w_users w) u = None then (Inl 404, w)
         else if get_email (w_users w) u = [] then (Inl 400, w)
         else if is_disabled (w_users w) u \<or> is_pending (w_users w) u then (Inl 400, w)
         else if \<not> ct_base_url ct then (Inl 400, w)
         else (let (sent, w) = mail_setup_link cx ct u reset_ttl w in if sent then (Inr Done, w) else (Inl 400, w))))"

definition reset_password :: "'t crypto \<Rightarrow> call \<Rightarrow> string \<Rightarrow> string \<Rightarrow> world \<Rightarrow> 't http_outcome" where
  "reset_password cx ct token new w =
     (if \<not> password_ok new then (Inl 400, w)
      else let (e, rs) = reset_consume (cr_digest cx) (ct_now ct) token (w_resets w); w = w\<lparr>w_resets := rs\<rparr> in
        case e of
          None \<Rightarrow> (Inl 400, w)
        | Some u \<Rightarrow>
            if u = [] then (Inl 400, w)
            else if get_role (w_users w) u = None \<or> is_disabled (w_users w) u then (Inl 403, w)
            else (let (ok, us1) = reset_password_break_glass (cr_hash cx) u new (w_users w);
                      us2 = (if awaiting_password (w_users w) u then snd (password_chosen_by_user u us1) else us1) in
              if \<not> ok then (Inl 400, w)
              else (Inr Done, w\<lparr>w_users := us2, w_lock := clear_account_lockouts (ct_now ct) u (w_lock w)\<rparr>)))"

definition invite_user :: "'t crypto \<Rightarrow> call \<Rightarrow> 't http \<Rightarrow> string \<Rightarrow> string \<Rightarrow> world \<Rightarrow> 't http_outcome" where
  "invite_user cx ct rq email0 role w =
     on_ok (unscoped_admin ''tab-users'' cx ct rq w) w (\<lambda>c.
       let email = py_strip email0 in
       if \<not> valid_email email then (Inl 400, w)
       else if role \<notin> set valid_roles then (Inl 400, w)
       else on_ok (assert_can_assign c role) w (\<lambda>_.
         if get_role (w_users w) email \<noteq> None then (Inl 400, w)
         else if \<not> ct_base_url ct then (Inl 400, w)
         else (let t = ct_random ct email;
                   w = w\<lparr>w_invites := invite_issue (cr_digest cx) (ct_now ct) t email role (w_invites w)\<rparr>;
                   (sent, w) = send_email ct email t w in
           if sent then (Inr Done, w) else (Inl 400, w))))"

definition accept_invite :: "'t crypto \<Rightarrow> call \<Rightarrow> string \<Rightarrow> string \<Rightarrow> world \<Rightarrow> 't http_outcome" where
  "accept_invite cx ct token password w =
     (if \<not> password_ok password then (Inl 400, w)
      else let (e, iv) = invite_consume (cr_digest cx) (ct_now ct) token (w_invites w); w = w\<lparr>w_invites := iv\<rparr> in
        case e of
          None \<Rightarrow> (Inl 400, w)
        | Some (email, role) \<Rightarrow> stored 400 (create_user (cr_hash cx) email password role [] False email True (w_users w)) w)"

section \<open>Single sign-on\<close>

definition resolve_username :: "id_claims \<Rightarrow> string option" where
  "resolve_username ic = find (\<lambda>v. v \<noteq> []) [py_strip (ic_preferred ic), py_strip (ic_email ic), py_strip (ic_sub ic)]"

definition resolve_role :: "sso_config \<Rightarrow> id_claims \<Rightarrow> string" where
  "resolve_role cfg ic =
     (let lowered = map (\<lambda>g. py_lower (py_strip g)) (filter (\<lambda>g. g \<noteq> []) (ic_groups ic)) in
      if so_admin_group cfg \<noteq> [] \<and> py_lower (so_admin_group cfg) \<in> set lowered then ''admin''
      else if so_operator_group cfg \<noteq> [] \<and> py_lower (so_operator_group cfg) \<in> set lowered then ''operator''
      else if so_default_role cfg = ''super_admin'' then ''viewer'' else so_default_role cfg)"

text \<open>The nonce of the claims is compared after the signature was.\<close>

definition verify_id_token :: "string \<Rightarrow> id_claims option \<Rightarrow> id_claims option" where
  "verify_id_token nonce answer = (case answer of None \<Rightarrow> None | Some ic \<Rightarrow> if ic_nonce ic \<noteq> nonce then None else Some ic)"

definition sso_login :: "'t crypto \<Rightarrow> call \<Rightarrow> world \<Rightarrow> 't http_outcome" where
  "sso_login cx ct w =
     (if \<not> so_enabled (w_sso w) then (Inl 400, w)
      else if \<not> ct_base_url ct \<or> \<not> ct_discovered ct then (Inl 400, w)
      else (Inr Done, w\<lparr>w_states := sso_start (cr_digest cx) (ct_now ct) (ct_random ct ''state'') (ct_random ct ''nonce'')
             (ct_random ct ''verifier'') (w_states w)\<rparr>))"

definition sso_synced_role :: "string \<Rightarrow> string \<Rightarrow> bool \<Rightarrow> string" where
  "sso_synced_role existing mapped sync = (if \<not> sync \<or> existing = ''super_admin'' then existing else mapped)"

text \<open>The end of the callback: a session for the account, and its lockouts are lifted.\<close>

definition sso_signed_in :: "'t crypto \<Rightarrow> call \<Rightarrow> string \<Rightarrow> string \<Rightarrow> world \<Rightarrow> 't http_outcome" where
  "sso_signed_in cx ct u role w =
     (let (tok, w) = issue_token cx ct u role w in
      (Inr (Session tok role False), w\<lparr>w_lock := clear_account_lockouts (ct_now ct) u (w_lock w)\<rparr>))"

definition sso_callback :: "'t crypto \<Rightarrow> call \<Rightarrow> string \<Rightarrow> string \<Rightarrow> string \<Rightarrow> world \<Rightarrow> 't http_outcome" where
  "sso_callback cx ct c state err w =
     (if err \<noteq> [] then (Inl 401, w)
      else if c = [] \<or> state = [] then (Inl 400, w)
      else if \<not> so_enabled (w_sso w) then (Inl 400, w)
      else let (pending, states) = consume_state (cr_digest cx) (ct_now ct) state (w_states w); w = w\<lparr>w_states := states\<rparr> in
        case pending of
          None \<Rightarrow> (Inl 400, w)
        | Some (nonce, verifier) \<Rightarrow>
            if \<not> ct_base_url ct then (Inl 401, w)
            else case verify_id_token nonce (ct_identity ct c verifier) of
              None \<Rightarrow> (Inl 401, w)
            | Some ic \<Rightarrow>
                (case resolve_username ic of
                   None \<Rightarrow> (Inl 401, w)
                 | Some u \<Rightarrow>
                     let mapped = resolve_role (w_sso w) ic; us = w_users w in
                     (case get_role us u of
                        None \<Rightarrow>
                          if \<not> so_auto_provision (w_sso w) then (Inl 403, w)
                          else sso_signed_in cx ct u mapped (w\<lparr>w_users := snd (create_user (cr_hash cx) u
                                 (ct_random ct ''password'') mapped [] False (py_strip (ic_email ic)) False us)\<rparr>)
                      | Some existing \<Rightarrow>
                          if is_disabled us u then (Inl 403, w)
                          else if is_pending us u then (Inl 403, w)
                          else (let role = sso_synced_role existing mapped (so_sync_roles (w_sso w)) in
                            sso_signed_in cx ct u role
                              (if role \<noteq> existing then w\<lparr>w_users := snd (set_role u role us)\<rparr> else w)))))"

section \<open>The bridge\<close>

definition authorize_mcp_client ::
    "'t crypto \<Rightarrow> call \<Rightarrow> 't http \<Rightarrow> string \<Rightarrow> string \<Rightarrow> string \<Rightarrow> bool \<Rightarrow> bool \<Rightarrow> world \<Rightarrow> 't http_outcome" where
  "authorize_mcp_client cx ct rq challenge client host read_only0 bp_draft0 w =
     on_ok (caller cx ct rq w) w (\<lambda>c.
       let read_only = (read_only0 \<or> role_rank (cl_role c) = 0);
           bp_draft = (bp_draft0 \<and> read_only \<and> is_admin (cl_role c));
           label = str_join [CHR '' '', CHR 0xB7, CHR '' ''] (filter (\<lambda>x. x \<noteq> []) [if client = [] then ''Client MCP'' else client, host]) in
       (Inr (Bridge_code (ct_random ct ''code'')),
        w\<lparr>w_codes := create_code (ct_now ct) (ct_random ct ''code'') (cl_sub c) challenge label read_only bp_draft (w_codes w)\<rparr>))"

definition redeem_mcp_code :: "'t crypto \<Rightarrow> call \<Rightarrow> string \<Rightarrow> string \<Rightarrow> world \<Rightarrow> 't http_outcome" where
  "redeem_mcp_code cx ct c verifier w =
     (let (g, codes, grants) = redeem_code cx (ct_now ct) c verifier (ct_random ct ''grant'') (ct_random ct ''id'') (w_users w)
            (w_codes w, w_grants w);
          w = w\<lparr>w_codes := codes, w_grants := grants\<rparr> in
      case g of None \<Rightarrow> (Inl 400, w) | Some (token, user) \<Rightarrow> (Inr (Bridge_grant token user), w))"

definition open_mcp_session :: "'t crypto \<Rightarrow> call \<Rightarrow> string \<Rightarrow> world \<Rightarrow> 't http_outcome" where
  "open_mcp_session cx ct token w =
     (let (g, grants) = user_for_grant cx (ct_now ct) token (w_users w) (w_grants w); w = w\<lparr>w_grants := grants\<rparr> in
      case g of
        None \<Rightarrow> (Inl 401, w)
      | Some (u, read_only, bp_draft) \<Rightarrow>
          (let role = (case get_role (w_users w) u of None \<Rightarrow> [] | Some r \<Rightarrow> r);
               c = (session_claims u role (session_epoch (w_users w) u) 0)\<lparr>cl_ro := read_only,
                     cl_bpd := read_only \<and> bp_draft \<and> is_admin role\<rparr> in
           (Inr (Session (create_access_token cx (ct_now ct) (session_settings (w_session w)) (ct_random ct ''jti'') None c) role False), w)))"

definition revoke_my_mcp_grant :: "'t crypto \<Rightarrow> call \<Rightarrow> 't http \<Rightarrow> string \<Rightarrow> world \<Rightarrow> 't http_outcome" where
  "revoke_my_mcp_grant cx ct rq gid w =
     on_ok (caller cx ct rq w) w (\<lambda>c.
       case revoke_grant gid (Some (cl_sub c)) (w_grants w) of
         (None, _) \<Rightarrow> (Inl 404, w)
       | (Some u, grants) \<Rightarrow> (Inr Done, w\<lparr>w_grants := grants\<rparr>))"

definition revoke_mcp_grant :: "'t crypto \<Rightarrow> call \<Rightarrow> 't http \<Rightarrow> string \<Rightarrow> world \<Rightarrow> 't http_outcome" where
  "revoke_mcp_grant cx ct rq gid w =
     on_ok (unscoped_admin ''tab-mcp'' cx ct rq w) w (\<lambda>c.
       case revoke_grant gid None (w_grants w) of
         (None, _) \<Rightarrow> (Inl 404, w)
       | (Some u, grants) \<Rightarrow> (Inr Done, w\<lparr>w_grants := grants\<rparr>))"

section \<open>The server\<close>

datatype request =
    Register string string
  | Login string string
  | Change_password string string
  | Logout
  | Logout_all
  | Change_own_email string string
  | Verify_email string
  | Create_user string string string "string list" string
  | Delete_user string
  | Set_role string string
  | Set_disabled string bool
  | Set_groups string "string list"
  | Set_tabs string "string list"
  | Approve string
  | Forgot_password string
  | Send_reset string
  | Reset_password string string
  | Set_email string string
  | Invite string string
  | Accept_invite string string
  | Sso_login
  | Sso_callback string string string
  | Authorize_client string string string bool bool
  | Redeem_code string string
  | Open_session string
  | Revoke_my_grant string
  | Revoke_grant string

fun serve :: "'t crypto \<Rightarrow> call \<Rightarrow> 't http \<Rightarrow> request \<Rightarrow> world \<Rightarrow> 't http_outcome" where
  "serve cx ct rq (Register u p) = setup_admin cx u p"
| "serve cx ct rq (Login u p) = login cx ct rq u p"
| "serve cx ct rq (Change_password old new) = change_password_ep cx ct rq old new"
| "serve cx ct rq Logout = logout_ep cx ct rq"
| "serve cx ct rq Logout_all = logout_all cx ct rq"
| "serve cx ct rq (Change_own_email e p) = change_own_email cx ct rq e p"
| "serve cx ct rq (Verify_email t) = verify_email cx ct t"
| "serve cx ct rq (Create_user u p r g e) = create_user_ep cx ct rq u p r g e"
| "serve cx ct rq (Delete_user u) = delete_user_ep cx ct rq u"
| "serve cx ct rq (Set_role u r) = set_user_role_ep cx ct rq u r"
| "serve cx ct rq (Set_disabled u b) = disable_user_ep cx ct rq u b"
| "serve cx ct rq (Set_groups u g) = set_user_groups_ep cx ct rq u g"
| "serve cx ct rq (Set_tabs u t) = set_user_tabs_ep cx ct rq u t"
| "serve cx ct rq (Approve u) = approve_user cx ct rq u"
| "serve cx ct rq (Forgot_password i) = forgot_password cx ct rq i"
| "serve cx ct rq (Send_reset u) = admin_send_reset cx ct rq u"
| "serve cx ct rq (Reset_password t p) = reset_password cx ct t p"
| "serve cx ct rq (Set_email u e) = set_user_email cx ct rq u e"
| "serve cx ct rq (Invite e r) = invite_user cx ct rq e r"
| "serve cx ct rq (Accept_invite t p) = accept_invite cx ct t p"
| "serve cx ct rq Sso_login = sso_login cx ct"
| "serve cx ct rq (Sso_callback c s e) = sso_callback cx ct c s e"
| "serve cx ct rq (Authorize_client ch cl h ro bp) = authorize_mcp_client cx ct rq ch cl h ro bp"
| "serve cx ct rq (Redeem_code c v) = redeem_mcp_code cx ct c v"
| "serve cx ct rq (Open_session t) = open_mcp_session cx ct t"
| "serve cx ct rq (Revoke_my_grant i) = revoke_my_mcp_grant cx ct rq i"
| "serve cx ct rq (Revoke_grant i) = revoke_mcp_grant cx ct rq i"

text \<open>A start of the process: what is in memory is gone, what is on disk is loaded.\<close>

definition start_process :: "int \<Rightarrow> world \<Rightarrow> world" where
  "start_process now w = w\<lparr>w_resets := [], w_invites := [], w_verifies := [], w_states := [], w_codes := [],
     w_revoked := load_revoked now (w_revoked w), w_lock := load_attempts now (w_lock w)\<rparr>"

end
