(* ===== verification/Auth_Sound.thy ===== *)
theory Auth_Sound
  imports Auth_Api
begin

text \<open>
  What the handlers guarantee for the store of accounts. The specification \<open>permitted\<close> says in which ways one account may
  change and who may cause it; every request changes at most one account, in one of these ways. From it follow the quorum
  of super administrators and the bounds on what an administrator can give.
\<close>

section \<open>The permitted changes of an account\<close>

definition authority :: "user \<Rightarrow> string \<times> string list \<times> string list \<times> bool \<times> bool \<times> int" where
  "authority d = (role_of d, us_groups d, us_tabs d, us_disabled d, us_pending d, us_epoch d)"

text \<open>Tabs that an account may give: its own, and not all where it is restricted.\<close>

definition tabs_given :: "users \<Rightarrow> claims \<Rightarrow> string list \<Rightarrow> bool" where
  "tabs_given us c tabs \<longleftrightarrow>
     (case effective_tabs us (cl_sub c) of None \<Rightarrow> True | Some held \<Rightarrow> tabs \<noteq> [] \<and> tabs_in_force tabs \<subseteq> held)"

inductive permitted :: "'t crypto \<Rightarrow> call \<Rightarrow> world \<Rightarrow> claims option \<Rightarrow> string \<Rightarrow> user option \<Rightarrow> user option \<Rightarrow> bool"
  for cx ct w a u where
  absent: "permitted cx ct w a u None None"
| kept: "authority d' = authority d \<Longrightarrow> permitted cx ct w a u (Some d) (Some d')"
| signed_out: "a = Some c \<Longrightarrow> cl_sub c = u \<Longrightarrow> authority d' = authority (d\<lparr>us_epoch := us_epoch d + 1\<rparr>)
    \<Longrightarrow> permitted cx ct w a u (Some d) (Some d')"
| set_up: "w_users w = [] \<Longrightarrow> us_epoch d' = 0 \<Longrightarrow> permitted cx ct w a u None (Some d')"
| created: "a = Some c \<Longrightarrow> is_admin (cl_role c) \<Longrightarrow> can_assign (cl_role c) (role_of d')
    \<Longrightarrow> groups_within_scope (w_users w) c (us_groups d') \<Longrightarrow> tabs_given (w_users w) c (us_tabs d') \<Longrightarrow> us_epoch d' = 0
    \<Longrightarrow> permitted cx ct w a u None (Some d')"
| invited: "os_holds (cr_digest cx) (ct_now ct) t (w_invites w) = Some (u, r) \<Longrightarrow> us_pending d'
    \<Longrightarrow> role_of d' = (if r \<in> set valid_roles then r else ''viewer'') \<Longrightarrow> us_epoch d' = 0 \<Longrightarrow> permitted cx ct w a u None (Some d')"
| federated: "so_enabled (w_sso w) \<Longrightarrow> so_auto_provision (w_sso w) \<Longrightarrow> role_of d' \<noteq> ''super_admin'' \<Longrightarrow> us_epoch d' = 0
    \<Longrightarrow> permitted cx ct w a u None (Some d')"
| synced: "so_enabled (w_sso w) \<Longrightarrow> so_sync_roles (w_sso w) \<Longrightarrow> role_of d \<noteq> ''super_admin'' \<Longrightarrow> role_of d' \<noteq> ''super_admin''
    \<Longrightarrow> authority d' = authority (d\<lparr>us_role := Some (role_of d')\<rparr>) \<Longrightarrow> permitted cx ct w a u (Some d) (Some d')"
| deleted: "a = Some c \<Longrightarrow> cl_sub c = u \<or> is_admin (cl_role c) \<and> can_manage (cl_role c) (role_of d) \<and> user_visible_to (w_users w) c u
    \<Longrightarrow> \<not> is_last_active_super_admin (w_users w) u \<Longrightarrow> permitted cx ct w a u (Some d) None"
| managed: "a = Some c \<Longrightarrow> is_admin (cl_role c) \<Longrightarrow> can_manage (cl_role c) (role_of d) \<Longrightarrow> user_visible_to (w_users w) c u
    \<Longrightarrow> us_epoch d' = us_epoch d
    \<Longrightarrow> role_of d' = role_of d \<or> can_assign (cl_role c) (role_of d')
    \<Longrightarrow> us_groups d' = us_groups d \<or> groups_within_scope (w_users w) c (us_groups d')
    \<Longrightarrow> us_tabs d' = us_tabs d \<or> tabs_given (w_users w) c (us_tabs d')
    \<Longrightarrow> active_super d' \<or> \<not> active_super d \<or> \<not> is_last_active_super_admin (w_users w) u
    \<Longrightarrow> permitted cx ct w a u (Some d) (Some d')"

inductive_cases permittedE: "permitted cx ct w a u old new"

definition one_change :: "'t crypto \<Rightarrow> call \<Rightarrow> 't http \<Rightarrow> world \<Rightarrow> users \<Rightarrow> bool" where
  "one_change cx ct rq w us \<longleftrightarrow> distinct (map fst us)
     \<and> (\<exists>a u. (\<forall>c. a = Some c \<longrightarrow> caller cx ct rq w = Inr c) \<and> (\<forall>v. v \<noteq> u \<longrightarrow> dict_get us v = dict_get (w_users w) v)
          \<and> permitted cx ct w a u (dict_get (w_users w) u) (dict_get us u))"

definition keys_ok :: "world \<Rightarrow> bool" where "keys_ok w \<longleftrightarrow> distinct (map fst (w_users w))"

section \<open>How the operations change the store\<close>

lemma update_user_keys [simp]: "distinct (map fst us) \<Longrightarrow> distinct (map fst (snd (update_user u f us)))"
  by (auto simp: update_user_def distinct_update split: option.splits)

lemma create_user_keys [simp]:
  "distinct (map fst us) \<Longrightarrow> distinct (map fst (snd (create_user hashpw u password role groups mc email pending us)))"
  by (auto simp: create_user_def distinct_update)

lemma create_user_ok: "fst (create_user hashpw u password role groups mc email pending us) \<longleftrightarrow> \<not> dict_has us u"
  by (simp add: create_user_def)

lemma delete_user_keys [simp]: "distinct (map fst us) \<Longrightarrow> distinct (map fst (snd (delete_user u us)))"
  by (auto simp: delete_user_def distinct_delete)

lemma permitted_same: "permitted cx ct w a u x x"
  by (cases x) (auto intro: absent kept)

lemma one_change_refl: "keys_ok w \<Longrightarrow> one_change cx ct rq w (w_users w)"
  unfolding one_change_def keys_ok_def using permitted_same by blast

text \<open>One account is rewritten.\<close>

lemma one_change_update:
  assumes "keys_ok w" and "\<And>c. a = Some c \<Longrightarrow> caller cx ct rq w = Inr c"
    and "\<And>d. dict_get (w_users w) u = Some d \<Longrightarrow> permitted cx ct w a u (Some d) (Some (f d))"
  shows "one_change cx ct rq w (snd (update_user u f (w_users w)))"
  unfolding one_change_def
proof (intro conjI exI [of _ a] exI [of _ u])
  show "permitted cx ct w a u (dict_get (w_users w) u) (dict_get (snd (update_user u f (w_users w))) u)"
    using assms(3) by (cases "dict_get (w_users w) u") (auto simp: update_user_get intro: absent)
qed (use assms in \<open>auto simp: keys_ok_def update_user_get\<close>)

lemma one_change_update_kept:
  assumes "keys_ok w" and "\<And>d. authority (f d) = authority d"
  shows "one_change cx ct rq w (snd (update_user u f (w_users w)))"
  by (rule one_change_update [where a = None]) (use assms in \<open>auto intro: kept\<close>)

lemma one_change_created:
  assumes "keys_ok w" and "distinct (map fst us)" and "\<And>c. a = Some c \<Longrightarrow> caller cx ct rq w = Inr c"
    and "dict_get (w_users w) u = None" and "\<And>v. v \<noteq> u \<Longrightarrow> dict_get us v = dict_get (w_users w) v"
    and "dict_get us u = Some d" and "permitted cx ct w a u None (Some d)"
  shows "one_change cx ct rq w us"
  unfolding one_change_def by (intro conjI exI [of _ a] exI [of _ u]) (use assms in auto)

lemma on_okI: "(\<And>x. r = Inr x \<Longrightarrow> P (snd (k x))) \<Longrightarrow> P w \<Longrightarrow> P (snd (on_ok r w k))"
  by (cases r) (simp_all add: on_ok_def)

lemma storedI: "(fst r \<Longrightarrow> P (w\<lparr>w_users := snd r\<rparr>)) \<Longrightarrow> P w \<Longrightarrow> P (snd (stored n r w))"
  by (simp add: stored_def)

lemma guard_caller:
  "tab_caller tab cx ct rq w = Inr c \<Longrightarrow> caller cx ct rq w = Inr c \<and> require_tab [tab] (w_users w) c = Inr c"
  "users_admin cx ct rq w = Inr c \<Longrightarrow> caller cx ct rq w = Inr c \<and> require_tab [''tab-users''] (w_users w) c = Inr c \<and> is_admin (cl_role c)"
  by (auto simp: tab_caller_def users_admin_def require_admin_def require_role_def is_admin_def require_tab_def
      split: sum.splits option.splits if_splits)

section \<open>What a restricted caller passes on\<close>

lemma tab_list_fixed:
  assumes "t \<in> set (tab_list raw)" shows "tab_alias t = t"
proof -
  have "tab_alias ''tab-home'' = ''tab-home''" by code_simp
  then show ?thesis using assms alias_no_alias subtabs_twice by (auto simp: tab_list_def always_granted_tabs_def Let_def)
qed

lemma restricted_tabs: "effective_tabs us u \<noteq> None \<Longrightarrow> effective_tabs us u = Some (tabs_in_force (get_allowed_tabs us u))"
  unfolding effective_tabs_def Let_def by (simp split: if_splits)

lemma tabs_passed_given:
  assumes "require_tab [''tab-users''] us c = Inr c" and "tabs_to_pass us (cl_sub c) = Some tabs"
  shows "tabs_given us c tabs"
proof -
  let ?raw = "get_allowed_tabs us (cl_sub c)"
  from assms(2) have ne: "effective_tabs us (cl_sub c) \<noteq> None"
    and eq: "sorted_texts (filter (\<lambda>t. t \<noteq> ''tab-home'') (tab_list ?raw)) = tabs"
    by (simp_all add: tabs_to_pass_def split: if_splits)
  from ne have eff: "effective_tabs us (cl_sub c) = Some (tabs_in_force ?raw)" by (rule restricted_tabs)
  have tabs: "set tabs = {t \<in> set (tab_list ?raw). t \<noteq> ''tab-home''}" unfolding eq [symmetric] by simp
  have "''tab-users'' \<in> set tabs"
    using assms(1) eff tabs by (auto simp: require_tab_def tabs_in_force_def split: if_splits)
  then have "tabs \<noteq> []" by auto
  moreover have "tabs_in_force tabs \<subseteq> tabs_in_force ?raw"
  proof (rule tabs_in_force_closed, rule subsetI)
    fix x assume "x \<in> set (map tab_alias (filter (\<lambda>t. t \<noteq> ''tab-home'') tabs))"
    then obtain t where "t \<in> set tabs" "x = tab_alias t" unfolding set_map set_filter by blast
    then have "t \<in> set (tab_list ?raw)" unfolding tabs by blast
    with \<open>x = tab_alias t\<close> show "x \<in> tabs_in_force ?raw" unfolding tabs_in_force_def by (simp only: tab_list_fixed)
  qed
  ultimately show ?thesis using eff by (simp add: tabs_given_def)
qed

lemma tabs_within_given: "tabs_within_grant us c tabs \<Longrightarrow> tabs_given us c tabs"
proof (cases "effective_tabs us (cl_sub c)")
  case (Some held)
  assume w: "tabs_within_grant us c tabs"
  from Some have h: "held = tabs_in_force (get_allowed_tabs us (cl_sub c))" using restricted_tabs by force
  have "tabs \<noteq> []" and sub: "set (map tab_alias (filter (\<lambda>t. t \<noteq> ''tab-home'') tabs)) \<subseteq> held"
    using w Some by (auto simp: tabs_within_grant_def Let_def)
  moreover have "tabs_in_force tabs \<subseteq> held" unfolding h by (rule tabs_in_force_closed) (use sub h in simp)
  ultimately show ?thesis using Some by (simp add: tabs_given_def)
qed (simp add: tabs_given_def)

section \<open>Every request changes at most one account, in a permitted way\<close>

lemmas user_ops = set_email_def change_password_def record_login_def bump_session_epoch_def approve_def set_disabled_def set_groups_def
  set_allowed_tabs_def mark_awaiting_password_def password_chosen_by_user_def reset_password_break_glass_def

lemma authority_fields [simp]:
  "authority (d\<lparr>us_hash := h\<rparr>) = authority d"
  "authority (d\<lparr>us_must_change := m\<rparr>) = authority d"
  "authority (d\<lparr>us_email := e\<rparr>) = authority d"
  "authority (d\<lparr>us_last_login := l\<rparr>) = authority d"
  "authority (d\<lparr>us_awaiting := x\<rparr>) = authority d"
  by (simp_all add: authority_def role_of_def)

lemma kept_email: "keys_ok w \<Longrightarrow> one_change cx ct rq w (snd (set_email u e (w_users w)))"
  unfolding set_email_def by (rule one_change_update_kept) simp_all

lemma kept_login: "keys_ok w \<Longrightarrow> one_change cx ct rq w (record_login t u (w_users w))"
  unfolding record_login_def by (rule one_change_update_kept) simp_all

lemma change_register:
  assumes "keys_ok w" shows "one_change cx ct rq w (w_users (snd (setup_admin cx u p w)))"
proof -
  have "one_change cx ct rq w (snd (create_user (cr_hash cx) u p ''super_admin'' [] False [] False (w_users w)))" if "w_users w = []"
    by (rule one_change_created [where a = None and u = u])
      (use that assms in \<open>auto simp: keys_ok_def create_user_get dict_has_def intro: set_up\<close>)
  moreover have "w_users w = [] \<Longrightarrow> one_change cx ct rq w []" using one_change_refl [OF assms, of cx ct rq] by simp
  ultimately show ?thesis using one_change_refl [OF assms, of cx ct rq] by (auto simp: setup_admin_def stored_def)
qed

lemma change_login:
  assumes "keys_ok w" shows "one_change cx ct rq w (w_users (snd (login cx ct rq u p w)))"
proof -
  have "w_users (snd (login cx ct rq u p w)) \<in> {w_users w, record_login (ct_now_text ct) u (w_users w)}"
    by (simp add: login_def issue_token_def Let_def case_prod_beta)
  then show ?thesis using one_change_refl [OF assms, of cx ct rq] kept_login [OF assms, of cx ct rq] by force
qed

lemma change_own_password:
  assumes "keys_ok w" shows "one_change cx ct rq w (w_users (snd (change_password_ep cx ct rq old new w)))"
proof -
  have "one_change cx ct rq w (snd (change_password (cr_check cx) (cr_hash cx) u old new (w_users w)))" for u
    unfolding change_password_def using one_change_refl [OF assms, of cx ct rq]
    by (cases "verify_user (cr_check cx) u old (w_users w)") (simp_all, rule one_change_update_kept [OF assms], simp)
  then show ?thesis using one_change_refl [OF assms, of cx ct rq]
    by (simp add: change_password_ep_def on_ok_def stored_def split: sum.split)
qed

lemma change_logout_all:
  assumes "keys_ok w" shows "one_change cx ct rq w (w_users (snd (logout_all cx ct rq w)))"
proof (cases "caller cx ct rq w")
  case (Inr c)
  have "one_change cx ct rq w (snd (bump_session_epoch (cl_sub c) (w_users w)))"
    unfolding bump_session_epoch_def
    by (rule one_change_update [where a = "Some c", OF assms])
      (use Inr in \<open>auto simp: session_epoch_def authority_def role_of_def intro: signed_out\<close>)
  then show ?thesis using Inr by (simp add: logout_all_def on_ok_def)
qed (simp add: logout_all_def on_ok_def one_change_refl [OF assms])

lemma change_own_email_one:
  assumes "keys_ok w" shows "one_change cx ct rq w (w_users (snd (change_own_email cx ct rq e p w)))"
proof -
  have "w_users (snd (send_email ct e t v)) = w_users v" for e t v by (simp add: send_email_def)
  then show ?thesis using one_change_refl [OF assms, of cx ct rq] kept_email [OF assms, of cx ct rq]
    by (simp add: change_own_email_def on_ok_def Let_def case_prod_beta split: sum.split)
qed

lemma change_verify_email:
  assumes "keys_ok w" shows "one_change cx ct rq w (w_users (snd (verify_email cx ct t w)))"
  using one_change_refl [OF assms, of cx ct rq] kept_email [OF assms, of cx ct rq]
  by (simp add: verify_email_def stored_def Let_def case_prod_beta split: option.split)

lemma change_user_email:
  assumes "keys_ok w" shows "one_change cx ct rq w (w_users (snd (set_user_email cx ct rq u e w)))"
  using one_change_refl [OF assms, of cx ct rq] kept_email [OF assms, of cx ct rq]
  by (simp add: set_user_email_def on_ok_def stored_def Let_def split: sum.split)

text \<open>The handlers of administrators: the guard has checked what the specification asks for.\<close>

lemma managed_update:
  assumes "keys_ok w" and "caller cx ct rq w = Inr c" and "is_admin (cl_role c)"
    and "assert_can_manage (w_users w) c u new_role False = Inr ()"
    and "\<And>d. dict_get (w_users w) u = Some d \<Longrightarrow> us_epoch (f d) = us_epoch d
      \<and> (role_of (f d) = role_of d \<or> new_role = Some (role_of (f d)))
      \<and> (us_groups (f d) = us_groups d \<or> groups_within_scope (w_users w) c (us_groups (f d)))
      \<and> (us_tabs (f d) = us_tabs d \<or> tabs_given (w_users w) c (us_tabs (f d)))
      \<and> (active_super (f d) \<or> \<not> active_super d \<or> \<not> is_last_active_super_admin (w_users w) u)"
  shows "one_change cx ct rq w (snd (update_user u f (w_users w)))"
proof (rule one_change_update [OF assms(1), where a = "Some c"])
  fix d assume d: "dict_get (w_users w) u = Some d"
  have m: "can_manage (cl_role c) (role_of d)" "user_visible_to (w_users w) c u" "\<forall>r. new_role = Some r \<longrightarrow> can_assign (cl_role c) r"
    using can_manage_ok [OF assms(4)] d by auto
  show "permitted cx ct w (Some c) u (Some d) (Some (f d))"
    by (rule managed) (use assms(3) m assms(5) [OF d] in auto)
qed (use assms(2) in simp)

lemma change_role:
  assumes "keys_ok w" shows "one_change cx ct rq w (w_users (snd (set_user_role_ep cx ct rq u r w)))"
proof -
  have "one_change cx ct rq w (snd (set_role u r (w_users w)))"
    if g: "users_admin cx ct rq w = Inr c" "assert_can_manage (w_users w) c u (Some r) False = Inr ()"
      "\<not> (r \<noteq> ''super_admin'' \<and> is_last_active_super_admin (w_users w) u)" for c
  proof (cases "r \<in> set valid_roles")
    case True
    have "one_change cx ct rq w (snd (update_user u (\<lambda>d. d\<lparr>us_role := Some r\<rparr>) (w_users w)))"
      by (rule managed_update [OF assms _ _ g(2)]) (use guard_caller(2) [OF g(1)] g(3) in \<open>auto simp: role_of_def active_super_def\<close>)
    then show ?thesis using True by (simp add: set_role_def)
  qed (simp add: set_role_def one_change_refl [OF assms])
  then show ?thesis using one_change_refl [OF assms, of cx ct rq]
    by (auto simp: set_user_role_ep_def on_ok_def stored_def split: sum.split)
qed

lemma change_disabled:
  assumes "keys_ok w" shows "one_change cx ct rq w (w_users (snd (disable_user_ep cx ct rq u b w)))"
proof -
  have "one_change cx ct rq w (snd (set_disabled u b (w_users w)))"
    if g: "users_admin cx ct rq w = Inr c" "assert_can_manage (w_users w) c u None False = Inr ()"
      "\<not> (b \<and> is_last_active_super_admin (w_users w) u)" for c
    unfolding set_disabled_def
    by (rule managed_update [OF assms _ _ g(2)]) (use guard_caller(2) [OF g(1)] g(3) in \<open>auto simp: role_of_def active_super_def\<close>)
  then show ?thesis using one_change_refl [OF assms, of cx ct rq]
    by (auto simp: disable_user_ep_def on_ok_def stored_def split: sum.split)
qed

lemma change_groups:
  assumes "keys_ok w" shows "one_change cx ct rq w (w_users (snd (set_user_groups_ep cx ct rq u g w)))"
proof -
  have "one_change cx ct rq w (snd (set_groups u gs (w_users w)))"
    if g: "users_admin cx ct rq w = Inr c" "assert_can_manage (w_users w) c u None False = Inr ()"
      "assert_groups_within_scope (w_users w) c gs = Inr ()" for c gs
    unfolding set_groups_def
    by (rule managed_update [OF assms _ _ g(2)])
      (use guard_caller(2) [OF g(1)] g(3) in \<open>auto simp: role_of_def active_super_def assert_groups_within_scope_def split: if_splits\<close>)
  then show ?thesis using one_change_refl [OF assms, of cx ct rq]
    by (auto simp: set_user_groups_ep_def on_ok_def stored_def Let_def split: sum.split)
qed

lemma change_tabs:
  assumes "keys_ok w" shows "one_change cx ct rq w (w_users (snd (set_user_tabs_ep cx ct rq u ts w)))"
proof -
  have "one_change cx ct rq w (snd (set_allowed_tabs u ts (w_users w)))"
    if g: "users_admin cx ct rq w = Inr c" "assert_can_manage (w_users w) c u None False = Inr ()"
      "assert_tabs_within_grant (w_users w) c ts = Inr ()" for c
    unfolding set_allowed_tabs_def
    by (rule managed_update [OF assms _ _ g(2)]) (use guard_caller(2) [OF g(1)] g(3) tabs_within_given in
        \<open>auto simp: role_of_def active_super_def assert_tabs_within_grant_def split: if_splits\<close>)
  then show ?thesis using one_change_refl [OF assms, of cx ct rq]
    by (auto simp: set_user_tabs_ep_def on_ok_def stored_def split: sum.split)
qed

lemma change_delete:
  assumes "keys_ok w" shows "one_change cx ct rq w (w_users (snd (delete_user_ep cx ct rq u w)))"
proof -
  have "one_change cx ct rq w (snd (delete_user u (w_users w)))"
    if g: "tab_caller ''tab-users'' cx ct rq w = Inr c" "assert_can_manage (w_users w) c u None True = Inr ()"
      "\<not> is_last_active_super_admin (w_users w) u" "u \<noteq> cl_sub c \<longrightarrow> is_admin (cl_role c)" for c
  proof -
    obtain d where d: "dict_get (w_users w) u = Some d" "u = cl_sub c \<or> can_manage (cl_role c) (role_of d)"
      and v: "user_visible_to (w_users w) c u"
      using can_manage_ok [OF g(2)] by auto
    have "permitted cx ct w (Some c) u (Some d) None" by (rule deleted) (use d v g(3,4) in auto)
    then show ?thesis unfolding one_change_def
      by (intro conjI exI [of _ "Some c"] exI [of _ u])
        (use assms guard_caller(1) [OF g(1)] d in \<open>auto simp: keys_ok_def delete_user_get\<close>)
  qed
  then show ?thesis using one_change_refl [OF assms, of cx ct rq]
    by (auto simp: delete_user_ep_def on_ok_def stored_def split: sum.split)
qed

lemma alist_update_twice: "AList.update k v (AList.update k x al) = AList.update k v al"
  by (induction al) auto

lemma update_user_twice: "snd (update_user u g (snd (update_user u f us))) = snd (update_user u (\<lambda>d. g (f d)) us)"
  by (auto simp: update_user_def alist_update_twice split: option.splits)

text \<open>The tabs that count depend on the role and the tabs of the caller only.\<close>

lemma tabs_to_pass_cong:
  assumes "map_option (\<lambda>d. (role_of d, us_tabs d)) (dict_get us' a) = map_option (\<lambda>d. (role_of d, us_tabs d)) (dict_get us a)"
  shows "tabs_to_pass us' a = tabs_to_pass us a"
proof -
  have "get_role us' a = get_role us a" and t: "get_allowed_tabs us' a = get_allowed_tabs us a"
    using assms by (cases "dict_get us' a"; cases "dict_get us a"; simp add: get_role_def get_allowed_tabs_def)+
  then have "effective_tabs us' a = effective_tabs us a" by (simp add: effective_tabs_def)
  with t show ?thesis by (simp add: tabs_to_pass_def)
qed

lemma change_approve:
  assumes "keys_ok w" shows "one_change cx ct rq w (w_users (snd (approve_user cx ct rq u w)))"
proof -
  have one: "one_change cx ct rq w (snd (update_user u f (w_users w)))"
    if g: "users_admin cx ct rq w = Inr c" "assert_can_manage (w_users w) c u None False = Inr ()"
      and f: "f = (\<lambda>d. d\<lparr>us_pending := False\<rparr>) \<or> (\<exists>ts. tabs_to_pass (w_users w) (cl_sub c) = Some ts \<and> f = (\<lambda>d. d\<lparr>us_pending := False, us_tabs := ts\<rparr>))"
    for c f
    by (rule managed_update [OF assms _ _ g(2)])
      (use guard_caller(2) [OF g(1)] f tabs_passed_given in \<open>auto simp: role_of_def active_super_def\<close>)
  have same: "tabs_to_pass (snd (update_user u (\<lambda>d. d\<lparr>us_pending := False\<rparr>) (w_users w))) a = tabs_to_pass (w_users w) a" for a
    by (rule tabs_to_pass_cong) (auto simp: update_user_get role_of_def option.map_comp comp_def)
  show ?thesis using one_change_refl [OF assms, of cx ct rq] one
    by (auto simp: approve_user_def on_ok_def approve_def pass_tabs_def set_allowed_tabs_def Let_def case_prod_beta update_user_twice same
        split: sum.split option.split)
qed

lemma change_create:
  assumes "keys_ok w" shows "one_change cx ct rq w (w_users (snd (create_user_ep cx ct rq u0 p r g0 e0 w)))"
proof (cases "users_admin cx ct rq w")
  case (Inl n)
  then show ?thesis using one_change_refl [OF assms, of cx ct rq] by (simp add: create_user_ep_def on_ok_def)
next
  case (Inr c)
  note c = guard_caller(2) [OF Inr]
  let ?u = "py_strip u0"
  let ?us1 = "\<lambda>pw mc. snd (create_user (cr_hash cx) ?u pw r (known_groups w g0) mc (py_strip e0) False (w_users w))"
  let ?us2 = "\<lambda>pw mc. pass_tabs (cl_sub c) ?u (?us1 pw mc)"
  have sub: "dict_has (w_users w) (cl_sub c)"
  proof -
    have "session_of (w_users w) c' = Inr c \<Longrightarrow> ?thesis" for c' using session_of_ok by (fastforce simp: dict_has_def)
    then show ?thesis using c by (auto simp: caller_def get_current_user_def split: if_splits option.splits)
  qed
  have us: "one_change cx ct rq w (?us2 pw mc)" "one_change cx ct rq w (snd (mark_awaiting_password ?u (?us2 pw mc)))"
      "one_change cx ct rq w (snd (delete_user ?u (snd (mark_awaiting_password ?u (?us2 pw mc)))))"
    if new: "\<not> dict_has (w_users w) ?u" "r \<in> set valid_roles" "can_assign (cl_role c) r"
      "groups_within_scope (w_users w) c (known_groups w g0)" for pw mc
  proof -
    have ne: "cl_sub c \<noteq> ?u" using sub new(1) by auto
    have none: "dict_get (w_users w) ?u = None" using new(1) by (simp add: dict_has_def)
    have tp: "tabs_to_pass (?us1 pw mc) (cl_sub c) = tabs_to_pass (w_users w) (cl_sub c)"
      by (rule tabs_to_pass_cong) (use ne in \<open>simp add: create_user_get\<close>)
    have given: "tabs_given (w_users w) c (us_tabs d)" if "dict_get (?us2 pw mc) ?u = Some d" for d
    proof (cases "tabs_to_pass (w_users w) (cl_sub c)")
      case None
      then show ?thesis by (auto simp: tabs_to_pass_def tabs_given_def split: if_splits)
    next
      case (Some ts)
      then have "us_tabs d = ts" using that new(1) by (auto simp: pass_tabs_def tp set_allowed_tabs_def update_user_get create_user_get)
      then show ?thesis using tabs_passed_given [OF _ Some] c by simp
    qed
    have d: "\<exists>d. dict_get (?us2 pw mc) ?u = Some d \<and> role_of d = r \<and> us_groups d = known_groups w g0 \<and> us_epoch d = 0"
      using new by (auto simp: pass_tabs_def tp set_allowed_tabs_def update_user_get create_user_get role_of_def split: option.split)
    have old: "dict_get (?us2 pw mc) v = dict_get (w_users w) v" if "v \<noteq> ?u" for v
      using that by (simp add: pass_tabs_def tp set_allowed_tabs_def update_user_get create_user_get split: option.split)
    have keys: "distinct (map fst (?us2 pw mc))"
      using assms by (simp add: pass_tabs_def keys_ok_def set_allowed_tabs_def split: option.split)
    have ok: "permitted cx ct w (Some c) ?u None (Some d)"
      if "role_of d = r" "us_groups d = known_groups w g0" "us_epoch d = 0" "tabs_given (w_users w) c (us_tabs d)" for d
      by (rule created) (use that new c in auto)
    obtain d0 where d0: "dict_get (?us2 pw mc) ?u = Some d0" "role_of d0 = r" "us_groups d0 = known_groups w g0" "us_epoch d0 = 0"
      using d by blast
    show "one_change cx ct rq w (?us2 pw mc)"
      by (rule one_change_created [OF assms keys _ none old d0(1), of "Some c"]) (use c ok d0 given in auto)
    show "one_change cx ct rq w (snd (mark_awaiting_password ?u (?us2 pw mc)))"
      by (rule one_change_created [OF assms _ _ none, of _ "Some c" _ _ _ "d0\<lparr>us_awaiting := True\<rparr>"])
        (use keys c old d0 ok given in \<open>auto simp: mark_awaiting_password_def update_user_get role_of_def\<close>)
    have "one_change cx ct rq w us" if "distinct (map fst us)" "\<And>v. dict_get us v = dict_get (w_users w) v" for us
      unfolding one_change_def using that permitted_same by (intro conjI exI [of _ None] exI [of _ ?u]) auto
    then show "one_change cx ct rq w (snd (delete_user ?u (snd (mark_awaiting_password ?u (?us2 pw mc)))))"
      using keys old none by (auto simp: delete_user_get mark_awaiting_password_def update_user_get)
  qed
  have mail: "w_users (snd (mail_setup_link cx ct v ttl w')) = w_users w'" "w_users (mail_welcome ct v w') = w_users w'" for v ttl w'
    by (simp_all add: mail_setup_link_def mail_welcome_def send_email_def Let_def)
  show ?thesis
    using Inr one_change_refl [OF assms, of cx ct rq] us
    by (auto simp: create_user_ep_def on_ok_def mail Let_def case_prod_beta assert_can_assign_def assert_groups_within_scope_def
        create_user_ok split: sum.split if_splits)
qed

lemma mail_users [simp]:
  "w_users (snd (send_email ct e t w)) = w_users w"
  "w_users (snd (mail_setup_link cx ct v ttl w)) = w_users w"
  by (simp_all add: mail_setup_link_def send_email_def Let_def)

lemma mails_users [simp]: "w_users (fold (\<lambda>u w. snd (mail_setup_link cx ct u ttl w)) us w) = w_users w"
  by (induction us arbitrary: w) simp_all

lemma change_reset_password:
  assumes "keys_ok w" shows "one_change cx ct rq w (w_users (snd (reset_password cx ct t p w)))"
proof -
  have one: "one_change cx ct rq w (snd (update_user u f (w_users w)))"
    if "\<not> is_disabled (w_users w) u" and f: "\<And>d. authority (f d) = authority (d\<lparr>us_disabled := False\<rparr>)" for u f
  proof (rule one_change_update [OF assms, where a = None])
    fix d assume "dict_get (w_users w) u = Some d"
    then have "d\<lparr>us_disabled := False\<rparr> = d" using that(1) by (simp add: is_disabled_def user_flag_def)
    then show "permitted cx ct w None u (Some d) (Some (f d))" using f [of d] by (intro kept) simp
  qed simp
  show ?thesis
    using one_change_refl [OF assms, of cx ct rq]
    by (auto simp: reset_password_def Let_def case_prod_beta reset_password_break_glass_def password_chosen_by_user_def
        update_user_twice authority_def role_of_def intro!: one split: option.split)
qed

lemma change_accept_invite:
  assumes "keys_ok w" and "os_ok (w_invites w)" shows "one_change cx ct rq w (w_users (snd (accept_invite cx ct t p w)))"
proof -
  have "one_change cx ct rq w (snd (create_user (cr_hash cx) u p r [] False u True (w_users w)))"
    if "fst (invite_consume (cr_digest cx) (ct_now ct) t (w_invites w)) = Some (u, r)" "\<not> dict_has (w_users w) u" for u r
  proof (rule one_change_created [OF assms(1), where a = None])
    have h: "os_holds (cr_digest cx) (ct_now ct) t (w_invites w) = Some (u, r)"
      using that(1) purging_shots.consume_returns [OF assms(2)] by (simp add: invite_consume_def)
    show "permitted cx ct w None u None (Some \<lparr>us_hash = cr_hash cx p, us_role = Some (if r \<in> set valid_roles then r else ''viewer''),
        us_groups = [], us_email = py_strip u, us_tabs = [], us_disabled = False, us_must_change = False, us_pending = True,
        us_awaiting = False, us_last_login = [], us_epoch = 0\<rparr>)"
      by (rule invited [OF h]) (simp_all add: role_of_def)
  qed (use that(2) assms(1) in \<open>auto simp: create_user_get dict_has_def keys_ok_def\<close>)
  then show ?thesis using one_change_refl [OF assms(1), of cx ct rq]
    by (auto simp: accept_invite_def stored_def Let_def case_prod_beta create_user_ok split: option.split)
qed

lemma mapped_not_super: "resolve_role cfg ic \<noteq> ''super_admin''"
  by (simp add: resolve_role_def Let_def)

lemma change_sso:
  assumes "keys_ok w" shows "one_change cx ct rq w (w_users (snd (sso_callback cx ct c st err w)))"
proof -
  have users: "w_users (snd (sso_signed_in cx ct u r w')) = record_login (ct_now_text ct) u (w_users w')" for u r w'
    by (simp add: sso_signed_in_def issue_token_def Let_def)
  have login: "one_change cx ct rq w (record_login (ct_now_text ct) u (w_users w))" for u by (rule kept_login [OF assms])
  have new: "one_change cx ct rq w (record_login (ct_now_text ct) u (snd (create_user (cr_hash cx) u pw (resolve_role (w_sso w) ic) [] False e False (w_users w))))"
    if "so_enabled (w_sso w)" "so_auto_provision (w_sso w)" "get_role (w_users w) u = None" for u pw ic e
  proof (rule one_change_created [OF assms, where a = None and u = u])
    let ?r = "resolve_role (w_sso w) ic"
    let ?d = "\<lparr>us_hash = cr_hash cx pw, us_role = Some (if ?r \<in> set valid_roles then ?r else ''viewer''), us_groups = [],
        us_email = py_strip e, us_tabs = [], us_disabled = False, us_must_change = False, us_pending = False,
        us_awaiting = False, us_last_login = ct_now_text ct, us_epoch = 0\<rparr>"
    show n: "dict_get (w_users w) u = None" using that(3) by (simp add: get_role_def)
    show "dict_get (record_login (ct_now_text ct) u (snd (create_user (cr_hash cx) u pw ?r [] False e False (w_users w)))) u = Some ?d"
      using n by (simp add: record_login_def update_user_get create_user_get dict_has_def)
    show "permitted cx ct w None u None (Some ?d)"
      by (rule federated [OF that(1,2)]) (use mapped_not_super in \<open>simp_all add: role_of_def\<close>)
  qed (use assms in \<open>auto simp: keys_ok_def record_login_def update_user_get create_user_get\<close>)
  have sync: "one_change cx ct rq w (record_login (ct_now_text ct) u (snd (set_role u r (w_users w))))"
    if e: "so_enabled (w_sso w)" "get_role (w_users w) u = Some existing"
      "r = sso_synced_role existing (resolve_role (w_sso w) ic) (so_sync_roles (w_sso w))" "r \<noteq> existing" for u existing ic r
  proof (cases "r \<in> set valid_roles")
    case True
    have r: "so_sync_roles (w_sso w)" "existing \<noteq> ''super_admin''" "r \<noteq> ''super_admin''"
      using e(3,4) mapped_not_super by (auto simp: sso_synced_role_def split: if_splits)
    have "one_change cx ct rq w (snd (update_user u (\<lambda>d. d\<lparr>us_role := Some r, us_last_login := ct_now_text ct\<rparr>) (w_users w)))"
    proof (rule one_change_update [OF assms, where a = None])
      fix d assume "dict_get (w_users w) u = Some d"
      then have "role_of d = existing" using e(2) by (simp add: get_role_def)
      then show "permitted cx ct w None u (Some d) (Some (d\<lparr>us_role := Some r, us_last_login := ct_now_text ct\<rparr>))"
        using r e(1) by (intro synced) (simp_all add: role_of_def authority_def)
    qed simp
    then show ?thesis using True by (simp add: set_role_def record_login_def update_user_twice)
  qed (simp add: set_role_def login)
  have w: "(w\<lparr>w_states := s\<rparr>)\<lparr>w_users := x\<rparr> = w\<lparr>w_users := x, w_states := s\<rparr>" for s x by simp
  show ?thesis
    using one_change_refl [OF assms, of cx ct rq] new sync login
    by (auto simp: sso_callback_def Let_def case_prod_beta users split: option.split)
qed

text \<open>The other handlers leave the store as it is.\<close>

lemma other_handlers:
  "w_users (snd (logout_ep cx ct rq w)) = w_users w"
  "w_users (snd (forgot_password cx ct rq i w)) = w_users w"
  "w_users (snd (admin_send_reset cx ct rq u w)) = w_users w"
  "w_users (snd (invite_user cx ct rq e r w)) = w_users w"
  "w_users (snd (sso_login cx ct w)) = w_users w"
  "w_users (snd (authorize_mcp_client cx ct rq ch cl h ro bp w)) = w_users w"
  "w_users (snd (redeem_mcp_code cx ct c v w)) = w_users w"
  "w_users (snd (open_mcp_session cx ct t w)) = w_users w"
  "w_users (snd (revoke_my_mcp_grant cx ct rq gid w)) = w_users w"
  "w_users (snd (revoke_mcp_grant cx ct rq gid w)) = w_users w"
  by (simp_all add: logout_ep_def forgot_password_def admin_send_reset_def invite_user_def sso_login_def authorize_mcp_client_def
      redeem_mcp_code_def open_mcp_session_def revoke_my_mcp_grant_def revoke_mcp_grant_def on_ok_def Let_def case_prod_beta
      split: sum.split option.split)

lemma serve_one_change:
  assumes "keys_ok w" and "os_ok (w_invites w)" shows "one_change cx ct rq w (w_users (snd (serve cx ct rq req w)))"
  by (cases req) (simp_all add: other_handlers one_change_refl [OF assms(1)] change_register [OF assms(1)] change_login [OF assms(1)]
      change_own_password [OF assms(1)] change_logout_all [OF assms(1)] change_own_email_one [OF assms(1)]
      change_verify_email [OF assms(1)] change_create [OF assms(1)] change_delete [OF assms(1)] change_role [OF assms(1)]
      change_disabled [OF assms(1)] change_groups [OF assms(1)] change_tabs [OF assms(1)] change_approve [OF assms(1)]
      change_reset_password [OF assms(1)] change_user_email [OF assms(1)] change_accept_invite [OF assms] change_sso [OF assms(1)])

end
