(* ===== verification/Session_Sound.thy ===== *)
theory Session_Sound
  imports Auth_Runs
begin

text \<open>
  Sessions over the runs of the server: a token that is revoked is never accepted again, signing out everywhere ends all
  older sessions and grants as long as the account exists, renewals stay below the cap, one-time links are redeemed once;
  and what is not so: an account that is deleted and created again revives old sessions, and a read-only session can
  delete its account.
\<close>

section \<open>Logout\<close>

definition presented :: "'t http \<Rightarrow> 't option" where
  "presented rq = (if ht_bearer rq \<noteq> None then ht_bearer rq else ht_cookie rq)"

text \<open>A request does not come with another token of the same identifier.\<close>

fun same_token :: "'t crypto \<Rightarrow> string \<Rightarrow> int \<Rightarrow> 't auth_event \<Rightarrow> bool" where
  "same_token cx j e (Request ct rq req) =
     (case presented rq of
        None \<Rightarrow> True
      | Some t \<Rightarrow> (case cr_decode cx (ct_now ct) t of None \<Rightarrow> True | Some c \<Rightarrow> cl_jti c = j \<longrightarrow> cl_exp c = e))"
| "same_token cx j e (Start now) = True"

lemma caller_token:
  assumes "caller cx ct rq w = Inr c"
  obtains t c' where "presented rq = Some t" "cr_decode cx (ct_now ct) t = Some c'" "cl_jti c' = cl_jti c" "cl_exp c' = cl_exp c"
    "session_of (w_users w) c' = Inr c"
  using assms session_of_ok
  by (auto simp: caller_def get_current_user_def verify_access_token_def presented_def split: if_splits option.splits)

text \<open>The end of a revoked token is kept until it has passed.\<close>

definition stays_revoked :: "int \<Rightarrow> string \<Rightarrow> int \<Rightarrow> world \<Rightarrow> bool" where
  "stays_revoked now j e w \<longleftrightarrow> (now < e \<longrightarrow> dict_get (w_revoked w) j = Some e)"

lemma revoked_event:
  assumes "world_ok w" and "stays_revoked now j e w" and "now \<le> event_at ev" and "same_token cx j e ev"
  shows "stays_revoked (event_at ev) j e (run_event cx ev w)"
  unfolding stays_revoked_def
proof
  assume before: "event_at ev < e"
  then have get: "dict_get (w_revoked w) j = Some e" using assms(2,3) by (simp add: stays_revoked_def)
  note keep = revoked_stays [OF _ get before]
  have ok: "revoked_ok (w_revoked w)" using assms(1) by (simp add: world_ok_def)
  show "dict_get (w_revoked (run_event cx ev w)) j = Some e"
  proof (cases ev)
    case (Request ct rq req)
    have "cl_jti c \<noteq> j \<or> cl_exp c = e" if c: "caller cx ct rq w = Inr c" for c
    proof -
      obtain t c' where "presented rq = Some t" "cr_decode cx (ct_now ct) t = Some c'" "cl_jti c' = cl_jti c" "cl_exp c' = cl_exp c"
        by (rule caller_token [OF c])
      then show ?thesis using assms(4) Request by auto
    qed
    then show ?thesis using get keep(2) [OF ok] Request
      by (auto simp: serve_revoked split: request.split sum.split)
  next
    case (Start now')
    then show ?thesis using keep(1) [OF ok] by (simp add: start_process_def)
  qed
qed

lemma revoked_run:
  assumes "world_ok w" and "stays_revoked now j e w" and "sorted (now # map event_at es)" and "list_all (same_token cx j e) es"
  shows "stays_revoked (last (now # map event_at es)) j e (run cx es w)"
  using assms
proof (induction es arbitrary: now w)
  case (Cons ev es)
  have "stays_revoked (event_at ev) j e (run_event cx ev w)"
    by (rule revoked_event [OF Cons.prems(1,2)]) (use Cons.prems(3,4) in auto)
  from Cons.IH [OF run_event_ok [OF Cons.prems(1)] this] Cons.prems(3,4) show ?case by simp
qed simp

text \<open>
  C28: the token with which a logout was called is never accepted again: not by any later request, whatever happens in
  between, over starts of the process too, unless another token was signed with the same identifier.
\<close>

theorem logout_is_final:
  assumes "world_ok w" and "signs cx" and "presented rq = Some tok" and "caller cx ct rq w = Inr c"
    and "cl_jti c \<noteq> []" and "cl_exp c \<noteq> 0" and "presented rq' = Some tok"
    and "sorted (ct_now ct # map event_at es @ [ct_now ct'])" and "list_all (same_token cx (cl_jti c) (cl_exp c)) es"
  shows "isl (caller cx ct' rq' (run cx es (snd (serve cx ct rq Logout w))))"
proof -
  let ?w = "snd (serve cx ct rq Logout w)"
  from caller_token [OF assms(4)] assms(3) obtain c' where c': "cr_decode cx (ct_now ct) tok = Some c'" "cl_jti c' = cl_jti c" "cl_exp c' = cl_exp c"
    by (metis option.inject)
  then have tok: "tok = cr_encode cx c'" using assms(2) by (simp add: signs_def)
  have "stays_revoked (ct_now ct) (cl_jti c) (cl_exp c) ?w"
    using assms(4-6) by (simp add: stays_revoked_def logout_ep_def on_ok_def revoke_token_def)
  moreover have "world_ok ?w" using run_event_ok [OF assms(1), of cx "Request ct rq Logout"] by simp
  ultimately have later: "stays_revoked (last (ct_now ct # map event_at es)) (cl_jti c) (cl_exp c) (run cx es ?w)"
    using assms(8,9) by (intro revoked_run) (auto simp: sorted_append)
  have le: "last (ct_now ct # map event_at es) \<le> ct_now ct'" using assms(8) by (cases es rule: rev_cases) (auto simp: sorted_append)
  have "verify_access_token cx (ct_now ct') tok (w_revoked (run cx es ?w)) = None"
  proof (cases "ct_now ct' < cl_exp c")
    case True
    then have "dict_get (w_revoked (run cx es ?w)) (cl_jti c) = Some (cl_exp c)" using later le by (simp add: stays_revoked_def)
    then show ?thesis using True tok assms(2,5) c' by (simp add: verify_access_token_def signs_def is_revoked_def)
  next
    case False
    then show ?thesis using tok assms(2) c' by (simp add: verify_access_token_def signs_def)
  qed
  then show ?thesis using assms(7) by (auto simp: caller_def get_current_user_def presented_def split: option.splits)
qed

text \<open>Two requests with the revoked token, with another login and a start of the process in between.\<close>

definition ex_after_logout :: "claims auth_event list" where
  "ex_after_logout = [Request (ex_call 20) (ex_http ''bob'' False) Logout, Start 30,
     Request (ex_call 40) (ex_http ''ada'' False) Logout]"

theorem logout_is_final_witness:
  "isl (caller ex_crypto (ex_call 50) (ex_http ''ada'' False)
     (run ex_crypto ex_after_logout (snd (serve ex_crypto (ex_call 10) (ex_http ''ada'' False) Logout ex_world))))"
proof (rule logout_is_final [OF ex_world_ok ex_crypto_signs])
  show "presented (ex_http ''ada'' False) = Some (ex_claims ''ada'' False)" by code_simp
  then show "presented (ex_http ''ada'' False) = Some (ex_claims ''ada'' False)" .
  show "caller ex_crypto (ex_call 10) (ex_http ''ada'' False) ex_world = Inr ((ex_claims ''ada'' False)\<lparr>cl_role := ''super_admin''\<rparr>)"
    by code_simp
qed (code_simp+)

section \<open>Signing out everywhere\<close>

text \<open>The account is there over the whole run.\<close>

fun stays :: "'t crypto \<Rightarrow> string \<Rightarrow> 't auth_event list \<Rightarrow> world \<Rightarrow> bool" where
  "stays cx u [] w = dict_has (w_users w) u"
| "stays cx u (e # es) w = (dict_has (w_users w) u \<and> stays cx u es (run_event cx e w))"

lemma epoch_event:
  assumes "world_ok w" and "dict_get (w_users w) u = Some d" and "dict_get (w_users (run_event cx e w)) u = Some d'"
  shows "us_epoch d \<le> us_epoch d'"
proof (cases e)
  case (Request ct rq req)
  obtain a v where rest: "\<forall>x. x \<noteq> v \<longrightarrow> dict_get (w_users (snd (serve cx ct rq req w))) x = dict_get (w_users w) x"
    and p: "permitted cx ct w a v (dict_get (w_users w) v) (dict_get (w_users (snd (serve cx ct rq req w))) v)"
    using serve_one_change [of w cx ct rq req] assms(1) unfolding one_change_def world_ok_def by blast
  show ?thesis
  proof (cases "u = v")
    case True
    then have "permitted cx ct w a u (Some d) (Some d')" using p assms(2,3) Request by simp
    then show ?thesis by cases (auto simp: authority_def)
  next
    case False
    then show ?thesis using rest assms(2,3) Request by simp
  qed
next
  case (Start now)
  then show ?thesis using assms(2,3) by (simp add: start_process_def)
qed

lemma stays_has: "stays cx u es w \<Longrightarrow> dict_has (w_users w) u"
  by (cases es) simp_all

lemma epoch_run:
  assumes "world_ok w" and "stays cx u es w" and "s < session_epoch (w_users w) u"
  shows "s < session_epoch (w_users (run cx es w)) u"
  using assms
proof (induction es arbitrary: w)
  case (Cons e es)
  obtain d where d: "dict_get (w_users w) u = Some d" using Cons.prems(2) by (auto simp: dict_has_def)
  obtain d' where d': "dict_get (w_users (run_event cx e w)) u = Some d'"
    using stays_has [of cx u es "run_event cx e w"] Cons.prems(2) by (auto simp: dict_has_def)
  have "s < session_epoch (w_users (run_event cx e w)) u"
    using epoch_event [OF Cons.prems(1) d d'] Cons.prems(3) d d' by (simp add: session_epoch_def)
  then show ?case using Cons.IH [OF run_event_ok [OF Cons.prems(1), of cx e]] Cons.prems(2) by simp
qed simp

text \<open>
  C29: after signing out everywhere no session of the account and no grant of the bridge that was issued before is accepted
  again, as long as the account exists.
\<close>

theorem signed_out_everywhere:
  assumes "world_ok w" and "caller cx ct rq w = Inr c" and "stays cx (cl_sub c) es (snd (serve cx ct rq Logout_all w))"
    and "cl_sub old = cl_sub c" and "cl_sep old \<le> session_epoch (w_users w) (cl_sub c)"
    and "gr_user g = cl_sub c" and "gr_sep g \<le> session_epoch (w_users w) (cl_sub c)"
  shows "isl (session_of (w_users (run cx es (snd (serve cx ct rq Logout_all w)))) old)
    \<and> \<not> grant_alive (w_users (run cx es (snd (serve cx ct rq Logout_all w)))) g"
proof -
  let ?w = "snd (serve cx ct rq Logout_all w)"
  let ?u = "cl_sub c"
  have "dict_has (w_users w) ?u" using caller_token [OF assms(2)] session_of_ok by (metis dict_has_def option.distinct(1))
  then have "session_epoch (w_users ?w) ?u = session_epoch (w_users w) ?u + 1"
    using assms(2) by (auto simp: logout_all_def on_ok_def bump_session_epoch_def session_epoch_def update_user_get dict_has_def)
  moreover have "world_ok ?w" using run_event_ok [OF assms(1), of cx "Request ct rq Logout_all"] by simp
  ultimately have e: "session_epoch (w_users w) ?u < session_epoch (w_users (run cx es ?w)) ?u"
    by (intro epoch_run assms(3)) simp_all
  have "isl (session_of (w_users (run cx es ?w)) old)"
  proof (cases "session_of (w_users (run cx es ?w)) old")
    case (Inr x)
    then have "cl_sep old = session_epoch (w_users (run cx es ?w)) ?u"
      using session_of_ok assms(4) by (fastforce simp: session_epoch_def)
    then show ?thesis using e assms(5) by simp
  qed simp
  moreover have "\<not> grant_alive (w_users (run cx es ?w)) g" using e assms(6,7) by (simp add: grant_alive_def)
  ultimately show ?thesis by blast
qed

theorem signed_out_everywhere_witness:
  "isl (session_of (w_users (run ex_crypto [Request (ex_call 20) (ex_http ''ada'' False) (Set_disabled ''tom'' True)]
     (snd (serve ex_crypto (ex_call 10) (ex_http ''ada'' False) Logout_all ex_world)))) (ex_claims ''ada'' False))"
proof -
  have "caller ex_crypto (ex_call 10) (ex_http ''ada'' False) ex_world = Inr ((ex_claims ''ada'' False)\<lparr>cl_role := ''super_admin''\<rparr>)"
    "stays ex_crypto (cl_sub ((ex_claims ''ada'' False)\<lparr>cl_role := ''super_admin''\<rparr>))
      [Request (ex_call 20) (ex_http ''ada'' False) (Set_disabled ''tom'' True)]
      (snd (serve ex_crypto (ex_call 10) (ex_http ''ada'' False) Logout_all ex_world))"
    "cl_sep (ex_claims ''ada'' False) \<le> session_epoch (w_users ex_world) (cl_sub ((ex_claims ''ada'' False)\<lparr>cl_role := ''super_admin''\<rparr>))"
    by code_simp+
  from signed_out_everywhere [OF ex_world_ok this(1,2), of "ex_claims ''ada'' False"
      "\<lparr>gr_user = ''ada'', gr_hash = [], gr_label = [], gr_read_only = True, gr_bp_draft = False, gr_sep = 0, gr_created = 0, gr_last_used = None\<rparr>"]
    this(3) show ?thesis by (simp add: ex_claims_def)
qed

section \<open>An account that is created again\<close>

text \<open>
  C30: deleting an account kills its sessions and grants only until an account of the same name is created: the new one
  starts at epoch 0 again, so every unexpired session and every grant that the old account got before it first signed out
  everywhere is accepted for it, with the role of the new account.
\<close>

theorem recreated_account_revives:
  assumes "cl_sub c = u" and "u \<noteq> []" and "cl_sep c = 0" and "gr_user g = u" and "gr_sep g = 0" and "role \<in> set valid_roles"
  shows "\<not> grant_alive (snd (delete_user u us)) g
    \<and> grant_alive (snd (create_user hashpw u password role groups mc email False (snd (delete_user u us)))) g
    \<and> session_of (snd (create_user hashpw u password role groups mc email False (snd (delete_user u us)))) c
        = Inr (c\<lparr>cl_role := if cl_ro c then ''viewer'' else role\<rparr>)"
proof -
  have "\<not> dict_has (snd (delete_user u us)) u" by (simp add: dict_has_def delete_user_get)
  then have "dict_get (snd (create_user hashpw u password role groups mc email False (snd (delete_user u us)))) u
    = Some \<lparr>us_hash = hashpw password, us_role = Some role, us_groups = groups, us_email = py_strip email, us_tabs = [], us_disabled = False,
        us_must_change = mc, us_pending = False, us_awaiting = False, us_last_login = [], us_epoch = 0\<rparr>"
    using assms(6) by (simp add: create_user_get)
  then show ?thesis using assms(1-5)
    by (simp add: grant_alive_def get_role_def is_disabled_def is_pending_def user_flag_def session_epoch_def session_of_def
        role_of_def delete_user_get)
qed

theorem recreated_account_revives_witness:
  "grant_alive (snd (create_user id ''tom'' ''password'' ''admin'' [] False [] False (snd (delete_user ''tom'' (w_users ex_world)))))
     \<lparr>gr_user = ''tom'', gr_hash = [], gr_label = [], gr_read_only = False, gr_bp_draft = False, gr_sep = 0, gr_created = 0, gr_last_used = None\<rparr>"
proof -
  have "cl_sub (ex_claims ''tom'' False) = ''tom''" "cl_sep (ex_claims ''tom'' False) = 0" "''admin'' \<in> set valid_roles" by code_simp+
  from recreated_account_revives [OF this(1) _ this(2) _ _ this(3), where us = "w_users ex_world" and hashpw = id
      and password = "''password''" and groups = "[]" and mc = False and email = "[]" and
      g = "\<lparr>gr_user = ''tom'', gr_hash = [], gr_label = [], gr_read_only = False, gr_bp_draft = False, gr_sep = 0, gr_created = 0, gr_last_used = None\<rparr>"]
  show ?thesis by simp
qed

section \<open>A read-only session\<close>

text \<open>
  A session of the bridge that was authorised for reading only can delete the account that authorised it, unless that
  is the last super administrator: the handler asks for no role on the caller's own account.
\<close>

theorem read_only_session_deletes_account:
  assumes "tab_caller ''tab-users'' cx ct rq w = Inr c" and "cl_ro c"
    and "\<not> is_last_active_super_admin (w_users w) (cl_sub c)"
  shows "fst (serve cx ct rq (Delete_user (cl_sub c)) w) = Inr Done
    \<and> dict_get (w_users (snd (serve cx ct rq (Delete_user (cl_sub c)) w))) (cl_sub c) = None"
proof -
  have c: "caller cx ct rq w = Inr c" using guard_caller(1) [OF assms(1)] by simp
  have has: "dict_has (w_users w) (cl_sub c)" using caller_token [OF c] session_of_ok by (metis dict_has_def option.distinct(1))
  have vis: "user_visible_to (w_users w) c (cl_sub c)" by (simp add: user_visible_to_def split: option.split)
  have "assert_can_manage (w_users w) c (cl_sub c) None True = Inr ()"
    using has vis by (auto simp: assert_can_manage_def get_role_def dict_has_def)
  then show ?thesis using assms(1,3) has
    by (simp add: delete_user_ep_def on_ok_def stored_def) (simp add: delete_user_def delete_conv')
qed

theorem read_only_session_deletes_account_witness:
  "dict_get (w_users (snd (serve ex_crypto (ex_call 10) (ex_http ''ada'' True) (Delete_user ''ada'') ex_world))) ''ada'' = None"
proof -
  have "tab_caller ''tab-users'' ex_crypto (ex_call 10) (ex_http ''ada'' True) ex_world = Inr (ex_claims ''ada'' True)"
    "cl_ro (ex_claims ''ada'' True)" "\<not> is_last_active_super_admin (w_users ex_world) (cl_sub (ex_claims ''ada'' True))"
    by code_simp+
  from read_only_session_deletes_account [OF this] show ?thesis by (simp add: ex_claims_def)
qed

section \<open>Renewal\<close>

text \<open>
  A renewed session belongs to the same account, epoch and role as the one it renews, keeps the time of its sign-in, is
  never made from a read-only one, and ends neither after the idle time nor after the maximal hours from the sign-in.
\<close>

theorem renewal_within_cap:
  assumes "renew_session_cookie cx ct rq w = Some tok"
  shows "\<exists>c c'. caller cx ct (rq\<lparr>ht_bearer := None\<rparr>) w = Inr c \<and> tok = cr_encode cx c' \<and> \<not> cl_ro c
    \<and> cl_sub c' = cl_sub c \<and> cl_sep c' = cl_sep c \<and> cl_role c' = cl_role c
    \<and> cl_exp c' \<le> ct_now ct + fst (session_settings (w_session w)) * 60
    \<and> (cl_auth_time c = 0 \<or> cl_auth_time c' = cl_auth_time c
         \<and> cl_exp c' \<le> cl_auth_time c + snd (session_settings (w_session w)) * 3600)"
proof -
  define cfg where "cfg = session_settings (w_session w)"
  obtain c where c: "caller cx ct (rq\<lparr>ht_bearer := None\<rparr>) w = Inr c" "\<not> cl_ro c"
    using assms by (auto simp: renew_session_cookie_def split: if_splits sum.splits)
  define auth where "auth = (if cl_auth_time c \<noteq> 0 then cl_auth_time c else cl_exp c - fst cfg * 60)"
  define life where "life = min (fst cfg * 60) (auth + snd cfg * 3600 - ct_now ct)"
  let ?c' = "new_claims (ct_now ct) cfg (ct_random ct ''jti'') (Some life) (session_claims (cl_sub c) (cl_role c) (cl_sep c) auth)"
  have "tok = cr_encode cx ?c'"
    using assms c by (simp add: renew_session_cookie_def create_access_token_def cfg_def auth_def life_def Let_def split: if_splits)
  moreover have "cl_sub ?c' = cl_sub c" "cl_sep ?c' = cl_sep c" "cl_role ?c' = cl_role c" "cl_exp ?c' = ct_now ct + life"
    "cl_auth_time c \<noteq> 0 \<Longrightarrow> cl_auth_time ?c' = cl_auth_time c"
    by (simp_all add: new_claims_def session_claims_def auth_def)
  moreover have "life \<le> fst cfg * 60" "cl_auth_time c \<noteq> 0 \<Longrightarrow> ct_now ct + life \<le> cl_auth_time c + snd cfg * 3600"
    by (simp_all add: life_def auth_def)
  ultimately show ?thesis using c unfolding cfg_def [symmetric] by (intro exI [of _ c] exI [of _ ?c']) auto
qed

definition ex_browser :: "claims http" where
  "ex_browser = \<lparr>ht_bearer = None, ht_cookie = Some ((ex_claims ''ada'' False)\<lparr>cl_auth_time := 5\<rparr>), ht_method = ''GET'', ht_csrf = [],
     ht_active = True, ht_client = ''192.0.2.9''\<rparr>"

theorem renewal_within_cap_witness:
  "\<exists>c'. renew_session_cookie ex_crypto (ex_call 3000) ex_browser ex_world = Some (cr_encode ex_crypto c') \<and> cl_sub c' = ''ada''"
proof -
  have "renew_session_cookie ex_crypto (ex_call 3000) ex_browser ex_world
      = Some ((ex_claims ''ada'' False)\<lparr>cl_exp := 6600, cl_jti := ''jti'', cl_auth_time := 5, cl_role := ''super_admin''\<rparr>)"
    "caller ex_crypto (ex_call 3000) (ex_browser\<lparr>ht_bearer := None\<rparr>) ex_world = Inr ((ex_claims ''ada'' False)\<lparr>cl_auth_time := 5, cl_role := ''super_admin''\<rparr>)"
    by code_simp+
  with renewal_within_cap [OF this(1)] show ?thesis by (auto simp: ex_claims_def)
qed

section \<open>One-time links\<close>

text \<open>
  C34: a link that resets a password, issued at an instant for an account, is redeemed by its first use before its life ends,
  for this account, and by no other use, whatever other links are issued and used in between. The other one-time secrets
  keep the same interface.
\<close>

theorem reset_link_redeemed_once:
  assumes "os_ok s" and "sorted (t0 # map event_time es)" and "\<not> list_ex (purging_shots.issues dg t) es"
  shows "purging_shots.redeemed dg t es (reset_issue dg t0 t u life s)
    = (case find (\<lambda>e. \<exists>now v. e = Consumed now v \<and> dg v = dg t) es of
         None \<Rightarrow> [] | Some e \<Rightarrow> if event_time e < t0 + life then [(event_time e, u)] else [])"
  unfolding reset_issue_def by (rule purging_shots.redeemed_after_issue [OF assms])

theorem reset_link_redeemed_once_witness:
  "purging_shots.redeemed id ''tok'' [Issued 15 900 ''other'' ''bob'', Consumed 20 ''tok'', Consumed 30 ''tok'']
     (reset_issue id 10 ''tok'' ''ada'' reset_ttl []) = [(20, ''ada'')]"
proof -
  have "os_ok ([] :: string shots)" "reset_ttl = 900" by code_simp+
  then show ?thesis
    using reset_link_redeemed_once [of "[]" 10 "[Issued 15 900 ''other'' ''bob'', Consumed 20 ''tok'', Consumed 30 ''tok'']" id "''tok''"
        "''ada''" reset_ttl] by simp
qed

end
