(* ===== verification/Audit_Chain_Sound.thy ===== *)
theory Audit_Chain_Sound
  imports Audit_Chain
begin

text \<open>What the tags of the audit log prove, and what they do not: over the steps of a process and for any two logs.\<close>

section \<open>The tagged lines of a log\<close>

definition tagged_line :: "string \<Rightarrow> (string \<times> string) option" where
  "tagged_line l = (if l = [] then None else case split_chain_tag l of (b, None) \<Rightarrow> None | (b, Some t) \<Rightarrow> Some (b, t))"

definition tagged :: "string list \<Rightarrow> (string \<times> string) list" where
  "tagged = List.map_filter tagged_line"

fun chained :: "(string \<Rightarrow> string) \<Rightarrow> string \<Rightarrow> (string \<times> string) list \<Rightarrow> bool" where
  "chained mac prev [] = True"
| "chained mac prev ((b, t) # xs) = (t = chain_tag_of mac prev b \<and> chained mac t xs)"

definition last_tag :: "string \<Rightarrow> (string \<times> string) list \<Rightarrow> string" where
  "last_tag prev xs = (if xs = [] then prev else snd (last xs))"

text \<open>The texts that the digest is taken of.\<close>

fun chain_texts :: "string \<Rightarrow> (string \<times> string) list \<Rightarrow> string list" where
  "chain_texts prev [] = []"
| "chain_texts prev ((b, t) # xs) = (prev @ [CHR 0x0A] @ b) # chain_texts t xs"

lemma tagged_simps [simp]:
  "tagged [] = []"
  "tagged (xs @ ys) = tagged xs @ tagged ys"
  "tagged_line l = Some p \<Longrightarrow> tagged (l # ls) = p # tagged ls"
  "tagged_line l = None \<Longrightarrow> tagged (l # ls) = tagged ls"
  by (simp_all add: tagged_def map_filter_simps map_filter_def)

lemma verify_from_tagged: "verify_from mac prev n f = None \<longleftrightarrow> chained mac prev (tagged f)"
proof (induction mac prev n f rule: verify_from.induct)
  case (2 mac prev n line ls)
  then show ?case by (cases "tagged_line line") (auto simp: tagged_line_def split: if_splits prod.splits option.splits)
qed simp

lemma verify_iff_chained: "verify_audit_chain mac (Some f) = None \<longleftrightarrow> chained mac chain_seed (tagged f)"
  by (simp add: verify_audit_chain_def verify_from_tagged)

lemma last_chain_tag_tagged: "last_chain_tag f = last_tag chain_seed (tagged f)"
proof -
  have "List.map_filter (\<lambda>l. if l = [] then None else snd (split_chain_tag l)) f = map snd (tagged f)"
    by (induction f) (auto simp: tagged_def map_filter_simps tagged_line_def split: prod.splits option.splits)
  then show ?thesis by (auto simp: last_chain_tag_def last_tag_def Let_def last_map)
qed

lemma tagged_tag_ok: "(b, t) \<in> set (tagged f) \<Longrightarrow> tag_ok t"
  by (induction f)
    (auto simp: tagged_def map_filter_simps tagged_line_def split_chain_tag_def Let_def split: if_splits prod.splits option.splits)

lemma chained_snoc: "chained mac prev (xs @ [(b, t)]) \<longleftrightarrow> chained mac prev xs \<and> t = chain_tag_of mac (last_tag prev xs) b"
  by (induction mac prev xs rule: chained.induct) (auto simp: last_tag_def)

lemma chain_texts_snoc: "chain_texts prev (xs @ [(b, t)]) = chain_texts prev xs @ [last_tag prev xs @ [CHR 0x0A] @ b]"
  by (induction prev xs rule: chain_texts.induct) (auto simp: last_tag_def)

section \<open>A verified log is determined by its last tag\<close>

lemma break_no_hex: "\<not> tag_hex (CHR 0x0A)" by code_simp

lemma no_break_tag: "tag_ok t \<Longrightarrow> CHR 0x0A \<notin> set t"
  unfolding tag_ok_def list_all_iff using break_no_hex by metis

lemma no_break_seed: "CHR 0x0A \<notin> set chain_seed" by code_simp

lemma seed_no_tag: "\<not> tag_ok chain_seed" by code_simp

lemma append_at_break:
  assumes "p @ c # x = q @ c # y" and "c \<notin> set p" and "c \<notin> set q" shows "p = q \<and> x = y"
  using assms by (induction p arbitrary: q) (force simp: Cons_eq_append_conv)+

lemma chains_equal:
  assumes "chained mac chain_seed xs" and "chained mac chain_seed ys" and "last_tag chain_seed xs = last_tag chain_seed ys"
    and "inj_on mac (set (chain_texts chain_seed xs) \<union> set (chain_texts chain_seed ys))"
    and "\<forall>(b, t) \<in> set xs \<union> set ys. tag_ok t"
  shows "xs = ys"
  using assms
proof (induction xs arbitrary: ys rule: rev_induct)
  case Nil
  then show ?case using seed_no_tag by (cases ys rule: rev_cases) (auto simp: last_tag_def)
next
  case (snoc p xs)
  obtain b t where p: "p = (b, t)" by force
  have ne: "ys \<noteq> []" using snoc.prems(3,5) seed_no_tag p by (auto simp: last_tag_def)
  then obtain zs c u where ys: "ys = zs @ [(c, u)]" by (metis rev_exhaust surj_pair)
  have tu: "t = u" using snoc.prems(3) p ys by (simp add: last_tag_def)
  have t: "t = chain_tag_of mac (last_tag chain_seed xs) b" "chained mac chain_seed xs"
    using snoc.prems(1) p by (auto simp: chained_snoc)
  have u: "u = chain_tag_of mac (last_tag chain_seed zs) c" "chained mac chain_seed zs"
    using snoc.prems(2) ys by (auto simp: chained_snoc)
  have "mac (last_tag chain_seed xs @ [CHR 0x0A] @ b) = mac (last_tag chain_seed zs @ [CHR 0x0A] @ c)"
    using t(1) u(1) tu by (simp add: chain_tag_of_def)
  then have "last_tag chain_seed xs @ [CHR 0x0A] @ b = last_tag chain_seed zs @ [CHR 0x0A] @ c"
    by (rule inj_onD [OF snoc.prems(4)]) (simp_all add: p ys chain_texts_snoc)
  then have join: "last_tag chain_seed xs @ CHR 0x0A # b = last_tag chain_seed zs @ CHR 0x0A # c" by simp
  have nb: "CHR 0x0A \<notin> set (last_tag chain_seed ws)" if "\<forall>(b, t) \<in> set ws. tag_ok t" for ws
    using that no_break_seed no_break_tag by (cases ws rule: rev_cases) (auto simp: last_tag_def)
  have "CHR 0x0A \<notin> set (last_tag chain_seed xs)" by (rule nb) (use snoc.prems(5) in auto)
  moreover have "CHR 0x0A \<notin> set (last_tag chain_seed zs)" by (rule nb) (use snoc.prems(5) ys in auto)
  ultimately have eq: "last_tag chain_seed xs = last_tag chain_seed zs" "b = c"
    using append_at_break [OF join] by auto
  have "xs = zs"
    by (rule snoc.IH [OF t(2) u(2) eq(1)])
      (use snoc.prems(4,5) p ys in \<open>auto simp: chain_texts_snoc intro: inj_on_subset\<close>)
  then show ?case using p ys tu eq by simp
qed

text \<open>
  C32: two logs that \<open>verify_audit_chain\<close> accepts and that end with the same tag have the same tagged lines, unless the keyed
  digest collides on what they contain: changing, removing, inserting or moving a tagged line needs another last tag.
\<close>

theorem last_tag_commits:
  assumes "verify_audit_chain mac (Some f) = None" and "verify_audit_chain mac (Some g) = None"
    and "last_chain_tag f = last_chain_tag g"
    and "inj_on mac (set (chain_texts chain_seed (tagged f)) \<union> set (chain_texts chain_seed (tagged g)))"
  shows "tagged f = tagged g"
  by (rule chains_equal [OF _ _ _ assms(4)])
    (use assms(1-3) tagged_tag_ok in \<open>auto simp: verify_iff_chained last_chain_tag_tagged\<close>)

section \<open>What is written verifies\<close>

fun quiet :: "(string \<Rightarrow> string) \<Rightarrow> nat \<Rightarrow> audit_step list \<Rightarrow> audit_log \<Rightarrow> bool" where
  "quiet mac m [] st = True"
| "quiet mac m (Emit b # xs) st = (\<not> should_rollover m (snd (format_line mac b st)) st \<and> quiet mac m xs (audit_emit mac m b st))"
| "quiet mac m (Restarted # xs) st = quiet mac m xs (audit_run1 mac m Restarted st)"

definition audit_run :: "(string \<Rightarrow> string) \<Rightarrow> nat \<Rightarrow> audit_step list \<Rightarrow> audit_log \<Rightarrow> audit_log" where
  "audit_run mac m = fold (audit_run1 mac m)"

definition emitted :: "audit_step list \<Rightarrow> string list" where
  "emitted = List.map_filter (\<lambda>x. case x of Emit b \<Rightarrow> Some b | Restarted \<Rightarrow> None)"

definition no_log :: audit_log where "no_log = \<lparr>al_file = [], al_old = [], al_prev = None\<rparr>"

lemma should_rollover_prev [simp]: "should_rollover m l (st\<lparr>al_prev := p\<rparr>) = should_rollover m l st"
  by (simp add: should_rollover_def)

lemma tagged_chained_line [simp]: "tag_ok t \<Longrightarrow> tagged_line (chained_line b t) = Some (b, t)"
  by (simp add: tagged_line_def split_chained_line) (simp add: chained_line_def chain_mark_def)

lemma tagged_chained [simp]: "tag_ok t \<Longrightarrow> tagged (chained_line b t # ls) = (b, t) # tagged ls"
  by (rule tagged_simps(3)) simp

lemma emit_quiet:
  assumes "\<not> should_rollover m (snd (format_line mac b st)) st"
  shows "audit_emit mac m b st = st\<lparr>al_file := al_file st @ [chained_line b (chain_tag_of mac (chain_prev st) b)],
    al_prev := Some (chain_tag_of mac (chain_prev st) b)\<rparr>"
  using assms by (simp add: audit_emit_def format_line_def Let_def)

text \<open>A digest to evaluate with: it only reads the length of the text.\<close>

definition ex_mac :: "string \<Rightarrow> string" where
  "ex_mac s = replicate 63 (CHR ''0'') @ [char_of (48 + length s mod 10)]"

lemma ex_mac_ok: "tag_ok (ex_mac s)"
proof -
  have "list_all (\<lambda>n. tag_hex (char_of (48 + n))) [0..<10]" by code_simp
  then have "tag_hex (char_of (48 + length s mod 10))" by (simp add: list_all_iff)
  moreover have "tag_hex (CHR ''0'')" by code_simp
  ultimately show ?thesis by (simp add: tag_ok_def ex_mac_def list_all_iff)
qed

definition ex_line :: string where "ex_line = chained_line ''login admin'' (chain_tag_of ex_mac chain_seed ''login admin'')"

lemma ex_tag_ok: "tag_ok (chain_tag_of ex_mac p b)" by (simp add: chain_tag_of_def ex_mac_ok)

lemma ex_tagged:
  "tagged [ex_line] = [(''login admin'', chain_tag_of ex_mac chain_seed ''login admin'')]"
  "tagged [ex_line, ''no tag here''] = [(''login admin'', chain_tag_of ex_mac chain_seed ''login admin'')]"
proof -
  have "tagged_line ''no tag here'' = None" by code_simp
  then show "tagged [ex_line] = [(''login admin'', chain_tag_of ex_mac chain_seed ''login admin'')]"
    "tagged [ex_line, ''no tag here''] = [(''login admin'', chain_tag_of ex_mac chain_seed ''login admin'')]"
    by (simp_all add: ex_line_def ex_tag_ok)
qed

theorem last_tag_commits_witness: "tagged [ex_line] = tagged [ex_line, ''no tag here'']"
  by (rule last_tag_commits [of ex_mac]) (simp_all add: verify_iff_chained last_chain_tag_tagged ex_tagged last_tag_def)

text \<open>While no rotation happens the lines of the steps are added to the log with the tags of one chain.\<close>

lemma quiet_run:
  assumes "\<And>s. tag_ok (mac s)" and "quiet mac m xs st" and "chain_prev st = last_chain_tag (al_file st)"
  shows "\<exists>zs. tagged (al_file (audit_run mac m xs st)) = tagged (al_file st) @ zs \<and> map fst zs = emitted xs
    \<and> chained mac (last_chain_tag (al_file st)) zs"
  using assms(2,3)
proof (induction xs arbitrary: st)
  case Nil
  then show ?case by (auto simp: audit_run_def emitted_def map_filter_simps)
next
  case (Cons x xs)
  show ?case
  proof (cases x)
    case (Emit b)
    let ?t = "chain_tag_of mac (chain_prev st) b"
    let ?st = "audit_emit mac m b st"
    have ok: "tag_ok ?t" by (simp add: chain_tag_of_def assms(1))
    have st: "?st = st\<lparr>al_file := al_file st @ [chained_line b ?t], al_prev := Some ?t\<rparr>"
      using Cons.prems(1) Emit by (intro emit_quiet) simp
    have tg: "tagged (al_file ?st) = tagged (al_file st) @ [(b, ?t)]" using ok by (simp add: st)
    then have last: "last_chain_tag (al_file ?st) = ?t" by (simp add: last_chain_tag_tagged last_tag_def)
    have "chain_prev ?st = last_chain_tag (al_file ?st)" unfolding last by (simp add: st chain_prev_def)
    from Cons.IH [OF _ this] Cons.prems(1) Emit obtain zs where
      "tagged (al_file (audit_run mac m xs ?st)) = tagged (al_file ?st) @ zs" "map fst zs = emitted xs" "chained mac ?t zs"
      unfolding last by auto
    then show ?thesis
      using Emit tg Cons.prems(2) by (intro exI [of _ "(b, ?t) # zs"]) (simp add: audit_run_def emitted_def map_filter_simps)
  next
    case Restarted
    let ?st = "audit_run1 mac m Restarted st"
    have "chain_prev ?st = last_chain_tag (al_file ?st)" by (simp add: chain_prev_def)
    from Cons.IH [OF _ this] Cons.prems(1) Restarted show ?thesis by (simp add: audit_run_def emitted_def map_filter_simps)
  qed
qed

text \<open>
  A log that a process writes from an empty file verifies, over any number of restarts and as long as it is not
  rotated, and its tagged lines are the records in their order.
\<close>

theorem written_log_verifies:
  assumes "\<And>s. tag_ok (mac s)" and "quiet mac m steps no_log"
  shows "verify_audit_chain mac (Some (al_file (audit_run mac m steps no_log))) = None
    \<and> map fst (tagged (al_file (audit_run mac m steps no_log))) = emitted steps"
proof -
  have "chain_prev no_log = last_chain_tag (al_file no_log)" by (simp add: chain_prev_def no_log_def)
  from quiet_run [OF assms this] show ?thesis
    by (auto simp: verify_iff_chained last_chain_tag_tagged last_tag_def no_log_def)
qed

theorem written_log_verifies_witness:
  "verify_audit_chain ex_mac (Some (al_file (audit_run ex_mac 1000 [Emit ''a'', Restarted, Emit ''b''] no_log))) = None
    \<and> map fst (tagged (al_file (audit_run ex_mac 1000 [Emit ''a'', Restarted, Emit ''b''] no_log)))
      = emitted [Emit ''a'', Restarted, Emit ''b'']"
proof (rule written_log_verifies [OF ex_mac_ok])
  show "quiet ex_mac 1000 [Emit ''a'', Restarted, Emit ''b''] no_log"
    by (simp add: emit_quiet should_rollover_def format_line_def file_size_def no_log_def Let_def chained_line_def
        chain_tag_of_def ex_mac_def chain_mark_def)
qed

section \<open>What is not proved\<close>

lemma emit_rotates:
  assumes "should_rollover m (snd (format_line mac b st)) st"
  shows "audit_emit mac m b st = \<lparr>al_file = [chained_line b (chain_tag_of mac (chain_prev st) b)],
    al_old = take backup_count (al_file st # al_old st), al_prev = None\<rparr>"
  using assms by (simp add: audit_emit_def format_line_def do_rollover_def Let_def)

text \<open>
  C33: the record that makes the log rotate is written into the new file with a tag over the last tag of the old file,
  because the handler formats it before it rotates. The new file, which is meant to be verifiable alone, is reported as
  tampered with at line 1, whatever is written next.
\<close>

theorem rotated_log_flagged:
  assumes "\<And>s. tag_ok (mac s)" and "should_rollover m (snd (format_line mac b st)) st"
    and "chain_tag_of mac (chain_prev st) b \<noteq> chain_tag_of mac chain_seed b"
    and "quiet mac m steps (audit_emit mac m b st)"
  shows "verify_audit_chain mac (Some (al_file (audit_run mac m steps (audit_emit mac m b st)))) = Some 1"
proof -
  let ?l = "chained_line b (chain_tag_of mac (chain_prev st) b)"
  have grows: "\<exists>ls. al_file (audit_run mac m xs s) = al_file s @ ls" if "quiet mac m xs s" for xs s
    using that
  proof (induction xs arbitrary: s)
    case (Cons x xs)
    then show ?case by (cases x) (fastforce simp: audit_run_def emit_quiet)+
  qed (simp add: audit_run_def)
  from grows [OF assms(4)] obtain ls where "al_file (audit_run mac m steps (audit_emit mac m b st)) = ?l # ls"
    by (auto simp: emit_rotates [OF assms(2)])
  moreover have "split_chain_tag ?l = (b, Some (chain_tag_of mac (chain_prev st) b))"
    by (rule split_chained_line) (simp add: chain_tag_of_def assms(1))
  moreover have "?l \<noteq> []" by (simp add: chained_line_def chain_mark_def)
  ultimately show ?thesis using assms(3) by (simp add: verify_audit_chain_def)
qed

definition ex_full_log :: audit_log where
  "ex_full_log = \<lparr>al_file = [ex_line], al_old = [], al_prev = Some (chain_tag_of ex_mac chain_seed ''login admin'')\<rparr>"

theorem rotated_log_flagged_witness:
  "verify_audit_chain ex_mac (Some (al_file (audit_run ex_mac 150 [Restarted] (audit_emit ex_mac 150 ''logout'' ex_full_log)))) = Some 1"
proof (rule rotated_log_flagged [OF ex_mac_ok])
  show "should_rollover 150 (snd (format_line ex_mac ''logout'' ex_full_log)) ex_full_log" by code_simp
  show "chain_tag_of ex_mac (chain_prev ex_full_log) ''logout'' \<noteq> chain_tag_of ex_mac chain_seed ''logout''" by code_simp
qed simp

text \<open>A line without a tag is skipped wherever it stands, so lines can be added to a log, or its last tags taken off.\<close>

lemma untagged_line_unnoticed:
  assumes "tagged_line l = None"
  shows "verify_audit_chain mac (Some (xs @ l # ys)) = None \<longleftrightarrow> verify_audit_chain mac (Some (xs @ ys)) = None"
  using assms by (simp add: verify_iff_chained)

end
