(* ===== verification/Spec2Isabelle.thy ===== *)
theory Spec2Isabelle
  imports Findings Ios_Config Ace_Roundtrip Forti_Sound Corr_Checks_Sound Sflow Normalize_Sound Flow_Ingest_Sound Blueprint_History Blueprint_Checks_Sound
    Route_Table_Sound Path_Trace_Sound Session_Sound Audit_Chain_Sound
begin

text \<open>
  SentinelNet is a network operations server. This library models these of its parts, from the Python source: the offline
  policy test (\<open>services/policy_test/\<close>), which answers from a stored configuration whether a packet would pass a Cisco
  IOS or a FortiGate device and which rules are dead; the observability of the network (\<open>observability/\<close>), from
  the datagrams of flow exporters to stored events, evidence and incidents; the blueprint of locations and links with its
  drafts and revisions (\<open>services/blueprint*.py\<close>); routing tables and the path over them
  (\<open>services/route_table.py\<close>, \<open>services/path_trace.py\<close>); accounts, sessions and the audit log (\<open>security/\<close>,
  \<open>routers/deps.py\<close>, \<open>routers/auth.py\<close>, \<open>routers/mcp.py\<close>).

  How the parts interact. \<open>ios.py\<close> and \<open>fortios.py\<close> turn a configuration text into an environment of rules, routes and
  interfaces; \<open>engine.py\<close> walks a packet through one; \<open>findings.py\<close> compares the rules with each other and builds an
  evidence packet for a shadowed rule; \<open>examples.py\<close> builds packets for every rule. All of them share the value domains
  of \<open>model.py\<close>. In the observability, \<open>ipfix.py\<close> and \<open>sflow.py\<close> decode datagrams, \<open>udp_server.py\<close> attributes the
  records to tenants and queues writes, \<open>db.py\<close> runs them, \<open>normalize.py\<close> projects the stored rows to events;
  \<open>correlator.py\<close> reads recent events, runs the catalogue of \<open>rules.py\<close>, drops what \<open>suppression.py\<close> declares expected
  and stores evidence; \<open>incidents.py\<close> groups the evidence and deduces a cause; the periodic task runs the operations in
  turn. In the blueprint a draft is a list of operations on the locations and links of one organization;
  \<open>blueprint_model.py\<close> applies them to a copy, \<open>blueprint.py\<close> applies a draft to the stores when nobody changed them
  since, and records a revision; \<open>blueprint_checks.py\<close> reads the model and the device tables and proposes operations.
  \<open>path_trace.py\<close> follows a destination over the rows that \<open>route_table.py\<close> read from the devices. A request comes with
  a token that \<open>security_manager.py\<close> signed; \<open>deps.py\<close> decides from the account in \<open>user_manager.py\<close> who calls and what it
  may see and change; the handlers of \<open>auth.py\<close> and \<open>mcp.py\<close> change accounts, one-time links, grants and revoked tokens.

  Theories and the code they model.
  \<^item> \<open>SN_Prelude\<close>: results with Python's exceptions, dictionaries in insertion order, the string
    methods used by the parsers.
  \<^item> \<open>Ip_Cubes\<close>, \<open>Port_Sets\<close>, \<open>Match_Model\<close>, \<open>Rules_Routes\<close> (\<open>model.py\<close>): addresses as 32-bit words,
    value/mask cubes, port intervals, packets and packet domains, rules, the route table, traces.
    \<open>Domains\<close> states what an abstract domain promises (\<open>matching_domain\<close>, \<open>exact_domain\<close>) and is interpreted
    on cubes, ports, numbers and names, so that inclusion and overlap of rules are proved once.
  \<^item> \<open>Environments\<close>: the results of the two parsers. \<open>Worklist\<close>: the queue that both parsers use to
    resolve groups, with its termination and the set it reaches.
  \<^item> \<open>Engine\<close> (\<open>engine.py\<close>) and \<open>Engine_Sound\<close>: the first-match walk with undecidable rules, the IOS chain
    (inbound list, route, outbound list) and the FortiOS chain (route, policies), and their
    refinement of an abstract chain over all devices that realise the rules.
  \<^item> \<open>Ios_Acl\<close>, \<open>Ios_Config\<close>, \<open>Ace_Roundtrip\<close> (\<open>ios.py\<close>): access list lines, object groups, blocks,
    interfaces, static routes; printing and reading back an extended entry.
  \<^item> \<open>Forti_Tree\<close> (\<open>fw_analyzers/fortios.py\<close>), \<open>Forti_Config\<close> (\<open>builtins.py\<close>, \<open>fortios.py\<close>), \<open>Forti_Sound\<close>: block
    tree, factory objects, addresses, services, groups, interfaces, routes, policies.
  \<^item> \<open>Findings\<close> (\<open>findings.py\<close>) and \<open>Examples\<close> (\<open>examples.py\<close>): static defects with their evidence packets,
    and example traffic.
  \<^item> \<open>Corr_Rules\<close> and \<open>Corr_Checks\<close> (\<open>rules.py\<close>), \<open>Suppression\<close> (\<open>suppression.py\<close>), \<open>Obs_Store\<close> (the tables of
    \<open>storage/schema.sql\<close>), \<open>Correlator\<close> (\<open>correlator.py\<close>), \<open>Incidents\<close> (\<open>incidents.py\<close>); \<open>Correlator_Sound\<close>,
    \<open>Incidents_Sound\<close>, \<open>Obs_Pipeline\<close> and \<open>Corr_Checks_Sound\<close> hold what they guarantee, over the states that correlation,
    grouping and closing reach.

  \<^item> \<open>Wire\<close> (fields of a datagram), \<open>Obs_Metrics\<close> (\<open>metrics.py\<close>), \<open>Netflow\<close> (\<open>ipfix.py\<close>: NetFlow v5, v9, IPFIX, the templates
    and the data sets that wait for one), \<open>Sflow\<close> (\<open>sflow.py\<close>), \<open>Flow_Ingest\<close> (\<open>udp_server.py\<close>, \<open>db.py\<close>: attribution to
    devices and tenants, the write queue, the upsert of aggregates); \<open>Netflow_Sound\<close> and \<open>Flow_Ingest_Sound\<close> hold what they
    guarantee over runs of datagrams and batches.
  \<^item> \<open>Fieldmap\<close> (\<open>fieldmap.py\<close>), \<open>Normalize\<close> (\<open>normalize.py\<close>: cursors and the adapters of flows, messages, snapshots and
    quarantine), \<open>Normalize_Sound\<close>.
  \<^item> \<open>Py_Ipaddress\<close> (networks and addresses of the Python library \<open>ipaddress\<close>), \<open>Blueprint_Model\<close> (\<open>blueprint_model.py\<close>), \<open>Blueprint_Plan\<close>
    (revisions, differences and restoring), \<open>Blueprint_Service\<close> (\<open>blueprint.py\<close> over its stores, \<open>location_manager.py\<close>),
    \<open>Blueprint_Checks\<close> (\<open>blueprint_checks.py\<close>); \<open>Blueprint_Sound\<close>, \<open>Blueprint_Restore\<close>, \<open>Blueprint_History\<close> and
    \<open>Blueprint_Checks_Sound\<close> hold what they guarantee.
  \<^item> \<open>Route_Table\<close> (\<open>route_table.py\<close>) and \<open>Route_Table_Sound\<close>: the routing tables of four systems, and that a printed IOS table
    is read back. \<open>Path_Trace\<close> (\<open>path_trace.py\<close>) and \<open>Path_Trace_Sound\<close>: candidates, hops, the path and its outcome.
  \<^item> \<open>Accounts\<close> (\<open>user_manager.py\<close>), \<open>One_Shot\<close> (\<open>password_reset.py\<close>, \<open>user_invite.py\<close>, \<open>email_verify.py\<close>, the states of \<open>sso.py\<close>
    and the codes of \<open>mcp_grants.py\<close>, five stores with one interface), \<open>Sessions\<close> (tokens of \<open>security_manager.py\<close>, grants of
    \<open>mcp_grants.py\<close>), \<open>Lockout\<close> and \<open>Audit_Chain\<close> (\<open>security_manager.py\<close>), \<open>Auth_Guards\<close> (\<open>deps.py\<close>), \<open>Auth_Api\<close> (\<open>auth.py\<close>,
    \<open>mcp.py\<close>, \<open>sso.py\<close>: one state of the server, one definition per handler, \<open>serve\<close> over all requests); \<open>Auth_Sound\<close>,
    \<open>Auth_Runs\<close>, \<open>Session_Sound\<close> and \<open>Audit_Chain_Sound\<close> hold what they guarantee over runs of requests and starts.

  What the lemmas show. Domains: the tests on cubes and port sets are exact, so containment of rules is sound for
  matching. Engine: PERMIT and DENY are given exactly where every device that realises the parsed rules agrees. Parsers:
  everything an accepted configuration yields is well formed, and what could not be read is marked undecidable. Findings:
  a rule reported dead decides no packet, from the configuration text to the report, for both vendors. Flows: decoded
  records carry the exporter of their datagram and its template, an export is decoded to what was exported, writes go to
  the tenant of the exporter, aggregates are sums. Correlation: every evidence row is explained by a finding that passed
  the filters, nothing that passes them is lost, incidents account for their evidence, no evidence stays unassigned,
  confidence keeps its bounds. Blueprint: drafts keep the model well formed and the other organizations untouched,
  revisions are aligned with the stores in every reachable state, restoring brings a revision back. Paths: the route used
  is the most specific one and the outcome is that of the forwarding relation. Security: a specification of the permitted
  changes of an account, refined by every handler, gives the quorum of super administrators and the bounds on what an
  administrator can give; what is signed out stays so; guesses are bounded; the last tag commits to the audit log. The
  theorems of kind error show where the code departs from its documentation.

  Conventions. Texts are lists of characters with codes below 256, and case and digit tests are those of Python on them.
  An uncaught exception is the left value of a result. A Python set that is only tested is a set; where the code takes its
  first element the choice is an argument. Every loop of the source is over a finite list or is given a measure (the queue
  of \<open>Worklist\<close>, the summarisation of an address range) or a bound of its own (the sixteen hops of a path, which are its
  fuel), so no definition needs more fuel. JSON columns hold values, floats are the rational numbers they denote; the digest
  of a deduplication key, the lookup of a client's position, the VLAN lookup, the clock and the texts that describe
  addresses and round numbers are arguments. So are digests, random texts, the signing of tokens, the mail server and the
  identity provider; the type of signed tokens is a parameter.

  Not modelled: the HTTP layer with its cookies and middleware, the web front end, keys and vaults, the AI assistants,
  collectors and drivers, the network security audit, the services other than those above, the syslog reader and the pollers, the baseline and the rollup; the titles and
  advice of the catalogue, metrics, logs, operator changes to incidents and the retention that deletes rows. They
  are sessions with devices, stores of files, regular expressions with tables of messages, or text for people.
\<close>

section \<open>Properties that span components\<close>

lemma rule_ok_wf: "rule_ok r \<Longrightarrow> rule_wf r"
  by (simp add: rule_ok_def rule_wf_def)

text \<open>
  C5: from the configuration text to the report: in the analysis of a configuration that
  \<open>parse_ios_config\<close> accepts, every rule reported as shadowed or unreachable stands in one of the
  parsed access lists after the rule that is named, and leaves every first-match walk unchanged
  when it is removed.
\<close>

theorem config_report_sound:
  assumes "parse_ios_config txt = Inr env"
    and "fd \<in> set (analyze_policy_findings pick pick_name (Ios env))"
    and "fd_key fd = ''shadowed'' \<or> fd_key fd = ''unreachable''"
  shows "\<exists>nm acl pre c r post. (nm, acl) \<in> set (ie_acls env) \<and> enabled_rules acl = pre @ r # post
    \<and> c \<in> set pre \<and> fd_rule_id fd = Some (r_id r) \<and> fd_expected fd = Some (r_id c)
    \<and> (\<forall>f. flow_ports_ok f \<longrightarrow> first_match (pre @ r # post) f = first_match (pre @ post) f)"
proof -
  have "fd \<notin> set (find_routing_defects (ie_routes env))"
    using assms(3) by (auto simp: find_routing_defects_def nowhere_finding_def)
  with assms(2) obtain nm acl where acl: "(nm, acl) \<in> set (ie_acls env)"
    and fd: "fd \<in> set (find_ruleset_defects pick pick_name acl)"
    by (auto simp: analyze_policy_findings_def)
  have "\<forall>r \<in> set (rs_rules acl). rule_wf r"
    using parse_ios_config_ok [OF assms(1)] acl rule_ok_wf
    by (fastforce simp: ios_env_ok_def acls_ok_def list_all_iff)
  from reported_defect_dead [OF fd assms(3) this] acl show ?thesis by blast
qed

definition defect_config :: string where
  "defect_config = str_join [CHR 0x0A]
     [''ip access-list extended EDGE'', '' permit tcp any any'', '' deny tcp any any eq 22'',
      ''ip route 10.0.0.0 255.0.0.0 192.0.2.1'']"

lemma defect_config_eval:
  "(case parse_ios_config defect_config of Inl _ \<Rightarrow> ([], [])
    | Inr env \<Rightarrow> (map fd_key (analyze_policy_findings (\<lambda>_. 6) (\<lambda>_. []) (Ios env)),
        map (\<lambda>r. (rt_source r, rt_next_hop r, rt_interface r)) (tb_routes (ie_routes env))))
   = ([''shadowed'', ''route_to_nowhere''], [(''static'', Some ''192.0.2.1'', [])])"
  by code_simp

lemma defect_config_parsed:
  obtains env where "parse_ios_config defect_config = Inr env"
    "map fd_key (analyze_policy_findings (\<lambda>_. 6) (\<lambda>_. []) (Ios env)) = [''shadowed'', ''route_to_nowhere'']"
    "map (\<lambda>r. (rt_source r, rt_next_hop r, rt_interface r)) (tb_routes (ie_routes env))
      = [(''static'', Some ''192.0.2.1'', [])]"
  using defect_config_eval by (cases "parse_ios_config defect_config") auto

theorem config_report_sound_witness:
  "\<exists>env nm acl pre c r post. parse_ios_config defect_config = Inr env \<and> (nm, acl) \<in> set (ie_acls env)
    \<and> enabled_rules acl = pre @ r # post
    \<and> first_match (pre @ r # post) sample_flow = first_match (pre @ post) sample_flow"
proof -
  obtain env where env: "parse_ios_config defect_config = Inr env"
    and k: "map fd_key (analyze_policy_findings (\<lambda>_. 6) (\<lambda>_. []) (Ios env)) = [''shadowed'', ''route_to_nowhere'']"
    by (rule defect_config_parsed)
  have "''shadowed'' \<in> set (map fd_key (analyze_policy_findings (\<lambda>_. 6) (\<lambda>_. []) (Ios env)))"
    unfolding k by simp
  then obtain fd where "fd \<in> set (analyze_policy_findings (\<lambda>_. 6) (\<lambda>_. []) (Ios env))"
    "fd_key fd = ''shadowed''" by auto
  with config_report_sound [OF env, of fd] env sample_flow_ports show ?thesis by metis
qed

text \<open>
  From the configuration text to the report: every static route of an accepted
  configuration whose next hop was not placed on an interface is reported as a route to nowhere,
  where the connected interfaces have names.
\<close>

theorem config_reports_lost_routes:
  assumes "parse_ios_config txt = Inr env"
    and "\<forall>c \<in> set (connected_subnets (ie_routes env)). rt_interface c \<noteq> []"
    and "r \<in> set (tb_routes (ie_routes env))" "rt_source r = ''static''" "rt_next_hop r = Some nh"
    and "rt_interface r = []"
  shows "nowhere_finding r \<in> set (analyze_policy_findings pick pick_name (Ios env))"
proof -
  have "static_resolved (connected_subnets (ie_routes env)) r"
    using parse_ios_config_ok [OF assms(1)] assms(3,4) by (auto simp: ios_env_ok_def list_all_iff)
  then obtain ip where ip: "is_ip nh" "ip_to_int nh = Inr ip"
    "case find (\<lambda>cr. contains_ip (rt_cube cr) ip) (connected_subnets (ie_routes env)) of
       Some cr \<Rightarrow> rt_interface r = rt_interface cr | None \<Rightarrow> rt_interface r = []"
    using assms(5) by (auto simp: static_resolved_def)
  then have "find (\<lambda>cr. contains_ip (rt_cube cr) ip) (connected_subnets (ie_routes env)) = None"
    using assms(2,6) by (auto dest: find_SomeD split: option.splits)
  then have "route_to_nowhere (ie_routes env) r"
    using assms(4-6) ip is_ip_nonempty
    by (auto simp: route_to_nowhere_iff find_None_iff connected_subnets_def)
  with assms(3) show ?thesis
    by (simp add: analyze_policy_findings_def find_routing_defects_set)
qed

theorem config_reports_lost_routes_witness:
  "\<exists>env r. parse_ios_config defect_config = Inr env \<and> r \<in> set (tb_routes (ie_routes env))
     \<and> nowhere_finding r \<in> set (analyze_policy_findings (\<lambda>_. 6) (\<lambda>_. []) (Ios env))"
proof -
  obtain env where env: "parse_ios_config defect_config = Inr env"
    and m: "map (\<lambda>r. (rt_source r, rt_next_hop r, rt_interface r)) (tb_routes (ie_routes env))
      = [(''static'', Some ''192.0.2.1'', [])]"
    by (rule defect_config_parsed)
  from m obtain r where r: "tb_routes (ie_routes env) = [r]" "rt_source r = ''static''"
    "rt_next_hop r = Some ''192.0.2.1''" "rt_interface r = []" by auto
  have "\<forall>c \<in> set (connected_subnets (ie_routes env)). rt_interface c \<noteq> []"
    using r by (simp add: connected_subnets_def)
  moreover have "r \<in> set (tb_routes (ie_routes env))" using r by simp
  ultimately show ?thesis
    using config_reports_lost_routes [OF env, of r] r env by metis
qed

section \<open>The FortiOS pipeline\<close>

lemma parsed_policy_wf:
  assumes "parse_fortios_config txt = Inr env" shows "\<forall>p \<in> set (fe_policies env). rule_wf p"
proof
  fix p assume "p \<in> set (fe_policies env)"
  from parse_fortios_policy [OF assms this] show "rule_wf p"
    using policy_rule_fields by (auto simp: rule_wf_def)
qed

text \<open>
  From the configuration text to the report: in the analysis of a FortiOS configuration that
  \<open>parse_fortios_config\<close> accepts, every policy reported as shadowed or unreachable stands after the
  policy that is named, and leaves every first-match walk unchanged when it is removed.
\<close>

theorem forti_report_sound:
  assumes "parse_fortios_config txt = Inr env"
    and "fd \<in> set (analyze_policy_findings pick pick_name (Forti env))"
    and "fd_key fd = ''shadowed'' \<or> fd_key fd = ''unreachable''"
  shows "\<exists>pre c r post. enabled_policies (fe_policies env) = pre @ r # post \<and> c \<in> set pre
    \<and> fd_rule_id fd = Some (r_id r) \<and> fd_expected fd = Some (r_id c)
    \<and> (\<forall>f. flow_ports_ok f \<longrightarrow> first_match (pre @ r # post) f = first_match (pre @ post) f)"
proof -
  let ?rs = "\<lparr>rs_name = ''firewall_policy'', rs_kind = ''firewall_policy'', rs_rules = fe_policies env,
      rs_default_action = ''deny'', rs_unresolved = []\<rparr>"
  have "fd \<notin> set (find_routing_defects (fe_routes env))"
    using assms(3) by (auto simp: find_routing_defects_def nowhere_finding_def)
  with assms(2) have fd: "fd \<in> set (find_ruleset_defects pick pick_name ?rs)"
    by (auto simp: analyze_policy_findings_def)
  have "\<forall>r \<in> set (rs_rules ?rs). rule_wf r"
    using parsed_policy_wf [OF assms(1)] by simp
  from reported_defect_dead [OF fd assms(3) this] show ?thesis
    by (simp add: enabled_rules_def enabled_policies_def)
qed

text \<open>A configuration with two connected subnets and the given policies.\<close>

definition forti_config :: "(string \<times> string) list \<Rightarrow> string" where
  "forti_config policies = str_join [CHR 0x0A]
     ([''config system interface'', ''edit lan'', ''set ip 10.0.0.1 255.255.255.0'', ''next'',
       ''edit wan'', ''set ip 192.0.2.1 255.255.255.0'', ''next'', ''end'', ''config firewall policy'']
      @ concat (map (\<lambda>(pid, svcs). [''edit '' @ pid, ''set srcaddr all'', ''set dstaddr all'',
          ''set service '' @ svcs, ''set action accept'', ''next'']) policies) @ [''end''])"


lemma forti_shadow_eval:
  "map_sum id (\<lambda>env. map fd_key (analyze_policy_findings (\<lambda>_. 6) (\<lambda>_. []) (Forti env)))
     (parse_fortios_config (forti_config [(''1'', ''HTTP HTTPS''), (''2'', ''HTTPS'')])) = Inr [''shadowed'']"
  by code_simp

theorem forti_report_sound_witness:
  "\<exists>env pre c r post. parse_fortios_config (forti_config [(''1'', ''HTTP HTTPS''), (''2'', ''HTTPS'')]) = Inr env
    \<and> enabled_policies (fe_policies env) = pre @ r # post
    \<and> first_match (pre @ r # post) sample_flow = first_match (pre @ post) sample_flow"
proof -
  obtain env where env: "parse_fortios_config (forti_config [(''1'', ''HTTP HTTPS''), (''2'', ''HTTPS'')]) = Inr env"
    and k: "map fd_key (analyze_policy_findings (\<lambda>_. 6) (\<lambda>_. []) (Forti env)) = [''shadowed'']"
    using forti_shadow_eval
    by (cases "parse_fortios_config (forti_config [(''1'', ''HTTP HTTPS''), (''2'', ''HTTPS'')])") auto
  from k obtain fd where "fd \<in> set (analyze_policy_findings (\<lambda>_. 6) (\<lambda>_. []) (Forti env))"
    "fd_key fd = ''shadowed''" by auto
  with forti_report_sound [OF env, of fd] env sample_flow_ports show ?thesis by metis
qed


end
